(* ===== verification/Prelude.thy ===== *)
theory Prelude
  imports Main
begin

text \<open>
  Shared vocabulary of the development: results of fallible code, the Python string operations
  the sources use, decimal numbers as text, and the generic lemmas on lists that the component
  theories rely on.

  A Python \<open>str\<close> is modelled by \<^typ>\<open>string\<close>, one \<^typ>\<open>char\<close> per code point, so the model
  covers the code points 0 to 255; the character classes below are those of CPython on that
  range.  Fallible code returns a sum: \<^term>\<open>Inl e\<close> is a raised exception,
  \<^term>\<open>Inr x\<close> a returned value.
\<close>

section \<open>Collections of facts\<close>

named_theorems pystr \<open>facts on Python string operations\<close>
named_theorems result_simps \<open>facts on results of fallible code\<close>

section \<open>Results\<close>

type_synonym ('e, 'a) result = "'e + 'a"

definition rbind :: "('e, 'a) result \<Rightarrow> ('a \<Rightarrow> ('e, 'b) result) \<Rightarrow> ('e, 'b) result" where
  "rbind r f = (case r of Inl e \<Rightarrow> Inl e | Inr x \<Rightarrow> f x)"

lemma rbind_simps [simp]:
  "rbind (Inl e) f = Inl e"
  "rbind (Inr x) f = f x"
  by (simp_all add: rbind_def)

lemma rbind_eq_Inl [result_simps]:
  "rbind r f = Inl e \<longleftrightarrow> r = Inl e \<or> (\<exists>x. r = Inr x \<and> f x = Inl e)"
  by (cases r) auto

lemma rbind_eq_Inr [result_simps]: "rbind r f = Inr y \<longleftrightarrow> (\<exists>x. r = Inr x \<and> f x = Inr y)"
  by (cases r) auto

fun ok_option :: "('e, 'a) result \<Rightarrow> 'a option" where
  "ok_option (Inl _) = None"
| "ok_option (Inr x) = Some x"

lemma ok_option_eq_Some [result_simps]: "ok_option r = Some x \<longleftrightarrow> r = Inr x"
  by (cases r) auto

section \<open>Lists\<close>

text \<open>Order-preserving removal of duplicates, first occurrence kept (a loop over a \<open>seen\<close> set).\<close>

fun dedup_from :: "'a list \<Rightarrow> 'a list \<Rightarrow> 'a list" where
  "dedup_from seen [] = []"
| "dedup_from seen (x # xs) =
     (if x \<in> set seen then dedup_from seen xs else x # dedup_from (x # seen) xs)"

lemma set_dedup_from: "set (dedup_from seen xs) = set xs - set seen"
  by (induction xs arbitrary: seen) auto

lemma distinct_dedup_from: "distinct (dedup_from seen xs)"
  by (induction xs arbitrary: seen) (auto simp: set_dedup_from)

text \<open>Association lists as Python dicts in insertion order: overwriting keeps the position.\<close>

fun assoc_set :: "'k \<Rightarrow> 'v \<Rightarrow> ('k \<times> 'v) list \<Rightarrow> ('k \<times> 'v) list" where
  "assoc_set k v [] = [(k, v)]"
| "assoc_set k v ((k', v') # kvs) =
     (if k' = k then (k', v) # kvs else (k', v') # assoc_set k v kvs)"

lemma map_of_assoc_set: "map_of (assoc_set k v kvs) = (map_of kvs)(k \<mapsto> v)"
  by (induction kvs) (auto simp: fun_eq_iff)

lemma keys_assoc_set: "set (map fst (assoc_set k v kvs)) = insert k (set (map fst kvs))"
  by (induction k v kvs rule: assoc_set.induct) auto

lemma assoc_set_new: "k \<notin> fst ` set kvs \<Longrightarrow> assoc_set k v kvs = kvs @ [(k, v)]"
  by (induction kvs) auto

lemma distinct_assoc_set: "distinct (map fst kvs) \<Longrightarrow> distinct (map fst (assoc_set k v kvs))"
proof (induction kvs)
  case Nil
  then show ?case by simp
next
  case (Cons p kvs)
  obtain k' v' where p: "p = (k', v')" by (cases p)
  have keys: "set (map fst (assoc_set k v kvs)) = insert k (set (map fst kvs))"
    by (rule keys_assoc_set)
  show ?case
    using Cons keys p by auto
qed

section \<open>Division\<close>

lemma mult_add_div: "d < m \<Longrightarrow> (x * m + d) div m = (x::nat)"
  by simp

lemma mult_add_mod: "d < m \<Longrightarrow> (x * m + d) mod m = (d::nat)"
  by simp

section \<open>Characters\<close>

definition code :: "char \<Rightarrow> nat" where
  "code c = of_char c"

definition is_ascii :: "char \<Rightarrow> bool" where
  "is_ascii c \<longleftrightarrow> code c < 128"

text \<open>The ASCII digits: \<open>\d\<close> of a regular expression, and what \<open>int()\<close> reads, below code 256.\<close>

definition is_dec :: "char \<Rightarrow> bool" where
  "is_dec c \<longleftrightarrow> 48 \<le> code c \<and> code c \<le> 57"

text \<open>\<open>str.isdigit\<close> is also true for the superscripts one, two and three.\<close>

definition py_isdigit_char :: "char \<Rightarrow> bool" where
  "py_isdigit_char c \<longleftrightarrow> is_dec c \<or> code c \<in> {178, 179, 185}"

definition py_isdigit :: "string \<Rightarrow> bool" where
  "py_isdigit s \<longleftrightarrow> s \<noteq> [] \<and> list_all py_isdigit_char s"

definition py_isascii :: "string \<Rightarrow> bool" where
  "py_isascii s \<longleftrightarrow> list_all is_ascii s"

definition is_space :: "char \<Rightarrow> bool" where
  "is_space c \<longleftrightarrow> code c \<in> {9, 10, 11, 12, 13, 28, 29, 30, 31, 32, 133, 160}"

definition py_strip :: "string \<Rightarrow> string" where
  "py_strip s = rev (dropWhile is_space (rev (dropWhile is_space s)))"

definition lower_char :: "char \<Rightarrow> char" where
  "lower_char c =
     (if (65 \<le> code c \<and> code c \<le> 90) \<or> (192 \<le> code c \<and> code c \<le> 222 \<and> code c \<noteq> 215)
      then char_of (code c + 32) else c)"

definition py_lower :: "string \<Rightarrow> string" where
  "py_lower s = map lower_char s"

lemma py_strip_no_space [pystr]:
  assumes "\<forall>c \<in> set s. \<not> is_space c"
  shows "py_strip s = s"
proof -
  have keep: "dropWhile is_space t = t" if "\<forall>c \<in> set t. \<not> is_space c" for t :: string
    using that by (cases t) auto
  show ?thesis
    using assms by (simp add: py_strip_def keep)
qed

section \<open>Splitting\<close>

text \<open>\<open>s.split(sep)\<close> for a separator of one character: never empty, pieces may be.\<close>

fun py_split :: "char \<Rightarrow> string \<Rightarrow> string list" where
  "py_split sep [] = [[]]"
| "py_split sep (c # cs) =
     (case py_split sep cs of
        [] \<Rightarrow> [[c]]
      | p # ps \<Rightarrow> if c = sep then [] # p # ps else (c # p) # ps)"

lemma py_split_not_Nil [simp]: "py_split sep s \<noteq> []"
  by (cases s) (auto split: list.splits)

lemma py_split_no_sep [pystr]: "sep \<notin> set s \<Longrightarrow> py_split sep s = [s]"
  by (induction s) auto

lemma py_split_append [pystr]:
  "sep \<notin> set a \<Longrightarrow> py_split sep (a @ sep # b) = a # py_split sep b"
proof (induction a)
  case Nil
  then show ?case by (auto split: list.splits)
next
  case (Cons c a)
  then show ?case by auto
qed

section \<open>Decimal numbers\<close>

definition digit_char :: "nat \<Rightarrow> char" where
  "digit_char d = char_of (48 + d)"

definition digit_val :: "char \<Rightarrow> nat" where
  "digit_val c = code c - 48"

text \<open>\<open>int(s)\<close> on a text of ASCII digits.\<close>

definition dec_val :: "string \<Rightarrow> nat" where
  "dec_val s = foldl (\<lambda>n c. 10 * n + digit_val c) 0 s"

text \<open>\<open>str(n)\<close>, also what an f-string prints for an integer.\<close>

fun show_nat :: "nat \<Rightarrow> string" where
  "show_nat n = (if n < 10 then [digit_char n] else show_nat (n div 10) @ [digit_char (n mod 10)])"

declare show_nat.simps [simp del]

definition show_int :: "int \<Rightarrow> string" where
  "show_int i = (if i < 0 then ''-'' @ show_nat (nat (- i)) else show_nat (nat i))"

lemma code_digit_char [simp]: "d < 10 \<Longrightarrow> code (digit_char d) = 48 + d"
  by (simp add: code_def digit_char_def)

lemma digit_val_digit_char [simp]: "d < 10 \<Longrightarrow> digit_val (digit_char d) = d"
  by (simp add: digit_val_def)

lemma is_dec_digit_char [simp]: "d < 10 \<Longrightarrow> is_dec (digit_char d)"
  by (simp add: is_dec_def)

lemma code_inject [simp]: "code c = code c' \<longleftrightarrow> c = c'"
  by (simp add: code_def)

lemma is_decD [pystr]:
  assumes "is_dec c"
  shows "py_isdigit_char c" "is_ascii c" "\<not> is_space c"
  using assms by (auto simp: is_dec_def py_isdigit_char_def is_ascii_def is_space_def)

lemma ascii_digit_is_dec [pystr]: "py_isdigit_char c \<Longrightarrow> is_ascii c \<Longrightarrow> is_dec c"
  by (auto simp: py_isdigit_char_def is_ascii_def)

lemma show_nat_digits: "c \<in> set (show_nat n) \<Longrightarrow> is_dec c"
proof (induction n rule: show_nat.induct)
  case (1 n)
  show ?case
  proof (cases "n < 10")
    case True
    with "1.prems" show ?thesis by (simp add: show_nat.simps [of n])
  next
    case False
    with "1.prems" have "c \<in> set (show_nat (n div 10)) \<or> c = digit_char (n mod 10)"
      by (auto simp: show_nat.simps [of n])
    with "1.IH" False show ?thesis by auto
  qed
qed

lemma show_nat_not_Nil [simp]: "show_nat n \<noteq> []"
  by (subst show_nat.simps) simp

lemma dec_val_snoc: "dec_val (s @ [c]) = 10 * dec_val s + digit_val c"
  by (simp add: dec_val_def)

lemma dec_val_show_nat [simp]: "dec_val (show_nat n) = n"
proof (induction n rule: show_nat.induct)
  case (1 n)
  show ?case
  proof (cases "n < 10")
    case True
    then show ?thesis by (simp add: show_nat.simps [of n] dec_val_def)
  next
    case False
    with 1 show ?thesis by (simp add: show_nat.simps [of n] dec_val_snoc)
  qed
qed

lemma show_nat_inject [simp]: "show_nat m = show_nat n \<longleftrightarrow> m = n"
  by (metis dec_val_show_nat)

lemma show_nat_isdigit [pystr]: "py_isdigit (show_nat n)"
  by (auto simp: py_isdigit_def list_all_iff dest: show_nat_digits is_decD(1))

lemma show_nat_isascii [pystr]: "py_isascii (show_nat n)"
  by (auto simp: py_isascii_def list_all_iff dest: show_nat_digits is_decD(2))

lemma show_nat_no_char: "\<not> is_dec c \<Longrightarrow> c \<notin> set (show_nat n)"
  using show_nat_digits by blast

lemma digit_char_eval:
  "digit_char 0 = CHR ''0''" "digit_char 1 = CHR ''1''" "digit_char (Suc 0) = CHR ''1''"
  "digit_char 2 = CHR ''2''" "digit_char 3 = CHR ''3''" "digit_char 4 = CHR ''4''"
  "digit_char 5 = CHR ''5''" "digit_char 6 = CHR ''6''" "digit_char 7 = CHR ''7''"
  "digit_char 8 = CHR ''8''" "digit_char 9 = CHR ''9''"
  by (simp_all add: digit_char_def char_of_def bit_Suc_0_iff)

text \<open>The definitions that evaluate the text operations on a concrete text.\<close>

lemmas text_eval = py_strip_def is_space_def code_def py_isdigit_def py_isdigit_char_def is_dec_def
  py_isascii_def is_ascii_def dec_val_def digit_val_def digit_char_eval show_nat.simps

end
