(* ===== verification/Py_Float.thy ===== *)
theory Py_Float
  imports Prelude Complex_Main
begin

text \<open>
  Python's \<open>float\<close>: IEEE 754 binary64.  A finite float is the rational number it denotes, so
  comparisons are exact, and every operation is the exact rational operation followed by
  \<^term>\<open>rnd64\<close>, rounding to the nearest representable number, ties to even.  The two signed
  zeros are one value here (no modelled code tells them apart).
\<close>

section \<open>Rounding to binary64\<close>

datatype pyfloat = Fin rat | PosInf | NegInf | NaN

definition pow2 :: "int \<Rightarrow> rat" where
  "pow2 e = (if 0 \<le> e then 2 ^ nat e else 1 / 2 ^ nat (- e))"

fun bit_len :: "nat \<Rightarrow> nat" where
  "bit_len n = (if n = 0 then 0 else Suc (bit_len (n div 2)))"

declare bit_len.simps [simp del]

text \<open>The exponent \<open>e\<close> with \<open>2 ^ e \<le> q < 2 ^ (e + 1)\<close>, for a positive \<open>q\<close>.\<close>

definition ilog2 :: "rat \<Rightarrow> int" where
  "ilog2 q =
     (let (n, d) = quotient_of q;
          e = int (bit_len (nat n)) - int (bit_len (nat d))
      in if pow2 e \<le> q then e else e - 1)"

definition round_half_even :: "rat \<Rightarrow> int" where
  "round_half_even q =
     (let f = \<lfloor>q\<rfloor>; r = q - of_int f
      in if r < 1 / 2 then f else if 1 / 2 < r then f + 1 else if even f then f else f + 1)"

definition ulp_exp :: "rat \<Rightarrow> int" where
  "ulp_exp q = max (ilog2 \<bar>q\<bar> - 52) (- 1074)"

definition rnd64 :: "rat \<Rightarrow> pyfloat" where
  "rnd64 q =
     (if q = 0 then Fin 0
      else let e = ulp_exp q; v = of_int (round_half_even (q / pow2 e)) * pow2 e
           in if 2 ^ 1024 \<le> \<bar>v\<bar> then (if 0 < q then PosInf else NegInf) else Fin v)"

subsection \<open>Powers of two and the binary exponent\<close>

lemma pow2_pos [simp]: "0 < pow2 e"
  by (simp add: pow2_def)

lemma abs_pow2 [simp]: "\<bar>pow2 e\<bar> = pow2 e"
  by (rule abs_of_pos) (rule pow2_pos)

lemma pow2_nonzero [simp]: "pow2 e \<noteq> 0"
  using pow2_pos [of e] by linarith

lemma pow2_powi: "pow2 e = 2 powi e"
  by (simp add: pow2_def power_int_def field_simps power_inverse)

lemma pow2_add: "pow2 (a + b) = pow2 a * pow2 b"
  by (simp add: pow2_powi power_int_add)

lemma pow2_nat: "pow2 (int n) = 2 ^ n"
  by (simp add: pow2_def)

lemma pow2_diff: "pow2 (a - b) = pow2 a / pow2 b"
  by (simp add: pow2_powi power_int_diff)

lemma pow2_mono: "a \<le> b \<Longrightarrow> pow2 a \<le> pow2 b"
  by (simp add: pow2_powi power_int_increasing)

lemma pow2_strict_mono: "a < b \<Longrightarrow> pow2 a < pow2 b"
  by (simp add: pow2_powi power_int_strict_increasing)

lemma bit_len_bounds: "0 < n \<Longrightarrow> 2 ^ (bit_len n - 1) \<le> n \<and> n < 2 ^ bit_len n"
proof (induction n rule: bit_len.induct)
  case (1 n)
  show ?case
  proof (cases "n < 2")
    case True
    with "1.prems" have "n = 1" by simp
    then show ?thesis by (simp add: bit_len.simps [of "Suc 0"] bit_len.simps [of 0])
  next
    case False
    then have half: "0 < n div 2" by simp
    have IH: "2 ^ (bit_len (n div 2) - 1) \<le> n div 2" "n div 2 < 2 ^ bit_len (n div 2)"
      using "1.IH" "1.prems" half by auto
    have len: "bit_len n = Suc (bit_len (n div 2))"
      using "1.prems" by (simp add: bit_len.simps [of n])
    have pos: "0 < bit_len (n div 2)"
      using half by (subst bit_len.simps) simp
    have "2 ^ bit_len (n div 2) = 2 * (2::nat) ^ (bit_len (n div 2) - 1)"
      using pos by (metis Suc_diff_1 power_Suc)
    with IH len show ?thesis by simp linarith
  qed
qed

lemma bit_len_pos: "0 < n \<Longrightarrow> 0 < bit_len n"
  by (subst bit_len.simps) simp

lemma bit_len_rat:
  assumes "0 < n"
  shows "pow2 (int (bit_len n) - 1) \<le> of_nat n" "of_nat n < pow2 (int (bit_len n))"
proof -
  have b: "2 ^ (bit_len n - 1) \<le> n" "n < 2 ^ bit_len n"
    using bit_len_bounds [OF assms] by auto
  have "int (bit_len n) - 1 = int (bit_len n - 1)"
    using bit_len_pos [OF assms] by simp
  then have "pow2 (int (bit_len n) - 1) = of_nat (2 ^ (bit_len n - 1))"
    by (simp only: pow2_nat) simp
  also have "\<dots> \<le> of_nat n" using b(1) by (simp only: of_nat_le_iff)
  finally show "pow2 (int (bit_len n) - 1) \<le> of_nat n" .
  have "(of_nat n :: rat) < of_nat (2 ^ bit_len n)" using b(2) by (simp only: of_nat_less_iff)
  then show "of_nat n < pow2 (int (bit_len n))" by (simp add: pow2_nat)
qed

lemma ilog2_bounds:
  assumes "0 < q"
  shows "pow2 (ilog2 q) \<le> q" "q < pow2 (ilog2 q + 1)"
proof -
  obtain n d where nd: "quotient_of q = (n, d)" by (cases "quotient_of q")
  have d: "0 < d" using nd by (rule quotient_of_denom_pos)
  have q: "q = of_int n / of_int d" using nd by (rule quotient_of_div)
  with assms d have n: "0 < n" by (simp add: zero_less_divide_iff)
  define a where "a = int (bit_len (nat n))"
  define b where "b = int (bit_len (nat d))"
  have nb: "pow2 (a - 1) \<le> of_int n" "of_int n < pow2 a"
    using bit_len_rat [of "nat n"] n by (simp_all add: a_def)
  have db: "pow2 (b - 1) \<le> of_int d" "of_int d < pow2 b"
    using bit_len_rat [of "nat d"] d by (simp_all add: b_def)
  have dpos: "(0::rat) < of_int d" using d by simp
  have up: "q < pow2 (a - b + 1)"
  proof -
    have "q \<le> of_int n / pow2 (b - 1)"
      unfolding q using n db(1) dpos by (simp add: frac_le)
    also have "\<dots> < pow2 a / pow2 (b - 1)"
      using nb(2) by (simp add: divide_strict_right_mono)
    also have "\<dots> = pow2 (a - (b - 1))" by (simp add: pow2_diff)
    also have "a - (b - 1) = a - b + 1" by simp
    finally show ?thesis .
  qed
  have lo: "pow2 (a - b - 1) \<le> q"
  proof -
    have "pow2 (a - b - 1) = pow2 ((a - 1) - b)" by (simp add: algebra_simps)
    also have "\<dots> = pow2 (a - 1) / pow2 b" by (rule pow2_diff)
    also have "\<dots> \<le> of_int n / of_int d"
      using nb(1) db(2) dpos n by (intro frac_le) auto
    finally show ?thesis by (simp add: q)
  qed
  have e: "ilog2 q = (if pow2 (a - b) \<le> q then a - b else a - b - 1)"
    by (simp add: ilog2_def nd a_def b_def)
  show "pow2 (ilog2 q) \<le> q" using e lo by auto
  show "q < pow2 (ilog2 q + 1)" using e up by auto
qed

subsection \<open>Rounding to an integer\<close>

lemma round_half_even_error: "\<bar>of_int (round_half_even q) - q\<bar> \<le> 1 / 2"
proof -
  have "of_int \<lfloor>q\<rfloor> \<le> q" "q < of_int \<lfloor>q\<rfloor> + 1"
    by linarith+
  then show ?thesis
    by (auto simp: round_half_even_def Let_def abs_le_iff split: if_splits)
qed

lemma round_half_even_of_int [simp]: "round_half_even (of_int n) = n"
  by (simp add: round_half_even_def)

text \<open>An argument closer than one half to an integer rounds to it.\<close>

lemma round_half_even_near:
  assumes "\<bar>q - of_int n\<bar> < 1 / 2"
  shows "round_half_even q = n"
proof -
  have "\<bar>of_int (round_half_even q) - (of_int n :: rat)\<bar>
      \<le> \<bar>of_int (round_half_even q) - q\<bar> + \<bar>q - of_int n\<bar>" by linarith
  also have "\<dots> < 1" using round_half_even_error [of q] assms by linarith
  finally have "\<bar>round_half_even q - n\<bar> < 1" by linarith
  then show ?thesis by simp
qed

lemma round_half_even_mono:
  assumes "p \<le> q"
  shows "round_half_even p \<le> round_half_even q"
proof (rule ccontr)
  assume "\<not> ?thesis"
  then have less: "round_half_even q + 1 \<le> round_half_even p" by simp
  have "of_int (round_half_even p) \<le> p + 1 / 2" "q - 1 / 2 \<le> of_int (round_half_even q)"
    using round_half_even_error [of p] round_half_even_error [of q] by linarith+
  moreover have "(of_int (round_half_even q) :: rat) + 1 \<le> of_int (round_half_even p)"
    using less by (metis of_int_1 of_int_add of_int_le_iff)
  ultimately have "p = q" using assms by linarith
  with less show False by simp
qed

subsection \<open>Accuracy of \<open>rnd64\<close>\<close>

lemma rnd64_0 [simp]: "rnd64 0 = Fin 0"
  by (simp add: rnd64_def)

lemma rnd64_error:
  assumes "rnd64 q = Fin v"
  shows "\<bar>v - q\<bar> \<le> pow2 (ulp_exp q) / 2"
proof (cases "q = 0")
  case True
  with assms show ?thesis by (simp add: less_imp_le)
next
  case False
  let ?e = "ulp_exp q" and ?m = "round_half_even (q / pow2 (ulp_exp q))"
  have v: "v = of_int ?m * pow2 ?e"
    using assms False by (auto simp: rnd64_def Let_def split: if_splits)
  have "v - q = (of_int ?m - q / pow2 ?e) * pow2 ?e"
    by (simp add: v field_simps)
  then have "\<bar>v - q\<bar> = \<bar>of_int ?m - q / pow2 ?e\<bar> * pow2 ?e"
    by (simp add: abs_mult)
  also have "\<dots> \<le> 1 / 2 * pow2 ?e"
    by (intro mult_right_mono round_half_even_error) (simp add: less_imp_le)
  finally show ?thesis by simp
qed

lemma ilog2_less:
  assumes "0 < q" "q < pow2 k"
  shows "ilog2 q < k"
proof (rule ccontr)
  assume "\<not> ?thesis"
  then have "pow2 k \<le> pow2 (ilog2 q)" by (intro pow2_mono) simp
  with ilog2_bounds(1) [OF assms(1)] assms(2) show False by linarith
qed

lemma ulp_exp_le:
  assumes "q \<noteq> 0" "\<bar>q\<bar> < pow2 k" "- 1021 \<le> k"
  shows "ulp_exp q \<le> k - 53"
  using ilog2_less [of "\<bar>q\<bar>" k] assms by (simp add: ulp_exp_def)

lemma rnd64_no_overflow:
  assumes "\<bar>q\<bar> < 2 ^ 1023"
  shows "\<exists>v. rnd64 q = Fin v"
proof (cases "q = 0")
  case True
  then show ?thesis by simp
next
  case False
  let ?e = "ulp_exp q" and ?m = "round_half_even (q / pow2 (ulp_exp q))"
  have q: "\<bar>q\<bar> < pow2 1023" using assms pow2_nat [of 1023] by simp
  have e: "?e \<le> 970" using ulp_exp_le [OF False q] by simp
  have "\<bar>of_int ?m * pow2 ?e - q\<bar> = \<bar>of_int ?m - q / pow2 ?e\<bar> * pow2 ?e"
  proof -
    have "of_int ?m * pow2 ?e - q = (of_int ?m - q / pow2 ?e) * pow2 ?e"
      by (simp add: field_simps)
    then show ?thesis by (simp add: abs_mult)
  qed
  also have "\<dots> \<le> 1 / 2 * pow2 ?e"
    by (intro mult_right_mono round_half_even_error) (simp add: less_imp_le)
  also have "\<dots> \<le> pow2 970" using pow2_mono [OF e] pow2_pos [of 970] by linarith
  also have "\<dots> \<le> pow2 1023" by (rule pow2_mono) simp
  finally have "\<bar>of_int ?m * pow2 ?e\<bar> < pow2 1023 + pow2 1023" using q by linarith
  also have "\<dots> = 2 ^ 1024"
    using pow2_nat [of 1023] by simp
  finally show ?thesis using False by (auto simp: rnd64_def Let_def)
qed

text \<open>Below \<open>2 ^ k\<close> the error is at most \<open>2 ^ (k - 54)\<close>.\<close>

lemma rnd64_bounded_error:
  assumes "\<bar>q\<bar> < 2 ^ k" "k \<le> 1023"
  obtains v where "rnd64 q = Fin v" "\<bar>v - q\<bar> \<le> pow2 (int k - 54)"
proof -
  have "(2::rat) ^ k \<le> 2 ^ 1023" using assms(2) by (intro power_increasing) auto
  with assms(1) have "\<bar>q\<bar> < 2 ^ 1023" by linarith
  then obtain v where v: "rnd64 q = Fin v" using rnd64_no_overflow by blast
  have "\<bar>v - q\<bar> \<le> pow2 (int k - 54)"
  proof (cases "q = 0")
    case True
    with v show ?thesis by (simp add: less_imp_le)
  next
    case False
    have "ulp_exp q \<le> int k - 53"
      using assms by (intro ulp_exp_le False) (simp_all add: pow2_nat)
    then have "pow2 (ulp_exp q) \<le> pow2 (int k - 54 + 1)" by (intro pow2_mono) simp
    also have "\<dots> = pow2 (int k - 54) * 2" by (simp only: pow2_add) (simp add: pow2_def)
    finally show ?thesis using rnd64_error [OF v] by linarith
  qed
  with v that show ?thesis by blast
qed

lemma rnd64_int:
  assumes "\<bar>n\<bar> < 2 ^ 53"
  shows "rnd64 (of_int n) = Fin (of_int n)"
proof (cases "n = 0")
  case True
  then show ?thesis by simp
next
  case False
  let ?q = "of_int n :: rat"
  have q: "\<bar>?q\<bar> < 2 ^ 53"
    using assms by (metis of_int_abs of_int_less_iff of_int_numeral of_int_power)
  then have "ulp_exp ?q \<le> 0"
    using ulp_exp_le [of ?q 53] False pow2_nat [of 53] by simp
  then obtain j where j: "ulp_exp ?q = - int j"
    by (metis minus_minus neg_0_le_iff_le nonneg_int_cases)
  have "?q / pow2 (ulp_exp ?q) = of_int (n * 2 ^ j)"
    using pow2_nat [of j] by (cases "j = 0") (simp_all add: j pow2_def)
  then have m: "round_half_even (?q / pow2 (ulp_exp ?q)) = n * 2 ^ j"
    by (simp only: round_half_even_of_int)
  have rest: "of_int (n * 2 ^ j) * pow2 (ulp_exp ?q) = ?q"
    by (cases "j = 0") (simp_all add: j pow2_def)
  have "(2::rat) ^ 53 \<le> 2 ^ 1024" by (intro power_increasing) auto
  with q have "\<not> 2 ^ 1024 \<le> \<bar>?q\<bar>" by linarith
  then show ?thesis
    using False by (simp only: rnd64_def Let_def m rest) simp
qed

text \<open>Evaluation at a concrete number: the exponent is given by its defining inequalities.\<close>

lemma ilog2_unique:
  assumes "pow2 e \<le> q" "q < pow2 (e + 1)"
  shows "ilog2 q = e"
proof -
  have q: "0 < q" using assms(1) pow2_pos [of e] by linarith
  have "ilog2 q < e + 1" using q assms(2) by (rule ilog2_less)
  moreover have "e < ilog2 q + 1"
  proof (rule ccontr)
    assume "\<not> ?thesis"
    then have "pow2 (ilog2 q + 1) \<le> pow2 e" by (intro pow2_mono) simp
    with ilog2_bounds(2) [OF q] assms(1) show False by linarith
  qed
  ultimately show ?thesis by simp
qed

lemma rnd64_eqI:
  assumes "pow2 (e + 52) \<le> \<bar>q\<bar>" "\<bar>q\<bar> < pow2 (e + 53)" "- 1074 \<le> e"
    and "round_half_even (q / pow2 e) = m" "\<bar>of_int m * pow2 e\<bar> < 2 ^ 1024"
  shows "rnd64 q = Fin (of_int m * pow2 e)"
proof -
  have "q \<noteq> 0" using assms(1) pow2_pos [of "e + 52"] by (metis abs_zero linorder_not_less)
  moreover have "ilog2 \<bar>q\<bar> = e + 52"
    by (rule ilog2_unique) (use assms(1,2) in \<open>simp_all add: add.assoc\<close>)
  then have "ulp_exp q = e" using assms(3) by (simp add: ulp_exp_def)
  ultimately show ?thesis using assms(4,5) by (simp add: rnd64_def Let_def del: abs_mult)
qed

section \<open>Arithmetic and comparison\<close>

text \<open>The exceptions the modelled code raises or catches.\<close>

datatype pyerr =
    ValueError | TypeError | OverflowError | ZeroDivisionError | KeyError | IndexError
  | AttributeError | StructError | RuntimeError

definition signed_inf :: "bool \<Rightarrow> pyfloat" where
  "signed_inf negative = (if negative then NegInf else PosInf)"

fun fneg :: "pyfloat \<Rightarrow> pyfloat" where
  "fneg (Fin a) = Fin (- a)"
| "fneg PosInf = NegInf"
| "fneg NegInf = PosInf"
| "fneg NaN = NaN"

fun fabs :: "pyfloat \<Rightarrow> pyfloat" where
  "fabs (Fin a) = Fin \<bar>a\<bar>"
| "fabs NaN = NaN"
| "fabs _ = PosInf"

fun fadd :: "pyfloat \<Rightarrow> pyfloat \<Rightarrow> pyfloat" where
  "fadd (Fin a) (Fin b) = rnd64 (a + b)"
| "fadd NaN _ = NaN"
| "fadd _ NaN = NaN"
| "fadd PosInf NegInf = NaN"
| "fadd NegInf PosInf = NaN"
| "fadd (Fin _) y = y"
| "fadd x _ = x"

definition fsub :: "pyfloat \<Rightarrow> pyfloat \<Rightarrow> pyfloat" where
  "fsub x y = fadd x (fneg y)"

fun fsign_neg :: "pyfloat \<Rightarrow> bool" where
  "fsign_neg (Fin a) = (a < 0)"
| "fsign_neg NegInf = True"
| "fsign_neg _ = False"

fun fmul :: "pyfloat \<Rightarrow> pyfloat \<Rightarrow> pyfloat" where
  "fmul (Fin a) (Fin b) = rnd64 (a * b)"
| "fmul NaN _ = NaN"
| "fmul _ NaN = NaN"
| "fmul x y = (if x = Fin 0 \<or> y = Fin 0 then NaN else signed_inf (fsign_neg x \<noteq> fsign_neg y))"

fun fdiv :: "pyfloat \<Rightarrow> pyfloat \<Rightarrow> (pyerr, pyfloat) result" where
  "fdiv (Fin a) (Fin b) = (if b = 0 then Inl ZeroDivisionError else Inr (rnd64 (a / b)))"
| "fdiv x (Fin b) =
     (if b = 0 then Inl ZeroDivisionError
      else if x = NaN then Inr NaN else Inr (signed_inf (fsign_neg x \<noteq> (b < 0))))"
| "fdiv x NaN = Inr NaN"
| "fdiv (Fin a) _ = Inr (Fin 0)"
| "fdiv _ _ = Inr NaN"

fun flt :: "pyfloat \<Rightarrow> pyfloat \<Rightarrow> bool" where
  "flt (Fin a) (Fin b) = (a < b)"
| "flt NaN _ = False"
| "flt _ NaN = False"
| "flt NegInf y = (y \<noteq> NegInf)"
| "flt (Fin _) PosInf = True"
| "flt _ _ = False"

definition feq :: "pyfloat \<Rightarrow> pyfloat \<Rightarrow> bool" where
  "feq x y \<longleftrightarrow> x = y \<and> x \<noteq> NaN"

definition fle :: "pyfloat \<Rightarrow> pyfloat \<Rightarrow> bool" where
  "fle x y \<longleftrightarrow> flt x y \<or> feq x y"

section \<open>Conversions\<close>

definition trunc :: "rat \<Rightarrow> int" where
  "trunc q = (if 0 \<le> q then \<lfloor>q\<rfloor> else \<lceil>q\<rceil>)"

text \<open>\<open>int(x)\<close> and \<open>round(x)\<close> of a float; both refuse the non-finite ones.\<close>

fun float_to_int_with :: "(rat \<Rightarrow> int) \<Rightarrow> pyfloat \<Rightarrow> (pyerr, int) result" where
  "float_to_int_with f (Fin q) = Inr (f q)"
| "float_to_int_with f NaN = Inl ValueError"
| "float_to_int_with f _ = Inl OverflowError"

definition float_to_int :: "pyfloat \<Rightarrow> (pyerr, int) result" where
  "float_to_int = float_to_int_with trunc"

definition round_float :: "pyfloat \<Rightarrow> (pyerr, int) result" where
  "round_float = float_to_int_with round_half_even"

text \<open>
  \<open>round(x, n)\<close>: the exact value rounded to \<open>n\<close> decimals, ties to even, and the nearest float
  to that decimal.
\<close>

fun round_digits :: "pyfloat \<Rightarrow> nat \<Rightarrow> pyfloat" where
  "round_digits (Fin q) n = rnd64 (of_int (round_half_even (q * 10 ^ n)) / 10 ^ n)"
| "round_digits x n = x"

text \<open>\<open>float(i)\<close> of an integer: out of range is an error, not an infinity.\<close>

definition int_to_float :: "int \<Rightarrow> (pyerr, pyfloat) result" where
  "int_to_float i =
     (case rnd64 (of_int i) of Fin v \<Rightarrow> Inr (Fin v) | _ \<Rightarrow> Inl OverflowError)"

lemma int_to_float_exact: "\<bar>i\<bar> < 2 ^ 53 \<Longrightarrow> int_to_float i = Inr (Fin (of_int i))"
  by (simp add: int_to_float_def rnd64_int)

lemma trunc_of_int [simp]: "trunc (of_int i) = i"
  by (simp add: trunc_def)

text \<open>A text that denotes a float literal, as a decimal mantissa and a power of ten.\<close>

definition float_lit :: "rat \<Rightarrow> int \<Rightarrow> pyfloat" where
  "float_lit m e = rnd64 (if 0 \<le> e then m * 10 ^ nat e else m / 10 ^ nat (- e))"

lemma int_to_float_overflow:
  assumes "2 ^ 1024 \<le> i"
  shows "int_to_float i = Inl OverflowError"
proof -
  let ?q = "of_int i :: rat"
  have big: "pow2 1024 \<le> ?q" using assms pow2_nat [of 1024] of_int_le_iff [of "2 ^ 1024" i] by simp
  then have pos: "0 < ?q" using pow2_pos [of 1024] by linarith
  have l: "1024 \<le> ilog2 ?q"
    using pow2_mono [of "ilog2 ?q + 1" 1024] ilog2_bounds(2) [OF pos] big by linarith
  then have e: "ulp_exp ?q = ilog2 ?q - 52" using pos by (simp add: ulp_exp_def)
  have "of_int (2 ^ 52) = pow2 (ilog2 ?q) / pow2 (ulp_exp ?q)"
    by (simp add: e pow2_nat [of 52, simplified] flip: pow2_diff)
  also have "\<dots> \<le> ?q / pow2 (ulp_exp ?q)"
    using ilog2_bounds(1) [OF pos] by (simp add: divide_right_mono order_less_imp_le)
  finally have "2 ^ 52 \<le> round_half_even (?q / pow2 (ulp_exp ?q))"
    using round_half_even_mono round_half_even_of_int by metis
  then have "(2 ^ 52 :: rat) \<le> of_int (round_half_even (?q / pow2 (ulp_exp ?q)))"
    by (metis of_int_le_iff of_int_numeral of_int_power)
  then have "2 ^ 52 * pow2 (ulp_exp ?q) \<le> of_int (round_half_even (?q / pow2 (ulp_exp ?q))) * pow2 (ulp_exp ?q)"
    by (simp add: mult_right_mono order_less_imp_le)
  moreover have "2 ^ 52 * pow2 (ulp_exp ?q) = pow2 (ilog2 ?q)"
    using pow2_add [of 52 "ulp_exp ?q"] pow2_nat [of 52] by (simp add: e)
  moreover have "(2 ^ 1024 :: rat) \<le> pow2 (ilog2 ?q)"
    using pow2_mono [OF l] pow2_nat [of 1024] by simp
  ultimately have "2 ^ 1024 \<le> \<bar>of_int (round_half_even (?q / pow2 (ulp_exp ?q))) * pow2 (ulp_exp ?q)\<bar>"
    by linarith
  then have "rnd64 ?q = PosInf" using pos by (simp add: rnd64_def Let_def del: abs_mult)
  then show ?thesis by (simp add: int_to_float_def)
qed

end
