(* ===== verification/Py_Value.thy ===== *)
theory Py_Value
  imports Py_Float "HOL-Library.Word"
begin

text \<open>
  The Python values the modelled code handles as \<open>Any\<close>, and the built-in conversions it applies
  to them: \<open>int()\<close>, \<open>float()\<close>, \<open>bool()\<close>, equality.  A dict is an association list in insertion
  order with string keys; dates and times are the naive ones of \<open>datetime\<close>.
\<close>

section \<open>Values\<close>

type_synonym byte = "8 word"

datatype pyval =
    PNone
  | PBool bool
  | PInt int
  | PFloat pyfloat
  | PStr string
  | PBytes "byte list"
  | PDate nat nat nat               \<comment> \<open>year, month, day\<close>
  | PTime nat nat nat               \<comment> \<open>hour, minute, second\<close>
  | PDateTime nat nat nat nat nat nat
  | PList "pyval list"
  | PDict "(string \<times> pyval) list"

fun is_bool :: "pyval \<Rightarrow> bool" where
  "is_bool (PBool _) = True"
| "is_bool _ = False"

text \<open>\<open>isinstance(v, int)\<close> holds for booleans too.\<close>

fun is_int :: "pyval \<Rightarrow> bool" where
  "is_int (PBool _) = True"
| "is_int (PInt _) = True"
| "is_int _ = False"

fun is_float :: "pyval \<Rightarrow> bool" where
  "is_float (PFloat _) = True"
| "is_float _ = False"

fun is_str :: "pyval \<Rightarrow> bool" where
  "is_str (PStr _) = True"
| "is_str _ = False"

section \<open>Reading numbers from text\<close>

text \<open>An underscore is allowed between two digits and is then dropped.\<close>

fun underscores_ok :: "char \<Rightarrow> string \<Rightarrow> bool" where
  "underscores_ok prev [] = (prev \<noteq> CHR ''_'')"
| "underscores_ok prev (c # cs) =
     ((if c = CHR ''_'' then is_dec prev else prev = CHR ''_'' \<longrightarrow> is_dec c)
      \<and> underscores_ok c cs)"

definition drop_underscores :: "string \<Rightarrow> string option" where
  "drop_underscores s =
     (if underscores_ok (CHR '' '') s then Some (filter (\<lambda>c. c \<noteq> CHR ''_'') s) else None)"

fun split_sign :: "string \<Rightarrow> bool \<times> string" where
  "split_sign [] = (False, [])"
| "split_sign (c # cs) =
     (if c = CHR ''-'' then (True, cs) else if c = CHR ''+'' then (False, cs) else (False, c # cs))"

definition all_dec :: "string \<Rightarrow> bool" where
  "all_dec s \<longleftrightarrow> s \<noteq> [] \<and> list_all is_dec s"

text \<open>\<open>int(s)\<close> in base ten.\<close>

definition parse_int :: "string \<Rightarrow> int option" where
  "parse_int s =
     (case drop_underscores (py_strip s) of
        None \<Rightarrow> None
      | Some t \<Rightarrow>
          (let (neg, ds) = split_sign t
           in if all_dec ds then Some (if neg then - int (dec_val ds) else int (dec_val ds))
              else None))"

text \<open>The mantissa and exponent of a decimal float literal without its sign.\<close>

definition parse_exponent :: "string \<Rightarrow> int option" where
  "parse_exponent s =
     (case s of
        [] \<Rightarrow> Some 0
      | c # cs \<Rightarrow>
          if c = CHR ''e'' \<or> c = CHR ''E'' then
            (let (neg, ds) = split_sign cs
             in if all_dec ds then Some (if neg then - int (dec_val ds) else int (dec_val ds))
                else None)
          else None)"

definition parse_decimal :: "string \<Rightarrow> (rat \<times> int) option" where
  "parse_decimal s =
     (let a = takeWhile is_dec s; r = dropWhile is_dec s;
          (b, r') = (case r of c # cs \<Rightarrow>
                       if c = CHR ''.'' then (takeWhile is_dec cs, dropWhile is_dec cs) else ([], r)
                     | [] \<Rightarrow> ([], []))
      in if a = [] \<and> b = [] then None
         else (case parse_exponent r' of
                 None \<Rightarrow> None
               | Some e \<Rightarrow> Some (of_nat (dec_val (a @ b)), e - int (length b))))"

text \<open>\<open>float(s)\<close>.\<close>

definition parse_float :: "string \<Rightarrow> pyfloat option" where
  "parse_float s =
     (case drop_underscores (py_strip s) of
        None \<Rightarrow> None
      | Some t \<Rightarrow>
          (let (neg, r) = split_sign t
           in if py_lower r = ''inf'' \<or> py_lower r = ''infinity'' then Some (signed_inf neg)
              else if py_lower r = ''nan'' then Some NaN
              else (case parse_decimal r of
                      None \<Rightarrow> None
                    | Some (m, e) \<Rightarrow> Some (float_lit (if neg then - m else m) e))))"

section \<open>Built-in conversions\<close>

definition bytes_text :: "byte list \<Rightarrow> string" where
  "bytes_text b = map (\<lambda>w. char_of (unat w)) b"

definition of_opt :: "pyerr \<Rightarrow> 'a option \<Rightarrow> (pyerr, 'a) result" where
  "of_opt e x = (case x of None \<Rightarrow> Inl e | Some y \<Rightarrow> Inr y)"

fun py_int :: "pyval \<Rightarrow> (pyerr, int) result" where
  "py_int (PBool b) = Inr (of_bool b)"
| "py_int (PInt i) = Inr i"
| "py_int (PFloat x) = float_to_int x"
| "py_int (PStr s) = of_opt ValueError (parse_int s)"
| "py_int (PBytes b) = of_opt ValueError (parse_int (bytes_text b))"
| "py_int _ = Inl TypeError"

fun py_float :: "pyval \<Rightarrow> (pyerr, pyfloat) result" where
  "py_float (PBool b) = Inr (Fin (of_bool b))"
| "py_float (PInt i) = int_to_float i"
| "py_float (PFloat x) = Inr x"
| "py_float (PStr s) = of_opt ValueError (parse_float s)"
| "py_float (PBytes b) = of_opt ValueError (parse_float (bytes_text b))"
| "py_float _ = Inl TypeError"

text \<open>\<open>bool(v)\<close>: empty containers and zeros are false, not-a-number is true.\<close>

fun py_truthy :: "pyval \<Rightarrow> bool" where
  "py_truthy PNone = False"
| "py_truthy (PBool b) = b"
| "py_truthy (PInt i) = (i \<noteq> 0)"
| "py_truthy (PFloat x) = (x \<noteq> Fin 0)"
| "py_truthy (PStr s) = (s \<noteq> [])"
| "py_truthy (PBytes b) = (b \<noteq> [])"
| "py_truthy (PList xs) = (xs \<noteq> [])"
| "py_truthy (PDict kvs) = (kvs \<noteq> [])"
| "py_truthy _ = True"

text \<open>A number as a float with its exact value: \<open>True == 1 == 1.0\<close>, integers are not rounded.\<close>

fun num_value :: "pyval \<Rightarrow> pyfloat option" where
  "num_value (PBool b) = Some (Fin (of_bool b))"
| "num_value (PInt i) = Some (Fin (of_int i))"
| "num_value (PFloat x) = Some x"
| "num_value _ = None"

lemma num_value_None_iff: "num_value v = None \<longleftrightarrow> \<not> is_int v \<and> \<not> is_float v"
  by (cases v) auto

lemma py_float_of_num: "num_value v = None \<Longrightarrow> py_float v = Inr x \<Longrightarrow> \<exists>s. v = PStr s \<or> (\<exists>b. v = PBytes b)"
  by (cases v) auto

lemma parse_int_show_nat: "parse_int (show_nat n) = Some (int n)"
proof -
  have dec: "\<forall>c \<in> set (show_nat n). is_dec c" using show_nat_digits by blast
  have us: "CHR ''_'' \<notin> set (show_nat n)"
    by (rule show_nat_no_char) (simp add: is_dec_def code_def)
  have ok: "underscores_ok p s" if "p \<noteq> CHR ''_''" "CHR ''_'' \<notin> set s" for p s
    using that by (induction s arbitrary: p) auto
  have "py_strip (show_nat n) = show_nat n"
    by (rule py_strip_no_space) (use dec is_decD(3) in blast)
  moreover have "drop_underscores (show_nat n) = Some (show_nat n)"
    using ok [of "CHR '' ''"] us by (auto simp: drop_underscores_def filter_id_conv)
  moreover have "split_sign (show_nat n) = (False, show_nat n)"
    using dec by (cases "show_nat n") (auto simp: is_dec_def code_def)
  ultimately show ?thesis
    using dec by (simp add: parse_int_def all_dec_def list_all_iff)
qed

section \<open>The calendar of \<open>datetime\<close>\<close>

definition is_leap :: "nat \<Rightarrow> bool" where
  "is_leap y \<longleftrightarrow> y mod 4 = 0 \<and> (y mod 100 \<noteq> 0 \<or> y mod 400 = 0)"

definition days_in_month :: "nat \<Rightarrow> nat \<Rightarrow> nat" where
  "days_in_month y m =
     (if m = 2 then if is_leap y then 29 else 28 else if m \<in> {4, 6, 9, 11} then 30 else 31)"

definition valid_date :: "nat \<Rightarrow> nat \<Rightarrow> nat \<Rightarrow> bool" where
  "valid_date y m d \<longleftrightarrow>
     1 \<le> y \<and> y \<le> 9999 \<and> 1 \<le> m \<and> m \<le> 12 \<and> 1 \<le> d \<and> d \<le> days_in_month y m"

definition valid_time :: "nat \<Rightarrow> nat \<Rightarrow> nat \<Rightarrow> bool" where
  "valid_time h m s \<longleftrightarrow> h < 24 \<and> m < 60 \<and> s < 60"

text \<open>\<open>datetime.date(...)\<close>, \<open>datetime.time(...)\<close> and \<open>datetime.datetime(...)\<close>.\<close>

definition mk_date :: "nat \<Rightarrow> nat \<Rightarrow> nat \<Rightarrow> (pyerr, pyval) result" where
  "mk_date y m d = (if valid_date y m d then Inr (PDate y m d) else Inl ValueError)"

definition mk_time :: "nat \<Rightarrow> nat \<Rightarrow> nat \<Rightarrow> (pyerr, pyval) result" where
  "mk_time h m s = (if valid_time h m s then Inr (PTime h m s) else Inl ValueError)"

definition mk_datetime ::
  "nat \<Rightarrow> nat \<Rightarrow> nat \<Rightarrow> nat \<Rightarrow> nat \<Rightarrow> nat \<Rightarrow> (pyerr, pyval) result" where
  "mk_datetime y mo d h m s =
     (if valid_date y mo d \<and> valid_time h m s then Inr (PDateTime y mo d h m s) else Inl ValueError)"

text \<open>\<open>date.toordinal()\<close>: day 1 is 1 January of year 1, a Monday.\<close>

definition days_before_year :: "nat \<Rightarrow> nat" where
  "days_before_year y = (let k = y - 1 in 365 * k + k div 4 - k div 100 + k div 400)"

definition days_before_month :: "nat \<Rightarrow> nat \<Rightarrow> nat" where
  "days_before_month y m = sum_list (map (days_in_month y) [1..<m])"

definition ordinal :: "nat \<Rightarrow> nat \<Rightarrow> nat \<Rightarrow> nat" where
  "ordinal y m d = days_before_year y + days_before_month y m + d"

definition isoweekday :: "nat \<Rightarrow> nat \<Rightarrow> nat \<Rightarrow> nat" where
  "isoweekday y m d = (ordinal y m d + 6) mod 7 + 1"

section \<open>Text of a value\<close>

subsection \<open>Shortest text of a float\<close>

fun pad_left :: "nat \<Rightarrow> string \<Rightarrow> string" where
  "pad_left n s = replicate (n - length s) (CHR ''0'') @ s"

definition pow10 :: "int \<Rightarrow> rat" where
  "pow10 e = (if 0 \<le> e then 10 ^ nat e else 1 / 10 ^ nat (- e))"

text \<open>The \<open>e\<close> with \<open>10 ^ e \<le> q < 10 ^ (e + 1)\<close>, by search from an estimate below it.\<close>

fun log10_up :: "nat \<Rightarrow> rat \<Rightarrow> int \<Rightarrow> int" where
  "log10_up 0 q e = e"
| "log10_up (Suc fuel) q e = (if pow10 (e + 1) \<le> q then log10_up fuel q (e + 1) else e)"

definition ilog10 :: "rat \<Rightarrow> int" where
  "ilog10 q = log10_up 4 q (\<lfloor>of_int (ilog2 q) * (30103 / 100000 :: rat)\<rfloor> - 1)"

text \<open>
  The decimals with \<open>n\<close> significant digits next to \<open>q\<close> that read back as \<open>q\<close>, the nearer first;
  the text of a float takes the least \<open>n\<close> for which there is one.
\<close>

definition digits_at :: "rat \<Rightarrow> nat \<Rightarrow> (int \<times> int) option" where
  "digits_at q n =
     (let e = ilog10 q - int n + 1; m = \<lfloor>q / pow10 e\<rfloor>;
          ok = (\<lambda>k. rnd64 (of_int k * pow10 e) = Fin q);
          near = (\<bar>of_int m * pow10 e - q\<bar> \<le> \<bar>of_int (m + 1) * pow10 e - q\<bar>)
      in if ok m \<and> (near \<or> \<not> ok (m + 1)) then Some (m, e)
         else if ok (m + 1) then Some (m + 1, e) else None)"

fun shortest_from :: "nat \<Rightarrow> nat \<Rightarrow> rat \<Rightarrow> int \<times> int" where
  "shortest_from 0 n q = (0, 0)"
| "shortest_from (Suc fuel) n q =
     (case digits_at q n of Some r \<Rightarrow> r | None \<Rightarrow> shortest_from fuel (Suc n) q)"

definition strip_zeros :: "string \<Rightarrow> string" where
  "strip_zeros s = rev (dropWhile (\<lambda>c. c = CHR ''0'') (rev s))"

definition repr_pos :: "rat \<Rightarrow> string" where
  "repr_pos q =
     (let (m, e) = shortest_from 17 1 q;
          full = show_nat (nat m); ds = strip_zeros full;
          x = e + int (length full) - 1   \<comment> \<open>decimal exponent of the first digit\<close>
      in if x < - 4 \<or> 16 \<le> x then
           (case ds of [] \<Rightarrow> ''0.0''
            | d # rest \<Rightarrow> [d] @ (if rest = [] then [] else CHR ''.'' # rest) @ ''e''
                @ (if x < 0 then ''-'' else ''+'') @ pad_left 2 (show_nat (nat \<bar>x\<bar>)))
         else if x < 0 then ''0.'' @ replicate (nat (- x - 1)) (CHR ''0'') @ ds
         else if length ds \<le> nat x + 1
         then ds @ replicate (nat x + 1 - length ds) (CHR ''0'') @ ''.0''
         else take (nat x + 1) ds @ ''.'' @ drop (nat x + 1) ds)"

fun repr_float :: "pyfloat \<Rightarrow> string" where
  "repr_float PosInf = ''inf''"
| "repr_float NegInf = ''-inf''"
| "repr_float NaN = ''nan''"
| "repr_float (Fin q) =
     (if q = 0 then ''0.0'' else if q < 0 then ''-'' @ repr_pos (- q) else repr_pos q)"

subsection \<open>\<open>repr\<close> and \<open>str\<close>\<close>

definition hex_digit :: "nat \<Rightarrow> char" where
  "hex_digit n = (if n < 10 then char_of (48 + n) else char_of (87 + n))"

definition hex2 :: "nat \<Rightarrow> string" where
  "hex2 n = [hex_digit (n div 16), hex_digit (n mod 16)]"

definition escape_char :: "char \<Rightarrow> char \<Rightarrow> string" where
  "escape_char quote c =
     (if c = quote \<or> code c = 92 then [char_of (92 :: nat), c]
      else if code c = 10 then [char_of (92 :: nat), CHR ''n'']
      else if code c = 13 then [char_of (92 :: nat), CHR ''r'']
      else if code c = 9 then [char_of (92 :: nat), CHR ''t'']
      else if code c < 32 \<or> (127 \<le> code c \<and> code c \<le> 160) \<or> code c = 173
      then [char_of (92 :: nat), CHR ''x''] @ hex2 (code c)
      else [c])"

definition quote_for :: "string \<Rightarrow> char" where
  "quote_for s = (if char_of (39 :: nat) \<in> set s \<and> char_of (34 :: nat) \<notin> set s
     then char_of (34 :: nat) else char_of (39 :: nat))"

definition repr_str :: "string \<Rightarrow> string" where
  "repr_str s = [quote_for s] @ concat (map (escape_char (quote_for s)) s) @ [quote_for s]"

definition escape_byte :: "char \<Rightarrow> byte \<Rightarrow> string" where
  "escape_byte quote w =
     (let c = (char_of (unat w) :: char)
      in if 160 < code c then [char_of (92 :: nat), CHR ''x''] @ hex2 (code c) else escape_char quote c)"

definition repr_bytes :: "byte list \<Rightarrow> string" where
  "repr_bytes b =
     (let q = quote_for (bytes_text b) in ''b'' @ [q] @ concat (map (escape_byte q) b) @ [q])"

fun join_with :: "string \<Rightarrow> string list \<Rightarrow> string" where
  "join_with sep [] = []"
| "join_with sep [s] = s"
| "join_with sep (s # ss) = s @ sep @ join_with sep ss"

definition two :: "nat \<Rightarrow> string" where
  "two n = pad_left 2 (show_nat n)"

definition iso_date :: "nat \<Rightarrow> nat \<Rightarrow> nat \<Rightarrow> string" where
  "iso_date y m d = pad_left 4 (show_nat y) @ ''-'' @ two m @ ''-'' @ two d"

definition iso_time :: "nat \<Rightarrow> nat \<Rightarrow> nat \<Rightarrow> string" where
  "iso_time h m s = two h @ '':'' @ two m @ '':'' @ two s"

definition call_text :: "string \<Rightarrow> nat list \<Rightarrow> string" where
  "call_text f xs = f @ ''('' @ join_with '', '' (map show_nat xs) @ '')''"

fun py_repr :: "pyval \<Rightarrow> string" where
  "py_repr PNone = ''None''"
| "py_repr (PBool b) = (if b then ''True'' else ''False'')"
| "py_repr (PInt i) = show_int i"
| "py_repr (PFloat x) = repr_float x"
| "py_repr (PStr s) = repr_str s"
| "py_repr (PBytes b) = repr_bytes b"
| "py_repr (PDate y m d) = call_text ''datetime.date'' [y, m, d]"
| "py_repr (PTime h m s) = call_text ''datetime.time'' (if s = 0 then [h, m] else [h, m, s])"
| "py_repr (PDateTime y mo d h m s) =
     call_text ''datetime.datetime'' (if s = 0 then [y, mo, d, h, m] else [y, mo, d, h, m, s])"
| "py_repr (PList xs) = ''['' @ join_with '', '' (map py_repr xs) @ '']''"
| "py_repr (PDict kvs) =
     ''{'' @ join_with '', '' (map (\<lambda>(k, v). repr_str k @ '': '' @ py_repr v) kvs) @ ''}''"

fun py_str :: "pyval \<Rightarrow> string" where
  "py_str (PStr s) = s"
| "py_str (PDate y m d) = iso_date y m d"
| "py_str (PTime h m s) = iso_time h m s"
| "py_str (PDateTime y mo d h m s) = iso_date y mo d @ '' '' @ iso_time h m s"
| "py_str v = py_repr v"

section \<open>Bytes and text\<close>

text \<open>\<open>s.encode()\<close> and \<open>b.hex()\<close>.\<close>

definition encode_utf8 :: "string \<Rightarrow> byte list" where
  "encode_utf8 s =
     concat (map (\<lambda>c. if code c < 128 then [word_of_nat (code c)]
       else [word_of_nat (192 + code c div 64), word_of_nat (128 + code c mod 64)]) s)"

definition bytes_hex :: "byte list \<Rightarrow> string" where
  "bytes_hex b = concat (map (\<lambda>w. hex2 (unat w)) b)"

lemma unat_byte_less: "unat (w :: byte) < 256"
  using unsigned_less [of w, where ?'a = nat] by simp

end
