(* ===== verification/Group_Address.thy ===== *)
theory Group_Address
  imports Py_Value
begin

unbundle bit_operations_syntax

text \<open>
  KNX group addresses (\<open>obs/adapters/knx/group_address.py\<close>): reading an address in any of the
  three ETS notations, the internal three-level notation every entrance normalises to, rendering
  in a project's style, detecting the style of a set of addresses, and the SQL predicate the
  database triggers use.
\<close>

section \<open>The code\<close>

datatype ga_error = NotText | NotAddress | RangeExceeded | UnknownStyle

definition three_level :: string where "three_level = ''ThreeLevel''"
definition two_level :: string where "two_level = ''TwoLevel''"
definition free_style :: string where "free_style = ''Free''"

definition group_address_styles :: "string list" where
  "group_address_styles = [three_level, two_level, free_style]"

fun part_limits :: "nat \<Rightarrow> nat list option" where
  "part_limits n =
     (if n = 3 then Some [31, 7, 255] else if n = 2 then Some [31, 2047]
      else if n = 1 then Some [65535] else None)"

fun to_raw :: "pyval \<Rightarrow> (ga_error, nat) result" where
  "to_raw (PStr value) =
     (let parts = py_split (CHR ''/'') (py_strip value)
      in case part_limits (length parts) of
           None \<Rightarrow> Inl NotAddress
         | Some limits \<Rightarrow>
             if \<not> list_all (\<lambda>part. py_isdigit part \<and> py_isascii part) parts then Inl NotAddress
             else
               let numbers = map dec_val parts
               in if list_ex (\<lambda>(number, limit). limit < number) (zip numbers limits)
                  then Inl RangeExceeded
                  else if length numbers = 3
                  then Inr (push_bit 11 (numbers ! 0) OR push_bit 8 (numbers ! 1) OR numbers ! 2)
                  else if length numbers = 2
                  then Inr (push_bit 11 (numbers ! 0) OR numbers ! 1)
                  else Inr (numbers ! 0))"
| "to_raw _ = Inl NotText"

definition three_level_text :: "nat \<Rightarrow> string" where
  "three_level_text raw =
     show_nat (drop_bit 11 raw) @ ''/'' @ show_nat (drop_bit 8 raw AND 7) @ ''/''
       @ show_nat (raw AND 255)"

definition normalize_ga :: "pyval \<Rightarrow> (ga_error, string) result" where
  "normalize_ga value = rbind (to_raw value) (\<lambda>raw. Inr (three_level_text raw))"

definition try_normalize_ga :: "pyval \<Rightarrow> string option" where
  "try_normalize_ga value = ok_option (normalize_ga value)"

definition format_ga :: "string \<Rightarrow> string \<Rightarrow> (ga_error, string) result" where
  "format_ga address style =
     (if style \<notin> set group_address_styles then Inl UnknownStyle
      else rbind (to_raw (PStr address)) (\<lambda>raw.
        if style = three_level then normalize_ga (PStr address)
        else if style = two_level then
          Inr (show_nat (drop_bit 11 raw) @ ''/'' @ show_nat (raw AND 2047))
        else Inr (show_nat raw)))"

text \<open>\<open>collections.Counter\<close> and its \<open>most_common\<close>: ties keep the order of first appearance.\<close>

fun counter_add :: "'k \<Rightarrow> ('k \<times> nat) list \<Rightarrow> ('k \<times> nat) list" where
  "counter_add k [] = [(k, 1)]"
| "counter_add k ((k', n) # m) = (if k' = k then (k', Suc n) # m else (k', n) # counter_add k m)"

definition counter :: "'k list \<Rightarrow> ('k \<times> nat) list" where
  "counter ks = foldl (\<lambda>m k. counter_add k m) [] ks"

definition most_common :: "nat \<Rightarrow> ('k \<times> nat) list \<Rightarrow> ('k \<times> nat) list" where
  "most_common n m = take n (sort_key (\<lambda>(_, c). - int c) m)"

definition style_of_parts :: "nat \<Rightarrow> string option" where
  "style_of_parts n =
     (if n = 3 then Some three_level else if n = 2 then Some two_level
      else if n = 1 then Some free_style else None)"

definition style_from_addresses :: "string list \<Rightarrow> string option" where
  "style_from_addresses addresses =
     (let ranked = most_common 2 (counter
            (map (\<lambda>a. length (py_split (CHR ''/'') a))
              (filter (\<lambda>a. try_normalize_ga (PStr a) \<noteq> None) addresses)))
      in case ranked of
           [] \<Rightarrow> None
         | [p] \<Rightarrow> style_of_parts (fst p)
         | p # q # _ \<Rightarrow> if snd p = snd q then None else style_of_parts (fst p))"

definition sql_main :: "string list" where
  "sql_main = [''[0-9]'', ''[1-2][0-9]'', ''3[0-1]'']"

definition sql_middle :: "string list" where
  "sql_middle = [''[0-7]'']"

definition sql_sub :: "string list" where
  "sql_sub = [''[0-9]'', ''[1-9][0-9]'', ''1[0-9][0-9]'', ''2[0-4][0-9]'', ''25[0-5]'']"

definition sql_patterns :: "string list" where
  "sql_patterns =
     concat (map (\<lambda>main. concat (map (\<lambda>middle. map (\<lambda>sub. main @ ''/'' @ middle @ ''/'' @ sub)
       sql_sub) sql_middle)) sql_main)"

fun join :: "string \<Rightarrow> string list \<Rightarrow> string" where
  "join sep [] = []"
| "join sep [s] = s"
| "join sep (s # ss) = s @ sep @ join sep ss"

definition sql_is_internal_ga :: "string \<Rightarrow> string" where
  "sql_is_internal_ga column =
     ''('' @ join '' OR '' (map (\<lambda>p. column @ '' GLOB '' @ [CHR 39] @ p @ [CHR 39]) sql_patterns)
       @ '')''"

section \<open>Raw addresses\<close>

lemma push_bit_or_add:
  fixes a b :: nat
  assumes "b < 2 ^ n"
  shows "push_bit n a OR b = a * 2 ^ n + b"
proof -
  have b: "take_bit n b = b" using assms by (simp add: take_bit_nat_eq_self)
  have "push_bit n a AND b = 0"
    by (rule bit_eqI) (metis b bit_and_iff bit_push_bit_iff bit_take_bit_iff bit_0_eq bot_apply
        bot_bool_def linorder_not_le)
  then have "push_bit n a + b = push_bit n a OR b"
    by (rule disjunctive_add_eq_or)
  then show ?thesis by (simp add: push_bit_eq_mult)
qed

lemma and_mask_nat: "(n::nat) AND (2 ^ k - 1) = n mod 2 ^ k"
  by (metis mask_eq_exp_minus_1 take_bit_eq_mask take_bit_eq_mod)

lemma three_level_text_arith:
  "three_level_text raw =
     join ''/'' (map show_nat [raw div 2048, raw div 256 mod 8, raw mod 256])"
  using and_mask_nat [of _ 3] and_mask_nat [of _ 8]
  by (simp add: three_level_text_def drop_bit_eq_div)

lemma slash_not_dec [simp]: "\<not> is_dec (CHR ''/'')"
  by (simp add: is_dec_def code_def)

lemma split_numbers:
  "ns \<noteq> [] \<Longrightarrow> py_split (CHR ''/'') (join ''/'' (map show_nat ns)) = map show_nat ns"
proof (induction ns rule: induct_list012)
  case (3 m n ns)
  then show ?case
    by (simp add: py_split_append show_nat_no_char)
qed (simp_all add: py_split_no_sep show_nat_no_char)

lemma strip_numbers: "py_strip (join ''/'' (map show_nat ns)) = join ''/'' (map show_nat ns)"
proof (rule py_strip_no_space)
  have "\<not> is_space (CHR ''/'')" by (simp add: is_space_def code_def)
  then show "\<forall>c \<in> set (join ''/'' (map show_nat ns)). \<not> is_space c"
    by (induction ns rule: induct_list012) (auto dest: show_nat_digits is_decD(3))
qed

lemma to_raw_numbers:
  assumes "ns \<noteq> []" "part_limits (length ns) = Some limits"
    and "\<not> list_ex (\<lambda>(number, limit). limit < number) (zip ns limits)"
  shows "to_raw (PStr (join ''/'' (map show_nat ns))) =
     Inr (if length ns = 3 then push_bit 11 (ns ! 0) OR push_bit 8 (ns ! 1) OR ns ! 2
          else if length ns = 2 then push_bit 11 (ns ! 0) OR ns ! 1 else ns ! 0)"
proof -
  have "list_all (\<lambda>part. py_isdigit part \<and> py_isascii part) (map show_nat ns)"
    by (simp add: list_all_iff show_nat_isdigit show_nat_isascii)
  moreover have "map dec_val (map show_nat ns) = ns" by (simp add: comp_def)
  ultimately show ?thesis
    using assms by (simp add: strip_numbers split_numbers del: map_map part_limits.simps)
qed

lemma to_raw_three:
  assumes "a \<le> 31" "b \<le> 7" "c \<le> 255"
  shows "to_raw (PStr (join ''/'' (map show_nat [a, b, c]))) = Inr (a * 2048 + b * 256 + c)"
proof -
  have "push_bit 8 b OR c = b * 256 + c" using assms push_bit_or_add [of c 8 b] by simp
  moreover have "push_bit 11 a OR (b * 256 + c) = a * 2048 + (b * 256 + c)"
    using assms push_bit_or_add [of "b * 256 + c" 11 a] by simp
  ultimately show ?thesis
    using assms by (subst to_raw_numbers [where limits = "[31, 7, 255]"]) auto
qed

lemma to_raw_two:
  assumes "a \<le> 31" "b \<le> 2047"
  shows "to_raw (PStr (join ''/'' (map show_nat [a, b]))) = Inr (a * 2048 + b)"
proof -
  have "push_bit 11 a OR b = a * 2048 + b" using assms push_bit_or_add [of b 11 a] by simp
  then show ?thesis
    using assms by (subst to_raw_numbers [where limits = "[31, 2047]"]) auto
qed

lemma to_raw_one: "a \<le> 65535 \<Longrightarrow> to_raw (PStr (show_nat a)) = Inr a"
  using to_raw_numbers [of "[a]" "[65535]"] by simp

lemma three_level_parts:
  fixes raw :: nat
  assumes "raw < 65536"
  shows "raw div 2048 \<le> 31" "raw div 256 mod 8 \<le> 7" "raw mod 256 \<le> 255"
    "raw div 2048 * 2048 + raw div 256 mod 8 * 256 + raw mod 256 = raw"
proof -
  show "raw div 2048 \<le> 31" using assms less_mult_imp_div_less [of raw 32 2048] by simp
  show "raw div 256 mod 8 \<le> 7" "raw mod 256 \<le> 255"
    using mod_less_divisor [of 8 "raw div 256"] mod_less_divisor [of 256 raw] by linarith+
  have "raw div 2048 = raw div 256 div 8" by (simp add: div_mult2_eq [symmetric])
  moreover have "raw div 256 div 8 * 8 + raw div 256 mod 8 = raw div 256"
    "raw div 256 * 256 + raw mod 256 = raw" by (rule div_mult_mod_eq)+
  ultimately show "raw div 2048 * 2048 + raw div 256 mod 8 * 256 + raw mod 256 = raw"
    by linarith
qed

lemma to_raw_three_level_text: "raw < 65536 \<Longrightarrow> to_raw (PStr (three_level_text raw)) = Inr raw"
  unfolding three_level_text_arith
  using three_level_parts [of raw] by (simp only: to_raw_three)

lemma length_eq_3: "length xs = 3 \<longleftrightarrow> (\<exists>a b c. xs = [a, b, c])"
  by (auto simp: numeral_3_eq_3 length_Suc_conv)

lemma length_eq_2: "length xs = 2 \<longleftrightarrow> (\<exists>a b. xs = [a, b])"
  by (auto simp: numeral_2_eq_2 length_Suc_conv)

lemma part_limits_Some:
  "part_limits n = Some ls \<longleftrightarrow>
     n = 3 \<and> ls = [31, 7, 255] \<or> n = 2 \<and> ls = [31, 2047] \<or> n = 1 \<and> ls = [65535]"
  by auto

lemma to_raw_bound:
  assumes "to_raw v = Inr raw"
  shows "raw < 65536"
proof -
  obtain s where v: "v = PStr s" using assms by (cases v) auto
  define parts where "parts = py_split (CHR ''/'') (py_strip s)"
  define ns where "ns = map dec_val parts"
  obtain ls where ls: "part_limits (length parts) = Some ls"
    and inr: "\<not> list_ex (\<lambda>(n, l). l < n) (zip ns ls)"
    and raw: "raw = (if length ns = 3 then push_bit 11 (ns ! 0) OR push_bit 8 (ns ! 1) OR ns ! 2
          else if length ns = 2 then push_bit 11 (ns ! 0) OR ns ! 1 else ns ! 0)"
    using assms
    by (auto simp: v Let_def parts_def [symmetric] ns_def [symmetric]
        split: option.splits if_splits simp del: part_limits.simps)
  have len: "length ns = length parts" by (simp add: ns_def)
  from ls consider (three) a b c where "ns = [a, b, c]" "ls = [31, 7, 255]"
    | (two) a b where "ns = [a, b]" "ls = [31, 2047]"
    | (one) a where "ns = [a]" "ls = [65535]"
    unfolding part_limits_Some len [symmetric] length_eq_3 length_eq_2
    by (auto simp only: One_nat_def length_Suc_conv length_0_conv)
  then show ?thesis
  proof cases
    case three
    with inr have "a \<le> 31" "b \<le> 7" "c \<le> 255" by auto
    then have "push_bit 8 b OR c = b * 256 + c" "push_bit 11 a OR (b * 256 + c) = a * 2048 + (b * 256 + c)"
      using push_bit_or_add [of c 8 b] push_bit_or_add [of "b * 256 + c" 11 a] by simp_all
    with three raw \<open>a \<le> 31\<close> \<open>b \<le> 7\<close> \<open>c \<le> 255\<close> show ?thesis by simp
  next
    case two
    with inr have "a \<le> 31" "b \<le> 2047" by auto
    with two raw show ?thesis using push_bit_or_add [of b 11 a] by simp
  next
    case one
    with inr raw show ?thesis by simp
  qed
qed

lemmas ga_eval = to_raw.simps part_limits.simps normalize_ga_def three_level_text_arith
  try_normalize_ga_def format_ga_def group_address_styles_def three_level_def two_level_def
  free_style_def text_eval

section \<open>Normal form and rendering\<close>

declare to_raw.simps [simp del] part_limits.simps [simp del]

lemma normalize_ga_eq: "normalize_ga v = Inr t \<longleftrightarrow> (\<exists>raw. to_raw v = Inr raw \<and> t = three_level_text raw)"
  by (auto simp: normalize_ga_def rbind_eq_Inr)

lemma normalize_three_level_text:
  "raw < 65536 \<Longrightarrow> normalize_ga (PStr (three_level_text raw)) = Inr (three_level_text raw)"
  by (simp add: normalize_ga_def to_raw_three_level_text)

text \<open>
  C31. The internal notation is a normal form: normalising a valid address in any notation yields a
  text that normalises to itself and denotes the same 16-bit address, and two values get the same
  internal text exactly when they denote the same address (so the text can serve as a key).
\<close>

theorem normalize_ga_canonical:
  assumes "normalize_ga v = Inr t" and "normalize_ga w = Inr u"
  shows "normalize_ga (PStr t) = Inr t \<and> to_raw (PStr t) = to_raw v
    \<and> (t = u \<longleftrightarrow> to_raw v = to_raw w)"
proof -
  obtain m n where m: "to_raw v = Inr m" "t = three_level_text m"
    and n: "to_raw w = Inr n" "u = three_level_text n"
    using assms by (auto simp: normalize_ga_eq)
  have bounds: "m < 65536" "n < 65536" using m(1) n(1) to_raw_bound by auto
  then have "to_raw (PStr t) = Inr m" "to_raw (PStr u) = Inr n"
    by (simp_all add: m(2) n(2) to_raw_three_level_text)
  then have "t = u \<longleftrightarrow> m = n" using m(2) n(2) by (metis Inr_inject)
  with \<open>to_raw (PStr t) = Inr m\<close> bounds m n show ?thesis
    by (simp add: normalize_three_level_text)
qed

theorem normalize_ga_canonical_witness:
  "normalize_ga (PStr ''1/0/234'') = Inr ''1/0/234'' \<and> to_raw (PStr ''1/0/234'') = to_raw (PStr ''2282'')"
proof -
  have a: "normalize_ga (PStr ''2282'') = Inr ''1/0/234''" by (simp add: ga_eval)
  have b: "normalize_ga (PStr '' 1/234 '') = Inr ''1/0/234''" by (simp add: ga_eval)
  show ?thesis using normalize_ga_canonical [OF a b] by simp
qed

definition in_style :: "string \<Rightarrow> nat \<Rightarrow> string" where
  "in_style style raw =
     (if style = three_level then three_level_text raw
      else if style = two_level then join ''/'' (map show_nat [raw div 2048, raw mod 2048])
      else show_nat raw)"

lemma format_ga_in_style:
  assumes "style \<in> set group_address_styles" "to_raw (PStr s) = Inr raw"
  shows "format_ga s style = Inr (in_style style raw)"
  using assms and_mask_nat [of raw 11]
  by (simp add: format_ga_def in_style_def normalize_ga_def drop_bit_eq_div)

lemma to_raw_in_style: "raw < 65536 \<Longrightarrow> to_raw (PStr (in_style style raw)) = Inr raw"
  using to_raw_two [of "raw div 2048" "raw mod 2048"] to_raw_one [of raw] three_level_parts(1) [of raw]
    mod_less_divisor [of 2048 raw]
  by (simp add: in_style_def to_raw_three_level_text del: map_map)

lemma format_ga_OkD:
  assumes "format_ga s style = Inr u"
  obtains raw where "style \<in> set group_address_styles" "to_raw (PStr s) = Inr raw"
    "raw < 65536" "u = in_style style raw"
proof -
  obtain raw where "style \<in> set group_address_styles" "to_raw (PStr s) = Inr raw"
    using assms by (auto simp: format_ga_def rbind_eq_Inr split: if_splits)
  then show ?thesis
    using that assms to_raw_bound [of "PStr s" raw] format_ga_in_style [of style s raw] by simp
qed

text \<open>
  C32. Display never loses information: a valid address can be rendered in each of the three project
  styles, and reading the rendered text gives back the address it was rendered from.
\<close>

theorem format_ga_roundtrip:
  assumes "normalize_ga (PStr s) = Inr t" and "style \<in> set group_address_styles"
  shows "\<exists>u. format_ga s style = Inr u \<and> normalize_ga (PStr u) = Inr t
    \<and> to_raw (PStr u) = to_raw (PStr s)"
proof -
  obtain raw where raw: "to_raw (PStr s) = Inr raw" "t = three_level_text raw"
    using assms(1) by (auto simp: normalize_ga_eq)
  then have "to_raw (PStr (in_style style raw)) = Inr raw"
    by (intro to_raw_in_style to_raw_bound [of "PStr s"])
  with raw format_ga_in_style [OF assms(2) raw(1)] show ?thesis
    by (auto simp: normalize_ga_eq)
qed

theorem format_ga_roundtrip_witness:
  "\<exists>u. format_ga ''1/0/234'' two_level = Inr u \<and> normalize_ga (PStr u) = Inr ''1/0/234''
    \<and> to_raw (PStr u) = to_raw (PStr ''1/0/234'')"
proof -
  have a: "normalize_ga (PStr ''1/0/234'') = Inr ''1/0/234''" by (simp add: ga_eval)
  have b: "two_level \<in> set group_address_styles" by (simp add: group_address_styles_def)
  show ?thesis by (rule format_ga_roundtrip [OF a b])
qed

section \<open>Detecting the style\<close>

definition style_parts :: "string \<Rightarrow> nat" where
  "style_parts style = (if style = three_level then 3 else if style = two_level then 2 else 1)"

lemma styles_distinct: "three_level \<noteq> two_level" "three_level \<noteq> free_style" "two_level \<noteq> free_style"
  by (simp_all add: three_level_def two_level_def free_style_def)

lemma style_of_style_parts:
  "style \<in> set group_address_styles \<Longrightarrow> style_of_parts (style_parts style) = Some style"
  using styles_distinct by (auto simp: style_of_parts_def style_parts_def group_address_styles_def)

lemma split_in_style: "length (py_split (CHR ''/'') (in_style style raw)) = style_parts style"
  using split_numbers [of "[raw div 2048, raw div 256 mod 8, raw mod 256]"]
    split_numbers [of "[raw div 2048, raw mod 2048]"] split_numbers [of "[raw]"]
  by (simp add: in_style_def style_parts_def three_level_text_arith)

lemma counter_const:
  assumes "ks \<noteq> []" "\<forall>k \<in> set ks. k = p"
  shows "counter ks = [(p, length ks)]"
proof -
  have "foldl (\<lambda>m k. counter_add k m) [(p, n)] ks = [(p, n + length ks)]"
    if "\<forall>k \<in> set ks. k = p" for n and ks :: "'a list"
    using that by (induction ks arbitrary: n) auto
  with assms show ?thesis by (cases ks) (auto simp: counter_def)
qed

text \<open>
  Style detection: a non-empty list of addresses all rendered in one style reveals that style,
  whatever texts that are no group address are mixed in.
\<close>

theorem style_from_addresses_detects:
  assumes "\<forall>a \<in> set addresses. try_normalize_ga (PStr a) \<noteq> None \<longrightarrow> (\<exists>s. format_ga s style = Inr a)"
    and "\<exists>a \<in> set addresses. try_normalize_ga (PStr a) \<noteq> None"
  shows "style_from_addresses addresses = Some style"
proof -
  define valid where "valid = filter (\<lambda>a. try_normalize_ga (PStr a) \<noteq> None) addresses"
  have ne: "valid \<noteq> []" using assms(2) by (auto simp: valid_def filter_empty_conv)
  have in_valid: "\<exists>raw. a = in_style style raw \<and> style \<in> set group_address_styles"
    if "a \<in> set valid" for a
    using that assms(1) by (auto simp: valid_def elim!: format_ga_OkD)
  with ne have style: "style \<in> set group_address_styles" by (cases valid) auto
  have "\<forall>k \<in> set (map (\<lambda>a. length (py_split (CHR ''/'') a)) valid). k = style_parts style"
    using in_valid split_in_style by fastforce
  then have "counter (map (\<lambda>a. length (py_split (CHR ''/'') a)) valid) = [(style_parts style, length valid)]"
    using ne by (subst counter_const) auto
  then show ?thesis
    by (simp add: style_from_addresses_def most_common_def valid_def [symmetric]
        style_of_style_parts [OF style] del: not_None_eq)
qed

theorem style_from_addresses_detects_witness:
  "style_from_addresses [''1/234'', ''no address'', ''2/5''] = Some two_level"
proof (rule style_from_addresses_detects)
  have "format_ga ''2282'' two_level = Inr ''1/234''" "format_ga ''4101'' two_level = Inr ''2/5''"
    "try_normalize_ga (PStr ''no address'') = None" by (simp_all add: ga_eval)
  then show "\<forall>a \<in> set [''1/234'', ''no address'', ''2/5''].
      try_normalize_ga (PStr a) \<noteq> None \<longrightarrow> (\<exists>s. format_ga s two_level = Inr a)"
    by (metis empty_iff empty_set set_ConsD)
  have "try_normalize_ga (PStr ''1/234'') \<noteq> None" by (simp add: ga_eval)
  then show "\<exists>a \<in> set [''1/234'', ''no address'', ''2/5'']. try_normalize_ga (PStr a) \<noteq> None"
    by auto
qed

section \<open>The SQL predicate of the database triggers\<close>

text \<open>
  SQLite's \<open>GLOB\<close> operator is not code of the repository; it is a parameter with the documented
  meaning of the three pattern forms \<open>sql_is_internal_ga\<close> uses.
\<close>

locale sqlite_glob =
  fixes glob :: "string \<Rightarrow> string \<Rightarrow> bool"
  assumes glob_empty: "glob [] s \<longleftrightarrow> s = []"
    and glob_char: "is_dec c \<or> c = CHR ''/'' \<Longrightarrow> glob (c # p) s \<longleftrightarrow> (\<exists>cs. s = c # cs \<and> glob p cs)"
    and glob_range: "is_dec lo \<Longrightarrow> is_dec hi \<Longrightarrow>
      glob (CHR ''['' # lo # CHR ''-'' # hi # CHR '']'' # p) s \<longleftrightarrow>
        (\<exists>c cs. s = c # cs \<and> code lo \<le> code c \<and> code c \<le> code hi \<and> glob p cs)"
begin

lemma glob_digits:
  assumes "i \<le> 9" "j \<le> 9"
  shows "glob (CHR ''['' # digit_char i # CHR ''-'' # digit_char j # CHR '']'' # p) s \<longleftrightarrow>
    (\<exists>d cs. s = digit_char d # cs \<and> i \<le> d \<and> d \<le> j \<and> glob p cs)"
proof -
  have conv: "code (digit_char i) \<le> code c \<and> code c \<le> code (digit_char j) \<longleftrightarrow>
      (\<exists>d. c = digit_char d \<and> i \<le> d \<and> d \<le> j)" for c
  proof
    assume c: "code (digit_char i) \<le> code c \<and> code c \<le> code (digit_char j)"
    with assms have "c = digit_char (code c - 48)"
      by (simp add: digit_char_def) (simp add: code_def)
    moreover have "i \<le> code c - 48" "code c - 48 \<le> j" using c assms by auto
    ultimately show "\<exists>d. c = digit_char d \<and> i \<le> d \<and> d \<le> j" by blast
  qed (use assms in auto)
  have "glob (CHR ''['' # digit_char i # CHR ''-'' # digit_char j # CHR '']'' # p) s \<longleftrightarrow>
    (\<exists>c cs. s = c # cs \<and> (code (digit_char i) \<le> code c \<and> code c \<le> code (digit_char j)) \<and> glob p cs)"
    using assms by (simp add: glob_range del: code_digit_char)
  then show ?thesis unfolding conv by blast
qed

lemma glob_digit: "d \<le> 9 \<Longrightarrow> glob (digit_char d # p) s \<longleftrightarrow> (\<exists>cs. s = digit_char d # cs \<and> glob p cs)"
  by (rule glob_char) simp

lemma glob_slash: "glob (CHR ''/'' # p) s \<longleftrightarrow> (\<exists>cs. s = CHR ''/'' # cs \<and> glob p cs)"
  by (rule glob_char) simp

lemmas glob_folded = glob_digits [of 0 9] glob_digits [of 1 2] glob_digits [of 0 1]
  glob_digits [of 0 7] glob_digits [of 1 9] glob_digits [of 0 4] glob_digits [of 0 5]
  glob_digit [of 1] glob_digit [of 2] glob_digit [of 3] glob_digit [of 5] glob_slash glob_empty

lemmas glob_eval = glob_folded [simplified digit_char_eval One_nat_def, simplified]

end

lemma show_nat_one: "d < 10 \<Longrightarrow> show_nat d = [digit_char d]"
  by (simp add: show_nat.simps)

lemma show_nat_two: "0 < a \<Longrightarrow> a < 10 \<Longrightarrow> d < 10 \<Longrightarrow> show_nat (10 * a + d) = [digit_char a, digit_char d]"
  by (subst show_nat.simps) (simp add: show_nat_one)

lemma show_nat_split: "10 \<le> n \<Longrightarrow> show_nat n = show_nat (n div 10) @ [digit_char (n mod 10)]"
  by (subst show_nat.simps) simp

lemma show_nat_three:
  assumes "0 < a" "a < 10" "b < 10" "d < 10"
  shows "show_nat (100 * a + 10 * b + d) = [digit_char a, digit_char b, digit_char d]"
proof -
  have n: "100 * a + 10 * b + d = (10 * a + b) * 10 + d" by simp
  have "((10 * a + b) * 10 + d) div 10 = 10 * a + b" "((10 * a + b) * 10 + d) mod 10 = d"
    by (rule mult_add_div mult_add_mod, fact)+
  then show ?thesis
    unfolding n using assms show_nat_two [of a b] by (subst show_nat_split) auto
qed

lemma show_nat_two_of: "10 \<le> n \<Longrightarrow> n < 100 \<Longrightarrow> show_nat n = [digit_char (n div 10), digit_char (n mod 10)]"
  using show_nat_two [of "n div 10" "n mod 10"] by simp

lemma show_nat_three_of:
  assumes "100 \<le> n" "n < 1000"
  shows "show_nat n = [digit_char (n div 100), digit_char (n div 10 mod 10), digit_char (n mod 10)]"
proof -
  have "n div 100 = n div 10 div 10" by (simp add: div_mult2_eq [symmetric])
  with assms show ?thesis
    using show_nat_split [of n] show_nat_two_of [of "n div 10"] by simp
qed

context sqlite_glob
begin

lemma main_match:
  "(\<exists>p \<in> set sql_main. glob (p @ CHR ''/'' # r) s) \<longleftrightarrow>
     (\<exists>a cs. a \<le> 31 \<and> s = show_nat a @ CHR ''/'' # cs \<and> glob r cs)" (is "?L \<longleftrightarrow> ?R")
proof
  assume ?L
  then consider (one) d cs where "d \<le> 9" "s = digit_char d # CHR ''/'' # cs" "glob r cs"
    | (two) d e cs where "Suc 0 \<le> d" "d \<le> 2" "e \<le> 9"
        "s = digit_char d # digit_char e # CHR ''/'' # cs" "glob r cs"
    | (three) d cs where "d \<le> Suc 0" "s = CHR ''3'' # digit_char d # CHR ''/'' # cs" "glob r cs"
    by (auto simp: sql_main_def glob_eval)
  then show ?R
  proof cases
    case one
    then show ?thesis using show_nat_one [of d] by (intro exI [of _ d] exI [of _ cs]) auto
  next
    case two
    then show ?thesis
      using show_nat_two [of d e] by (intro exI [of _ "10 * d + e"] exI [of _ cs]) auto
  next
    case three
    then show ?thesis
      using show_nat_two [of 3 d] by (intro exI [of _ "30 + d"] exI [of _ cs]) (auto simp: digit_char_eval)
  qed
next
  assume ?R
  then obtain a cs where a: "a \<le> 31" "s = show_nat a @ CHR ''/'' # cs" "glob r cs" by blast
  consider "a < 10" | "10 \<le> a" "a < 30" | "a = 30" | "a = 31" using a(1) by linarith
  then show ?L
  proof cases
    case 1
    with a show ?thesis by (auto simp: sql_main_def glob_eval show_nat_one)
  next
    case 2
    then have "Suc 0 \<le> a div 10 \<and> a div 10 \<le> 2 \<and> a mod 10 \<le> 9" by auto
    with a 2 show ?thesis by (auto simp: sql_main_def glob_eval show_nat_two_of)
  next
    case 3
    with a show ?thesis
      by (auto simp: sql_main_def glob_eval show_nat.simps digit_char_eval intro: exI [of _ 0])
  next
    case 4
    with a show ?thesis
      by (auto simp: sql_main_def glob_eval show_nat.simps digit_char_eval intro: exI [of _ 1])
  qed
qed

lemma middle_match:
  "(\<exists>p \<in> set sql_middle. glob (p @ CHR ''/'' # r) s) \<longleftrightarrow>
     (\<exists>b cs. b \<le> 7 \<and> s = show_nat b @ CHR ''/'' # cs \<and> glob r cs)"
  by (auto simp: sql_middle_def glob_eval show_nat_one)

lemma sub_match: "(\<exists>p \<in> set sql_sub. glob p s) \<longleftrightarrow> (\<exists>c \<le> 255. s = show_nat c)" (is "?L \<longleftrightarrow> ?R")
proof
  assume ?L
  then consider (one) d where "d \<le> 9" "s = [digit_char d]"
    | (two) d e where "Suc 0 \<le> d" "d \<le> 9" "e \<le> 9" "s = [digit_char d, digit_char e]"
    | (three) d e where "d \<le> 9" "e \<le> 9" "s = [CHR ''1'', digit_char d, digit_char e]"
    | (four) d e where "d \<le> 4" "e \<le> 9" "s = [CHR ''2'', digit_char d, digit_char e]"
    | (five) d where "d \<le> 5" "s = [CHR ''2'', CHR ''5'', digit_char d]"
    by (auto simp: sql_sub_def glob_eval)
  then show ?R
  proof cases
    case one
    then show ?thesis using show_nat_one [of d] by (intro exI [of _ d]) auto
  next
    case two
    then show ?thesis using show_nat_two [of d e] by (intro exI [of _ "10 * d + e"]) auto
  next
    case three
    then show ?thesis
      using show_nat_three [of 1 d e] by (intro exI [of _ "100 * 1 + 10 * d + e"]) (auto simp: digit_char_eval)
  next
    case four
    then show ?thesis
      using show_nat_three [of 2 d e] by (intro exI [of _ "100 * 2 + 10 * d + e"]) (auto simp: digit_char_eval)
  next
    case five
    then show ?thesis
      using show_nat_three [of 2 5 d] by (intro exI [of _ "100 * 2 + 10 * 5 + d"]) (auto simp: digit_char_eval)
  qed
next
  assume ?R
  then obtain c where c: "c \<le> 255" "s = show_nat c" by blast
  consider "c < 10" | "10 \<le> c" "c < 100" | "100 \<le> c" "c < 200" | "200 \<le> c" "c < 250" | "250 \<le> c"
    by linarith
  then show ?L
  proof cases
    case 1
    with c show ?thesis by (auto simp: sql_sub_def glob_eval show_nat_one)
  next
    case 2
    then have "Suc 0 \<le> c div 10 \<and> c div 10 \<le> 9 \<and> c mod 10 \<le> 9" by auto
    with c 2 show ?thesis by (auto simp: sql_sub_def glob_eval show_nat_two_of)
  next
    case 3
    then have "c div 100 = 1" "c div 10 mod 10 \<le> 9 \<and> c mod 10 \<le> 9" by auto
    with c 3 show ?thesis by (auto simp: sql_sub_def glob_eval show_nat_three_of digit_char_eval)
  next
    case 4
    then have ten: "c div 10 = 20 \<or> c div 10 = 21 \<or> c div 10 = 22 \<or> c div 10 = 23 \<or> c div 10 = 24"
      by linarith
    then have "c div 10 div 10 = 2" by auto
    then have "c div 100 = 2" by (simp add: div_mult2_eq [symmetric])
    moreover from ten have "c div 10 mod 10 \<le> 4 \<and> c mod 10 \<le> 9" by auto
    ultimately have "c div 100 = 2" "c div 10 mod 10 \<le> 4 \<and> c mod 10 \<le> 9" by auto
    with c 4 show ?thesis by (auto simp: sql_sub_def glob_eval show_nat_three_of digit_char_eval)
  next
    case 5
    with c(1) have ten: "c div 10 = 25" by linarith
    then have "c div 10 div 10 = 2" by simp
    then have "c div 100 = 2" by (simp add: div_mult2_eq [symmetric])
    moreover have "c mod 10 \<le> 5" using ten c(1) div_mult_mod_eq [of c 10] by linarith
    ultimately have "c div 100 = 2" "c div 10 mod 10 = 5" "c mod 10 \<le> 5" using ten by auto
    with c 5 show ?thesis by (auto simp: sql_sub_def glob_eval show_nat_three_of digit_char_eval)
  qed
qed

lemma pattern_match:
  "(\<exists>p \<in> set sql_patterns. glob p s) \<longleftrightarrow>
     (\<exists>a b c. a \<le> 31 \<and> b \<le> 7 \<and> c \<le> 255 \<and> s = join ''/'' (map show_nat [a, b, c]))"
proof -
  have "(\<exists>p \<in> set sql_patterns. glob p s) \<longleftrightarrow>
    (\<exists>p \<in> set sql_sub. \<exists>n \<in> set sql_middle. \<exists>m \<in> set sql_main. glob (m @ CHR ''/'' # n @ CHR ''/'' # p) s)"
    by (simp add: sql_patterns_def) blast
  also have "\<dots> \<longleftrightarrow> (\<exists>p \<in> set sql_sub. \<exists>n \<in> set sql_middle. \<exists>a cs. a \<le> 31
      \<and> s = show_nat a @ CHR ''/'' # cs \<and> glob (n @ CHR ''/'' # p) cs)"
    by (simp only: main_match)
  also have "\<dots> \<longleftrightarrow> (\<exists>p \<in> set sql_sub. \<exists>a cs. a \<le> 31 \<and> s = show_nat a @ CHR ''/'' # cs
      \<and> (\<exists>n \<in> set sql_middle. glob (n @ CHR ''/'' # p) cs))"
    by blast
  also have "\<dots> \<longleftrightarrow> (\<exists>a b cs. a \<le> 31 \<and> b \<le> 7
      \<and> s = show_nat a @ CHR ''/'' # show_nat b @ CHR ''/'' # cs \<and> (\<exists>p \<in> set sql_sub. glob p cs))"
    unfolding middle_match by blast
  also have "\<dots> \<longleftrightarrow> (\<exists>a b c. a \<le> 31 \<and> b \<le> 7 \<and> c \<le> 255
      \<and> s = show_nat a @ CHR ''/'' # show_nat b @ CHR ''/'' # show_nat c)"
    unfolding sub_match by blast
  finally show ?thesis by simp
qed

lemma internal_iff: "(\<exists>p \<in> set sql_patterns. glob p s) \<longleftrightarrow> normalize_ga (PStr s) = Inr s"
proof
  assume "\<exists>p \<in> set sql_patterns. glob p s"
  then obtain a b c where abc: "a \<le> 31" "b \<le> 7" "c \<le> 255" "s = join ''/'' (map show_nat [a, b, c])"
    by (auto simp: pattern_match)
  let ?raw = "a * 2048 + b * 256 + c"
  have raw: "?raw = (a * 8 + b) * 256 + c" by simp
  have "?raw div 256 = a * 8 + b" "?raw mod 256 = c" unfolding raw
    by (rule mult_add_div mult_add_mod, use abc in simp)+
  moreover from this have "?raw div 2048 = a" "?raw div 256 mod 8 = b"
    using abc div_mult2_eq [of ?raw 256 8] by auto
  ultimately have "?raw div 2048 = a" "?raw div 256 mod 8 = b" "?raw mod 256 = c" by auto
  then have "three_level_text ?raw = s"
    by (simp add: three_level_text_arith abc(4))
  then show "normalize_ga (PStr s) = Inr s"
    using to_raw_three [OF abc(1-3)] abc(4) by (simp add: normalize_ga_def del: list.map join.simps)
next
  assume "normalize_ga (PStr s) = Inr s"
  then obtain raw where "to_raw (PStr s) = Inr raw" "s = three_level_text raw"
    by (auto simp: normalize_ga_eq)
  moreover from this have "raw < 65536" using to_raw_bound by blast
  ultimately show "\<exists>p \<in> set sql_patterns. glob p s"
    using three_level_parts [of raw] unfolding pattern_match three_level_text_arith by blast
qed

end

text \<open>A matcher for these pattern forms, which shows that the interface can be met.\<close>

function glob_ref :: "string \<Rightarrow> string \<Rightarrow> bool" where
  "glob_ref [] s = (s = [])"
| "glob_ref (p # ps) s =
     (case s of
        [] \<Rightarrow> False
      | c # cs \<Rightarrow>
          if p = CHR ''['' \<and> 4 \<le> length ps then
            code (ps ! 0) \<le> code c \<and> code c \<le> code (ps ! 2) \<and> glob_ref (drop 4 ps) cs
          else c = p \<and> glob_ref ps cs)"
  by pat_completeness auto
termination by (relation "measure (length \<circ> fst)") auto

interpretation ref_glob: sqlite_glob glob_ref
proof unfold_locales
  fix c p s
  assume "is_dec c \<or> c = CHR ''/''"
  then have "c \<noteq> CHR ''[''" by (auto simp: is_dec_def code_def)
  then show "glob_ref (c # p) s \<longleftrightarrow> (\<exists>cs. s = c # cs \<and> glob_ref p cs)"
    by (cases s) auto
next
  fix lo hi p s
  show "glob_ref (CHR ''['' # lo # CHR ''-'' # hi # CHR '']'' # p) s \<longleftrightarrow>
      (\<exists>c cs. s = c # cs \<and> code lo \<le> code c \<and> code c \<le> code hi \<and> glob_ref p cs)"
    by (cases s) auto
qed simp

text \<open>
  C33. The triggers accept exactly the internal notation: under the documented meaning of \<open>GLOB\<close>,
  a text matches one of the generated patterns if and only if it is the normal form of itself, so
  no other spelling can be stored and no internal address is refused.
\<close>

theorem sql_predicate_is_normal_form:
  assumes "sqlite_glob glob"
  shows "(\<exists>p \<in> set sql_patterns. glob p s) \<longleftrightarrow> normalize_ga (PStr s) = Inr s"
  by (rule sqlite_glob.internal_iff [OF assms])

theorem sql_predicate_is_normal_form_witness:
  "(\<exists>p \<in> set sql_patterns. glob_ref p ''1/0/234'') \<and> \<not> (\<exists>p \<in> set sql_patterns. glob_ref p ''1/234'')"
proof -
  note exact = sql_predicate_is_normal_form [OF ref_glob.sqlite_glob_axioms]
  have "normalize_ga (PStr ''1/0/234'') = Inr ''1/0/234''"
    "normalize_ga (PStr ''1/234'') = Inr ''1/0/234''" by (simp_all add: ga_eval)
  then show ?thesis by (simp only: exact) simp
qed

end
