(* ===== verification/Dpt_Codec.thy ===== *)
theory Dpt_Codec
  imports Py_Value
begin

unbundle bit_operations_syntax

text \<open>
  The KNX datapoint codecs (\<open>obs/adapters/knx/dpt_registry.py\<close>): an encoder turns a Python value
  into the bytes of a telegram, a decoder reads them back.  A codec may raise, so both return a
  result.  \<open>struct.pack\<close> and \<open>struct.unpack\<close> are modelled in big-endian order; a payload that is
  too short is the \<open>IndexError\<close> or \<open>struct.error\<close> of the code.
\<close>

section \<open>Bytes\<close>

definition mk_bytes :: "int list \<Rightarrow> (pyerr, byte list) result" where
  "mk_bytes xs =
     (if list_all (\<lambda>x. 0 \<le> x \<and> x \<le> 255) xs then Inr (map word_of_int xs) else Inl ValueError)"

definition byte_at :: "byte list \<Rightarrow> nat \<Rightarrow> (pyerr, int) result" where
  "byte_at b i = (if i < length b then Inr (uint (b ! i)) else Inl IndexError)"

text \<open>\<open>struct.pack\<close> of an integer into \<open>n\<close> bytes, most significant byte first.\<close>

fun be_bytes :: "nat \<Rightarrow> int \<Rightarrow> byte list" where
  "be_bytes 0 i = []"
| "be_bytes (Suc n) i = be_bytes n (i div 256) @ [word_of_int (i mod 256)]"

definition be_val :: "byte list \<Rightarrow> int" where
  "be_val b = foldl (\<lambda>n w. 256 * n + uint w) 0 b"

definition pack_u :: "nat \<Rightarrow> int \<Rightarrow> (pyerr, byte list) result" where
  "pack_u n i = (if 0 \<le> i \<and> i < 256 ^ n then Inr (be_bytes n i) else Inl StructError)"

definition pack_s :: "nat \<Rightarrow> int \<Rightarrow> (pyerr, byte list) result" where
  "pack_s n i =
     (if - (256 ^ n div 2) \<le> i \<and> i < 256 ^ n div 2 then Inr (be_bytes n (i mod 256 ^ n))
      else Inl StructError)"

text \<open>\<open>struct.unpack(fmt, b[:n])\<close>.\<close>

definition unpack_u :: "nat \<Rightarrow> byte list \<Rightarrow> (pyerr, int) result" where
  "unpack_u n b = (if length (take n b) = n then Inr (be_val (take n b)) else Inl StructError)"

definition to_signed :: "nat \<Rightarrow> int \<Rightarrow> int" where
  "to_signed n u = (if 256 ^ n div 2 \<le> u then u - 256 ^ n else u)"

definition unpack_s :: "nat \<Rightarrow> byte list \<Rightarrow> (pyerr, int) result" where
  "unpack_s n b = rbind (unpack_u n b) (\<lambda>u. Inr (to_signed n u))"

definition clamp :: "int \<Rightarrow> int \<Rightarrow> int \<Rightarrow> int" where
  "clamp lo hi x = max lo (min hi x)"

section \<open>DPT 1: one bit\<close>

definition dpt1_decode :: "byte list \<Rightarrow> (pyerr, pyval) result" where
  "dpt1_decode b = rbind (byte_at b 0) (\<lambda>x. Inr (PBool (x AND 1 \<noteq> 0)))"

definition dpt1_flag :: "pyval \<Rightarrow> bool" where
  "dpt1_flag v =
     (case v of
        PStr s \<Rightarrow> py_lower (py_strip s) \<notin> {''0'', ''false'', ''off'', ''no'', ''''}
      | _ \<Rightarrow> py_truthy v)"

definition dpt1_encode :: "pyval \<Rightarrow> (pyerr, byte list) result" where
  "dpt1_encode v = mk_bytes [if dpt1_flag v then 1 else 0]"

section \<open>DPT 5: eight bits, scaled or raw\<close>

text \<open>\<open>round(b[0] * k / 255.0, 1)\<close> and \<open>round(float(v) * 255.0 / k)\<close>, for \<open>k\<close> 100 and 360.\<close>

definition scaled_decode :: "rat \<Rightarrow> byte list \<Rightarrow> (pyerr, pyval) result" where
  "scaled_decode k b =
     rbind (byte_at b 0) (\<lambda>x.
     rbind (int_to_float x) (\<lambda>fx.
     rbind (fdiv (fmul fx (Fin k)) (Fin 255)) (\<lambda>y. Inr (PFloat (round_digits y 1)))))"

definition scaled_raw :: "rat \<Rightarrow> pyfloat \<Rightarrow> (pyerr, int) result" where
  "scaled_raw k f =
     rbind (fdiv (fmul f (Fin 255)) (Fin k)) (\<lambda>y.
     rbind (round_float y) (\<lambda>i. Inr (clamp 0 255 i)))"

definition scaled_encode :: "rat \<Rightarrow> pyval \<Rightarrow> (pyerr, byte list) result" where
  "scaled_encode k v = rbind (py_float v) (\<lambda>f. rbind (scaled_raw k f) (\<lambda>i. mk_bytes [i]))"

definition dpt5_decode_percent :: "byte list \<Rightarrow> (pyerr, pyval) result" where
  "dpt5_decode_percent = scaled_decode 100"

definition dpt5_encode_percent :: "pyval \<Rightarrow> (pyerr, byte list) result" where
  "dpt5_encode_percent = scaled_encode 100"

definition dpt5_decode_raw :: "byte list \<Rightarrow> (pyerr, pyval) result" where
  "dpt5_decode_raw b = rbind (byte_at b 0) (\<lambda>x. Inr (PInt x))"

definition dpt5_encode_raw :: "pyval \<Rightarrow> (pyerr, byte list) result" where
  "dpt5_encode_raw v = rbind (py_int v) (\<lambda>i. mk_bytes [clamp 0 255 i])"

definition dpt5_decode_angle :: "byte list \<Rightarrow> (pyerr, pyval) result" where
  "dpt5_decode_angle = scaled_decode 360"

definition dpt5_encode_angle :: "pyval \<Rightarrow> (pyerr, byte list) result" where
  "dpt5_encode_angle = scaled_encode 360"

section \<open>Packed integers: DPT 6, 7, 8, 12, 13, 29, 219\<close>

definition dpt6_decode :: "byte list \<Rightarrow> (pyerr, pyval) result" where
  "dpt6_decode b = rbind (unpack_s 1 b) (\<lambda>i. Inr (PInt i))"

definition dpt6_encode :: "pyval \<Rightarrow> (pyerr, byte list) result" where
  "dpt6_encode v = rbind (py_int v) (\<lambda>i. pack_s 1 (clamp (- 128) 127 i))"

definition dpt7_decode :: "byte list \<Rightarrow> (pyerr, pyval) result" where
  "dpt7_decode b = rbind (unpack_u 2 b) (\<lambda>i. Inr (PInt i))"

definition dpt7_encode :: "pyval \<Rightarrow> (pyerr, byte list) result" where
  "dpt7_encode v = rbind (py_int v) (\<lambda>i. pack_u 2 (clamp 0 65535 i))"

definition dpt8_decode :: "byte list \<Rightarrow> (pyerr, pyval) result" where
  "dpt8_decode b = rbind (unpack_s 2 b) (\<lambda>i. Inr (PInt i))"

definition dpt8_encode :: "pyval \<Rightarrow> (pyerr, byte list) result" where
  "dpt8_encode v = rbind (py_int v) (\<lambda>i. pack_s 2 (clamp (- 32768) 32767 i))"

definition dpt12_decode :: "byte list \<Rightarrow> (pyerr, pyval) result" where
  "dpt12_decode b = rbind (unpack_u 4 b) (\<lambda>i. Inr (PInt i))"

definition dpt12_encode :: "pyval \<Rightarrow> (pyerr, byte list) result" where
  "dpt12_encode v = rbind (py_int v) (\<lambda>i. pack_u 4 (clamp 0 0xFFFFFFFF i))"

definition dpt13_decode :: "byte list \<Rightarrow> (pyerr, pyval) result" where
  "dpt13_decode b = rbind (unpack_s 4 b) (\<lambda>i. Inr (PInt i))"

definition dpt13_encode :: "pyval \<Rightarrow> (pyerr, byte list) result" where
  "dpt13_encode v = rbind (py_int v) (\<lambda>i. pack_s 4 (clamp (- 0x80000000) 0x7FFFFFFF i))"

definition dpt29_decode :: "byte list \<Rightarrow> (pyerr, pyval) result" where
  "dpt29_decode b = rbind (unpack_s 8 b) (\<lambda>i. Inr (PInt i))"

definition dpt29_encode :: "pyval \<Rightarrow> (pyerr, byte list) result" where
  "dpt29_encode v =
     rbind (py_int v) (\<lambda>i. pack_s 8 (clamp (- 9223372036854775808) 9223372036854775807 i))"

definition dpt219_decode :: "byte list \<Rightarrow> (pyerr, pyval) result" where
  "dpt219_decode b = rbind (unpack_u 2 b) (\<lambda>i. Inr (PInt i))"

definition dpt219_encode :: "pyval \<Rightarrow> (pyerr, byte list) result" where
  "dpt219_encode v = rbind (py_int v) (\<lambda>i. pack_u 2 (clamp 0 0xFFFF i))"

section \<open>DPT 9: 16-bit KNX float\<close>

text \<open>The float literal \<open>0.01\<close>.\<close>

definition f001 :: pyfloat where
  "f001 = float_lit 1 (- 2)"

definition dpt9_word :: "byte list \<Rightarrow> (pyerr, int) result" where
  "dpt9_word b =
     rbind (byte_at b 0) (\<lambda>hi. rbind (byte_at b 1) (\<lambda>lo. Inr (push_bit 8 hi OR lo)))"

definition dpt9_mant :: "int \<Rightarrow> int" where
  "dpt9_mant word =
     (let sign = drop_bit 15 word AND 1; mant = word AND 0x07FF
      in if sign \<noteq> 0 then mant - 2048 else mant)"

definition dpt9_decode :: "byte list \<Rightarrow> (pyerr, pyval) result" where
  "dpt9_decode b =
     rbind (dpt9_word b) (\<lambda>word.
       let exponent = drop_bit 11 word AND 0x0F
       in rbind (int_to_float (dpt9_mant word)) (\<lambda>m.
          rbind (int_to_float (2 ^ nat exponent)) (\<lambda>p.
            Inr (PFloat (round_digits (fmul (fmul f001 m) p) 4)))))"

text \<open>The \<open>while\<close> loop: halve (rounding down) until the mantissa fits or the exponent runs out.\<close>

function dpt9_norm :: "bool \<Rightarrow> int \<Rightarrow> nat \<Rightarrow> int \<times> nat" where
  "dpt9_norm positive mant e =
     (if mant > 2047 \<or> mant < - 2048 then
        if e + 1 > 15 then (if positive then 2047 else - 2048, 15)
        else dpt9_norm positive (mant div 2) (e + 1)
      else (mant, e))"
  by pat_completeness auto
termination by (relation "measure (\<lambda>(positive, mant, e). 16 - e)") auto

declare dpt9_norm.simps [simp del]

definition dpt9_encode_word :: "bool \<Rightarrow> int \<times> nat \<Rightarrow> int" where
  "dpt9_encode_word negative me =
     (let (mant, e) = me; sign = (if negative then 1 else 0);
          mant' = (if mant < 0 then mant AND 0x07FF else mant)
      in push_bit 15 sign OR push_bit 11 (int e) OR (mant' AND 0x07FF))"

definition dpt9_encode :: "pyval \<Rightarrow> (pyerr, byte list) result" where
  "dpt9_encode v =
     rbind (py_float v) (\<lambda>fv.
     rbind (fdiv fv f001) (\<lambda>q.
     rbind (round_float q) (\<lambda>mant.
       let word = dpt9_encode_word (flt fv (Fin 0)) (dpt9_norm (flt (Fin 0) fv) mant 0)
       in mk_bytes [drop_bit 8 word, word AND 0xFF])))"

section \<open>Bit fields: DPT 2, 3, 17, 18, 20\<close>

definition dpt3_decode :: "byte list \<Rightarrow> (pyerr, pyval) result" where
  "dpt3_decode b = rbind (byte_at b 0) (\<lambda>x. Inr (PInt (x AND 0x0F)))"

definition dpt3_encode :: "pyval \<Rightarrow> (pyerr, byte list) result" where
  "dpt3_encode v = rbind (py_int v) (\<lambda>i. mk_bytes [i AND 0x0F])"

definition dpt2_decode :: "byte list \<Rightarrow> (pyerr, pyval) result" where
  "dpt2_decode b = rbind (byte_at b 0) (\<lambda>x. Inr (PInt (x AND 0x03)))"

definition dpt2_encode :: "pyval \<Rightarrow> (pyerr, byte list) result" where
  "dpt2_encode v = rbind (py_int v) (\<lambda>i. mk_bytes [clamp 0 3 i AND 0x03])"

definition dpt17_decode :: "byte list \<Rightarrow> (pyerr, pyval) result" where
  "dpt17_decode b = rbind (byte_at b 0) (\<lambda>x. Inr (PInt (x AND 0x3F)))"

definition dpt17_encode :: "pyval \<Rightarrow> (pyerr, byte list) result" where
  "dpt17_encode v = rbind (py_int v) (\<lambda>i. mk_bytes [clamp 0 63 i AND 0x3F])"

definition dpt18_decode :: "byte list \<Rightarrow> (pyerr, pyval) result" where
  "dpt18_decode b =
     rbind (byte_at b 0) (\<lambda>x.
       let learn = (x AND 0x80 \<noteq> 0); scene = x AND 0x3F
       in Inr (PInt (if learn then - (scene + 1) else scene)))"

definition dpt18_encode :: "pyval \<Rightarrow> (pyerr, byte list) result" where
  "dpt18_encode v =
     rbind (py_int v) (\<lambda>iv.
       if iv < 0 then mk_bytes [0x80 OR ((- iv - 1) AND 0x3F)] else mk_bytes [iv AND 0x3F])"

definition dpt20_decode :: "byte list \<Rightarrow> (pyerr, pyval) result" where
  "dpt20_decode b = rbind (byte_at b 0) (\<lambda>x. Inr (PInt (x AND 0xFF)))"

definition dpt20_encode :: "pyval \<Rightarrow> (pyerr, byte list) result" where
  "dpt20_encode v = rbind (py_int v) (\<lambda>i. mk_bytes [clamp 0 255 i])"

definition dpt20_102_valid_range :: "int \<times> int" where
  "dpt20_102_valid_range = (0, 4)"

definition dpt20_102_decode :: "byte list \<Rightarrow> (pyerr, pyval) result" where
  "dpt20_102_decode b = rbind (byte_at b 0) (\<lambda>x. Inr (PInt (x AND 0xFF)))"

definition dpt20_102_encode :: "pyval \<Rightarrow> (pyerr, byte list) result" where
  "dpt20_102_encode v =
     (let (lo, hi) = dpt20_102_valid_range in rbind (py_int v) (\<lambda>i. mk_bytes [clamp lo hi i]))"

section \<open>Text: DPT 4 and 16\<close>

text \<open>
  \<open>errors="replace"\<close> writes a question mark for a character that cannot be encoded and reads
  U+FFFD for a byte that cannot be decoded, so decoded text is a list of code points.
\<close>

definition encode_ascii :: "string \<Rightarrow> byte list" where
  "encode_ascii s = map (\<lambda>c. if is_ascii c then word_of_nat (code c) else 63) s"

definition encode_latin1 :: "string \<Rightarrow> byte list" where
  "encode_latin1 s = map (\<lambda>c. word_of_nat (code c)) s"

definition decode_ascii :: "byte list \<Rightarrow> nat list" where
  "decode_ascii b = map (\<lambda>w. if unat w < 128 then unat w else 0xFFFD) b"

definition decode_latin1 :: "byte list \<Rightarrow> nat list" where
  "decode_latin1 b = map unat b"

definition ljust :: "nat \<Rightarrow> byte list \<Rightarrow> byte list" where
  "ljust n b = b @ replicate (n - length b) 0"

definition rstrip_nul :: "byte list \<Rightarrow> byte list" where
  "rstrip_nul b = rev (dropWhile (\<lambda>w. w = 0) (rev b))"

definition dpt4_001_decode :: "byte list \<Rightarrow> nat list" where
  "dpt4_001_decode b = decode_ascii (take 1 b)"

definition dpt4_001_encode :: "pyval \<Rightarrow> byte list" where
  "dpt4_001_encode v = ljust 1 (encode_ascii (take 1 (py_str v)))"

definition dpt4_002_decode :: "byte list \<Rightarrow> nat list" where
  "dpt4_002_decode b = decode_latin1 (take 1 b)"

definition dpt4_002_encode :: "pyval \<Rightarrow> byte list" where
  "dpt4_002_encode v = ljust 1 (encode_latin1 (take 1 (py_str v)))"

definition dpt16_decode :: "byte list \<Rightarrow> nat list" where
  "dpt16_decode b = decode_ascii (rstrip_nul (take 14 b))"

definition dpt16_encode :: "pyval \<Rightarrow> byte list" where
  "dpt16_encode v = ljust 14 (encode_ascii (take 14 (py_str v)))"

section \<open>Date and time: DPT 10, 11, 19\<close>

text \<open>
  What the encoders take from the host: the local clock, the local calendar time of a timestamp,
  and the ISO 8601 readers of \<open>datetime\<close>.
\<close>

record host =
  host_now :: "nat \<times> nat \<times> nat \<times> nat \<times> nat \<times> nat"
  host_local :: "pyfloat \<Rightarrow> (pyerr, nat \<times> nat \<times> nat \<times> nat \<times> nat \<times> nat) result"
  host_iso_time :: "string \<Rightarrow> (pyerr, nat \<times> nat \<times> nat) result"
  host_iso_date :: "string \<Rightarrow> (pyerr, nat \<times> nat \<times> nat) result"
  host_iso_datetime :: "string \<Rightarrow> (pyerr, nat \<times> nat \<times> nat \<times> nat \<times> nat \<times> nat) result"

definition caught :: "pyerr \<Rightarrow> bool" where
  "caught e \<longleftrightarrow> e \<in> {ValueError, TypeError, OverflowError}"

text \<open>\<open>except (ValueError, TypeError, OSError, OverflowError): return bytes(n)\<close>.\<close>

definition or_zero_bytes :: "nat \<Rightarrow> (pyerr, byte list) result \<Rightarrow> (pyerr, byte list) result" where
  "or_zero_bytes n r =
     (case r of Inl e \<Rightarrow> if caught e then Inr (replicate n 0) else Inl e | Inr b \<Rightarrow> Inr b)"

definition dpt10_decode :: "byte list \<Rightarrow> (pyerr, pyval) result" where
  "dpt10_decode b =
     (if length b < 3 then Inl ValueError
      else mk_time (nat (uint (b ! 0) AND 0x1F)) (nat (uint (b ! 1) AND 0x3F)) (nat (uint (b ! 2) AND 0x3F)))"

definition dpt10_time_of :: "host \<Rightarrow> pyval \<Rightarrow> (pyerr, nat \<times> nat \<times> nat) result" where
  "dpt10_time_of h v =
     (case v of
        PTime hh mm ss \<Rightarrow> Inr (hh, mm, ss)
      | PStr s \<Rightarrow> host_iso_time h s
      | _ \<Rightarrow>
          if is_int v \<or> is_float v then
            rbind (py_int v) (\<lambda>total.
              Inr (nat (total div 3600 mod 24), nat (total div 60 mod 60), nat (total mod 60)))
          else (let (y, mo, d, hh, mm, ss) = host_now h in Inr (hh, mm, ss)))"

definition dpt10_encode :: "host \<Rightarrow> pyval \<Rightarrow> (pyerr, byte list) result" where
  "dpt10_encode h v =
     or_zero_bytes 3 (rbind (dpt10_time_of h v) (\<lambda>(hh, mm, ss).
       mk_bytes [int hh AND 0x1F, int mm AND 0x3F, int ss AND 0x3F]))"

definition dpt11_decode :: "byte list \<Rightarrow> (pyerr, pyval) result" where
  "dpt11_decode b =
     (if length b < 3 then Inl ValueError
      else
        let day = nat (uint (b ! 0) AND 0x1F); month = nat (uint (b ! 1) AND 0x0F);
            yr = nat (uint (b ! 2) AND 0x7F);
            year = (if yr < 90 then 2000 + yr else 1900 + yr)
        in mk_date year month day)"

definition dpt11_date_of :: "host \<Rightarrow> pyval \<Rightarrow> (pyerr, nat \<times> nat \<times> nat) result" where
  "dpt11_date_of h v =
     (case v of
        PDate y mo d \<Rightarrow> Inr (y, mo, d)
      | PDateTime y mo d hh mm ss \<Rightarrow> Inr (y, mo, d)
      | PStr s \<Rightarrow> host_iso_date h s
      | _ \<Rightarrow>
          if is_int v \<or> is_float v then
            rbind (py_float v) (\<lambda>t.
              rbind (host_local h t) (\<lambda>(y, mo, d, hh, mm, ss). Inr (y, mo, d)))
          else (let (y, mo, d, hh, mm, ss) = host_now h in Inr (y, mo, d)))"

definition dpt11_encode :: "host \<Rightarrow> pyval \<Rightarrow> (pyerr, byte list) result" where
  "dpt11_encode h v =
     or_zero_bytes 3 (rbind (dpt11_date_of h v) (\<lambda>(y, mo, d).
       mk_bytes [int d AND 0x1F, int mo AND 0x0F, int (y mod 100) AND 0x7F]))"

definition dpt19_decode :: "byte list \<Rightarrow> string" where
  "dpt19_decode b =
     (if length b < 6 then ''''
      else
        case mk_datetime (1900 + nat (uint (b ! 0))) (nat (uint (b ! 1) AND 0x0F))
            (nat (uint (b ! 2) AND 0x1F)) (nat (uint (b ! 3) AND 0x1F))
            (nat (uint (b ! 4) AND 0x3F)) (nat (uint (b ! 5) AND 0x3F)) of
          Inr (PDateTime y mo d hh mm ss) \<Rightarrow> iso_date y mo d @ ''T'' @ iso_time hh mm ss
        | _ \<Rightarrow> '''')"

definition dpt19_datetime_of ::
  "host \<Rightarrow> pyval \<Rightarrow> (pyerr, nat \<times> nat \<times> nat \<times> nat \<times> nat \<times> nat) result" where
  "dpt19_datetime_of h v =
     (case v of
        PStr s \<Rightarrow> host_iso_datetime h s
      | _ \<Rightarrow>
          if is_int v \<or> is_float v then rbind (py_float v) (\<lambda>t. host_local h t)
          else Inr (host_now h))"

definition dpt19_encode :: "host \<Rightarrow> pyval \<Rightarrow> (pyerr, byte list) result" where
  "dpt19_encode h v =
     or_zero_bytes 8 (rbind (dpt19_datetime_of h v) (\<lambda>(y, mo, d, hh, mm, ss).
       mk_bytes [int y - 1900, int mo, int d,
         push_bit 5 (int (isoweekday y mo d)) OR (int hh AND 0x1F),
         int mm AND 0x3F, int ss AND 0x3F, 0, 0]))"

section \<open>DPT 14: IEEE 754 binary32\<close>

definition bits32 :: "rat \<Rightarrow> int option" where
  "bits32 q =
     (if q = 0 then Some 0
      else
        let e = max (ilog2 \<bar>q\<bar> - 23) (- 149); m = \<bar>round_half_even (q / pow2 e)\<bar>;
            (m', e') = (if m = 2 ^ 24 then (2 ^ 23, e + 1) else (m, e));
            sign = (if q < 0 then 2 ^ 31 else 0)
        in if 104 < e' then None
           else if m' < 2 ^ 23 then Some (sign + m')
           else Some (sign + (e' + 150) * 2 ^ 23 + (m' - 2 ^ 23)))"

fun float32_bits :: "pyfloat \<Rightarrow> (pyerr, int) result" where
  "float32_bits (Fin q) = of_opt OverflowError (bits32 q)"
| "float32_bits PosInf = Inr 0x7F800000"
| "float32_bits NegInf = Inr 0xFF800000"
| "float32_bits NaN = Inr 0x7FC00000"

definition float32_of_bits :: "int \<Rightarrow> pyfloat" where
  "float32_of_bits w =
     (let neg = (2 ^ 31 \<le> w); e = w div 2 ^ 23 mod 256; m = w mod 2 ^ 23;
          q = (if e = 0 then of_int m * pow2 (- 149) else of_int (2 ^ 23 + m) * pow2 (e - 150))
      in if e = 255 then (if m = 0 then signed_inf neg else NaN) else Fin (if neg then - q else q))"

definition dpt14_decode :: "byte list \<Rightarrow> (pyerr, pyval) result" where
  "dpt14_decode b =
     rbind (unpack_u 4 b) (\<lambda>w. Inr (PFloat (round_digits (float32_of_bits w) 6)))"

definition dpt14_encode :: "pyval \<Rightarrow> (pyerr, byte list) result" where
  "dpt14_encode v = rbind (py_float v) (\<lambda>f. rbind (float32_bits f) (\<lambda>w. pack_u 4 w))"

section \<open>DPT 240: combined position\<close>

definition dpt240_800_decode :: "byte list \<Rightarrow> (pyerr, pyval) result" where
  "dpt240_800_decode b =
     rbind (byte_at b 0) (\<lambda>height_raw.
     rbind (byte_at b 1) (\<lambda>slats_raw.
     rbind (byte_at b 2) (\<lambda>attrs.
       let valid_h = (attrs AND 1 \<noteq> 0); valid_s = (attrs AND 2 \<noteq> 0)
       in rbind (if valid_h then scaled_decode 100 [b ! 0] else Inr PNone) (\<lambda>h.
          rbind (if valid_s then scaled_decode 100 [b ! 1] else Inr PNone) (\<lambda>s.
            Inr (PDict [(''height_pct'', h), (''slats_pct'', s),
              (''valid_height'', PBool valid_h), (''valid_slats'', PBool valid_s)]))))))"

definition get_or :: "string \<Rightarrow> pyval \<Rightarrow> (string \<times> pyval) list \<Rightarrow> pyval" where
  "get_or k d kvs = (case map_of kvs k of None \<Rightarrow> d | Some v \<Rightarrow> v)"

text \<open>\<open>v.get(k) or 0\<close>: a missing, null or otherwise false value counts as zero.\<close>

definition or_zero :: "pyval \<Rightarrow> pyval" where
  "or_zero v = (if py_truthy v then v else PInt 0)"

text \<open>The encoder after its JSON text, if it was given one, has been read.\<close>

definition dpt240_800_encode_value :: "pyval \<Rightarrow> (pyerr, byte list) result" where
  "dpt240_800_encode_value v =
     rbind (case v of
        PDict kvs \<Rightarrow>
          rbind (py_float (or_zero (get_or ''height_pct'' PNone kvs))) (\<lambda>h.
          rbind (py_float (or_zero (get_or ''slats_pct'' PNone kvs))) (\<lambda>s.
            Inr (h, s, py_truthy (get_or ''valid_height'' (PBool True) kvs),
                 py_truthy (get_or ''valid_slats'' (PBool True) kvs))))
      | _ \<Rightarrow> Inr (Fin 0, Fin 0, False, False))
     (\<lambda>(h, s, valid_h, valid_s).
       rbind (scaled_raw 100 h) (\<lambda>height_raw.
       rbind (scaled_raw 100 s) (\<lambda>slats_raw.
         mk_bytes [height_raw, slats_raw,
           (if valid_h then 1 else 0) OR (if valid_s then 2 else 0)])))"

end
