(* ===== verification/Dpt_Props.thy ===== *)
theory Dpt_Props
  imports Dpt_Codec
begin

unbundle bit_operations_syntax

text \<open>
  What the datapoint codecs guarantee: payload sizes, the clamping of integers, round trips of
  the integer, percent, angle, float and date codecs, and the inputs at which they lose the value.
\<close>

section \<open>Big-endian integers\<close>

lemma length_be_bytes [simp]: "length (be_bytes n i) = n"
  by (induction n arbitrary: i) auto

lemma be_val_snoc: "be_val (b @ [w]) = 256 * be_val b + uint w"
  by (simp add: be_val_def)

lemma uint_byte [simp]: "uint (word_of_int (i mod 256) :: byte) = i mod 256"
  by (simp add: uint_word_of_int)

lemma be_val_be_bytes:
  assumes "0 \<le> i" "i < 256 ^ n"
  shows "be_val (be_bytes n i) = i"
  using assms
proof (induction n arbitrary: i)
  case 0
  then show ?case by (simp add: be_val_def)
next
  case (Suc n)
  have "i div 256 < 256 ^ n" using Suc.prems by (simp only: power_Suc)
  then have "be_val (be_bytes n (i div 256)) = i div 256"
    using Suc by (simp add: pos_imp_zdiv_nonneg_iff)
  then show ?case by (simp add: be_val_snoc)
qed

lemma be_val_bounds: "0 \<le> be_val b \<and> be_val b < 256 ^ length b"
proof (induction b rule: rev_induct)
  case Nil
  then show ?case by (simp add: be_val_def)
next
  case (snoc w b)
  have "0 \<le> uint w" "uint w < 256" using uint_lt2p [of w] by auto
  with snoc show ?case by (simp add: be_val_snoc)
qed

lemma be_bytes_be_val: "be_bytes (length b) (be_val b) = b"
proof (induction b rule: rev_induct)
  case Nil
  then show ?case by simp
next
  case (snoc w b)
  have w: "0 \<le> uint w" "uint w < 256" using uint_lt2p [of w] by auto
  have "be_val (b @ [w]) div 256 = be_val b" "be_val (b @ [w]) mod 256 = uint w"
    using w by (auto simp: be_val_snoc)
  with snoc show ?case by simp
qed

lemma unpack_pack_u: "pack_u n i = Inr b \<Longrightarrow> unpack_u n b = Inr i \<and> length b = n"
  by (auto simp: pack_u_def unpack_u_def be_val_be_bytes split: if_splits)

lemma to_signed_mod:
  assumes "0 < n" "- (256 ^ n div 2) \<le> i" "i < 256 ^ n div 2"
  shows "to_signed n (i mod 256 ^ n) = i"
proof -
  have even: "(256::int) ^ n = 2 * (256 ^ n div 2)" using assms(1) by simp
  show ?thesis
  proof (cases "0 \<le> i")
    case True
    then have "i mod 256 ^ n = i" using assms even by (intro mod_pos_pos_trivial) linarith+
    then show ?thesis using assms by (simp add: to_signed_def)
  next
    case False
    then have "i mod 256 ^ n = i + 256 ^ n"
      using assms even mod_pos_pos_trivial [of "i + 256 ^ n" "256 ^ n"] by simp
    then show ?thesis using assms even by (simp add: to_signed_def)
  qed
qed

lemma unpack_pack_s:
  assumes "0 < n" "pack_s n i = Inr b"
  shows "unpack_s n b = Inr i \<and> length b = n"
proof -
  have r: "- (256 ^ n div 2) \<le> i" "i < 256 ^ n div 2" "b = be_bytes n (i mod 256 ^ n)"
    using assms(2) by (auto simp: pack_s_def split: if_splits)
  have "0 \<le> i mod 256 ^ n" "i mod 256 ^ n < 256 ^ n" by simp_all
  then have "be_val b = i mod 256 ^ n" using r(3) be_val_be_bytes by simp
  then show ?thesis
    using r to_signed_mod [OF assms(1) r(1,2)] by (simp add: unpack_s_def unpack_u_def)
qed

lemma pack_unpack_u: "length b = n \<Longrightarrow> unpack_u n b = Inr i \<Longrightarrow> pack_u n i = Inr b \<and> 0 \<le> i \<and> i < 256 ^ n"
  using be_val_bounds [of b] be_bytes_be_val [of b] by (auto simp: unpack_u_def pack_u_def)

lemma pack_unpack_s:
  assumes "0 < n" "length b = n" "unpack_s n b = Inr i"
  shows "pack_s n i = Inr b \<and> - (256 ^ n div 2) \<le> i \<and> i < 256 ^ n div 2"
proof -
  define u where "u = be_val b"
  have u: "0 \<le> u" "u < 256 ^ n" "be_bytes n u = b"
    using be_val_bounds [of b] be_bytes_be_val [of b] assms(2) by (auto simp: u_def)
  have i: "i = to_signed n u"
    using assms(2,3) by (simp add: unpack_s_def unpack_u_def u_def)
  have even: "(256::int) ^ n = 2 * (256 ^ n div 2)" using assms(1) by simp
  have "i mod 256 ^ n = u"
    using u(1,2) by (auto simp: i to_signed_def)
  then show ?thesis
    using u even by (auto simp: i pack_s_def to_signed_def)
qed

section \<open>The contract of an integer codec\<close>

lemma clamp_range: "lo \<le> hi \<Longrightarrow> lo \<le> clamp lo hi i \<and> clamp lo hi i \<le> hi"
  by (auto simp: clamp_def)

lemma clamp_id [simp]: "lo \<le> i \<Longrightarrow> i \<le> hi \<Longrightarrow> clamp lo hi i = i"
  by (auto simp: clamp_def)

text \<open>
  The contract the KNX adapter relies on: whatever converts to an integer is encoded as the
  nearest value of the range, into a payload of the registered size, and reading it back gives
  that value.
\<close>

locale int_codec =
  fixes encode :: "pyval \<Rightarrow> (pyerr, byte list) result"
    and decode :: "byte list \<Rightarrow> (pyerr, pyval) result"
    and lo hi :: int and size :: nat
  assumes lo_le_hi: "lo \<le> hi"
    and encode_error: "py_int v = Inl e \<Longrightarrow> encode v = Inl e"
    and encode_ok: "py_int v = Inr i \<Longrightarrow>
      \<exists>b. encode v = Inr b \<and> length b = size \<and> decode b = Inr (PInt (clamp lo hi i))"
    and decode_total: "length b = size \<Longrightarrow> \<exists>i. lo \<le> i \<and> i \<le> hi \<and> decode b = Inr (PInt i)"
begin

lemma decode_encode: "lo \<le> i \<Longrightarrow> i \<le> hi \<Longrightarrow> \<exists>b. encode (PInt i) = Inr b \<and> decode b = Inr (PInt i)"
  using encode_ok [of "PInt i" i] by auto

lemma reencode: "length b = size \<Longrightarrow>
    \<exists>i b'. decode b = Inr (PInt i) \<and> encode (PInt i) = Inr b' \<and> decode b' = decode b"
  using decode_total [of b] decode_encode by fastforce

lemma size_of_payload: "encode v = Inr b \<Longrightarrow> length b = size"
  using encode_error encode_ok by (cases "py_int v") fastforce+

end

text \<open>A codec that uses every bit pattern also gives back every payload.\<close>

locale exact_int_codec = int_codec +
  assumes encode_decode: "length b = size \<Longrightarrow> decode b = Inr (PInt i) \<Longrightarrow> encode (PInt i) = Inr b"
begin

lemma decode_inj:
  assumes "length a = size" "length b = size" "decode a = decode b"
  shows "a = b"
  using assms decode_total [of a] encode_decode by (metis Inr_inject)

end

lemma mk_bytes_single: "0 \<le> x \<Longrightarrow> x \<le> 255 \<Longrightarrow> mk_bytes [x] = Inr [word_of_int x]"
  by (simp add: mk_bytes_def)

lemma uint_byte_small: "0 \<le> x \<Longrightarrow> x \<le> 255 \<Longrightarrow> uint (word_of_int x :: byte) = x"
  by (simp add: uint_word_of_int)

lemma uint_byte_range: "0 \<le> uint (w :: byte) \<and> uint w \<le> 255"
  using uint_lt2p [of w] by auto

lemma uint_byte_mod [simp]: "uint (w :: byte) mod 256 = uint w"
  using uint_byte_range [of w] by (intro mod_pos_pos_trivial) auto

lemma length_1E: "length b = 1 \<Longrightarrow> (\<And>w. b = [w] \<Longrightarrow> P) \<Longrightarrow> P"
  by (auto simp: length_Suc_conv)

lemma and_mask_int: "(i::int) AND (2 ^ k - 1) = i mod 2 ^ k"
  by (metis mask_eq_exp_minus_1 take_bit_eq_mask take_bit_eq_mod)

lemmas and_masks = and_mask_int [of _ 1, simplified] and_mask_int [of _ 2, simplified]
  and_mask_int [of _ 3, simplified] and_mask_int [of _ 4, simplified]
  and_mask_int [of _ 5, simplified] and_mask_int [of _ 6, simplified]
  and_mask_int [of _ 7, simplified] and_mask_int [of _ 8, simplified]
  and_mask_int [of _ 11, simplified]

lemma packed_unsigned_codec:
  assumes "\<And>v. encode v = rbind (py_int v) (\<lambda>i. pack_u n (clamp 0 hi i))"
    and "\<And>b. decode b = rbind (unpack_u n b) (\<lambda>i. Inr (PInt i))"
    and "hi = 256 ^ n - 1"
  shows "exact_int_codec encode decode 0 hi n"
proof unfold_locales
  show "0 \<le> hi" by (simp add: assms(3))
  show "encode v = Inl e" if "py_int v = Inl e" for v e by (simp add: assms(1) that)
  show "\<exists>b. encode v = Inr b \<and> length b = n \<and> decode b = Inr (PInt (clamp 0 hi i))"
    if "py_int v = Inr i" for v i
  proof -
    have c: "0 \<le> clamp 0 hi i" "clamp 0 hi i < 256 ^ n"
      using clamp_range [of 0 hi i] by (simp_all add: assms(3))
    then have "pack_u n (clamp 0 hi i) = Inr (be_bytes n (clamp 0 hi i))" by (simp add: pack_u_def)
    with unpack_pack_u [OF this] that show ?thesis by (simp add: assms(1,2))
  qed
  show "\<exists>i. 0 \<le> i \<and> i \<le> hi \<and> decode b = Inr (PInt i)" if "length b = n" for b
    using that be_val_bounds [of b] by (auto simp: assms(2,3) unpack_u_def)
  show "encode (PInt i) = Inr b" if "length b = n" "decode b = Inr (PInt i)" for b i
    using that pack_unpack_u [of b n i] by (simp add: assms rbind_eq_Inr)
qed

lemma packed_signed_codec:
  assumes "\<And>v. encode v = rbind (py_int v) (\<lambda>i. pack_s n (clamp lo hi i))"
    and "\<And>b. decode b = rbind (unpack_s n b) (\<lambda>i. Inr (PInt i))"
    and "0 < n" "hi = 256 ^ n div 2 - 1" "lo = - (256 ^ n div 2)"
  shows "exact_int_codec encode decode lo hi n"
proof unfold_locales
  have "(256::int) ^ n = 2 * (256 ^ n div 2)" "0 < (256::int) ^ n" using assms(3) by simp_all
  then have pos: "0 < (256::int) ^ n div 2" by linarith
  then show "lo \<le> hi" by (simp add: assms(4,5))
  then have c: "lo \<le> clamp lo hi i \<and> clamp lo hi i \<le> hi" for i by (rule clamp_range)
  show "encode v = Inl e" if "py_int v = Inl e" for v e by (simp add: assms(1) that)
  show "\<exists>b. encode v = Inr b \<and> length b = n \<and> decode b = Inr (PInt (clamp lo hi i))"
    if "py_int v = Inr i" for v i
  proof -
    have "pack_s n (clamp lo hi i) = Inr (be_bytes n (clamp lo hi i mod 256 ^ n))"
      using c [of i] by (simp add: pack_s_def assms(4,5))
    with unpack_pack_s [OF assms(3) this] that show ?thesis by (simp add: assms(1,2))
  qed
  show "\<exists>i. lo \<le> i \<and> i \<le> hi \<and> decode b = Inr (PInt i)" if b: "length b = n" for b
  proof -
    obtain i where i: "unpack_s n b = Inr i" using b by (simp add: unpack_s_def unpack_u_def)
    with pack_unpack_s [OF assms(3) b i] show ?thesis by (simp add: assms(2,4,5))
  qed
  show "encode (PInt i) = Inr b" if "length b = n" "decode b = Inr (PInt i)" for b i
    using that pack_unpack_s [OF assms(3), of b i] by (auto simp: assms rbind_eq_Inr)
qed

lemma byte_codec:
  assumes "\<And>v. encode v = rbind (py_int v) (\<lambda>i. mk_bytes [clamp 0 255 i])"
    and "\<And>w. decode [w] = Inr (PInt (uint w))"
  shows "exact_int_codec encode decode 0 255 1"
proof unfold_locales
  show "encode v = Inl e" if "py_int v = Inl e" for v e by (simp add: assms(1) that)
  show "\<exists>b. encode v = Inr b \<and> length b = 1 \<and> decode b = Inr (PInt (clamp 0 255 i))"
    if "py_int v = Inr i" for v i
    using that clamp_range [of 0 255 i] by (simp add: assms mk_bytes_single uint_byte_small)
  show "\<exists>i. 0 \<le> i \<and> i \<le> 255 \<and> decode b = Inr (PInt i)" if "length b = 1" for b
    using that uint_byte_range by (elim length_1E) (auto simp: assms(2))
  show "encode (PInt i) = Inr b" if "length b = 1" "decode b = Inr (PInt i)" for b i
    using that uint_byte_range by (elim length_1E) (auto simp: assms mk_bytes_single)
qed simp

interpretation c5: exact_int_codec dpt5_encode_raw dpt5_decode_raw 0 255 1
  by (rule byte_codec) (simp_all add: dpt5_encode_raw_def dpt5_decode_raw_def byte_at_def)

interpretation c6: exact_int_codec dpt6_encode dpt6_decode "- 128" 127 1
  by (rule packed_signed_codec) (simp_all add: dpt6_encode_def dpt6_decode_def)

interpretation c7: exact_int_codec dpt7_encode dpt7_decode 0 65535 2
  by (rule packed_unsigned_codec) (simp_all add: dpt7_encode_def dpt7_decode_def)

interpretation c8: exact_int_codec dpt8_encode dpt8_decode "- 32768" 32767 2
  by (rule packed_signed_codec) (simp_all add: dpt8_encode_def dpt8_decode_def)

interpretation c12: exact_int_codec dpt12_encode dpt12_decode 0 "0xFFFFFFFF" 4
  by (rule packed_unsigned_codec) (simp_all add: dpt12_encode_def dpt12_decode_def)

interpretation c13: exact_int_codec dpt13_encode dpt13_decode "- 0x80000000" "0x7FFFFFFF" 4
  by (rule packed_signed_codec) (simp_all add: dpt13_encode_def dpt13_decode_def)

interpretation c20: exact_int_codec dpt20_encode dpt20_decode 0 255 1
  by (rule byte_codec)
    (simp_all add: dpt20_encode_def dpt20_decode_def byte_at_def and_masks)

interpretation c29: exact_int_codec dpt29_encode dpt29_decode
  "- 9223372036854775808" 9223372036854775807 8
  by (rule packed_signed_codec) (simp_all add: dpt29_encode_def dpt29_decode_def)

interpretation c219: exact_int_codec dpt219_encode dpt219_decode 0 "0xFFFF" 2
  by (rule packed_unsigned_codec) (simp_all add: dpt219_encode_def dpt219_decode_def)

lemma masked_codec:
  assumes "\<And>v. encode v = rbind (py_int v) (\<lambda>i. mk_bytes [clamp 0 (2 ^ k - 1) i AND (2 ^ k - 1)])"
    and "\<And>w. decode [w] = Inr (PInt (uint w AND (2 ^ k - 1)))"
    and "k \<le> 8"
  shows "int_codec encode decode 0 (2 ^ k - 1) 1"
proof unfold_locales
  have small: "(2::int) ^ k \<le> 2 ^ 8" using assms(3) by (intro power_increasing) auto
  show "encode v = Inl e" if "py_int v = Inl e" for v e by (simp add: assms(1) that)
  show "\<exists>b. encode v = Inr b \<and> length b = 1 \<and> decode b = Inr (PInt (clamp 0 (2 ^ k - 1) i))"
    if "py_int v = Inr i" for v i
  proof -
    let ?c = "clamp 0 (2 ^ k - 1) i"
    have c: "0 \<le> ?c" "?c < 2 ^ k" using clamp_range [of 0 "2 ^ k - 1" i] by simp_all
    then have "?c AND (2 ^ k - 1) = ?c" by (simp add: and_mask_int)
    moreover have "?c \<le> 255" using c small by simp
    ultimately show ?thesis
      using that c by (simp add: assms(1,2) mk_bytes_single uint_byte_small)
  qed
  show "\<exists>i. 0 \<le> i \<and> i \<le> 2 ^ k - 1 \<and> decode b = Inr (PInt i)" if "length b = 1" for b
    using that by (elim length_1E) (auto simp: assms(2) and_mask_int)
qed simp

interpretation c2: int_codec dpt2_encode dpt2_decode 0 3 1
  using masked_codec [of dpt2_encode 2 dpt2_decode]
  by (simp add: dpt2_encode_def dpt2_decode_def byte_at_def)

interpretation c17: int_codec dpt17_encode dpt17_decode 0 63 1
  using masked_codec [of dpt17_encode 6 dpt17_decode]
  by (simp add: dpt17_encode_def dpt17_decode_def byte_at_def)

text \<open>The registered integer codecs with their range and payload size.\<close>

definition int_codecs ::
  "((pyval \<Rightarrow> (pyerr, byte list) result) \<times> (byte list \<Rightarrow> (pyerr, pyval) result) \<times> int \<times> int \<times> nat) list"
where
  "int_codecs =
     [(dpt5_encode_raw, dpt5_decode_raw, 0, 255, 1), (dpt6_encode, dpt6_decode, - 128, 127, 1),
      (dpt7_encode, dpt7_decode, 0, 65535, 2), (dpt8_encode, dpt8_decode, - 32768, 32767, 2),
      (dpt12_encode, dpt12_decode, 0, 0xFFFFFFFF, 4),
      (dpt13_encode, dpt13_decode, - 0x80000000, 0x7FFFFFFF, 4),
      (dpt20_encode, dpt20_decode, 0, 255, 1),
      (dpt29_encode, dpt29_decode, - 9223372036854775808, 9223372036854775807, 8),
      (dpt219_encode, dpt219_decode, 0, 0xFFFF, 2)]"

lemma int_codecs_exact: "(enc, dec, lo, hi, n) \<in> set int_codecs \<Longrightarrow> exact_int_codec enc dec lo hi n"
  using c5.exact_int_codec_axioms c6.exact_int_codec_axioms c7.exact_int_codec_axioms
    c8.exact_int_codec_axioms c12.exact_int_codec_axioms c13.exact_int_codec_axioms
    c20.exact_int_codec_axioms c29.exact_int_codec_axioms c219.exact_int_codec_axioms
  by (auto simp: int_codecs_def)

text \<open>
  C34. The integer datapoint types (DPT 5, 6, 7, 8, 12, 13, 20, 29, 219) saturate and never wrap:
  whatever value converts to an integer is encoded into exactly the registered number of bytes,
  which read back as that integer clamped to the range of the type; and every payload of that
  size reads as a value of the range that encodes to the same bytes.
\<close>

theorem int_codec_roundtrip:
  assumes "(enc, dec, lo, hi, n) \<in> set int_codecs"
  shows "(py_int v = Inr i \<longrightarrow>
      (\<exists>b. enc v = Inr b \<and> length b = n \<and> dec b = Inr (PInt (clamp lo hi i))))
    \<and> (length p = n \<longrightarrow>
      (\<exists>j. lo \<le> j \<and> j \<le> hi \<and> dec p = Inr (PInt j) \<and> enc (PInt j) = Inr p))"
proof -
  note exact = int_codecs_exact [OF assms]
  note codec = exact_int_codec.axioms(1) [OF exact]
  show ?thesis
    using int_codec.encode_ok [OF codec] int_codec.decode_total [OF codec]
      exact_int_codec.encode_decode [OF exact] by blast
qed

theorem int_codec_roundtrip_witness:
  "\<exists>b. dpt8_encode (PInt 40000) = Inr b \<and> length b = 2 \<and> dpt8_decode b = Inr (PInt 32767)"
proof -
  have mem: "(dpt8_encode, dpt8_decode, - 32768, 32767, 2) \<in> set int_codecs"
    by (simp add: int_codecs_def)
  have "py_int (PInt 40000) = Inr 40000" by simp
  then show ?thesis using int_codec_roundtrip [OF mem, of "PInt 40000" 40000] by (simp add: clamp_def)
qed

section \<open>Scaled bytes: percent and angle\<close>

lemma close_trans:
  fixes a b c r s t :: rat
  shows "\<bar>a - b\<bar> \<le> r \<Longrightarrow> \<bar>b - c\<bar> \<le> s \<Longrightarrow> r + s \<le> t \<Longrightarrow> \<bar>a - c\<bar> \<le> t"
  by linarith

lemma pow2_neg: "pow2 (- int n) = 1 / 2 ^ n"
  by (cases "n = 0") (simp_all add: pow2_def)

lemma scaled_decode_close:
  assumes "1 \<le> k" "k \<le> 512"
  shows "\<exists>z. scaled_decode (of_int k) [w] = Inr (PFloat (Fin z))
    \<and> \<bar>z - of_int (uint w * k) / 255\<bar> \<le> 1 / 20 + 1 / 1000000"
proof -
  define x where "x = uint w"
  have x: "0 \<le> x" "x \<le> 255" using uint_byte_range [of w] by (auto simp: x_def)
  have xk: "0 \<le> x * k" "x * k \<le> 255 * 512" using x assms mult_mono [of x 255 k 512] by simp_all
  let ?q = "of_int (x * k) / 255 :: rat"
  have q: "0 \<le> ?q" "?q \<le> 512" using xk by (simp_all add: divide_le_eq del: of_int_mult)
  obtain y where y: "rnd64 ?q = Fin y" "\<bar>y - ?q\<bar> \<le> pow2 (int 10 - 54)"
    by (rule rnd64_bounded_error [of ?q 10]) (use q in auto)
  define d where "d = of_int (round_half_even (y * 10)) / (10 :: rat)"
  have dy: "\<bar>d - y\<bar> \<le> 1 / 20"
  proof -
    have "\<bar>(of_int (round_half_even (y * 10)) - y * 10) / 10\<bar> \<le> (1 / 2) / 10"
      using round_half_even_error [of "y * 10"] by (simp add: abs_divide)
    moreover have "(of_int (round_half_even (y * 10)) - y * 10) / 10 = d - y"
      by (simp add: d_def diff_divide_distrib)
    ultimately show ?thesis by simp
  qed
  have small: "pow2 (int 10 - 54) \<le> 1 / 10000000" by (simp add: pow2_def)
  have yq: "\<bar>y - ?q\<bar> \<le> 1 / 10000000" using y(2) small by linarith
  have "\<bar>d\<bar> < 1000" using dy yq q by linarith
  then have "\<bar>d\<bar> < 2 ^ 10" by simp
  then obtain z where z: "rnd64 d = Fin z" "\<bar>z - d\<bar> \<le> pow2 (int 10 - 54)"
    by (rule rnd64_bounded_error) auto
  have "\<bar>z - ?q\<bar> \<le> 1 / 20 + 1 / 1000000" using z(2) small dy yq by linarith
  moreover have "scaled_decode (of_int k) [w] = Inr (PFloat (Fin z))"
  proof -
    have "int_to_float x = Inr (Fin (of_int x))" using x by (intro int_to_float_exact) auto
    moreover have "rnd64 (of_int x * of_int k) = Fin (of_int (x * k))"
      using rnd64_int [of "x * k"] xk by simp
    ultimately show ?thesis
      using y(1) z(1) by (simp add: scaled_decode_def byte_at_def x_def [symmetric] d_def)
  qed
  ultimately show ?thesis by (auto simp: x_def)
qed

lemma scaled_raw_close:
  assumes "100 \<le> k" "k \<le> 512" "0 \<le> x" "x \<le> 255"
    and z: "\<bar>z - of_int (x * k) / 255\<bar> \<le> 1 / 20 + 1 / 1000000"
  shows "scaled_raw (of_int k) (Fin z) = Inr x"
proof -
  let ?k = "of_int k :: rat"
  have k: "100 \<le> ?k" "?k \<le> 512" using assms(1,2) by simp_all
  have xk: "(of_int (x * k) :: rat) \<le> 255 * 512" "(0::rat) \<le> of_int (x * k)"
  proof -
    have "x * k \<le> 255 * 512" "0 \<le> x * k" using mult_mono [of x 255 k 512] assms(1-4) by simp_all
    then have "(of_int (x * k) :: rat) \<le> of_int (255 * 512)" "(of_int 0 :: rat) \<le> of_int (x * k)"
      by (simp_all only: of_int_le_iff)
    then show "(of_int (x * k) :: rat) \<le> 255 * 512" "(0::rat) \<le> of_int (x * k)" by simp_all
  qed
  have z255: "\<bar>z * 255 - of_int (x * k)\<bar> \<le> 13"
  proof -
    have "z * 255 - of_int (x * k) = (z - of_int (x * k) / 255) * 255" by simp
    then have "\<bar>z * 255 - of_int (x * k)\<bar> = \<bar>z - of_int (x * k) / 255\<bar> * 255"
      by (simp only: abs_mult abs_numeral)
    also have "\<dots> \<le> (1 / 20 + 1 / 1000000) * 255" using z by simp
    finally show ?thesis by simp
  qed
  then have "\<bar>z * 255\<bar> < 200000" using xk by linarith
  then have "\<bar>z * 255\<bar> < 2 ^ 18" by simp
  then obtain u where u: "rnd64 (z * 255) = Fin u" "\<bar>u - z * 255\<bar> \<le> pow2 (int 18 - 54)"
    by (rule rnd64_bounded_error) auto
  have u': "\<bar>u - of_int (x * k)\<bar> \<le> 14" using u(2) z255 pow2_mono [of "int 18 - 54" 0] by (simp add: pow2_def [of 0])
  have uk: "\<bar>u / ?k - of_int x\<bar> \<le> 14 / 100"
  proof -
    have "u / ?k - of_int x = (u - of_int (x * k)) / ?k" using k by (simp add: diff_divide_distrib)
    then have "\<bar>u / ?k - of_int x\<bar> = \<bar>u - of_int (x * k)\<bar> / ?k" using k by (simp add: abs_divide)
    also have "\<dots> \<le> 14 / 100" using u' k by (intro frac_le) auto
    finally show ?thesis .
  qed
  have "(of_int x :: rat) \<le> 255" "(0::rat) \<le> of_int x" using assms by simp_all
  then have "\<bar>u / ?k\<bar> < 300" using uk by linarith
  then have "\<bar>u / ?k\<bar> < 2 ^ 9" by simp
  then obtain v where v: "rnd64 (u / ?k) = Fin v" "\<bar>v - u / ?k\<bar> \<le> pow2 (int 9 - 54)"
    by (rule rnd64_bounded_error) auto
  have "pow2 (int 9 - 54) \<le> 1 / 10" by (simp add: pow2_def)
  then have "\<bar>v - of_int x\<bar> < 1 / 2" using v(2) uk by linarith
  then have "round_half_even v = x" by (rule round_half_even_near)
  then show ?thesis
    using u(1) v(1) k assms by (simp add: scaled_raw_def round_float_def)
qed

lemma scaled_roundtrip:
  assumes "100 \<le> k" "k \<le> 512"
  shows "\<exists>z. scaled_decode (of_int k) [w] = Inr (PFloat z) \<and> scaled_encode (of_int k) (PFloat z) = Inr [w]"
proof -
  obtain z where z: "scaled_decode (of_int k) [w] = Inr (PFloat (Fin z))"
    "\<bar>z - of_int (uint w * k) / 255\<bar> \<le> 1 / 20 + 1 / 1000000"
    using scaled_decode_close [of k w] assms by auto
  have "scaled_raw (of_int k) (Fin z) = Inr (uint w)"
    using assms uint_byte_range [of w] z(2) by (intro scaled_raw_close) auto
  then have "scaled_encode (of_int k) (PFloat (Fin z)) = Inr [w]"
    using uint_byte_range [of w] by (simp add: scaled_encode_def mk_bytes_single)
  with z(1) show ?thesis by blast
qed

text \<open>
  Percent and angle values survive the round trip in spite of floating point and the rounding to
  one decimal: every byte of a DPT 5.001 or 5.003 telegram decodes to a float that encodes to the
  same byte again.
\<close>

theorem dpt5_scaled_roundtrip:
  "(\<exists>x. dpt5_decode_percent [w] = Inr (PFloat x) \<and> dpt5_encode_percent (PFloat x) = Inr [w])
   \<and> (\<exists>y. dpt5_decode_angle [w] = Inr (PFloat y) \<and> dpt5_encode_angle (PFloat y) = Inr [w])"
  using scaled_roundtrip [of 100 w] scaled_roundtrip [of 360 w]
  by (simp add: dpt5_decode_percent_def dpt5_encode_percent_def dpt5_decode_angle_def
      dpt5_encode_angle_def)

section \<open>DPT 9\<close>

lemma push_bit_or_int:
  fixes a b :: int
  assumes "0 \<le> b" "b < 2 ^ n"
  shows "push_bit n a OR b = a * 2 ^ n + b"
proof -
  have b: "take_bit n b = b" using assms by (simp add: take_bit_int_eq_self)
  have "push_bit n a AND b = 0"
    by (rule bit_eqI) (metis b bit_and_iff bit_push_bit_iff bit_take_bit_iff bit_0_eq bot_apply
        bot_bool_def linorder_not_le)
  then have "push_bit n a + b = push_bit n a OR b"
    by (rule disjunctive_add_eq_or)
  then show ?thesis by (simp add: push_bit_eq_mult)
qed

definition c001 :: rat where "c001 = 5764607523034235 / 2 ^ 59"

lemma f001_eq: "f001 = Fin c001"
proof -
  have "round_half_even ((1 / 100) / pow2 (- 59)) = 5764607523034235"
    by (rule round_half_even_near) (simp add: pow2_def)
  then have "rnd64 (1 / 100) = Fin (of_int 5764607523034235 * pow2 (- 59))"
    by (intro rnd64_eqI) (simp_all add: pow2_def)
  then show ?thesis by (simp add: f001_def float_lit_def c001_def pow2_def)
qed

text \<open>The word of two bytes and its fields.\<close>

lemma dpt9_word_eq: "dpt9_word [h, l] = Inr (uint h * 256 + uint l)"
  using push_bit_or_int [of "uint l" 8 "uint h"] uint_byte_range [of l]
  by (simp add: dpt9_word_def byte_at_def)

lemma dpt9_fields:
  assumes "0 \<le> s" "s \<le> 1" "0 \<le> e" "e \<le> 15" "0 \<le> (x::int)" "x < 2048"
    and w: "w = s * 32768 + e * 2048 + x"
  shows "drop_bit 15 w AND 1 = s" "drop_bit 11 w AND 0x0F = e" "w AND 0x07FF = x"
    "0 \<le> w" "w < 65536"
proof -
  have split: "w = x + (s * 16 + e) * 2048" using w by simp
  have lo: "w div 2048 = s * 16 + e" "w mod 2048 = x"
    unfolding split using assms(5,6) by (simp_all only: div_mult_self1 mod_mult_self1) simp_all
  then show "w AND 0x07FF = x" by (simp add: and_masks)
  show "drop_bit 11 w AND 0x0F = e" using lo assms(3,4) by (simp add: and_masks drop_bit_eq_div)
  have "w div 32768 = w div 2048 div 16" by (simp add: zdiv_zmult2_eq [symmetric])
  with lo assms(3,4) have "w div 32768 = s" by simp
  then show "drop_bit 15 w AND 1 = s" using assms(1,2) by (simp add: and_masks drop_bit_eq_div)
  show "0 \<le> w" "w < 65536" using assms by linarith+
qed

lemma dpt9_mant_range: "0 \<le> w \<Longrightarrow> - 2048 \<le> dpt9_mant w \<and> dpt9_mant w \<le> 2047"
  using pos_mod_bound [of 2048 w] pos_mod_sign [of 2048 w]
  by (auto simp: dpt9_mant_def Let_def and_masks)

text \<open>The exact value of a payload in hundredths.\<close>

definition dpt9_hundredths :: "int \<Rightarrow> int" where
  "dpt9_hundredths w = dpt9_mant w * 2 ^ nat (drop_bit 11 w AND 0x0F)"

lemma dpt9_exponent_range: "0 \<le> drop_bit 11 w AND (0x0F::int) \<and> drop_bit 11 w AND (0x0F::int) \<le> 15"
  using pos_mod_bound [of 16 "drop_bit 11 w"] pos_mod_sign [of 16 "drop_bit 11 w"]
  by (simp add: and_masks)

text \<open>The float arithmetic of the decoder is exact up to the final rounding.\<close>

lemma dpt9_decode_arith:
  fixes m :: int
  assumes m: "- 2048 \<le> m" "m \<le> 2047" and e: "e \<le> 15"
  shows "round_digits (fmul (fmul f001 (Fin (of_int m))) (Fin (2 ^ e))) 4 = rnd64 (of_int (m * 2 ^ e) / 100)"
proof -
  let ?m = "of_int m :: rat" and ?p = "2 ^ e :: rat"
  have mb: "\<bar>?m\<bar> \<le> 2048" using m by (simp add: abs_le_iff)
  have p: "1 \<le> ?p" "?p \<le> 2 ^ 15" using e power_increasing [of e 15 "2::rat"] by simp_all
  have c: "\<bar>c001 - 1 / 100\<bar> \<le> 1 / 2 ^ 60" "0 < c001" "c001 \<le> 1 / 64" by (simp_all add: c001_def)
  have cm: "\<bar>c001 * ?m - ?m / 100\<bar> \<le> 1 / 2 ^ 49"
  proof -
    have "\<bar>c001 * ?m - ?m / 100\<bar> = \<bar>c001 - 1 / 100\<bar> * \<bar>?m\<bar>"
      by (simp add: abs_mult [symmetric] left_diff_distrib)
    also have "\<dots> \<le> 1 / 2 ^ 60 * 2048" using c(1) mb by (intro mult_mono) auto
    finally show ?thesis by simp
  qed
  have "\<bar>?m / 100\<bar> \<le> 21" using mb by simp
  moreover have "\<bar>c001 * ?m - ?m / 100\<bar> \<le> 1" using cm by (rule order_trans) simp
  ultimately have "\<bar>c001 * ?m\<bar> \<le> 22" by linarith
  then have "\<bar>c001 * ?m\<bar> < 2 ^ 5" by simp
  then obtain y where y: "rnd64 (c001 * ?m) = Fin y" "\<bar>y - c001 * ?m\<bar> \<le> pow2 (int 5 - 54)"
    by (rule rnd64_bounded_error) auto
  have ym: "\<bar>y - ?m / 100\<bar> \<le> 1 / 2 ^ 48"
    by (rule close_trans [OF y(2) cm]) (simp add: pow2_def)
  have yp: "\<bar>y * ?p - ?m / 100 * ?p\<bar> \<le> 1 / 2 ^ 33"
  proof -
    have "\<bar>y * ?p - ?m / 100 * ?p\<bar> = \<bar>y - ?m / 100\<bar> * ?p"
      by (simp only: left_diff_distrib [symmetric] abs_mult) simp
    also have "\<dots> \<le> 1 / 2 ^ 48 * 2 ^ 15" using ym p by (intro mult_mono) auto
    finally show ?thesis by simp
  qed
  have "\<bar>?m / 100 * ?p\<bar> \<le> 21 * 2 ^ 15"
    using \<open>\<bar>?m / 100\<bar> \<le> 21\<close> p by (simp only: abs_mult) (intro mult_mono, auto)
  moreover have "\<bar>y * ?p - ?m / 100 * ?p\<bar> \<le> 1" using yp by (rule order_trans) simp
  ultimately have "\<bar>y * ?p\<bar> < 2 ^ 20" by simp
  then obtain v where v: "rnd64 (y * ?p) = Fin v" "\<bar>v - y * ?p\<bar> \<le> pow2 (int 20 - 54)"
    by (rule rnd64_bounded_error) auto
  have "\<bar>v - ?m / 100 * ?p\<bar> \<le> 1 / 2 ^ 32"
    by (rule close_trans [OF v(2) yp]) (simp add: pow2_def)
  then have "\<bar>(v - ?m / 100 * ?p) * 10000\<bar> \<le> 1 / 2 ^ 32 * 10000"
    by (simp only: abs_mult abs_numeral) (rule mult_right_mono, assumption, simp)
  moreover have "(v - ?m / 100 * ?p) * 10000 = v * 10 ^ 4 - of_int (m * 2 ^ e * 100)"
    by (simp add: left_diff_distrib)
  ultimately have "\<bar>v * 10 ^ 4 - of_int (m * 2 ^ e * 100)\<bar> \<le> 1 / 2 ^ 32 * 10000" by (simp only:)
  then have "\<bar>v * 10 ^ 4 - of_int (m * 2 ^ e * 100)\<bar> < 1 / 2" by (rule le_less_trans) simp
  then have "round_half_even (v * 10 ^ 4) = m * 2 ^ e * 100" by (rule round_half_even_near)
  then show ?thesis using y(1) v(1) by (simp add: f001_eq)
qed

lemma dpt9_decode_value:
  "dpt9_decode [h, l] = Inr (PFloat (rnd64 (of_int (dpt9_hundredths (uint h * 256 + uint l)) / 100)))"
proof -
  define w where "w = uint h * 256 + uint l"
  define e where "e = nat (drop_bit 11 w AND 0x0F)"
  have w: "0 \<le> w" using uint_byte_range [of h] uint_byte_range [of l] by (simp add: w_def)
  have m: "- 2048 \<le> dpt9_mant w" "dpt9_mant w \<le> 2047" using dpt9_mant_range [OF w] by auto
  have e: "e \<le> 15" using dpt9_exponent_range [of w] by (simp add: e_def and_masks)
  have "(2::int) ^ e \<le> 2 ^ 15" using e by (intro power_increasing) auto
  then have "int_to_float (2 ^ e) = Inr (Fin (of_int (2 ^ e)))"
    by (intro int_to_float_exact) simp
  moreover have "int_to_float (dpt9_mant w) = Inr (Fin (of_int (dpt9_mant w)))"
    using m by (intro int_to_float_exact) simp
  ultimately show ?thesis
    using dpt9_decode_arith [OF m e]
    by (simp add: dpt9_decode_def dpt9_word_eq w_def [symmetric] e_def [symmetric]
        dpt9_hundredths_def del: round_digits.simps fmul.simps)
qed

text \<open>The loop finds an exponent that fits and loses nothing, when there is one.\<close>

lemma dpt9_norm_exact:
  assumes "- 2048 \<le> m" "m \<le> 2047" "e0 + j \<le> 15"
  shows "\<exists>m' e'. dpt9_norm pos (m * 2 ^ j) e0 = (m', e') \<and> - 2048 \<le> m' \<and> m' \<le> 2047
    \<and> e0 \<le> e' \<and> e' \<le> 15 \<and> m' * 2 ^ (e' - e0) = m * 2 ^ j"
  using assms(3)
proof (induction j arbitrary: e0)
  case 0
  then show ?case using assms by (simp add: dpt9_norm.simps)
next
  case (Suc j)
  show ?case
  proof (cases "m * 2 ^ Suc j > 2047 \<or> m * 2 ^ Suc j < - 2048")
    case True
    have half: "m * 2 ^ Suc j div 2 = m * 2 ^ j" by simp
    obtain m' e' where IH: "dpt9_norm pos (m * 2 ^ j) (e0 + 1) = (m', e')" "- 2048 \<le> m'" "m' \<le> 2047"
      "e0 + 1 \<le> e'" "e' \<le> 15" "m' * 2 ^ (e' - (e0 + 1)) = m * 2 ^ j"
      using Suc.IH [of "e0 + 1"] Suc.prems by auto
    have "e' - e0 = Suc (e' - (e0 + 1))" using IH(4) by simp
    then have "m' * 2 ^ (e' - e0) = m * 2 ^ Suc j" using IH(6) by simp
    moreover have "dpt9_norm pos (m * 2 ^ Suc j) e0 = (m', e')"
      using True Suc.prems by (subst dpt9_norm.simps) (simp only: half IH(1), simp)
    ultimately show ?thesis using IH by auto
  next
    case False
    then show ?thesis using Suc.prems by (subst dpt9_norm.simps) auto
  qed
qed

lemma dpt9_encode_word_fields:
  assumes "- 2048 \<le> m" "m \<le> 2047" "e \<le> 15"
  shows "dpt9_encode_word neg (m, e) = (if neg then 1 else 0) * 32768 + int e * 2048 + m mod 2048"
proof -
  define x where "x = m mod 2048"
  have x: "0 \<le> x" "x < 2048" by (simp_all add: x_def)
  have x': "(if m < 0 then m AND 2047 else m) AND 2047 = x"
    by (simp add: and_masks x_def)
  have e: "push_bit 11 (int e) OR x = int e * 2048 + x"
    using push_bit_or_int [of x 11 "int e"] x by simp
  have "push_bit 15 (if neg then 1 else 0 :: int) OR (int e * 2048 + x)
      = (if neg then 1 else 0) * 2 ^ 15 + (int e * 2048 + x)"
    using x assms(3) by (intro push_bit_or_int) auto
  then show ?thesis
    by (simp add: dpt9_encode_word_def x' e or.assoc x_def [symmetric] del: push_bit_of_0)
qed

text \<open>Two bytes of a word and back.\<close>

lemma dpt9_bytes:
  assumes "0 \<le> w" "w < 65536"
  shows "\<exists>h l. mk_bytes [drop_bit 8 w, w AND 0xFF] = Inr [h, l] \<and> uint h * 256 + uint l = w"
proof -
  have "0 \<le> w div 256" "w div 256 \<le> 255" "0 \<le> w mod 256" "w mod 256 \<le> 255"
    using assms pos_mod_bound [of 256 w] by (auto simp: pos_imp_zdiv_nonneg_iff)
  then show ?thesis
    by (intro exI [of _ "word_of_int (w div 256)"] exI [of _ "word_of_int (w mod 256)"])
      (simp add: mk_bytes_def and_masks drop_bit_eq_div uint_byte_small)
qed

lemma dpt9_encode_hundredths:
  assumes N: "N = m * 2 ^ e" "- 2048 \<le> m" "m \<le> 2047" "e \<le> 15"
    and z: "rnd64 (of_int N / 100) = Fin z"
    and mant: "rbind (fdiv (Fin z) f001) round_float = Inr N"
    and sgn: "z < 0 \<longleftrightarrow> N < 0" "0 < z \<longleftrightarrow> 0 < N"
  shows "\<exists>h l. dpt9_encode (PFloat (Fin z)) = Inr [h, l]
    \<and> dpt9_hundredths (uint h * 256 + uint l) = N"
proof -
  obtain m' e' where n: "dpt9_norm (0 < N) N 0 = (m', e')" "- 2048 \<le> m'" "m' \<le> 2047"
      "e' \<le> 15" "m' * 2 ^ e' = N"
    using dpt9_norm_exact [of m 0 e "0 < N"] N by auto
  have neg: "N < 0 \<longleftrightarrow> m' < 0" using n(5) by (auto simp: mult_less_0_iff)
  define w where "w = dpt9_encode_word (N < 0) (m', e')"
  define s where "s = (if N < 0 then 1 else (0::int))"
  have s: "0 \<le> s" "s \<le> 1" by (simp_all add: s_def)
  have w: "w = s * 32768 + int e' * 2048 + m' mod 2048"
    unfolding w_def s_def by (rule dpt9_encode_word_fields) (use n in auto)
  have f: "drop_bit 15 w AND 1 = s" "drop_bit 11 w AND 0x0F = int e'"
    "w AND 0x07FF = m' mod 2048" "0 \<le> w" "w < 65536"
    using dpt9_fields [OF s _ _ _ _ w] n(4) by simp_all
  have "m' mod 2048 = (if m' < 0 then m' + 2048 else m')"
  proof (cases "m' < 0")
    case True
    then have "(m' + 2048) mod 2048 = m' + 2048" using n by (intro mod_pos_pos_trivial) auto
    with True show ?thesis by simp
  qed (use n in simp)
  then have "dpt9_mant w = m'"
    using neg by (simp add: dpt9_mant_def Let_def f(1,3) s_def)
  then have hund: "dpt9_hundredths w = N" using n(5) by (simp add: dpt9_hundredths_def f(2))
  obtain q where q: "fdiv (Fin z) f001 = Inr q" "round_float q = Inr N"
    using mant by (auto simp: rbind_eq_Inr)
  obtain h l where "mk_bytes [drop_bit 8 w, w AND 0xFF] = Inr [h, l]" "uint h * 256 + uint l = w"
    using dpt9_bytes [OF f(4,5)] by blast
  then show ?thesis
    using q hund sgn n(1) by (simp add: dpt9_encode_def w_def Let_def)
qed

lemma dpt9_quotient:
  assumes "\<bar>N\<bar> \<le> 2 ^ 26"
  shows "\<exists>z. rnd64 (of_int N / 100) = Fin z \<and> rbind (fdiv (Fin z) f001) round_float = Inr N
    \<and> (z < 0 \<longleftrightarrow> N < 0) \<and> (0 < z \<longleftrightarrow> 0 < N)"
proof -
  let ?N = "of_int N :: rat"
  have "(of_int \<bar>N\<bar> :: rat) \<le> of_int (2 ^ 26)" using assms by (simp only: of_int_le_iff)
  then have N: "\<bar>?N\<bar> \<le> 2 ^ 26" by simp
  then have "\<bar>?N / 100\<bar> < 2 ^ 20" by simp
  then obtain z where z: "rnd64 (?N / 100) = Fin z" "\<bar>z - ?N / 100\<bar> \<le> pow2 (int 20 - 54)"
    by (rule rnd64_bounded_error) auto
  have zN: "\<bar>z - ?N / 100\<bar> \<le> 1 / 2 ^ 34" using z(2) by (simp add: pow2_def)
  have c: "\<bar>1 / 100 - c001\<bar> \<le> 1 / 2 ^ 60" "1 / 128 \<le> c001" by (simp_all add: c001_def)
  have "\<bar>?N / 100 - ?N * c001\<bar> = \<bar>?N\<bar> * \<bar>1 / 100 - c001\<bar>"
    by (simp only: abs_mult [symmetric]) (simp add: right_diff_distrib)
  also have "\<dots> \<le> 2 ^ 26 * (1 / 2 ^ 60)" using N c(1) by (intro mult_mono) auto
  finally have "\<bar>?N / 100 - ?N * c001\<bar> \<le> 2 ^ 26 * (1 / 2 ^ 60)" .
  then have zc: "\<bar>z - ?N * c001\<bar> \<le> 1 / 2 ^ 33"
    by (rule close_trans [OF zN]) simp
  have "\<bar>z / c001 - ?N\<bar> = \<bar>z - ?N * c001\<bar> / c001"
  proof -
    have "z / c001 - ?N = (z - ?N * c001) / c001" using c(2) by (simp add: field_simps)
    then show ?thesis using c(2) by (simp add: abs_divide)
  qed
  also have "\<dots> \<le> (1 / 2 ^ 33) / (1 / 128)" using zc c(2) by (intro frac_le) auto
  finally have quot: "\<bar>z / c001 - ?N\<bar> \<le> 1 / 2 ^ 26" by simp
  moreover have "\<bar>z / c001 - ?N\<bar> \<le> 1" using quot by (rule order_trans) simp
  moreover have "\<bar>?N\<bar> \<le> 67108864" using N by simp
  ultimately have "\<bar>z / c001\<bar> \<le> 67108865" by linarith
  then have "\<bar>z / c001\<bar> < 2 ^ 27" by (rule le_less_trans) simp
  then obtain v where v: "rnd64 (z / c001) = Fin v" "\<bar>v - z / c001\<bar> \<le> pow2 (int 27 - 54)"
    by (rule rnd64_bounded_error) auto
  have "\<bar>v - ?N\<bar> \<le> 1 / 2 ^ 25"
    by (rule close_trans [OF v(2) quot]) (simp add: pow2_def)
  then have "\<bar>v - ?N\<bar> < 1 / 2" by (rule le_less_trans) simp
  then have round: "round_half_even v = N" by (rule round_half_even_near)
  have z_close: "\<bar>z - ?N / 100\<bar> \<le> 1 / 200" using zN by (rule order_trans) simp
  have sgn: "(z < 0 \<longleftrightarrow> N < 0) \<and> (0 < z \<longleftrightarrow> 0 < N)"
  proof (cases N "0 :: int" rule: linorder_cases)
    case less
    then have "?N \<le> of_int (- 1)" by (simp only: of_int_le_iff)
    then have "?N \<le> - 1" by simp
    with z_close less show ?thesis by linarith
  next
    case equal
    with z(1) show ?thesis by simp
  next
    case greater
    then have "1 \<le> ?N" by simp
    with z_close greater show ?thesis by linarith
  qed
  have "rbind (fdiv (Fin z) f001) round_float = Inr N"
    using v(1) round c(2) by (simp add: f001_eq round_float_def)
  with z(1) sgn show ?thesis by blast
qed

text \<open>
  A KNX float keeps its value: whatever two bytes a DPT 9 telegram carries, decoding them gives
  the float nearest to mantissa times two to the exponent in hundredths, and encoding that float gives bytes that decode to the same value again.
\<close>

theorem dpt9_reencode_keeps_value:
  "\<exists>x h' l'. dpt9_decode [h, l] = Inr (PFloat x)
     \<and> x = rnd64 (of_int (dpt9_hundredths (uint h * 256 + uint l)) / 100)
     \<and> dpt9_encode (PFloat x) = Inr [h', l'] \<and> dpt9_decode [h', l'] = Inr (PFloat x)"
proof -
  define w where "w = uint h * 256 + uint l"
  define e where "e = nat (drop_bit 11 w AND 0x0F)"
  define N where "N = dpt9_hundredths w"
  have w: "0 \<le> w" using uint_byte_range [of h] uint_byte_range [of l] by (simp add: w_def)
  have m: "- 2048 \<le> dpt9_mant w" "dpt9_mant w \<le> 2047" using dpt9_mant_range [OF w] by auto
  have e: "e \<le> 15" using dpt9_exponent_range [of w] by (simp add: e_def and_masks)
  have N: "N = dpt9_mant w * 2 ^ e" by (simp add: N_def dpt9_hundredths_def e_def)
  have "\<bar>N\<bar> = \<bar>dpt9_mant w\<bar> * 2 ^ e" by (simp add: N abs_mult)
  also have "\<dots> \<le> 2 ^ 11 * 2 ^ 15" using m e power_increasing [of e 15 "2::int"] by (intro mult_mono) auto
  finally obtain z where z: "rnd64 (of_int N / 100) = Fin z"
    "rbind (fdiv (Fin z) f001) round_float = Inr N" "z < 0 \<longleftrightarrow> N < 0" "0 < z \<longleftrightarrow> 0 < N"
    using dpt9_quotient [of N] by auto
  obtain h' l' where enc: "dpt9_encode (PFloat (Fin z)) = Inr [h', l']"
    "dpt9_hundredths (uint h' * 256 + uint l') = N"
    using dpt9_encode_hundredths [OF N m e z] by blast
  show ?thesis
    using dpt9_decode_value [of h l] dpt9_decode_value [of h' l'] enc z(1)
    by (auto simp: w_def [symmetric] N_def [symmetric])
qed

text \<open>
  C35. Between minus half a hundredth and zero the encoder loses the value: the sign bit is taken
  from the float but the mantissa rounds to zero, and the pattern "negative, mantissa zero" reads
  as -20.48.
\<close>

theorem dpt9_tiny_negative_misread:
  assumes "- 1 / 250 \<le> q" and "q < 0"
  shows "dpt9_encode (PFloat (Fin q)) = Inr [0x80, 0x00]
    \<and> dpt9_decode [0x80, 0x00] = Inr (PFloat (rnd64 (- 2048 / 100)))"
proof -
  have c: "1 / 101 \<le> c001" by (simp add: c001_def)
  have "q / c001 \<le> 0" using assms c by (simp add: divide_nonpos_pos)
  moreover have "- (41 / 100) \<le> q / c001"
  proof -
    have "- (41 / 100) * c001 \<le> - (41 / 100) * (1 / 101)" using c by simp
    also have "\<dots> \<le> q" using assms(1) by simp
    finally show ?thesis using c by (simp add: pos_le_divide_eq)
  qed
  ultimately have "\<bar>q / c001\<bar> \<le> 41 / 100" by linarith
  moreover from this have "\<bar>q / c001\<bar> < 2 ^ 0" by (rule le_less_trans) simp
  then obtain v where v: "rnd64 (q / c001) = Fin v" "\<bar>v - q / c001\<bar> \<le> pow2 (int 0 - 54)"
    by (rule rnd64_bounded_error) auto
  ultimately have "\<bar>v - 0\<bar> \<le> 45 / 100"
    by (intro close_trans [of v "q / c001" "pow2 (int 0 - 54)" 0 "41 / 100"]) (simp_all add: pow2_def)
  then have "\<bar>v - of_int 0\<bar> < 1 / 2" by simp
  then have "round_half_even v = 0" by (rule round_half_even_near)
  moreover have "dpt9_norm False 0 0 = (0, 0)" by (simp add: dpt9_norm.simps [of False 0 0])
  moreover have "dpt9_encode_word True (0, 0) = 32768" using dpt9_encode_word_fields [of 0 0 True] by simp
  moreover have "mk_bytes [drop_bit 8 32768, 32768 AND 0xFF] = Inr [0x80, 0x00]"
    by (simp add: mk_bytes_def drop_bit_eq_div and_masks)
  ultimately have "dpt9_encode (PFloat (Fin q)) = Inr [0x80, 0x00]"
    using v(1) c assms(2) by (simp add: dpt9_encode_def f001_eq round_float_def Let_def)
  moreover have "dpt9_hundredths 32768 = - 2048"
    by (simp add: dpt9_hundredths_def dpt9_mant_def drop_bit_eq_div and_masks)
  ultimately show ?thesis using dpt9_decode_value [of "0x80" 0] by simp
qed

theorem dpt9_tiny_negative_misread_witness:
  "dpt9_encode (PFloat (Fin (- 1 / 1000))) = Inr [0x80, 0x00]
    \<and> dpt9_decode [0x80, 0x00] = Inr (PFloat (rnd64 (- 2048 / 100)))"
  by (rule dpt9_tiny_negative_misread) simp_all

end
