(* ===== verification/Json.thy ===== *)
theory Json
  imports Py_Value
begin

text \<open>
  \<open>json.loads\<close> and \<open>json.dumps\<close> of the standard library, as far as the modelled code uses them:
  the default options, text of code points up to U+00FF.  An escape beyond U+00FF has no value of
  the model and counts as malformed; the limits CPython sets on nesting depth and on the digits of
  an integer are not modelled.
\<close>

section \<open>Reading\<close>

definition is_json_ws :: "char \<Rightarrow> bool" where
  "is_json_ws c \<longleftrightarrow> code c \<in> {32, 9, 10, 13}"

definition skip_ws :: "string \<Rightarrow> string" where
  "skip_ws s = dropWhile is_json_ws s"

definition strip_prefix :: "string \<Rightarrow> string \<Rightarrow> string option" where
  "strip_prefix p s = (if take (length p) s = p then Some (drop (length p) s) else None)"

text \<open>A number: its integer part, and its fraction and exponent where they are well formed.\<close>

definition digits_opt :: "string \<Rightarrow> string \<times> string" where
  "digits_opt s = (takeWhile is_dec s, dropWhile is_dec s)"

definition frac_part :: "string \<Rightarrow> string \<times> string" where
  "frac_part s =
     (case s of
        [] \<Rightarrow> ([], [])
      | c # cs \<Rightarrow>
          if c = CHR ''.'' \<and> takeWhile is_dec cs \<noteq> []
          then (c # takeWhile is_dec cs, dropWhile is_dec cs) else ([], s))"

definition exp_part :: "string \<Rightarrow> string \<times> string" where
  "exp_part s =
     (case s of
        [] \<Rightarrow> ([], [])
      | c # cs \<Rightarrow>
          if c = CHR ''e'' \<or> c = CHR ''E'' then
            (let (sg, r) = (case cs of
                 d # ds \<Rightarrow> if d = CHR ''+'' \<or> d = CHR ''-'' then ([d], ds) else ([], cs)
               | [] \<Rightarrow> ([], []))
             in if takeWhile is_dec r \<noteq> [] then (c # sg @ takeWhile is_dec r, dropWhile is_dec r)
                else ([], s))
          else ([], s))"

definition int_part :: "string \<Rightarrow> (string \<times> string) option" where
  "int_part s =
     (case s of
        [] \<Rightarrow> None
      | c # cs \<Rightarrow>
          if c = CHR ''0'' then Some ([c], cs)
          else if is_dec c then Some (c # takeWhile is_dec cs, dropWhile is_dec cs) else None)"

definition json_number :: "string \<Rightarrow> (pyval \<times> string) option" where
  "json_number s =
     (let (neg, r) = (case s of c # cs \<Rightarrow> if c = CHR ''-'' then (True, cs) else (False, s)
                       | [] \<Rightarrow> (False, []))
      in case int_part r of
           None \<Rightarrow> None
         | Some (ip, r1) \<Rightarrow>
             (let (fp, r2) = frac_part r1; (ep, r3) = exp_part r2
              in if fp = [] \<and> ep = [] then
                   Some (PInt (if neg then - int (dec_val ip) else int (dec_val ip)), r1)
                 else (case parse_float ((if neg then ''-'' else []) @ ip @ fp @ ep) of
                         None \<Rightarrow> None
                       | Some x \<Rightarrow> Some (PFloat x, r3))))"

text \<open>The rest of a string literal after its opening quote.\<close>

definition hex_val :: "char \<Rightarrow> nat option" where
  "hex_val c =
     (let n = code c
      in if 48 \<le> n \<and> n \<le> 57 then Some (n - 48)
         else if 97 \<le> n \<and> n \<le> 102 then Some (n - 87)
         else if 65 \<le> n \<and> n \<le> 70 then Some (n - 55) else None)"

definition simple_escape :: "char \<Rightarrow> char option" where
  "simple_escape c =
     (let n = code c
      in if n \<in> {34, 47, 92} then Some c
         else if n = 98 then Some (char_of (8::nat))
         else if n = 102 then Some (char_of (12::nat))
         else if n = 110 then Some (char_of (10::nat))
         else if n = 114 then Some (char_of (13::nat))
         else if n = 116 then Some (char_of (9::nat)) else None)"

definition hex_escape :: "char \<Rightarrow> char \<Rightarrow> char \<Rightarrow> char \<Rightarrow> char option" where
  "hex_escape a b c d =
     (case (hex_val a, hex_val b, hex_val c, hex_val d) of
        (Some 0, Some 0, Some x, Some y) \<Rightarrow> Some (char_of (16 * x + y))
      | _ \<Rightarrow> None)"

fun json_string :: "string \<Rightarrow> (string \<times> string) option" where
  "json_string [] = None"
| "json_string (c # cs) =
     (if code c = 34 then Some ([], cs)
      else if code c < 32 then None
      else if code c \<noteq> 92 then map_option (\<lambda>(t, r). (c # t, r)) (json_string cs)
      else (case cs of
              [] \<Rightarrow> None
            | e # es \<Rightarrow>
                if code e = 117 then
                  (case es of
                     h1 # h2 # h3 # h4 # r \<Rightarrow>
                       (case hex_escape h1 h2 h3 h4 of
                          None \<Rightarrow> None
                        | Some x \<Rightarrow> map_option (\<lambda>(t, r'). (x # t, r')) (json_string r))
                   | _ \<Rightarrow> None)
                else
                  (case simple_escape e of
                     None \<Rightarrow> None
                   | Some x \<Rightarrow> map_option (\<lambda>(t, r). (x # t, r)) (json_string es))))"

definition json_word :: "string \<Rightarrow> (pyval \<times> string) option" where
  "json_word s =
     (case strip_prefix ''null'' s of Some r \<Rightarrow> Some (PNone, r) | None \<Rightarrow>
      (case strip_prefix ''true'' s of Some r \<Rightarrow> Some (PBool True, r) | None \<Rightarrow>
      (case strip_prefix ''false'' s of Some r \<Rightarrow> Some (PBool False, r) | None \<Rightarrow>
      (case strip_prefix ''NaN'' s of Some r \<Rightarrow> Some (PFloat NaN, r) | None \<Rightarrow>
      (case strip_prefix ''Infinity'' s of Some r \<Rightarrow> Some (PFloat PosInf, r) | None \<Rightarrow>
      (case strip_prefix ''-Infinity'' s of Some r \<Rightarrow> Some (PFloat NegInf, r) | None \<Rightarrow>
       json_number s))))))"

text \<open>
  A value, the members of an object and the items of an array after their opening bracket.  Every
  call consumes a character, so a fuel of the length of the text is enough.
\<close>

fun json_value :: "nat \<Rightarrow> string \<Rightarrow> (pyval \<times> string) option"
and json_members :: "nat \<Rightarrow> (string \<times> pyval) list \<Rightarrow> string \<Rightarrow> (pyval \<times> string) option"
and json_items :: "nat \<Rightarrow> pyval list \<Rightarrow> string \<Rightarrow> (pyval \<times> string) option" where
  "json_value 0 s = None"
| "json_value (Suc n) s =
     (case s of
        [] \<Rightarrow> None
      | c # cs \<Rightarrow>
          if code c = 34 then map_option (\<lambda>(t, r). (PStr t, r)) (json_string cs)
          else if c = CHR ''{'' then
            (case skip_ws cs of
               [] \<Rightarrow> None
             | d # ds \<Rightarrow> if d = CHR ''}'' then Some (PDict [], ds) else json_members n [] (d # ds))
          else if c = CHR ''['' then
            (case skip_ws cs of
               [] \<Rightarrow> None
             | d # ds \<Rightarrow> if d = CHR '']'' then Some (PList [], ds) else json_items n [] (d # ds))
          else json_word s)"
| "json_members 0 kvs s = None"
| "json_members (Suc n) kvs s =
     (case s of
        [] \<Rightarrow> None
      | c # cs \<Rightarrow>
          if code c \<noteq> 34 then None
          else (case json_string cs of
                  None \<Rightarrow> None
                | Some (k, r) \<Rightarrow>
                    (case skip_ws r of
                       [] \<Rightarrow> None
                     | d # ds \<Rightarrow>
                         if d \<noteq> CHR '':'' then None
                         else (case json_value n (skip_ws ds) of
                                 None \<Rightarrow> None
                               | Some (v, r2) \<Rightarrow>
                                   (let kvs' = assoc_set k v kvs
                                    in case skip_ws r2 of
                                         [] \<Rightarrow> None
                                       | e # es \<Rightarrow>
                                           if e = CHR ''}'' then Some (PDict kvs', es)
                                           else if e = CHR '','' then json_members n kvs' (skip_ws es)
                                           else None)))))"
| "json_items 0 xs s = None"
| "json_items (Suc n) xs s =
     (case json_value n s of
        None \<Rightarrow> None
      | Some (v, r) \<Rightarrow>
          (case skip_ws r of
             [] \<Rightarrow> None
           | e # es \<Rightarrow>
               if e = CHR '']'' then Some (PList (xs @ [v]), es)
               else if e = CHR '','' then json_items n (xs @ [v]) (skip_ws es)
               else None))"

definition json_loads :: "string \<Rightarrow> (pyerr, pyval) result" where
  "json_loads s =
     (case json_value (2 * length s + 2) (skip_ws s) of
        Some (v, r) \<Rightarrow> if skip_ws r = [] then Inr v else Inl ValueError
      | None \<Rightarrow> Inl ValueError)"

section \<open>Writing\<close>

definition json_escape :: "char \<Rightarrow> string" where
  "json_escape c =
     (let n = code c; bs = char_of (92 :: nat)
      in if n = 34 \<or> n = 92 then [bs, c]
         else if n = 10 then [bs, CHR ''n''] else if n = 13 then [bs, CHR ''r'']
         else if n = 9 then [bs, CHR ''t''] else if n = 12 then [bs, CHR ''f'']
         else if n = 8 then [bs, CHR ''b'']
         else if n < 32 \<or> 126 < n then [bs, CHR ''u''] @ ''00'' @ hex2 n
         else [c])"

definition json_quote :: "string \<Rightarrow> string" where
  "json_quote s = [char_of (34 :: nat)] @ concat (map json_escape s) @ [char_of (34 :: nat)]"

definition json_float :: "pyfloat \<Rightarrow> string" where
  "json_float x =
     (case x of NaN \<Rightarrow> ''NaN'' | PosInf \<Rightarrow> ''Infinity'' | NegInf \<Rightarrow> ''-Infinity''
      | Fin q \<Rightarrow> repr_float (Fin q))"

fun json_dumps :: "pyval \<Rightarrow> (pyerr, string) result"
and json_dumps_list :: "pyval list \<Rightarrow> (pyerr, string list) result"
and json_dumps_members :: "(string \<times> pyval) list \<Rightarrow> (pyerr, string list) result" where
  "json_dumps PNone = Inr ''null''"
| "json_dumps (PBool b) = Inr (if b then ''true'' else ''false'')"
| "json_dumps (PInt i) = Inr (show_int i)"
| "json_dumps (PFloat x) = Inr (json_float x)"
| "json_dumps (PStr s) = Inr (json_quote s)"
| "json_dumps (PList xs) =
     rbind (json_dumps_list xs) (\<lambda>ss. Inr (''['' @ join_with '', '' ss @ '']''))"
| "json_dumps (PDict kvs) =
     rbind (json_dumps_members kvs) (\<lambda>ss. Inr (''{'' @ join_with '', '' ss @ ''}''))"
| "json_dumps (PBytes _) = Inl TypeError"
| "json_dumps (PDate _ _ _) = Inl TypeError"
| "json_dumps (PTime _ _ _) = Inl TypeError"
| "json_dumps (PDateTime _ _ _ _ _ _) = Inl TypeError"
| "json_dumps_list [] = Inr []"
| "json_dumps_list (x # xs) =
     rbind (json_dumps x) (\<lambda>s. rbind (json_dumps_list xs) (\<lambda>ss. Inr (s # ss)))"
| "json_dumps_members [] = Inr []"
| "json_dumps_members ((k, x) # kvs) =
     rbind (json_dumps x) (\<lambda>s.
       rbind (json_dumps_members kvs) (\<lambda>ss. Inr ((json_quote k @ '': '' @ s) # ss)))"

end
