(* ===== verification/Dpt_Registry.thy ===== *)
theory Dpt_Registry
  imports Dpt_Codec Json
begin

text \<open>
  The registry of KNX datapoint types (\<open>obs/adapters/knx/dpt_registry.py\<close>): the built-in table, in
  the order of the file, and the class methods that read it.  The callables a definition holds are
  named by a tag; \<open>run_encoder\<close> and \<open>run_decoder\<close> are their bodies.  Names and units are the UTF-8
  bytes of the source.
\<close>

section \<open>Definitions\<close>

datatype codec =
    C1 | C2 | C3 | C4_001 | C4_002 | C5_Percent | C5_Angle | C5_Raw | C6 | C7 | C8 | C9 | C10 | C11
  | C12 | C13 | C14 | C16 | C17 | C18 | C19 | C20 | C29 | C219 | C240_800 | C_Unknown

record dpt_def =
  dpt_id :: string
  dpt_name :: string
  data_type :: string
  dpt_unit :: string
  size_bytes :: nat
  encoder :: codec
  decoder :: codec

definition def_of :: "string \<Rightarrow> string \<Rightarrow> string \<Rightarrow> string \<Rightarrow> nat \<Rightarrow> codec \<Rightarrow> codec \<Rightarrow> dpt_def" where
  "def_of i n t u k e d =
     \<lparr>dpt_id = i, dpt_name = n, data_type = t, dpt_unit = u, size_bytes = k, encoder = e, decoder = d\<rparr>"

lemma def_of_simps [simp]:
  "dpt_id (def_of i n t u k e d) = i"
  "dpt_name (def_of i n t u k e d) = n"
  "data_type (def_of i n t u k e d) = t"
  "dpt_unit (def_of i n t u k e d) = u"
  "size_bytes (def_of i n t u k e d) = k"
  "encoder (def_of i n t u k e d) = e"
  "decoder (def_of i n t u k e d) = d"
  by (simp_all add: def_of_def)

section \<open>The codecs by name\<close>

definition unknown_encode :: "pyval \<Rightarrow> byte list" where
  "unknown_encode v = (case v of PBytes b \<Rightarrow> b | _ \<Rightarrow> encode_utf8 (py_str v))"

definition dpt240_800_encode :: "pyval \<Rightarrow> (pyerr, byte list) result" where
  "dpt240_800_encode v =
     rbind (case v of PStr s \<Rightarrow> json_loads s | _ \<Rightarrow> Inr v) dpt240_800_encode_value"

fun run_encoder :: "host \<Rightarrow> codec \<Rightarrow> pyval \<Rightarrow> (pyerr, byte list) result" where
  "run_encoder h C1 v = dpt1_encode v"
| "run_encoder h C2 v = dpt2_encode v"
| "run_encoder h C3 v = dpt3_encode v"
| "run_encoder h C4_001 v = Inr (dpt4_001_encode v)"
| "run_encoder h C4_002 v = Inr (dpt4_002_encode v)"
| "run_encoder h C5_Percent v = dpt5_encode_percent v"
| "run_encoder h C5_Angle v = dpt5_encode_angle v"
| "run_encoder h C5_Raw v = dpt5_encode_raw v"
| "run_encoder h C6 v = dpt6_encode v"
| "run_encoder h C7 v = dpt7_encode v"
| "run_encoder h C8 v = dpt8_encode v"
| "run_encoder h C9 v = dpt9_encode v"
| "run_encoder h C10 v = dpt10_encode h v"
| "run_encoder h C11 v = dpt11_encode h v"
| "run_encoder h C12 v = dpt12_encode v"
| "run_encoder h C13 v = dpt13_encode v"
| "run_encoder h C14 v = dpt14_encode v"
| "run_encoder h C16 v = Inr (dpt16_encode v)"
| "run_encoder h C17 v = dpt17_encode v"
| "run_encoder h C18 v = dpt18_encode v"
| "run_encoder h C19 v = dpt19_encode h v"
| "run_encoder h C20 v = dpt20_encode v"
| "run_encoder h C29 v = dpt29_encode v"
| "run_encoder h C219 v = dpt219_encode v"
| "run_encoder h C240_800 v = dpt240_800_encode v"
| "run_encoder h C_Unknown v = Inr (unknown_encode v)"

text \<open>A decoder gives a value, or text as its code points.\<close>

datatype decoded = Value pyval | Text "nat list"

definition as_value :: "(pyerr, pyval) result \<Rightarrow> (pyerr, decoded) result" where
  "as_value r = rbind r (\<lambda>v. Inr (Value v))"

fun run_decoder :: "codec \<Rightarrow> byte list \<Rightarrow> (pyerr, decoded) result" where
  "run_decoder C1 b = as_value (dpt1_decode b)"
| "run_decoder C2 b = as_value (dpt2_decode b)"
| "run_decoder C3 b = as_value (dpt3_decode b)"
| "run_decoder C4_001 b = Inr (Text (dpt4_001_decode b))"
| "run_decoder C4_002 b = Inr (Text (dpt4_002_decode b))"
| "run_decoder C5_Percent b = as_value (dpt5_decode_percent b)"
| "run_decoder C5_Angle b = as_value (dpt5_decode_angle b)"
| "run_decoder C5_Raw b = as_value (dpt5_decode_raw b)"
| "run_decoder C6 b = as_value (dpt6_decode b)"
| "run_decoder C7 b = as_value (dpt7_decode b)"
| "run_decoder C8 b = as_value (dpt8_decode b)"
| "run_decoder C9 b = as_value (dpt9_decode b)"
| "run_decoder C10 b = as_value (dpt10_decode b)"
| "run_decoder C11 b = as_value (dpt11_decode b)"
| "run_decoder C12 b = as_value (dpt12_decode b)"
| "run_decoder C13 b = as_value (dpt13_decode b)"
| "run_decoder C14 b = as_value (dpt14_decode b)"
| "run_decoder C16 b = Inr (Text (dpt16_decode b))"
| "run_decoder C17 b = as_value (dpt17_decode b)"
| "run_decoder C18 b = as_value (dpt18_decode b)"
| "run_decoder C19 b = Inr (Value (PStr (dpt19_decode b)))"
| "run_decoder C20 b = as_value (dpt20_decode b)"
| "run_decoder C29 b = as_value (dpt29_decode b)"
| "run_decoder C219 b = as_value (dpt219_decode b)"
| "run_decoder C240_800 b = as_value (dpt240_800_decode b)"
| "run_decoder C_Unknown b = Inr (Value (PStr (bytes_hex b)))"

definition unknown_dpt :: dpt_def where
  "unknown_dpt = def_of ''UNKNOWN'' ''Unknown'' ''UNKNOWN'' '''' 0 C_Unknown C_Unknown"

section \<open>The class methods\<close>

type_synonym dpt_table = "(string \<times> dpt_def) list"

definition dpt_register :: "dpt_def \<Rightarrow> dpt_table \<Rightarrow> dpt_table" where
  "dpt_register d reg = assoc_set (dpt_id d) d reg"

definition dpt_get :: "dpt_table \<Rightarrow> string \<Rightarrow> dpt_def" where
  "dpt_get reg i = (case map_of reg i of None \<Rightarrow> unknown_dpt | Some d \<Rightarrow> d)"

definition dpt_all :: "dpt_table \<Rightarrow> dpt_table" where
  "dpt_all reg = reg"

definition dpt_by_data_type :: "dpt_table \<Rightarrow> string \<Rightarrow> dpt_def list" where
  "dpt_by_data_type reg t = filter (\<lambda>d. data_type d = t) (map snd reg)"

definition starts_with :: "string \<Rightarrow> string \<Rightarrow> bool" where
  "starts_with s p \<longleftrightarrow> take (length p) s = p"

definition keeps_stored_subtype :: "string option \<Rightarrow> string option \<Rightarrow> bool" where
  "keeps_stored_subtype new stored =
     (case (new, stored) of
        (Some n, Some s) \<Rightarrow>
          n \<noteq> [] \<and> s \<noteq> [] \<and> CHR ''.'' \<notin> set n \<and> starts_with s (n @ ''.'')
      | _ \<Rightarrow> False)"

section \<open>The built-in table\<close>

definition dpt_defs_1 :: "dpt_def list" where
  "dpt_defs_1 =
    [def_of ''DPT1.001'' ''Switch'' ''BOOLEAN'' '''' 1 C1 C1,
     def_of ''DPT1.002'' ''Bool'' ''BOOLEAN'' '''' 1 C1 C1,
     def_of ''DPT1.003'' ''Enable'' ''BOOLEAN'' '''' 1 C1 C1,
     def_of ''DPT1.004'' ''Ramp'' ''BOOLEAN'' '''' 1 C1 C1,
     def_of ''DPT1.005'' ''Alarm'' ''BOOLEAN'' '''' 1 C1 C1,
     def_of ''DPT1.006'' ''Binary Value'' ''BOOLEAN'' '''' 1 C1 C1,
     def_of ''DPT1.007'' ''Step'' ''BOOLEAN'' '''' 1 C1 C1,
     def_of ''DPT1.008'' ''Up/Down'' ''BOOLEAN'' '''' 1 C1 C1,
     def_of ''DPT1.009'' ''Open/Close'' ''BOOLEAN'' '''' 1 C1 C1,
     def_of ''DPT1.010'' ''Start/Stop'' ''BOOLEAN'' '''' 1 C1 C1,
     def_of ''DPT1.011'' ''State'' ''BOOLEAN'' '''' 1 C1 C1,
     def_of ''DPT1.012'' ''Invert'' ''BOOLEAN'' '''' 1 C1 C1,
     def_of ''DPT1.013'' ''Dim Send Style'' ''BOOLEAN'' '''' 1 C1 C1,
     def_of ''DPT1.014'' ''Input Source'' ''BOOLEAN'' '''' 1 C1 C1,
     def_of ''DPT1.015'' ''Reset'' ''BOOLEAN'' '''' 1 C1 C1,
     def_of ''DPT1.016'' ''Ack'' ''BOOLEAN'' '''' 1 C1 C1,
     def_of ''DPT1.017'' ''Trigger'' ''BOOLEAN'' '''' 1 C1 C1,
     def_of ''DPT1.018'' ''Occupancy'' ''BOOLEAN'' '''' 1 C1 C1,
     def_of ''DPT1.019'' ''Window/Door'' ''BOOLEAN'' '''' 1 C1 C1,
     def_of ''DPT1.021'' ''Logical Function'' ''BOOLEAN'' '''' 1 C1 C1,
     def_of ''DPT1.022'' ''Scene A/B'' ''BOOLEAN'' '''' 1 C1 C1,
     def_of ''DPT1.023'' ''Shutter/Blinds Mode'' ''BOOLEAN'' '''' 1 C1 C1,
     def_of ''DPT1.024'' ''Day/Night'' ''BOOLEAN'' '''' 1 C1 C1,
     def_of ''DPT3.007'' ''Dimming'' ''INTEGER'' '''' 1 C3 C3,
     def_of ''DPT3.008'' ''Blinds'' ''INTEGER'' '''' 1 C3 C3,
     def_of ''DPT5.001'' ''Scaling (0-100%)'' ''FLOAT'' ''%'' 1 C5_Percent C5_Percent,
     def_of ''DPT5.003'' ''Angle'' ''FLOAT'' ([CHR 0xC2] @ [CHR 0xB0]) 1 C5_Angle C5_Angle,
     def_of ''DPT5.004'' ''Percent (0-255%)'' ''INTEGER'' ''%'' 1 C5_Raw C5_Raw,
     def_of ''DPT5.005'' ''Decimal Factor'' ''INTEGER'' '''' 1 C5_Raw C5_Raw,
     def_of ''DPT5.006'' ''Tariff'' ''INTEGER'' '''' 1 C5_Raw C5_Raw,
     def_of ''DPT5.010'' ''Counter Pulses'' ''INTEGER'' '''' 1 C5_Raw C5_Raw,
     def_of ''DPT6.001'' ''Percent (signed)'' ''INTEGER'' ''%'' 1 C6 C6,
     def_of ''DPT6.010'' ''Counter Pulses (signed)'' ''INTEGER'' '''' 1 C6 C6,
     def_of ''DPT7.001'' ''Counter Pulses'' ''INTEGER'' '''' 2 C7 C7,
     def_of ''DPT7.002'' ''Time Period (ms)'' ''INTEGER'' ''ms'' 2 C7 C7,
     def_of ''DPT7.003'' (''Time Period ('' @ [CHR 0xC3] @ [CHR 0x97] @ ''10 ms)'') ''INTEGER'' ''ms'' 2 C7 C7,
     def_of ''DPT7.004'' (''Time Period ('' @ [CHR 0xC3] @ [CHR 0x97] @ ''100 ms)'') ''INTEGER'' ''ms'' 2 C7 C7,
     def_of ''DPT7.005'' ''Time Period (s)'' ''INTEGER'' ''s'' 2 C7 C7,
     def_of ''DPT7.006'' ''Time Period (min)'' ''INTEGER'' ''min'' 2 C7 C7,
     def_of ''DPT7.007'' ''Time Period (h)'' ''INTEGER'' ''h'' 2 C7 C7]"

definition dpt_defs_2 :: "dpt_def list" where
  "dpt_defs_2 =
    [def_of ''DPT7.011'' ''Length (mm)'' ''INTEGER'' ''mm'' 2 C7 C7,
     def_of ''DPT7.012'' ''Electric Current (mA)'' ''INTEGER'' ''mA'' 2 C7 C7,
     def_of ''DPT7.013'' ''Brightness (lx)'' ''INTEGER'' ''lx'' 2 C7 C7,
     def_of ''DPT7.600'' ''Colour Temperature (K)'' ''INTEGER'' ''K'' 2 C7 C7,
     def_of ''DPT8.001'' ''Counter Pulses (signed)'' ''INTEGER'' '''' 2 C8 C8,
     def_of ''DPT8.002'' ''Delta Time (ms)'' ''INTEGER'' ''ms'' 2 C8 C8,
     def_of ''DPT8.003'' (''Delta Time ('' @ [CHR 0xC3] @ [CHR 0x97] @ ''10 ms)'') ''INTEGER'' ''ms'' 2 C8 C8,
     def_of ''DPT8.004'' (''Delta Time ('' @ [CHR 0xC3] @ [CHR 0x97] @ ''100 ms)'') ''INTEGER'' ''ms'' 2 C8 C8,
     def_of ''DPT8.005'' ''Delta Time (s)'' ''INTEGER'' ''s'' 2 C8 C8,
     def_of ''DPT8.006'' ''Delta Time (min)'' ''INTEGER'' ''min'' 2 C8 C8,
     def_of ''DPT8.007'' ''Delta Time (h)'' ''INTEGER'' ''h'' 2 C8 C8,
     def_of ''DPT8.010'' ''Percent (signed)'' ''INTEGER'' ''%'' 2 C8 C8,
     def_of ''DPT8.011'' ''Rotation Angle'' ''INTEGER'' ([CHR 0xC2] @ [CHR 0xB0]) 2 C8 C8,
     def_of ''DPT8.012'' ''Length (m)'' ''INTEGER'' ''m'' 2 C8 C8,
     def_of ''DPT9.001'' ''Temperature'' ''FLOAT'' ([CHR 0xC2] @ [CHR 0xB0] @ ''C'') 2 C9 C9,
     def_of ''DPT9.002'' ''Temperature Diff'' ''FLOAT'' ''K'' 2 C9 C9,
     def_of ''DPT9.003'' ''Temperature (K/h)'' ''FLOAT'' ''K/h'' 2 C9 C9,
     def_of ''DPT9.004'' ''Illuminance'' ''FLOAT'' ''lx'' 2 C9 C9,
     def_of ''DPT9.005'' ''Wind Speed'' ''FLOAT'' ''m/s'' 2 C9 C9,
     def_of ''DPT9.006'' ''Air Pressure'' ''FLOAT'' ''Pa'' 2 C9 C9,
     def_of ''DPT9.007'' ''Humidity'' ''FLOAT'' ''%'' 2 C9 C9,
     def_of ''DPT9.008'' ''Air Quality (CO2)'' ''FLOAT'' ''ppm'' 2 C9 C9,
     def_of ''DPT9.009'' ''Air Flow'' ''FLOAT'' (''m'' @ [CHR 0xC2] @ [CHR 0xB3] @ ''/h'') 2 C9 C9,
     def_of ''DPT9.010'' ''Time (s)'' ''FLOAT'' ''s'' 2 C9 C9,
     def_of ''DPT9.011'' ''Time (ms)'' ''FLOAT'' ''ms'' 2 C9 C9,
     def_of ''DPT9.020'' ''Voltage (mV)'' ''FLOAT'' ''mV'' 2 C9 C9,
     def_of ''DPT9.021'' ''Current (mA)'' ''FLOAT'' ''mA'' 2 C9 C9,
     def_of ''DPT9.022'' ''Power Density'' ''FLOAT'' (''W/m'' @ [CHR 0xC2] @ [CHR 0xB2]) 2 C9 C9,
     def_of ''DPT9.023'' ''Kelvin/Percent'' ''FLOAT'' ''K/%'' 2 C9 C9,
     def_of ''DPT9.024'' ''Power'' ''FLOAT'' ''kW'' 2 C9 C9,
     def_of ''DPT9.025'' ''Volume Flow'' ''FLOAT'' ''l/h'' 2 C9 C9]"

definition dpt_defs_3 :: "dpt_def list" where
  "dpt_defs_3 =
    [def_of ''DPT9.026'' ''Rain Amount'' ''FLOAT'' (''l/m'' @ [CHR 0xC2] @ [CHR 0xB2]) 2 C9 C9,
     def_of ''DPT9.027'' (''Temperature ('' @ [CHR 0xC2] @ [CHR 0xB0] @ ''F)'') ''FLOAT'' ([CHR 0xC2] @ [CHR 0xB0] @ ''F'') 2 C9 C9,
     def_of ''DPT9.028'' ''Wind Speed (km/h)'' ''FLOAT'' ''km/h'' 2 C9 C9,
     def_of ''DPT9.029'' ''Absolute Humidity'' ''FLOAT'' (''g/m'' @ [CHR 0xC2] @ [CHR 0xB3]) 2 C9 C9,
     def_of ''DPT9.030'' ''Concentration'' ''FLOAT'' ([CHR 0xCE] @ [CHR 0xBC] @ ''g/m'' @ [CHR 0xC2] @ [CHR 0xB3]) 2 C9 C9,
     def_of ''DPT2.001'' ''Switch Control'' ''INTEGER'' '''' 1 C2 C2,
     def_of ''DPT2.002'' ''Bool Control'' ''INTEGER'' '''' 1 C2 C2,
     def_of ''DPT4.001'' ''Character (ASCII)'' ''STRING'' '''' 1 C4_001 C4_001,
     def_of ''DPT4.002'' ''Character (ISO 8859-1)'' ''STRING'' '''' 1 C4_002 C4_002,
     def_of ''DPT12.001'' ''Counter (32-bit)'' ''INTEGER'' '''' 4 C12 C12,
     def_of ''DPT13.001'' ''Counter (32-bit signed)'' ''INTEGER'' '''' 4 C13 C13,
     def_of ''DPT13.010'' ''Active Energy (Wh)'' ''INTEGER'' ''Wh'' 4 C13 C13,
     def_of ''DPT13.013'' ''Active Energy (kWh)'' ''INTEGER'' ''kWh'' 4 C13 C13,
     def_of ''DPT13.012'' ''Reactive Energy (VARh)'' ''INTEGER'' ''VARh'' 4 C13 C13,
     def_of ''DPT13.015'' ''Reactive Energy (kVARh)'' ''INTEGER'' ''kVARh'' 4 C13 C13,
     def_of ''DPT14.000'' ''Acceleration'' ''FLOAT'' (''m/s'' @ [CHR 0xC2] @ [CHR 0xB2]) 4 C14 C14]"

definition dpt_defs_4 :: "dpt_def list" where
  "dpt_defs_4 =
    [def_of ''DPT14.001'' ''Acceleration Angular'' ''FLOAT'' (''rad/s'' @ [CHR 0xC2] @ [CHR 0xB2]) 4 C14 C14,
     def_of ''DPT14.002'' ''Activation Energy'' ''FLOAT'' ''J/mol'' 4 C14 C14,
     def_of ''DPT14.004'' ''Amount of Substance'' ''FLOAT'' ''mol'' 4 C14 C14,
     def_of ''DPT14.006'' ''Angle (rad)'' ''FLOAT'' ''rad'' 4 C14 C14,
     def_of ''DPT14.007'' ''Angle (deg)'' ''FLOAT'' ([CHR 0xC2] @ [CHR 0xB0]) 4 C14 C14,
     def_of ''DPT14.009'' ''Angular Velocity'' ''FLOAT'' ''rad/s'' 4 C14 C14,
     def_of ''DPT14.010'' ''Area'' ''FLOAT'' (''m'' @ [CHR 0xC2] @ [CHR 0xB2]) 4 C14 C14,
     def_of ''DPT14.011'' ''Capacitance'' ''FLOAT'' ''F'' 4 C14 C14,
     def_of ''DPT14.017'' ''Density'' ''FLOAT'' (''kg/m'' @ [CHR 0xC2] @ [CHR 0xB3]) 4 C14 C14,
     def_of ''DPT14.018'' ''Electric Charge'' ''FLOAT'' ''C'' 4 C14 C14,
     def_of ''DPT14.019'' ''Electric Current'' ''FLOAT'' ''A'' 4 C14 C14,
     def_of ''DPT14.020'' ''Electric Current Density'' ''FLOAT'' (''A/m'' @ [CHR 0xC2] @ [CHR 0xB2]) 4 C14 C14,
     def_of ''DPT14.027'' ''Electric Potential'' ''FLOAT'' ''V'' 4 C14 C14,
     def_of ''DPT14.028'' ''Electric Potential Diff'' ''FLOAT'' ''V'' 4 C14 C14,
     def_of ''DPT14.030'' ''Electromotive Force'' ''FLOAT'' ''V'' 4 C14 C14,
     def_of ''DPT14.031'' ''Energy'' ''FLOAT'' ''J'' 4 C14 C14,
     def_of ''DPT14.032'' ''Force'' ''FLOAT'' ''N'' 4 C14 C14,
     def_of ''DPT14.033'' ''Frequency'' ''FLOAT'' ''Hz'' 4 C14 C14,
     def_of ''DPT14.034'' ''Angular Frequency'' ''FLOAT'' ''rad/s'' 4 C14 C14,
     def_of ''DPT14.036'' ''Heat Flow Rate'' ''FLOAT'' ''W'' 4 C14 C14,
     def_of ''DPT14.037'' ''Heat Quantity'' ''FLOAT'' ''J'' 4 C14 C14,
     def_of ''DPT14.038'' ''Impedance'' ''FLOAT'' ([CHR 0xCE] @ [CHR 0xA9]) 4 C14 C14,
     def_of ''DPT14.039'' ''Length'' ''FLOAT'' ''m'' 4 C14 C14,
     def_of ''DPT14.042'' ''Luminous Flux'' ''FLOAT'' ''lm'' 4 C14 C14,
     def_of ''DPT14.043'' ''Luminous Intensity'' ''FLOAT'' ''cd'' 4 C14 C14,
     def_of ''DPT14.051'' ''Mass'' ''FLOAT'' ''kg'' 4 C14 C14,
     def_of ''DPT14.052'' ''Mass Flux'' ''FLOAT'' ''kg/s'' 4 C14 C14]"

definition dpt_defs_5 :: "dpt_def list" where
  "dpt_defs_5 =
    [def_of ''DPT14.054'' ''Phase Angle (rad)'' ''FLOAT'' ''rad'' 4 C14 C14,
     def_of ''DPT14.055'' ''Phase Angle (deg)'' ''FLOAT'' ([CHR 0xC2] @ [CHR 0xB0]) 4 C14 C14,
     def_of ''DPT14.056'' ''Power'' ''FLOAT'' ''W'' 4 C14 C14,
     def_of ''DPT14.057'' ''Power Factor'' ''FLOAT'' '''' 4 C14 C14,
     def_of ''DPT14.058'' ''Pressure'' ''FLOAT'' ''Pa'' 4 C14 C14,
     def_of ''DPT14.059'' ''Reactance'' ''FLOAT'' ([CHR 0xCE] @ [CHR 0xA9]) 4 C14 C14,
     def_of ''DPT14.060'' ''Resistance'' ''FLOAT'' ([CHR 0xCE] @ [CHR 0xA9]) 4 C14 C14,
     def_of ''DPT14.062'' ''Self Inductance'' ''FLOAT'' ''H'' 4 C14 C14,
     def_of ''DPT14.064'' ''Sound Intensity'' ''FLOAT'' (''W/m'' @ [CHR 0xC2] @ [CHR 0xB2]) 4 C14 C14,
     def_of ''DPT14.065'' ''Speed'' ''FLOAT'' ''m/s'' 4 C14 C14,
     def_of ''DPT14.067'' ''Surface Tension'' ''FLOAT'' ''N/m'' 4 C14 C14,
     def_of ''DPT14.068'' ''Temperature (common)'' ''FLOAT'' ([CHR 0xC2] @ [CHR 0xB0] @ ''C'') 4 C14 C14,
     def_of ''DPT14.069'' ''Temperature (absolute)'' ''FLOAT'' ''K'' 4 C14 C14,
     def_of ''DPT14.070'' ''Temperature Difference'' ''FLOAT'' ''K'' 4 C14 C14,
     def_of ''DPT14.072'' ''Thermal Conductivity'' ''FLOAT'' ''W/(mK)'' 4 C14 C14,
     def_of ''DPT14.074'' ''Time'' ''FLOAT'' ''s'' 4 C14 C14,
     def_of ''DPT14.075'' ''Torque'' ''FLOAT'' ''Nm'' 4 C14 C14,
     def_of ''DPT14.076'' ''Volume'' ''FLOAT'' (''m'' @ [CHR 0xC2] @ [CHR 0xB3]) 4 C14 C14,
     def_of ''DPT14.077'' ''Volume Flux'' ''FLOAT'' (''m'' @ [CHR 0xC2] @ [CHR 0xB3] @ ''/s'') 4 C14 C14,
     def_of ''DPT14.078'' ''Weight'' ''FLOAT'' ''N'' 4 C14 C14,
     def_of ''DPT14.079'' ''Work'' ''FLOAT'' ''J'' 4 C14 C14,
     def_of ''DPT14.080'' ''Apparent Power'' ''FLOAT'' ''VA'' 4 C14 C14,
     def_of ''DPT10.001'' ''Time of Day'' ''TIME'' '''' 3 C10 C10,
     def_of ''DPT11.001'' ''Date'' ''DATE'' '''' 3 C11 C11,
     def_of ''DPT16.000'' ''ASCII String'' ''STRING'' '''' 14 C16 C16,
     def_of ''DPT16.001'' ''ISO 8859-1 String'' ''STRING'' '''' 14 C16 C16,
     def_of ''DPT18.001'' ''Scene Control'' ''INTEGER'' '''' 1 C18 C18,
     def_of ''DPT19.001'' ''Date Time'' ''STRING'' '''' 8 C19 C19,
     def_of ''DPT20.001'' ''SCLO Mode'' ''INTEGER'' '''' 1 C20 C20,
     def_of ''DPT20.002'' ''Building Mode'' ''INTEGER'' '''' 1 C20 C20]"

definition dpt_defs_6 :: "dpt_def list" where
  "dpt_defs_6 =
    [def_of ''DPT20.003'' ''Occupancy Mode'' ''INTEGER'' '''' 1 C20 C20,
     def_of ''DPT20.004'' ''Priority'' ''INTEGER'' '''' 1 C20 C20,
     def_of ''DPT20.005'' ''Light Application Mode'' ''INTEGER'' '''' 1 C20 C20,
     def_of ''DPT20.006'' ''Application Area'' ''INTEGER'' '''' 1 C20 C20,
     def_of ''DPT20.007'' ''Alarm Class Type'' ''INTEGER'' '''' 1 C20 C20,
     def_of ''DPT20.008'' ''PSU Mode'' ''INTEGER'' '''' 1 C20 C20,
     def_of ''DPT20.011'' ''Error Class System'' ''INTEGER'' '''' 1 C20 C20,
     def_of ''DPT20.012'' ''Error Class HVAC'' ''INTEGER'' '''' 1 C20 C20,
     def_of ''DPT20.013'' ''Time Delay'' ''INTEGER'' '''' 1 C20 C20,
     def_of ''DPT20.014'' ''Beaufort Wind Scale'' ''INTEGER'' '''' 1 C20 C20,
     def_of ''DPT20.017'' ''Sensor Select'' ''INTEGER'' '''' 1 C20 C20,
     def_of ''DPT20.020'' ''Actuator Connect Type'' ''INTEGER'' '''' 1 C20 C20,
     def_of ''DPT20.021'' ''Cloud Cover'' ''INTEGER'' '''' 1 C20 C20,
     def_of ''DPT20.100'' ''Fuel Type'' ''INTEGER'' '''' 1 C20 C20,
     def_of ''DPT20.101'' ''Burner Type'' ''INTEGER'' '''' 1 C20 C20,
     def_of ''DPT20.102'' ''HVAC Operating Mode'' ''INTEGER'' '''' 1 C20 C20,
     def_of ''DPT20.103'' ''DHW Mode'' ''INTEGER'' '''' 1 C20 C20,
     def_of ''DPT20.104'' ''Load Priority'' ''INTEGER'' '''' 1 C20 C20,
     def_of ''DPT20.105'' ''HVAC Controller Mode'' ''INTEGER'' '''' 1 C20 C20,
     def_of ''DPT20.106'' ''HVAC Emergency Mode'' ''INTEGER'' '''' 1 C20 C20,
     def_of ''DPT20.107'' ''Changeover Mode'' ''INTEGER'' '''' 1 C20 C20,
     def_of ''DPT20.108'' ''Valve Mode'' ''INTEGER'' '''' 1 C20 C20,
     def_of ''DPT20.109'' ''Damper Mode'' ''INTEGER'' '''' 1 C20 C20,
     def_of ''DPT20.110'' ''Heater Mode'' ''INTEGER'' '''' 1 C20 C20,
     def_of ''DPT20.111'' ''Fan Mode'' ''INTEGER'' '''' 1 C20 C20,
     def_of ''DPT20.112'' ''Master/Slave Mode'' ''INTEGER'' '''' 1 C20 C20,
     def_of ''DPT20.113'' ''Status Room Setpoint'' ''INTEGER'' '''' 1 C20 C20]"

definition dpt_defs_7 :: "dpt_def list" where
  "dpt_defs_7 =
    [def_of ''DPT20.600'' ''Behaviour Lock/Unlock'' ''INTEGER'' '''' 1 C20 C20,
     def_of ''DPT20.601'' ''Behaviour Bus PowerUp'' ''INTEGER'' '''' 1 C20 C20,
     def_of ''DPT20.602'' ''DALI Fade Time'' ''INTEGER'' '''' 1 C20 C20,
     def_of ''DPT20.603'' ''Blinking Mode'' ''INTEGER'' '''' 1 C20 C20,
     def_of ''DPT20.604'' ''Light Control Mode'' ''INTEGER'' '''' 1 C20 C20,
     def_of ''DPT29.010'' ''Active Energy (Wh)'' ''INTEGER'' ''Wh'' 8 C29 C29,
     def_of ''DPT29.011'' ''Apparent Energy (VAh)'' ''INTEGER'' ''VAh'' 8 C29 C29,
     def_of ''DPT29.012'' ''Reactive Energy (VARh)'' ''INTEGER'' ''VARh'' 8 C29 C29,
     def_of ''DPT17.001'' ''Scene Number'' ''INTEGER'' '''' 1 C17 C17,
     def_of ''DPT219.001'' ''AlarmInfo'' ''INTEGER'' '''' 2 C219 C219,
     def_of ''DPT240.800'' ''Combined Position'' ''STRING'' '''' 3 C240_800 C240_800]"

definition main_type_dpts :: "dpt_def list" where
  "main_type_dpts =
    [def_of ''DPT1'' ''1-Bit (no subtype)'' ''BOOLEAN'' '''' 1 C1 C1,
     def_of ''DPT2'' ''1-Bit Controlled (no subtype)'' ''INTEGER'' '''' 1 C2 C2,
     def_of ''DPT3'' ''3-Bit Controlled (no subtype)'' ''INTEGER'' '''' 1 C3 C3,
     def_of ''DPT4'' ''Character (no subtype)'' ''STRING'' '''' 1 C4_001 C4_002,
     def_of ''DPT5'' ''8-Bit Unsigned (no subtype)'' ''INTEGER'' '''' 1 C5_Raw C5_Raw,
     def_of ''DPT6'' ''8-Bit Signed (no subtype)'' ''INTEGER'' '''' 1 C6 C6,
     def_of ''DPT7'' ''16-Bit Unsigned (no subtype)'' ''INTEGER'' '''' 2 C7 C7,
     def_of ''DPT8'' ''16-Bit Signed (no subtype)'' ''INTEGER'' '''' 2 C8 C8,
     def_of ''DPT9'' ''16-Bit Float (no subtype)'' ''FLOAT'' '''' 2 C9 C9,
     def_of ''DPT10'' ''Time of Day (no subtype)'' ''TIME'' '''' 3 C10 C10,
     def_of ''DPT11'' ''Date (no subtype)'' ''DATE'' '''' 3 C11 C11,
     def_of ''DPT12'' ''32-Bit Unsigned (no subtype)'' ''INTEGER'' '''' 4 C12 C12,
     def_of ''DPT13'' ''32-Bit Signed (no subtype)'' ''INTEGER'' '''' 4 C13 C13,
     def_of ''DPT14'' ''32-Bit Float (no subtype)'' ''FLOAT'' '''' 4 C14 C14,
     def_of ''DPT16'' ''14-Byte String (no subtype)'' ''STRING'' '''' 14 C16 C16,
     def_of ''DPT17'' ''Scene Number (no subtype)'' ''INTEGER'' '''' 1 C17 C17,
     def_of ''DPT18'' ''Scene Control (no subtype)'' ''INTEGER'' '''' 1 C18 C18,
     def_of ''DPT19'' ''Date and Time (no subtype)'' ''STRING'' '''' 8 C19 C19,
     def_of ''DPT20'' ''1-Byte Enum (no subtype)'' ''INTEGER'' '''' 1 C20 C20,
     def_of ''DPT29'' ''64-Bit Signed (no subtype)'' ''INTEGER'' '''' 8 C29 C29,
     def_of ''DPT219'' ''AlarmInfo (no subtype)'' ''INTEGER'' '''' 2 C219 C219,
     def_of ''DPT240'' ''Combined Position (no subtype)'' ''STRING'' '''' 3 C240_800 C240_800]"
definition builtin_defs :: "dpt_def list" where
  "builtin_defs =
     dpt_defs_1 @ dpt_defs_2 @ dpt_defs_3 @ dpt_defs_4 @ dpt_defs_5 @ dpt_defs_6 @ dpt_defs_7"

definition register_builtin_dpts :: "dpt_table \<Rightarrow> dpt_table" where
  "register_builtin_dpts reg =
     (let reg' = foldl (\<lambda>r d. dpt_register d r) reg builtin_defs
      in foldl (\<lambda>r d. dpt_register d r) reg' main_type_dpts)"

end
