(* ===== verification/Dpt_Registry_Props.thy ===== *)
theory Dpt_Registry_Props
  imports Dpt_Registry Dpt_Props
begin

text \<open>
  What the table of datapoint types promises: each identifier names one definition, every encoder
  writes as many bytes as its definition announces, and no decoder raises on such a payload other
  than for a calendar value that does not exist.
\<close>

section \<open>Sizes\<close>

definition codec_size :: "codec \<Rightarrow> nat" where
  "codec_size c =
     (if c \<in> {C7, C8, C9, C219} then 2 else if c \<in> {C10, C11, C240_800} then 3
      else if c \<in> {C12, C13, C14} then 4 else if c \<in> {C19, C29} then 8
      else if c = C16 then 14 else if c = C_Unknown then 0 else 1)"

named_theorems payload_size

lemma mk_bytes_length [payload_size]: "mk_bytes xs = Inr b \<Longrightarrow> length b = length xs"
  by (auto simp: mk_bytes_def split: if_splits)

lemma pack_u_length [payload_size]: "pack_u n i = Inr b \<Longrightarrow> length b = n"
  by (auto simp: pack_u_def split: if_splits)

lemma pack_s_length [payload_size]: "pack_s n i = Inr b \<Longrightarrow> length b = n"
  by (auto simp: pack_s_def split: if_splits)

lemma ljust_length: "length b \<le> n \<Longrightarrow> length (ljust n b) = n"
  by (simp add: ljust_def)

lemma scaled_encode_length [payload_size]: "scaled_encode k v = Inr b \<Longrightarrow> length b = 1"
  by (auto simp: scaled_encode_def rbind_eq_Inr dest!: payload_size)

lemma or_zero_bytes_length:
  assumes "or_zero_bytes n r = Inr b" "\<And>b'. r = Inr b' \<Longrightarrow> length b' = n"
  shows "length b = n"
  using assms by (auto simp: or_zero_bytes_def split: sum.splits if_splits)

lemma calendar_encoder_length [payload_size]:
  "dpt10_encode h v = Inr b \<Longrightarrow> length b = 3"
  "dpt11_encode h v = Inr b \<Longrightarrow> length b = 3"
  "dpt19_encode h v = Inr b \<Longrightarrow> length b = 8"
  unfolding dpt10_encode_def dpt11_encode_def dpt19_encode_def
  by (erule or_zero_bytes_length, auto simp: rbind_eq_Inr dest!: payload_size)+

lemma encoder_length:
  assumes "run_encoder h c v = Inr b" "c \<noteq> C_Unknown"
  shows "length b = codec_size c"
  using assms
  by (cases c)
    (auto simp: codec_size_def rbind_eq_Inr Let_def ljust_length
        dpt1_encode_def dpt2_encode_def dpt3_encode_def dpt4_001_encode_def dpt4_002_encode_def
        dpt5_encode_percent_def dpt5_encode_angle_def dpt5_encode_raw_def dpt6_encode_def
        dpt7_encode_def dpt8_encode_def dpt9_encode_def dpt12_encode_def dpt13_encode_def dpt14_encode_def dpt16_encode_def dpt17_encode_def
        dpt18_encode_def dpt20_encode_def dpt29_encode_def dpt219_encode_def
        dpt240_800_encode_def dpt240_800_encode_value_def encode_ascii_def encode_latin1_def
      dest!: payload_size split: if_splits)

lemma table_sizes:
  "list_all (\<lambda>d. size_bytes d = codec_size (encoder d) \<and> encoder d \<noteq> C_Unknown
     \<and> codec_size (decoder d) = codec_size (encoder d) \<and> decoder d \<noteq> C_Unknown)
   (builtin_defs @ main_type_dpts)"
  by (simp add: builtin_defs_def dpt_defs_1_def dpt_defs_2_def dpt_defs_3_def dpt_defs_4_def
      dpt_defs_5_def dpt_defs_6_def dpt_defs_7_def main_type_dpts_def codec_size_def)

definition id_key :: "string \<Rightarrow> int" where
  "id_key s = int (dec_val (filter (\<lambda>c. c \<noteq> CHR ''.'') (drop 3 s)))"

fun ascending :: "int list \<Rightarrow> bool" where
  "ascending (x # y # zs) = (x < y \<and> ascending (y # zs))"
| "ascending _ = True"

lemma ascending_sorted: "ascending xs \<Longrightarrow> sorted_wrt (<) xs"
  by (induction xs rule: ascending.induct) (force)+

lemma distinct_by_key:
  assumes "map (f :: 'a \<Rightarrow> int) xs = ks" "ascending (foldr insort ks [])"
  shows "distinct xs"
proof -
  have "foldr insort ks [] = sort ks" by (simp add: sort_key_def)
  then have "distinct (sort ks)" using ascending_sorted [OF assms(2)] by (simp add: strict_sorted_iff)
  then show ?thesis using assms(1) by (metis distinct_map distinct_sort)
qed

lemma table_ids_distinct: "distinct (map dpt_id (builtin_defs @ main_type_dpts))"
  by (rule distinct_by_key [where f = id_key],
      simp add: builtin_defs_def dpt_defs_1_def dpt_defs_2_def dpt_defs_3_def dpt_defs_4_def
        dpt_defs_5_def dpt_defs_6_def dpt_defs_7_def main_type_dpts_def id_key_def dec_val_def
        digit_val_def code_def,
      code_simp)

text \<open>Registering definitions with distinct identifiers one after the other keeps them all, in order.\<close>

lemma register_all:
  "distinct (map fst reg @ map dpt_id ds) \<Longrightarrow>
   foldl (\<lambda>r d. dpt_register d r) reg ds = reg @ map (\<lambda>d. (dpt_id d, d)) ds"
proof (induction ds arbitrary: reg)
  case (Cons d ds)
  then have "dpt_register d reg = reg @ [(dpt_id d, d)]"
    by (auto simp: dpt_register_def intro!: assoc_set_new)
  then show ?case using Cons.IH [of "reg @ [(dpt_id d, d)]"] Cons.prems by auto
qed simp

lemma builtin_table:
  "register_builtin_dpts [] = map (\<lambda>d. (dpt_id d, d)) (builtin_defs @ main_type_dpts)"
proof -
  have "register_builtin_dpts [] =
      foldl (\<lambda>r d. dpt_register d r) [] (builtin_defs @ main_type_dpts)"
    by (simp add: register_builtin_dpts_def)
  also have "\<dots> = map (\<lambda>d. (dpt_id d, d)) (builtin_defs @ main_type_dpts)"
    using register_all [of "[]" "builtin_defs @ main_type_dpts"] table_ids_distinct
    by (simp del: foldl_append map_append)
  finally show ?thesis .
qed

lemma map_of_by_id:
  assumes "distinct (map dpt_id ds)"
  shows "map_of (map (\<lambda>d. (dpt_id d, d)) ds) i = find (\<lambda>d. dpt_id d = i) ds"
  using assms by (induction ds) auto

lemma find_by_id:
  "distinct (map dpt_id ds) \<Longrightarrow> d \<in> set ds \<Longrightarrow> find (\<lambda>x. dpt_id x = dpt_id d) ds = Some d"
  by (induction ds) (auto simp: rev_image_eqI)

lemma find_no_id: "i \<notin> dpt_id ` set ds \<Longrightarrow> find (\<lambda>x. dpt_id x = i) ds = None"
  by (induction ds) auto

lemma dpt_get_builtin:
  "dpt_get (register_builtin_dpts []) i =
     (case find (\<lambda>d. dpt_id d = i) (builtin_defs @ main_type_dpts) of
        None \<Rightarrow> unknown_dpt | Some d \<Rightarrow> d)"
  using map_of_by_id [OF table_ids_distinct, of i]
  by (simp add: dpt_get_def builtin_table del: map_append)

text \<open>
  The registry of datapoint types: after start-up every built-in definition, the main types
  without a subtype included, is found under its own identifier, an identifier that names none
  gives the UNKNOWN definition, and a later registration replaces exactly the entry of its
  identifier.
\<close>

theorem dpt_registry_lookup:
  assumes "d \<in> set (builtin_defs @ main_type_dpts)"
    and "i \<notin> dpt_id ` set (builtin_defs @ main_type_dpts)"
  shows "dpt_get (register_builtin_dpts []) (dpt_id d) = d
    \<and> dpt_get (register_builtin_dpts []) i = unknown_dpt
    \<and> dpt_get (dpt_register e reg) k = (if k = dpt_id e then e else dpt_get reg k)"
proof (intro conjI)
  show "dpt_get (register_builtin_dpts []) (dpt_id d) = d"
    using find_by_id [OF table_ids_distinct assms(1)] by (simp add: dpt_get_builtin del: set_append)
  show "dpt_get (register_builtin_dpts []) i = unknown_dpt"
    using find_no_id [OF assms(2)] by (simp add: dpt_get_builtin del: set_append)
  show "dpt_get (dpt_register e reg) k = (if k = dpt_id e then e else dpt_get reg k)"
    by (simp add: dpt_get_def dpt_register_def map_of_assoc_set)
qed

section \<open>Payloads\<close>

lemma table_sizesD:
  assumes "d \<in> set (builtin_defs @ main_type_dpts)"
  shows "size_bytes d = codec_size (encoder d)" "size_bytes d = codec_size (decoder d)"
    "encoder d \<noteq> C_Unknown" "decoder d \<noteq> C_Unknown"
  using table_sizes assms unfolding list_all_iff by auto

text \<open>
  C36. Whatever the value and whatever the host's clock says, an encoder of the table that gives a
  payload gives one of exactly the length its definition announces.
\<close>

theorem dpt_encoders_fill_payload:
  assumes "d \<in> set (builtin_defs @ main_type_dpts)" and "run_encoder h (encoder d) v = Inr b"
  shows "length b = size_bytes d"
  using encoder_length [OF assms(2)] table_sizesD [OF assms(1)] by simp

lemma scaled_decode_total: "\<exists>x. scaled_decode 100 [w] = Inr x" "\<exists>x. scaled_decode 360 [w] = Inr x"
  using scaled_decode_close [of 100 w] scaled_decode_close [of 360 w] by auto

lemma length_2E: "length b = 2 \<Longrightarrow> (\<And>x y. b = [x, y] \<Longrightarrow> P) \<Longrightarrow> P"
  by (cases b rule: remdups_adj.cases) auto

lemma dpt240_decode_total:
  assumes "length b = 3"
  shows "\<exists>x. dpt240_800_decode b = Inr x"
proof -
  obtain hs where hs: "scaled_decode 100 [b ! 0] = Inr hs" using scaled_decode_total(1) by blast
  obtain ss where ss: "scaled_decode 100 [b ! 1] = Inr ss" using scaled_decode_total(1) by blast
  show ?thesis using assms hs ss by (simp add: dpt240_800_decode_def byte_at_def Let_def)
qed

lemma decoder_total:
  assumes "length b = codec_size c" "c \<noteq> C_Unknown"
  shows "(\<exists>x. run_decoder c b = Inr x) \<or> (c \<in> {C10, C11} \<and> run_decoder c b = Inl ValueError)"
proof -
  have un: "unpack_u n b = Inr (be_val b)" if "length b = n" for n
    using that by (simp add: unpack_u_def)
  have us: "unpack_s n b = Inr (to_signed n (be_val b))" if "length b = n" for n
    using that by (simp add: unpack_s_def un)
  have at: "i < length b \<Longrightarrow> byte_at b i = Inr (uint (b ! i))" for i
    by (simp add: byte_at_def)
  have sc: "\<exists>x. dpt5_decode_percent b = Inr x" "\<exists>x. dpt5_decode_angle b = Inr x" if "length b = 1"
    using length_1E [OF that] scaled_decode_total
    by (metis dpt5_decode_percent_def, metis dpt5_decode_angle_def)
  have nine: "\<exists>x. dpt9_decode b = Inr x" if "length b = 2"
    using length_2E [OF that] dpt9_decode_value by metis
  show ?thesis
    using assms sc nine dpt240_decode_total [of b]
    by (cases c)
      (auto simp: codec_size_def as_value_def un us at Let_def mk_time_def mk_date_def
        dpt1_decode_def dpt2_decode_def dpt3_decode_def dpt5_decode_raw_def dpt6_decode_def
        dpt7_decode_def dpt8_decode_def dpt10_decode_def dpt11_decode_def dpt12_decode_def
        dpt13_decode_def dpt14_decode_def dpt17_decode_def dpt18_decode_def dpt20_decode_def
        dpt29_decode_def dpt219_decode_def)
qed

text \<open>
  A decoder of the table never raises on a payload of the announced length, except that the
  time and date decoders report \<open>ValueError\<close> for a calendar value that does not exist: a telegram
  of the right size cannot make the receiving side fail in any other way.
\<close>

theorem dpt_decoders_total:
  assumes "d \<in> set (builtin_defs @ main_type_dpts)" and "length b = size_bytes d"
  shows "(\<exists>x. run_decoder (decoder d) b = Inr x)
    \<or> (decoder d \<in> {C10, C11} \<and> run_decoder (decoder d) b = Inl ValueError)"
  using decoder_total [of b "decoder d"] table_sizesD [OF assms(1)] assms(2) by simp

section \<open>Main types\<close>

lemma prefix_dot_unique:
  "CHR ''.'' \<notin> set n \<Longrightarrow> CHR ''.'' \<notin> set m \<Longrightarrow>
   take (length n + 1) (m @ CHR ''.'' # s) = n @ ''.'' \<longleftrightarrow> n = m"
proof (induction n arbitrary: m)
  case Nil
  then show ?case by (cases m) auto
next
  case (Cons c n)
  then show ?case by (cases m) auto
qed

text \<open>
  A stored subtype wins over an imported main type exactly when it is a subtype of that main
  type: with \<open>"m.s"\<close> stored, the import \<open>"m"\<close> is dropped, every other main type and every
  subtype is taken over.
\<close>

theorem keeps_stored_subtype_iff:
  assumes "CHR ''.'' \<notin> set m"
  shows "(keeps_stored_subtype (Some n) (Some (m @ ''.'' @ s)) \<longleftrightarrow> n = m \<and> n \<noteq> [])
    \<and> \<not> keeps_stored_subtype (Some n) (Some m)"
proof (rule conjI)
  show "keeps_stored_subtype (Some n) (Some (m @ ''.'' @ s)) \<longleftrightarrow> n = m \<and> n \<noteq> []"
    using assms prefix_dot_unique [of n m s]
    by (auto simp: keeps_stored_subtype_def starts_with_def)
  show "\<not> keeps_stored_subtype (Some n) (Some m)"
  proof
    assume "keeps_stored_subtype (Some n) (Some m)"
    then have "take (Suc (length n)) m = n @ ''.''"
      by (auto simp: keeps_stored_subtype_def starts_with_def)
    then have "CHR ''.'' \<in> set (take (Suc (length n)) m)" by simp
    then show False using assms by (meson in_set_takeD)
  qed
qed

section \<open>Concrete instances\<close>

lemma dpt1_switch_in_table: "def_of ''DPT1.001'' ''Switch'' ''BOOLEAN'' '''' 1 C1 C1 \<in> set (builtin_defs @ main_type_dpts)"
  by (simp add: builtin_defs_def dpt_defs_1_def)

lemma no_such_id: "''X'' \<notin> dpt_id ` set (builtin_defs @ main_type_dpts)"
proof -
  have "list_all (\<lambda>d. dpt_id d \<noteq> ''X'') (builtin_defs @ main_type_dpts)"
    by (simp add: builtin_defs_def dpt_defs_1_def dpt_defs_2_def dpt_defs_3_def dpt_defs_4_def
        dpt_defs_5_def dpt_defs_6_def dpt_defs_7_def main_type_dpts_def)
  then show ?thesis unfolding list_all_iff by auto
qed

theorem dpt_registry_lookup_witness:
  "dpt_get (register_builtin_dpts []) ''DPT1.001'' = def_of ''DPT1.001'' ''Switch'' ''BOOLEAN'' '''' 1 C1 C1
   \<and> dpt_get (register_builtin_dpts []) ''X'' = unknown_dpt"
  using dpt_registry_lookup [OF dpt1_switch_in_table no_such_id] by simp

theorem dpt_encoders_fill_payload_witness:
  "length [1 :: byte] = size_bytes (def_of ''DPT1.001'' ''Switch'' ''BOOLEAN'' '''' 1 C1 C1)"
  by (rule dpt_encoders_fill_payload [OF dpt1_switch_in_table,
        where h = "\<lparr>host_now = (2024, 1, 1, 0, 0, 0), host_local = (\<lambda>_. Inl ValueError),
          host_iso_time = (\<lambda>_. Inl ValueError), host_iso_date = (\<lambda>_. Inl ValueError),
          host_iso_datetime = (\<lambda>_. Inl ValueError)\<rparr>" and v = "PBool True"])
    (simp add: dpt1_encode_def dpt1_flag_def mk_bytes_def)

theorem dpt_decoders_total_witness:
  "(\<exists>x. run_decoder C1 [1] = Inr x) \<or> (C1 \<in> {C10, C11} \<and> run_decoder C1 [1] = Inl ValueError)"
  using dpt_decoders_total [OF dpt1_switch_in_table, of "[1]"] by simp

theorem keeps_stored_subtype_iff_witness:
  "keeps_stored_subtype (Some ''DPT5'') (Some (''DPT5'' @ ''.'' @ ''001''))"
  using keeps_stored_subtype_iff [of "''DPT5''" "''DPT5''" "''001''"] by simp

end
