(* ===== verification/Data_Types.thy ===== *)
theory Data_Types
  imports Dpt_Codec Json
begin

text \<open>
  The registry of data types and the coercions the API and the adapters share
  (\<open>obs/models/types.py\<close>).  The ISO 8601 readers of \<open>datetime\<close> are those of the host; dates and
  times of the model are naive and have whole seconds.
\<close>

section \<open>The registry\<close>

datatype py_type = TBytes | TBool | TInt | TFloat | TStr | TDate | TTime | TDateTime

fun isinstance :: "pyval \<Rightarrow> py_type \<Rightarrow> bool" where
  "isinstance (PBytes _) t = (t = TBytes)"
| "isinstance (PBool _) t = (t = TBool \<or> t = TInt)"
| "isinstance (PInt _) t = (t = TInt)"
| "isinstance (PFloat _) t = (t = TFloat)"
| "isinstance (PStr _) t = (t = TStr)"
| "isinstance (PDate _ _ _) t = (t = TDate)"
| "isinstance (PTime _ _ _) t = (t = TTime)"
| "isinstance (PDateTime _ _ _ _ _ _) t = (t = TDateTime \<or> t = TDate)"
| "isinstance _ t = False"

record type_def =
  type_name :: string
  python_type :: py_type
  mqtt_serializer :: "pyval \<Rightarrow> (pyerr, string) result"
  mqtt_deserializer :: "host \<Rightarrow> string \<Rightarrow> (pyerr, pyval) result"

type_synonym type_table = "(string \<times> type_def) list"

definition type_register :: "type_def \<Rightarrow> type_table \<Rightarrow> type_table" where
  "type_register d reg = assoc_set (type_name d) d reg"

definition type_get :: "type_table \<Rightarrow> string \<Rightarrow> (pyerr, type_def) result" where
  "type_get reg n =
     (case map_of reg ''UNKNOWN'' of
        None \<Rightarrow> Inl KeyError
      | Some u \<Rightarrow> Inr (case map_of reg n of None \<Rightarrow> u | Some d \<Rightarrow> d))"

definition type_all :: "type_table \<Rightarrow> type_table" where
  "type_all reg = reg"

definition type_names :: "type_table \<Rightarrow> string list" where
  "type_names reg = map fst reg"

definition type_is_registered :: "type_table \<Rightarrow> string \<Rightarrow> bool" where
  "type_is_registered reg n \<longleftrightarrow> n \<in> set (map fst reg)"

section \<open>The built-in types\<close>

definition is_hex_char :: "char \<Rightarrow> bool" where
  "is_hex_char c \<longleftrightarrow> hex_val c \<noteq> None"

definition is_hex :: "string \<Rightarrow> bool" where
  "is_hex s \<longleftrightarrow> list_all is_hex_char s \<and> even (length s)"

text \<open>\<open>bytes.fromhex\<close> of a text for which \<open>_is_hex\<close> holds.\<close>

fun from_hex :: "string \<Rightarrow> byte list" where
  "from_hex (a # b # s) =
     (case (hex_val a, hex_val b) of
        (Some x, Some y) \<Rightarrow> word_of_nat (16 * x + y) # from_hex s
      | _ \<Rightarrow> [])"
| "from_hex _ = []"

definition unknown_serializer :: "pyval \<Rightarrow> (pyerr, string) result" where
  "unknown_serializer v = Inr (case v of PBytes b \<Rightarrow> bytes_hex b | _ \<Rightarrow> py_str v)"

definition unknown_deserializer :: "host \<Rightarrow> string \<Rightarrow> (pyerr, pyval) result" where
  "unknown_deserializer h s = Inr (PBytes (if is_hex s then from_hex s else encode_utf8 s))"

definition isoformat :: "pyval \<Rightarrow> (pyerr, string) result" where
  "isoformat v =
     (case v of
        PDate y m d \<Rightarrow> Inr (iso_date y m d)
      | PTime hh mm ss \<Rightarrow> Inr (iso_time hh mm ss)
      | PDateTime y mo d hh mm ss \<Rightarrow> Inr (iso_date y mo d @ ''T'' @ iso_time hh mm ss)
      | _ \<Rightarrow> Inl AttributeError)"

definition date_fromiso :: "host \<Rightarrow> string \<Rightarrow> (pyerr, pyval) result" where
  "date_fromiso h s = rbind (host_iso_date h s) (\<lambda>(y, m, d). Inr (PDate y m d))"

definition time_fromiso :: "host \<Rightarrow> string \<Rightarrow> (pyerr, pyval) result" where
  "time_fromiso h s = rbind (host_iso_time h s) (\<lambda>(hh, mm, ss). Inr (PTime hh mm ss))"

definition datetime_fromiso :: "host \<Rightarrow> string \<Rightarrow> (pyerr, pyval) result" where
  "datetime_fromiso h s =
     rbind (host_iso_datetime h s) (\<lambda>(y, mo, d, hh, mm, ss). Inr (PDateTime y mo d hh mm ss))"

text \<open>\<open>fromisoformat(json.loads(s))\<close>: a JSON value that is not a text is a \<open>TypeError\<close>.\<close>

definition json_iso :: "(string \<Rightarrow> (pyerr, pyval) result) \<Rightarrow> string \<Rightarrow> (pyerr, pyval) result" where
  "json_iso reader s =
     rbind (json_loads s) (\<lambda>v. case v of PStr t \<Rightarrow> reader t | _ \<Rightarrow> Inl TypeError)"

definition builtin_types :: "type_def list" where
  "builtin_types =
    [\<lparr>type_name = ''UNKNOWN'', python_type = TBytes,
      mqtt_serializer = unknown_serializer, mqtt_deserializer = unknown_deserializer\<rparr>,
     \<lparr>type_name = ''BOOLEAN'', python_type = TBool,
      mqtt_serializer = (\<lambda>v. json_dumps (PBool (py_truthy v))),
      mqtt_deserializer = (\<lambda>h s. rbind (json_loads s) (\<lambda>v. Inr (PBool (py_truthy v))))\<rparr>,
     \<lparr>type_name = ''INTEGER'', python_type = TInt,
      mqtt_serializer = (\<lambda>v. rbind (py_int v) (\<lambda>i. json_dumps (PInt i))),
      mqtt_deserializer = (\<lambda>h s. rbind (json_loads s) (\<lambda>v. rbind (py_int v) (\<lambda>i. Inr (PInt i))))\<rparr>,
     \<lparr>type_name = ''FLOAT'', python_type = TFloat,
      mqtt_serializer = (\<lambda>v. rbind (py_float v) (\<lambda>f. json_dumps (PFloat f))),
      mqtt_deserializer = (\<lambda>h s. rbind (json_loads s) (\<lambda>v. rbind (py_float v) (\<lambda>f. Inr (PFloat f))))\<rparr>,
     \<lparr>type_name = ''STRING'', python_type = TStr,
      mqtt_serializer = (\<lambda>v. json_dumps (PStr (py_str v))),
      mqtt_deserializer = (\<lambda>h s. rbind (json_loads s) (\<lambda>v. Inr (PStr (py_str v))))\<rparr>,
     \<lparr>type_name = ''DATE'', python_type = TDate,
      mqtt_serializer = (\<lambda>v. rbind (isoformat v) (\<lambda>t. json_dumps (PStr t))),
      mqtt_deserializer = (\<lambda>h s. json_iso (date_fromiso h) s)\<rparr>,
     \<lparr>type_name = ''TIME'', python_type = TTime,
      mqtt_serializer = (\<lambda>v. rbind (isoformat v) (\<lambda>t. json_dumps (PStr t))),
      mqtt_deserializer = (\<lambda>h s. json_iso (time_fromiso h) s)\<rparr>,
     \<lparr>type_name = ''DATETIME'', python_type = TDateTime,
      mqtt_serializer = (\<lambda>v. rbind (isoformat v) (\<lambda>t. json_dumps (PStr t))),
      mqtt_deserializer = (\<lambda>h s. json_iso (datetime_fromiso h) s)\<rparr>]"

definition register_builtin_types :: "type_table \<Rightarrow> type_table" where
  "register_builtin_types reg = foldl (\<lambda>r d. type_register d r) reg builtin_types"

section \<open>Coercion of a typed value\<close>

definition fl_finite :: "pyfloat \<Rightarrow> bool" where
  "fl_finite x \<longleftrightarrow> (case x of Fin _ \<Rightarrow> True | _ \<Rightarrow> False)"

definition coerce_value :: "host \<Rightarrow> type_def \<Rightarrow> pyval \<Rightarrow> (pyerr, pyval) result" where
  "coerce_value h defn v =
     (let t = python_type defn
      in if type_name defn = ''UNKNOWN'' then Inr v
         else if isinstance v t \<and> \<not> (t = TInt \<and> is_bool v) then Inr v
         else if t = TInt \<and> is_bool v then rbind (py_int v) (\<lambda>i. Inr (PInt i))
         else if t = TFloat \<and> (is_int v \<or> is_float v) \<and> \<not> is_bool v
         then rbind (py_float v) (\<lambda>f. Inr (PFloat f))
         else (case v of
             PFloat x \<Rightarrow>
               if t = TInt then
                 rbind (float_to_int x) (\<lambda>i.
                   if feq x (Fin (of_int i)) then Inr (PInt i) else Inl ValueError)
               else Inl ValueError
           | PInt i \<Rightarrow> if t = TBool then Inr (PBool (i \<noteq> 0)) else Inl ValueError
           | PStr s \<Rightarrow>
               if t = TDate then date_fromiso h s
               else if t = TTime then time_fromiso h s
               else if t = TDateTime then datetime_fromiso h s
               else Inl ValueError
           | _ \<Rightarrow> Inl ValueError))"

definition coerce_value_for_type ::
  "host \<Rightarrow> type_table \<Rightarrow> pyval \<Rightarrow> string \<Rightarrow> (pyerr, pyval) result" where
  "coerce_value_for_type h reg v dt =
     (case v of
        PFloat x \<Rightarrow>
          if \<not> fl_finite x then Inl ValueError
          else rbind (type_get reg dt) (\<lambda>defn. coerce_value h defn v)
      | _ \<Rightarrow> rbind (type_get reg dt) (\<lambda>defn. coerce_value h defn v))"

section \<open>Reading text\<close>

definition true_literals :: "string set" where
  "true_literals = {''true'', ''1'', ''on'', ''ein'', ''yes'', ''ja''}"

definition false_literals :: "string set" where
  "false_literals = {''false'', ''0'', ''off'', ''aus'', ''no'', ''nein''}"

definition heuristic_true_literals :: "string set" where
  "heuristic_true_literals = {''true'', ''1'', ''on'', ''ein''}"

definition heuristic_false_literals :: "string set" where
  "heuristic_false_literals = {''false'', ''0'', ''off'', ''aus''}"

text \<open>
  \<open>int(s)\<close> with CPython's limit on the digits of a literal (0: none), and the default limit of
  the code.
\<close>

definition int_of_text :: "nat \<Rightarrow> string \<Rightarrow> int option" where
  "int_of_text limit s =
     (case parse_int s of
        None \<Rightarrow> None
      | Some i \<Rightarrow> if limit \<noteq> 0 \<and> limit < length (filter is_dec s) then None else Some i)"

definition default_int_max_str_digits :: nat where
  "default_int_max_str_digits = 4300"

definition parse_text_value_heuristic :: "nat \<Rightarrow> string \<Rightarrow> pyval" where
  "parse_text_value_heuristic limit r =
     (let stripped = py_strip r; lowered = py_lower stripped
      in if lowered \<in> heuristic_true_literals then PBool True
         else if lowered \<in> heuristic_false_literals then PBool False
         else (case int_of_text limit stripped of
                 Some i \<Rightarrow> PInt i
               | None \<Rightarrow>
                   (case parse_float stripped of Some x \<Rightarrow> PFloat x | None \<Rightarrow> PStr stripped)))"

text \<open>
  \<open>decimal.Decimal(s)\<close>: a coefficient and a power of ten, or one of the special values.
  Underscores are dropped; an exponent beyond what \<open>decimal\<close> can hold is an
  \<open>InvalidOperation\<close>, here \<open>None\<close>.
\<close>

datatype decimal = Dec int int | Dec_Special

definition dec_special :: "string \<Rightarrow> bool" where
  "dec_special s \<longleftrightarrow>
     (let l = py_lower s
      in l = ''inf'' \<or> l = ''infinity''
         \<or> (take 3 l = ''nan'' \<and> list_all is_dec (drop 3 l))
         \<or> (take 4 l = ''snan'' \<and> list_all is_dec (drop 4 l)))"

definition dec_digits :: "int \<Rightarrow> nat" where
  "dec_digits c = length (show_nat (nat \<bar>c\<bar>))"

definition dec_adjusted :: "int \<Rightarrow> int \<Rightarrow> int" where
  "dec_adjusted c e = e + int (dec_digits c) - 1"

definition dec_in_range :: "int \<Rightarrow> int \<Rightarrow> bool" where
  "dec_in_range c e \<longleftrightarrow>
     - 1999999999999999997 \<le> e \<and> (if c = 0 then e else dec_adjusted c e) \<le> 999999999999999999"

definition parse_dec :: "string \<Rightarrow> decimal option" where
  "parse_dec s =
     (let (neg, r) = split_sign (filter (\<lambda>c. c \<noteq> CHR ''_'') (py_strip s))
      in if dec_special r then Some Dec_Special
         else (case parse_decimal r of
                 None \<Rightarrow> None
               | Some (m, e) \<Rightarrow>
                   (let c = (if neg then - \<lfloor>m\<rfloor> else \<lfloor>m\<rfloor>)
                    in if dec_in_range c e then Some (Dec c e) else None)))"

text \<open>What \<open>_parse_number\<close> returns: an integer, a finite decimal or a finite float.\<close>

datatype number = N_Int int | N_Dec int int | N_Float rat

definition parse_number :: "nat \<Rightarrow> string \<Rightarrow> string \<Rightarrow> number option" where
  "parse_number limit stripped lowered =
     (case int_of_text limit stripped of
        Some i \<Rightarrow> Some (N_Int i)
      | None \<Rightarrow>
          (case parse_dec stripped of
             Some (Dec c e) \<Rightarrow> Some (N_Dec c e)
           | Some Dec_Special \<Rightarrow> None
           | None \<Rightarrow>
               (case parse_float stripped of
                  Some (Fin q) \<Rightarrow> Some (N_Float q)
                | Some _ \<Rightarrow> None
                | None \<Rightarrow>
                    if lowered \<in> true_literals then Some (N_Int 1)
                    else if lowered \<in> false_literals then Some (N_Int 0) else None)))"

fun has_fractional_part :: "number \<Rightarrow> bool" where
  "has_fractional_part (N_Dec c e) = (e < 0 \<and> c mod 10 ^ nat (- e) \<noteq> 0)"
| "has_fractional_part (N_Float q) = (q \<noteq> of_int (trunc q))"
| "has_fractional_part (N_Int i) = False"

fun exceeds_integer_digit_limit :: "nat \<Rightarrow> number \<Rightarrow> bool" where
  "exceeds_integer_digit_limit limit (N_Dec c e) =
     (c \<noteq> 0 \<and> int (if limit = 0 then default_int_max_str_digits else limit) \<le> dec_adjusted c e)"
| "exceeds_integer_digit_limit limit _ = False"

text \<open>\<open>int(numeric)\<close>, towards zero.\<close>

fun number_to_int :: "number \<Rightarrow> int" where
  "number_to_int (N_Int i) = i"
| "number_to_int (N_Dec c e) =
     (if 0 \<le> e then c * 10 ^ nat e else sgn c * (\<bar>c\<bar> div 10 ^ nat (- e)))"
| "number_to_int (N_Float q) = trunc q"

definition number_to_float :: "number \<Rightarrow> (pyerr, pyfloat) result" where
  "number_to_float n =
     (case n of
        N_Int i \<Rightarrow> int_to_float i
      | N_Dec c e \<Rightarrow> Inr (float_lit (of_int c) e)
      | N_Float q \<Rightarrow> Inr (Fin q))"

definition to_float :: "number \<Rightarrow> (pyerr, pyval) result" where
  "to_float n =
     (case number_to_float n of
        Inl OverflowError \<Rightarrow> Inl ValueError
      | Inl e \<Rightarrow> Inl e
      | Inr x \<Rightarrow> if fl_finite x then Inr (PFloat x) else Inl ValueError)"

definition coerce_text_value_for_type ::
  "host \<Rightarrow> nat \<Rightarrow> type_table \<Rightarrow> string \<Rightarrow> string \<Rightarrow> (pyerr, pyval) result" where
  "coerce_text_value_for_type h limit reg r dt =
     rbind (type_get reg dt) (\<lambda>defn.
       let n = type_name defn; stripped = py_strip r; lowered = py_lower stripped
       in if n = ''UNKNOWN'' then Inr (parse_text_value_heuristic limit r)
          else if n = ''STRING'' then Inr (PStr r)
          else if n = ''BOOLEAN'' then
            (if lowered \<in> true_literals then Inr (PBool True)
             else if lowered \<in> false_literals then Inr (PBool False) else Inl ValueError)
          else if n = ''INTEGER'' \<or> n = ''FLOAT'' then
            (case parse_number limit stripped lowered of
               None \<Rightarrow> Inl ValueError
             | Some num \<Rightarrow>
                 if n = ''FLOAT'' then to_float num
                 else if exceeds_integer_digit_limit limit num then Inl ValueError
                 else if has_fractional_part num then Inl ValueError
                 else Inr (PInt (number_to_int num)))
          else if n = ''DATE'' then date_fromiso h stripped
          else if n = ''TIME'' then time_fromiso h stripped
          else if n = ''DATETIME'' then datetime_fromiso h stripped
          else coerce_value_for_type h reg (PStr stripped) dt)"

end
