(* ===== verification/Json_Props.thy ===== *)
theory Json_Props
  imports Json
begin

text \<open>Reading back what \<open>json.dumps\<close> writes for a text, an integer and a boolean.\<close>

section \<open>Text\<close>

lemma hex_val_hex_digit: "n < 16 \<Longrightarrow> hex_val (hex_digit n) = Some n"
  by (simp add: hex_val_def hex_digit_def code_def Let_def)

lemma json_string_plain:
  "code c \<noteq> 34 \<Longrightarrow> code c \<noteq> 92 \<Longrightarrow> 32 \<le> code c \<Longrightarrow>
   json_string (c # s) = map_option (\<lambda>(t, r). (c # t, r)) (json_string s)"
  by simp

lemma code_char_of: "n < 256 \<Longrightarrow> code (char_of n) = n"
  by (simp add: code_def)

lemma char_of_code [simp]: "char_of (code c) = c"
  by (simp add: code_def)

lemma code_lt [simp]: "code c < 256"
  using nat_of_char_less_256 [of c] by (simp add: code_def)

lemma json_string_simple:
  assumes "simple_escape e = Some x" "code e \<noteq> 117"
  shows "json_string (char_of (92::nat) # e # s) = map_option (\<lambda>(t, r). (x # t, r)) (json_string s)"
  using assms by (simp add: code_char_of)

lemma json_string_hex:
  assumes "n < 256"
  shows "json_string (char_of (92::nat) # CHR ''u'' # ''00'' @ hex2 n @ s) =
    map_option (\<lambda>(t, r). (char_of n # t, r)) (json_string s)"
proof -
  have zero: "hex_val (CHR ''0'') = Some 0" by (simp add: hex_val_def code_def)
  have "hex_escape (CHR ''0'') (CHR ''0'') (hex_digit (n div 16)) (hex_digit (n mod 16)) = Some (char_of n)"
    using assms by (simp add: hex_escape_def zero hex_val_hex_digit)
  moreover have "code (CHR ''u'') = 117" by (simp add: code_def)
  ultimately show ?thesis by (simp add: hex2_def code_char_of)
qed

lemma json_string_escape:
  "json_string (json_escape c @ s) = map_option (\<lambda>(t, r). (c # t, r)) (json_string s)"
proof -
  have recode: "code c = n \<Longrightarrow> char_of n = c" for n by auto
  consider "code c = 34 \<or> code c = 92" | "code c \<in> {10, 13, 9, 12, 8}"
    | "(code c < 32 \<or> 126 < code c) \<and> code c \<notin> {34, 92, 10, 13, 9, 12, 8}"
    | "32 \<le> code c \<and> code c \<le> 126 \<and> code c \<noteq> 34 \<and> code c \<noteq> 92"
    unfolding insert_iff empty_iff by linarith
  then show ?thesis
  proof cases
    case 1
    then have "simple_escape c = Some c" "code c \<noteq> 117" by (auto simp: simple_escape_def)
    from json_string_simple [OF this] 1 show ?thesis by (auto simp: json_escape_def Let_def)
  next
    case 2
    have letters: "code (CHR ''n'') = 110" "code (CHR ''r'') = 114" "code (CHR ''t'') = 116"
        "code (CHR ''f'') = 102" "code (CHR ''b'') = 98"
      by (simp_all add: code_def)
    have se: "simple_escape (CHR ''n'') = Some (char_of (10::nat))"
        "simple_escape (CHR ''r'') = Some (char_of (13::nat))"
        "simple_escape (CHR ''t'') = Some (char_of (9::nat))"
        "simple_escape (CHR ''f'') = Some (char_of (12::nat))"
        "simple_escape (CHR ''b'') = Some (char_of (8::nat))"
      by (simp_all add: simple_escape_def letters)
    obtain e where e: "json_escape c = [char_of (92::nat), e]" "simple_escape e = Some c" "code e \<noteq> 117"
    proof -
      have "\<exists>e. json_escape c = [char_of (92::nat), e] \<and> simple_escape e = Some (char_of (code c)) \<and> code e \<noteq> 117"
        using 2 se letters by (auto simp: json_escape_def simp del: char_of_code)
      then show thesis using that by auto
    qed
    then show ?thesis using json_string_simple [OF e(2,3)] by simp
  next
    case 3
    then have "json_escape c = char_of (92::nat) # CHR ''u'' # ''00'' @ hex2 (code c)"
      by (auto simp: json_escape_def Let_def)
    then show ?thesis using json_string_hex [of "code c" s] by simp
  next
    case 4
    then have "json_escape c = [c]" by (auto simp: json_escape_def Let_def)
    then show ?thesis using 4 json_string_plain [of c s] by simp
  qed
qed

lemma json_string_escaped:
  "json_string (concat (map json_escape s) @ char_of (34::nat) # r) = Some (s, r)"
proof (induction s)
  case Nil
  then show ?case by (simp add: code_char_of)
next
  case (Cons c s)
  then show ?case using json_string_escape [of c] by (simp del: json_string.simps)
qed

lemma skip_ws_quote: "skip_ws (char_of (34::nat) # s) = char_of (34::nat) # s"
  by (simp add: skip_ws_def is_json_ws_def code_char_of)

lemma json_value_Suc:
  "json_value (Suc n) (c # cs) =
     (if code c = 34 then map_option (\<lambda>(t, r). (PStr t, r)) (json_string cs)
      else if c = CHR ''{'' then
        (case skip_ws cs of
           [] \<Rightarrow> None
         | d # ds \<Rightarrow> if d = CHR ''}'' then Some (PDict [], ds) else json_members n [] (d # ds))
      else if c = CHR ''['' then
        (case skip_ws cs of
           [] \<Rightarrow> None
         | d # ds \<Rightarrow> if d = CHR '']'' then Some (PList [], ds) else json_items n [] (d # ds))
      else json_word (c # cs))"
  by (subst json_value.simps(2)) (simp only: list.case)

lemma json_loads_quote: "json_loads (json_quote s) = Inr (PStr s)"
  using json_string_escaped [of s "[]"]
  by (simp add: json_loads_def json_quote_def skip_ws_quote json_value_Suc code_char_of
      skip_ws_def [of "[]"] del: json_value.simps)

section \<open>Numbers and booleans\<close>

lemma show_nat_zero_head: "show_nat n = CHR ''0'' # s \<Longrightarrow> n = 0 \<and> s = []"
proof (induction n arbitrary: s rule: less_induct)
  case (less n)
  show ?case
  proof (cases "n < 10")
    case True
    then have "digit_char n = CHR ''0''" "s = []"
      using less.prems by (simp_all add: show_nat.simps [of n])
    then have "code (digit_char n) = 48" by (simp add: code_def)
    then show ?thesis using True \<open>s = []\<close> by simp
  next
    case False
    then have eq: "show_nat (n div 10) @ [digit_char (n mod 10)] = CHR ''0'' # s"
      using less.prems by (simp add: show_nat.simps [of n])
    then obtain t where "show_nat (n div 10) = CHR ''0'' # t"
      by (cases "show_nat (n div 10)") auto
    then have "n div 10 = 0" using less.IH [of "n div 10" t] False by simp
    then show ?thesis using False by simp
  qed
qed

lemma takeWhile_show_nat:
  assumes "show_nat n = c # s"
  shows "is_dec c" "takeWhile is_dec s = s" "dropWhile is_dec s = []"
  using show_nat_digits [of _ n] assms by (auto simp: takeWhile_eq_all_conv)

lemma int_part_show_nat: "int_part (show_nat n) = Some (show_nat n, [])"
proof (cases "show_nat n")
  case (Cons c s)
  note d = takeWhile_show_nat [OF Cons]
  show ?thesis
    using show_nat_zero_head [of n s] d Cons by (auto simp: int_part_def)
qed simp

lemma json_number_show_int: "json_number (show_int i) = Some (PInt i, [])"
proof -
  have nat: "json_number (show_nat n) = Some (PInt (int n), [])" for n
  proof (cases "show_nat n")
    case (Cons c s)
    have "c \<noteq> CHR ''-''" using takeWhile_show_nat(1) [OF Cons] by (auto simp: is_dec_def code_def)
    then have "(case show_nat n of c # cs \<Rightarrow> if c = CHR ''-'' then (True, cs) else (False, show_nat n)
        | [] \<Rightarrow> (False, [])) = (False, show_nat n)"
      using Cons by simp
    then show ?thesis
      by (simp add: json_number_def Let_def int_part_show_nat frac_part_def exp_part_def)
  qed simp
  show ?thesis
  proof (cases "i < 0")
    case True
    then show ?thesis
      by (simp add: show_int_def json_number_def Let_def int_part_show_nat frac_part_def exp_part_def)
  next
    case False
    then show ?thesis by (simp add: show_int_def nat)
  qed
qed

lemma json_word_number:
  assumes "c = CHR ''-'' \<or> is_dec c" "d \<noteq> CHR ''I''"
  shows "json_word [c] = json_number [c]" "json_word (c # d # s) = json_number (c # d # s)"
proof -
  have "c \<noteq> CHR ''n'' \<and> c \<noteq> CHR ''t'' \<and> c \<noteq> CHR ''f'' \<and> c \<noteq> CHR ''N'' \<and> c \<noteq> CHR ''I''"
    using assms(1) by (auto simp: is_dec_def code_def)
  then show "json_word [c] = json_number [c]" "json_word (c # d # s) = json_number (c # d # s)"
    using assms(2) by (simp_all add: json_word_def strip_prefix_def)
qed

lemma json_word_show_int: "json_word (show_int i) = json_number (show_int i)"
proof -
  have digit: "is_dec c \<Longrightarrow> c \<noteq> CHR ''I''" for c by (auto simp: is_dec_def code_def)
  obtain c s where cs: "show_int i = c # s" "c = CHR ''-'' \<or> is_dec c" "\<forall>d \<in> set s. is_dec d"
  proof (cases "i < 0")
    case True
    then show thesis
      using that [of "CHR ''-''" "show_nat (nat (- i))"] show_nat_digits by (auto simp: show_int_def)
  next
    case False
    then show thesis
      using that [of "hd (show_nat (nat i))" "tl (show_nat (nat i))"] show_nat_digits [of _ "nat i"]
      by (auto simp: show_int_def) (metis list.set_sel(2) show_nat_not_Nil)
  qed
  show ?thesis
  proof (cases s)
    case Nil
    then show ?thesis using cs json_word_number(1) [of c c] digit by (cases "c = CHR ''-''") auto
  next
    case (Cons d t)
    then show ?thesis using cs json_word_number(2) [of c d t] digit by auto
  qed
qed

lemma show_int_head:
  assumes "show_int i = c # s"
  shows "code c \<noteq> 34" "c \<noteq> CHR ''{''" "c \<noteq> CHR ''[''" "\<not> is_json_ws c"
proof -
  have "c = CHR ''-'' \<or> is_dec c"
    using assms show_nat_digits by (auto simp: show_int_def split: if_splits) (metis list.set_intros(1))
  then show "code c \<noteq> 34" "c \<noteq> CHR ''{''" "c \<noteq> CHR ''[''" "\<not> is_json_ws c"
    by (auto simp: is_dec_def is_json_ws_def code_def)
qed

lemma json_loads_show_int: "json_loads (show_int i) = Inr (PInt i)"
proof (cases "show_int i")
  case Nil
  then show ?thesis by (auto simp: show_int_def split: if_splits)
next
  case (Cons c s)
  note h = show_int_head [OF Cons]
  have "skip_ws (show_int i) = show_int i" using h Cons by (simp add: skip_ws_def)
  moreover have "json_value (Suc n) (show_int i) = Some (PInt i, [])" for n
    using h Cons json_word_show_int [of i] json_number_show_int [of i]
    by (simp add: json_value_Suc del: json_value.simps)
  ultimately show ?thesis
    using Cons by (simp add: json_loads_def skip_ws_def [of "[]"] del: json_value.simps)
qed

lemma json_loads_bool: "json_loads ''true'' = Inr (PBool True)" "json_loads ''false'' = Inr (PBool False)"
  using json_value_Suc [of 9 "CHR ''t''" "''rue''"] json_value_Suc [of 11 "CHR ''f''" "''alse''"]
  by (simp_all add: json_loads_def skip_ws_def is_json_ws_def code_def json_word_def strip_prefix_def)

end
