(* ===== verification/Data_Type_Props.thy ===== *)
theory Data_Type_Props
  imports Data_Types Json_Props
begin

text \<open>
  The coercions of \<open>obs/models/types.py\<close>: results carry the declared type, incompatible values are
  reported as \<open>ValueError\<close>, integer literals are read exactly, and what a serializer writes its
  deserializer reads back.
\<close>

section \<open>Typed values\<close>

definition has_type :: "py_type \<Rightarrow> pyval \<Rightarrow> bool" where
  "has_type t v \<longleftrightarrow> isinstance v t \<and> \<not> (t = TInt \<and> is_bool v) \<and> (\<forall>x. v = PFloat x \<longrightarrow> fl_finite x)"

text \<open>What the code relies on: the ISO readers of \<open>datetime\<close> raise nothing but \<open>ValueError\<close>.\<close>

definition iso_value_errors :: "host \<Rightarrow> bool" where
  "iso_value_errors h \<longleftrightarrow>
     (\<forall>s e. (host_iso_date h s = Inl e \<or> host_iso_time h s = Inl e \<or> host_iso_datetime h s = Inl e)
        \<longrightarrow> e = ValueError)"

lemma iso_typed:
  "date_fromiso h s = Inr w \<Longrightarrow> has_type TDate w"
  "time_fromiso h s = Inr w \<Longrightarrow> has_type TTime w"
  "datetime_fromiso h s = Inr w \<Longrightarrow> has_type TDateTime w"
  by (auto simp: date_fromiso_def time_fromiso_def datetime_fromiso_def has_type_def rbind_eq_Inr)

lemma iso_errors:
  assumes "iso_value_errors h"
  shows "date_fromiso h s = Inl e \<Longrightarrow> e = ValueError"
    and "time_fromiso h s = Inl e \<Longrightarrow> e = ValueError"
    and "datetime_fromiso h s = Inl e \<Longrightarrow> e = ValueError"
  using assms
  by (auto simp: date_fromiso_def time_fromiso_def datetime_fromiso_def iso_value_errors_def rbind_eq_Inl)

lemma int_to_float_cases:
  "(\<exists>q. int_to_float i = Inr (Fin q)) \<or> int_to_float i = Inl OverflowError"
  by (auto simp: int_to_float_def split: pyfloat.splits)

lemma coerce_value_typed:
  assumes "coerce_value h d v = Inr w" "type_name d \<noteq> ''UNKNOWN''" "\<forall>x. v = PFloat x \<longrightarrow> fl_finite x"
  shows "has_type (python_type d) w"
proof (cases "isinstance v (python_type d) \<and> \<not> (python_type d = TInt \<and> is_bool v)")
  case True
  then show ?thesis using assms by (auto simp: coerce_value_def has_type_def Let_def)
next
  case False
  then show ?thesis
    using assms iso_typed
    by (cases v; cases "python_type d")
      (auto simp: coerce_value_def rbind_eq_Inr has_type_def fl_finite_def Let_def int_to_float_def
        split: if_splits pyfloat.splits)
qed

lemma coerce_value_idem:
  assumes "has_type (python_type d) w"
  shows "coerce_value h d w = Inr w"
  using assms by (auto simp: coerce_value_def has_type_def Let_def)

lemma coerce_value_for_type_Inr:
  "coerce_value_for_type h reg v dt = Inr w \<longleftrightarrow>
     (\<forall>x. v = PFloat x \<longrightarrow> fl_finite x)
     \<and> (\<exists>d. type_get reg dt = Inr d \<and> coerce_value h d v = Inr w)"
  by (cases v) (auto simp: coerce_value_for_type_def rbind_eq_Inr)

text \<open>
  C37. A coerced value has the Python type declared for its data type (an INTEGER is never left a
  boolean, no float is infinite or not a number), and coercing it again changes nothing.
\<close>

theorem coerce_value_for_type_typed:
  assumes "coerce_value_for_type h reg v dt = Inr w" "type_get reg dt = Inr d"
    and "type_name d \<noteq> ''UNKNOWN''"
  shows "has_type (python_type d) w \<and> coerce_value_for_type h reg w dt = Inr w"
proof -
  have fin: "\<forall>x. v = PFloat x \<longrightarrow> fl_finite x" and co: "coerce_value h d v = Inr w"
    using assms(1,2) by (auto simp: coerce_value_for_type_Inr)
  have "has_type (python_type d) w" by (rule coerce_value_typed [OF co assms(3) fin])
  then show ?thesis
    using coerce_value_idem assms(2) by (auto simp: coerce_value_for_type_Inr has_type_def)
qed

lemma coerce_value_errors:
  assumes "iso_value_errors h" "coerce_value h d v = Inl e" "\<forall>x. v = PFloat x \<longrightarrow> fl_finite x"
  shows "e = ValueError \<or> (e = OverflowError \<and> python_type d = TFloat
    \<and> (\<exists>i. v = PInt i \<and> int_to_float i = Inl OverflowError))"
proof (cases v)
  case (PInt i)
  then show ?thesis
    using assms(2) int_to_float_cases [of i]
    by (auto simp: coerce_value_def Let_def split: if_splits)
next
  case (PFloat x)
  then obtain q where "x = Fin q" using assms(3) by (cases x) (auto simp: fl_finite_def)
  then show ?thesis
    using assms(2) PFloat
    by (auto simp: coerce_value_def Let_def float_to_int_def split: if_splits)
next
  case (PStr s)
  then show ?thesis
    using assms(2) iso_errors [OF assms(1)]
    by (auto simp: coerce_value_def Let_def split: if_splits)
qed (use assms(2) in \<open>auto simp: coerce_value_def Let_def split: if_splits\<close>)

text \<open>
  A value that does not fit its data type is reported as \<open>ValueError\<close>, which the API turns
  into a client error, with one exception: an integer too large for a float given for a FLOAT type.
\<close>

theorem coerce_value_for_type_errors:
  assumes "iso_value_errors h" "type_get reg dt = Inr d" "coerce_value_for_type h reg v dt = Inl e"
  shows "e = ValueError \<or> (e = OverflowError \<and> python_type d = TFloat
    \<and> (\<exists>i. v = PInt i \<and> int_to_float i = Inl OverflowError))"
proof (cases "\<forall>x. v = PFloat x \<longrightarrow> fl_finite x")
  case True
  then have "coerce_value h d v = Inl e"
    using assms(2,3) by (cases v) (auto simp: coerce_value_for_type_def)
  then show ?thesis using coerce_value_errors assms(1) True by blast
next
  case False
  then show ?thesis using assms(3) by (auto simp: coerce_value_for_type_def)
qed

section \<open>The built-in registry\<close>

lemma builtin_type_table: "register_builtin_types [] = map (\<lambda>d. (type_name d, d)) builtin_types"
  by (simp add: register_builtin_types_def builtin_types_def type_register_def)

lemma builtin_type_rows:
  "list_all (\<lambda>d. (type_name d, python_type d) \<in> {(''UNKNOWN'', TBytes), (''BOOLEAN'', TBool),
    (''INTEGER'', TInt), (''FLOAT'', TFloat), (''STRING'', TStr), (''DATE'', TDate), (''TIME'', TTime),
    (''DATETIME'', TDateTime)}) builtin_types"
  by (simp add: builtin_types_def)

lemma builtin_type_cases:
  assumes "type_get (register_builtin_types []) dt = Inr d"
  shows "(type_name d, python_type d) \<in> {(''UNKNOWN'', TBytes), (''BOOLEAN'', TBool),
    (''INTEGER'', TInt), (''FLOAT'', TFloat), (''STRING'', TStr), (''DATE'', TDate), (''TIME'', TTime),
    (''DATETIME'', TDateTime)}"
proof -
  have "d \<in> set builtin_types"
    using assms
    by (auto simp: type_get_def builtin_type_table split: option.splits dest!: map_of_SomeD)
  then show ?thesis using builtin_type_rows unfolding list_all_iff by blast
qed

lemma type_get_builtin:
  "\<exists>d. type_get (register_builtin_types []) ''BOOLEAN'' = Inr d \<and> type_name d = ''BOOLEAN'' \<and> python_type d = TBool
    \<and> mqtt_serializer d = (\<lambda>v. json_dumps (PBool (py_truthy v)))
    \<and> mqtt_deserializer d = (\<lambda>h s. rbind (json_loads s) (\<lambda>v. Inr (PBool (py_truthy v))))"
  "\<exists>d. type_get (register_builtin_types []) ''INTEGER'' = Inr d \<and> type_name d = ''INTEGER'' \<and> python_type d = TInt
    \<and> mqtt_serializer d = (\<lambda>v. rbind (py_int v) (\<lambda>i. json_dumps (PInt i)))
    \<and> mqtt_deserializer d = (\<lambda>h s. rbind (json_loads s) (\<lambda>v. rbind (py_int v) (\<lambda>i. Inr (PInt i))))"
  "\<exists>d. type_get (register_builtin_types []) ''FLOAT'' = Inr d \<and> type_name d = ''FLOAT'' \<and> python_type d = TFloat"
  "\<exists>d. type_get (register_builtin_types []) ''STRING'' = Inr d \<and> type_name d = ''STRING'' \<and> python_type d = TStr
    \<and> mqtt_serializer d = (\<lambda>v. json_dumps (PStr (py_str v)))
    \<and> mqtt_deserializer d = (\<lambda>h s. rbind (json_loads s) (\<lambda>v. Inr (PStr (py_str v))))"
  "\<exists>d. type_get (register_builtin_types []) ''UNKNOWN'' = Inr d \<and> type_name d = ''UNKNOWN'' \<and> python_type d = TBytes
    \<and> mqtt_serializer d = unknown_serializer \<and> mqtt_deserializer d = unknown_deserializer"
  by (simp_all add: type_get_def register_builtin_types_def builtin_types_def type_register_def)


text \<open>
  The exception is real: an integer of at least two to the power of 1024, which JSON can carry,
  makes the coercion to FLOAT raise \<open>OverflowError\<close> and not the \<open>ValueError\<close> its callers handle.
\<close>

theorem coerce_huge_integer_overflows:
  assumes "2 ^ 1024 \<le> i"
  shows "coerce_value_for_type h (register_builtin_types []) (PInt i) ''FLOAT'' = Inl OverflowError"
proof -
  obtain d where "type_get (register_builtin_types []) ''FLOAT'' = Inr d" "type_name d = ''FLOAT''"
      "python_type d = TFloat"
    using type_get_builtin(3) by blast
  then show ?thesis
    using int_to_float_overflow [OF assms]
    by (simp add: coerce_value_for_type_def coerce_value_def Let_def)
qed

section \<open>Text\<close>

definition number_value :: "number \<Rightarrow> rat" where
  "number_value n =
     (case n of N_Int i \<Rightarrow> of_int i | N_Dec c e \<Rightarrow> of_int c * pow10 e | N_Float q \<Rightarrow> q)"

lemma dec_integral:
  assumes "\<not> has_fractional_part (N_Dec c e)"
  shows "of_int (number_to_int (N_Dec c e)) = (of_int c * pow10 e :: rat)"
proof (cases "0 \<le> e")
  case True
  then show ?thesis by (simp add: pow10_def)
next
  case False
  then have "c mod 10 ^ nat (- e) = 0" using assms by simp
  then obtain k where k: "c = 10 ^ nat (- e) * k" by (auto simp: mod_eq_0_iff_dvd)
  have "sgn c * (\<bar>c\<bar> div 10 ^ nat (- e)) = k" by (simp add: k abs_mult sgn_mult sgn_mult_abs)
  then show ?thesis using False by (simp add: pow10_def) (simp add: k)
qed

lemma dec_fractional:
  assumes "has_fractional_part (N_Dec c e)"
  shows "of_int c * pow10 e \<noteq> (of_int i :: rat)"
proof
  assume eq: "of_int c * pow10 e = (of_int i :: rat)"
  have "e < 0" and frac: "c mod 10 ^ nat (- e) \<noteq> 0" using assms by auto
  then have "(of_int c :: rat) = of_int (i * 10 ^ nat (- e))"
    using eq by (simp add: pow10_def field_simps)
  then have "c = i * 10 ^ nat (- e)" by (simp only: of_int_eq_iff)
  then show False using frac by simp
qed

lemma number_integral_iff:
  "\<not> has_fractional_part n \<and> number_to_int n = i \<longleftrightarrow> number_value n = of_int i"
proof (cases n)
  case (N_Dec c e)
  have "\<not> has_fractional_part n \<and> number_to_int n = i \<longleftrightarrow> of_int c * pow10 e = (of_int i :: rat)"
    using dec_integral [of c e] dec_fractional [of c e i] of_int_eq_iff unfolding N_Dec by metis
  then show ?thesis by (simp add: N_Dec number_value_def)
qed (auto simp: number_value_def)

text \<open>
  A text is accepted for an INTEGER exactly when it denotes a number that is an integer and
  within the digit limit, and then the stored integer is that number, to the last digit.
\<close>

theorem coerce_text_integer_exact:
  "coerce_text_value_for_type h limit (register_builtin_types []) r ''INTEGER'' = Inr w \<longleftrightarrow>
     (\<exists>num i. parse_number limit (py_strip r) (py_lower (py_strip r)) = Some num
        \<and> number_value num = of_int i \<and> \<not> exceeds_integer_digit_limit limit num \<and> w = PInt i)"
proof -
  obtain d where d: "type_get (register_builtin_types []) ''INTEGER'' = Inr d" "type_name d = ''INTEGER''"
    using type_get_builtin(2) by blast
  have "coerce_text_value_for_type h limit (register_builtin_types []) r ''INTEGER'' = Inr w \<longleftrightarrow>
     (\<exists>num. parse_number limit (py_strip r) (py_lower (py_strip r)) = Some num
        \<and> \<not> exceeds_integer_digit_limit limit num \<and> \<not> has_fractional_part num
        \<and> w = PInt (number_to_int num))"
    by (auto simp: coerce_text_value_for_type_def d Let_def split: option.splits)
  then show ?thesis using number_integral_iff by metis
qed

lemma to_float_typed: "to_float n = Inr w \<Longrightarrow> has_type TFloat w"
  by (auto simp: to_float_def has_type_def split: sum.splits pyerr.splits if_splits)

lemma to_float_errors: "to_float n = Inl e \<Longrightarrow> e = ValueError"
  using int_to_float_cases [of "number_to_int n"]
  by (cases n) (auto simp: to_float_def number_to_float_def split: sum.splits if_splits)

text \<open>
  Reading a free text for a built-in type gives a value of that type or \<open>ValueError\<close>, never
  another exception: neither an oversized literal nor an exponent nor \<open>nan\<close> escapes it.
\<close>

theorem coerce_text_typed_or_value_error:
  assumes "iso_value_errors h" "type_get (register_builtin_types []) dt = Inr d"
  shows "coerce_text_value_for_type h limit (register_builtin_types []) r dt = Inl ValueError
    \<or> (\<exists>w. coerce_text_value_for_type h limit (register_builtin_types []) r dt = Inr w
        \<and> (type_name d \<noteq> ''UNKNOWN'' \<longrightarrow> has_type (python_type d) w))"
proof (cases "coerce_text_value_for_type h limit (register_builtin_types []) r dt")
  case (Inl e)
  then have "e = ValueError"
    using builtin_type_cases [OF assms(2)] iso_errors [OF assms(1)] to_float_errors
    by (auto simp: coerce_text_value_for_type_def assms(2) Let_def split: if_splits option.splits)
  then show ?thesis using Inl by simp
next
  case (Inr w)
  then have "type_name d \<noteq> ''UNKNOWN'' \<longrightarrow> has_type (python_type d) w"
    using builtin_type_cases [OF assms(2)] iso_typed [of h _ w] to_float_typed
    by (auto simp: coerce_text_value_for_type_def assms(2) Let_def has_type_def [of TBool]
        has_type_def [of TInt] has_type_def [of TStr] split: if_splits option.splits)
  then show ?thesis using Inr by simp
qed

section \<open>Serializers\<close>

lemma hex_val_digit: "n < 16 \<Longrightarrow> hex_val (hex_digit n) = Some n"
  by (rule hex_val_hex_digit)

lemma bytes_hex_is_hex: "is_hex (bytes_hex b)"
proof -
  have "is_hex_char (hex_digit n)" if "n < 16" for n
    using that by (simp add: is_hex_char_def hex_val_digit)
  moreover have "unat w div 16 < 16" for w :: byte
    using unat_byte_less [of w] by (simp add: less_mult_imp_div_less)
  ultimately show ?thesis
    by (induction b) (auto simp: is_hex_def bytes_hex_def hex2_def)
qed

lemma from_hex_bytes_hex: "from_hex (bytes_hex b) = b"
proof (induction b)
  case (Cons w b)
  have "unat w div 16 < 16" using unat_byte_less [of w] by (simp add: less_mult_imp_div_less)
  then show ?case using Cons by (simp add: bytes_hex_def hex2_def hex_val_digit)
qed (simp add: bytes_hex_def)

text \<open>
  What the MQTT serializer of a type writes, its deserializer reads back unchanged, for
  booleans, integers of any size, texts with whatever characters they contain, and raw bytes.
\<close>

theorem mqtt_serializer_roundtrip:
  assumes "type_get (register_builtin_types []) dt = Inr d"
    and "dt \<in> {''UNKNOWN'', ''BOOLEAN'', ''INTEGER'', ''STRING''}" and "has_type (python_type d) v"
  shows "\<exists>s. mqtt_serializer d v = Inr s \<and> mqtt_deserializer d h s = Inr v"
proof -
  consider "dt = ''UNKNOWN''" | "dt = ''BOOLEAN''" | "dt = ''INTEGER''" | "dt = ''STRING''"
    using assms(2) by blast
  then show ?thesis
  proof cases
    case 1
    then show ?thesis using assms(1,3) type_get_builtin(5)
      by (cases v) (auto simp: has_type_def unknown_serializer_def unknown_deserializer_def
          bytes_hex_is_hex from_hex_bytes_hex)
  next
    case 2
    then show ?thesis using assms(1,3) type_get_builtin(1)
      by (cases v) (auto simp: has_type_def json_loads_bool)
  next
    case 3
    then show ?thesis using assms(1,3) type_get_builtin(2)
      by (cases v) (auto simp: has_type_def json_loads_show_int)
  next
    case 4
    then show ?thesis using assms(1,3) type_get_builtin(4)
      by (cases v) (auto simp: has_type_def json_loads_quote)
  qed
qed

section \<open>Concrete instances\<close>

definition no_host :: host where
  "no_host = \<lparr>host_now = (2024, 1, 1, 0, 0, 0), host_local = (\<lambda>_. Inl ValueError),
     host_iso_time = (\<lambda>_. Inl ValueError), host_iso_date = (\<lambda>_. Inl ValueError),
     host_iso_datetime = (\<lambda>_. Inl ValueError)\<rparr>"

lemma no_host_errors: "iso_value_errors no_host"
  by (simp add: iso_value_errors_def no_host_def)

theorem coerce_value_for_type_typed_witness: "has_type TInt (PInt 1)"
proof -
  obtain d where d: "type_get (register_builtin_types []) ''INTEGER'' = Inr d"
      "type_name d = ''INTEGER''" "python_type d = TInt"
    using type_get_builtin(2) by blast
  have "coerce_value_for_type no_host (register_builtin_types []) (PBool True) ''INTEGER'' = Inr (PInt 1)"
    by (simp add: coerce_value_for_type_def coerce_value_def d Let_def)
  from coerce_value_for_type_typed [OF this d(1)] d show ?thesis by simp
qed

theorem coerce_value_for_type_errors_witness:
  "ValueError = ValueError \<or> (ValueError = OverflowError \<and> TInt = TFloat
    \<and> (\<exists>i. PStr ''x'' = PInt i \<and> int_to_float i = Inl OverflowError))"
proof -
  obtain d where d: "type_get (register_builtin_types []) ''INTEGER'' = Inr d"
      "type_name d = ''INTEGER''" "python_type d = TInt"
    using type_get_builtin(2) by blast
  have "coerce_value_for_type no_host (register_builtin_types []) (PStr ''x'') ''INTEGER'' = Inl ValueError"
    by (simp add: coerce_value_for_type_def coerce_value_def d Let_def)
  from coerce_value_for_type_errors [OF no_host_errors d(1) this] d show ?thesis by simp
qed

theorem coerce_huge_integer_overflows_witness:
  "coerce_value_for_type no_host (register_builtin_types []) (PInt (2 ^ 1024)) ''FLOAT'' = Inl OverflowError"
  by (rule coerce_huge_integer_overflows) simp

theorem coerce_text_typed_or_value_error_witness:
  "\<exists>d. type_get (register_builtin_types []) ''INTEGER'' = Inr d
    \<and> (coerce_text_value_for_type no_host 4300 (register_builtin_types []) ''12'' ''INTEGER'' = Inl ValueError
      \<or> (\<exists>w. coerce_text_value_for_type no_host 4300 (register_builtin_types []) ''12'' ''INTEGER'' = Inr w
          \<and> has_type TInt w))"
proof -
  obtain d where d: "type_get (register_builtin_types []) ''INTEGER'' = Inr d"
      "type_name d = ''INTEGER''" "python_type d = TInt"
    using type_get_builtin(2) by blast
  show ?thesis
    using coerce_text_typed_or_value_error [OF no_host_errors d(1), of 4300 "''12''"] d by auto
qed

theorem mqtt_serializer_roundtrip_witness:
  "\<exists>d s. type_get (register_builtin_types []) ''STRING'' = Inr d
    \<and> mqtt_serializer d (PStr ''a b'') = Inr s \<and> mqtt_deserializer d no_host s = Inr (PStr ''a b'')"
proof -
  obtain d where d: "type_get (register_builtin_types []) ''STRING'' = Inr d" "python_type d = TStr"
    using type_get_builtin(4) by blast
  have "has_type (python_type d) (PStr ''a b'')" by (simp add: has_type_def d)
  from mqtt_serializer_roundtrip [OF d(1) _ this, of no_host] d show ?thesis by auto
qed

end
