(* ===== verification/Converter.thy ===== *)
theory Converter
  imports Py_Value
begin

text \<open>
  Conversion between data types (\<open>obs/core/converter.py\<close>): the matrix of converters, the fallback
  through text, and the query for lossy conversions.  A converter may raise, so it returns a result.
\<close>

section \<open>Results\<close>

record conversion =
  conv_value :: pyval
  loss :: bool
  loss_description :: string

definition plain :: "pyval \<Rightarrow> conversion" where
  "plain v = \<lparr>conv_value = v, loss = False, loss_description = ''''\<rparr>"

definition lossy :: "pyval \<Rightarrow> string \<Rightarrow> conversion" where
  "lossy v d = \<lparr>conv_value = v, loss = True, loss_description = d\<rparr>"

section \<open>Converters\<close>

definition conv_float_to_int :: "pyval \<Rightarrow> (pyerr, conversion) result" where
  "conv_float_to_int v =
     rbind (py_float v) (\<lambda>f.
     rbind (float_to_int f) (\<lambda>i.
     rbind (int_to_float i) (\<lambda>g.
       let ls = \<not> feq f g
       in Inr \<lparr>conv_value = PInt i, loss = ls,
               loss_description = (if ls then ''Fractional part truncated'' else '''')\<rparr>)))"

definition conv_float_to_bool :: "pyval \<Rightarrow> (pyerr, conversion) result" where
  "conv_float_to_bool v =
     rbind (py_float v) (\<lambda>f.
       let ls = \<not> (feq f (Fin 0) \<or> feq f (Fin 1))
       in Inr \<lparr>conv_value = PBool (f \<noteq> Fin 0), loss = ls,
               loss_description =
                 (if ls then ''Non-binary float '' @ py_str (PFloat f) @ '' coerced to bool'' else '''')\<rparr>)"

definition conv_float_to_string :: "pyval \<Rightarrow> (pyerr, conversion) result" where
  "conv_float_to_string v =
     rbind (py_float v) (\<lambda>f.
       Inr (lossy (PStr (py_str (PFloat f)))
         (''Converted to string '' @ [CHR 0xE2, CHR 0x80, CHR 0x94]
            @ '' roundtrip may not preserve precision'')))"

definition conv_int_to_float :: "pyval \<Rightarrow> (pyerr, conversion) result" where
  "conv_int_to_float v =
     rbind (py_int v) (\<lambda>i. rbind (int_to_float i) (\<lambda>f. Inr (plain (PFloat f))))"

definition conv_int_to_bool :: "pyval \<Rightarrow> (pyerr, conversion) result" where
  "conv_int_to_bool v =
     rbind (py_int v) (\<lambda>i.
       let ls = (i \<notin> {0, 1})
       in Inr \<lparr>conv_value = PBool (i \<noteq> 0), loss = ls,
               loss_description =
                 (if ls then ''Non-binary integer '' @ show_int i @ '' coerced to bool'' else '''')\<rparr>)"

definition conv_int_to_string :: "pyval \<Rightarrow> (pyerr, conversion) result" where
  "conv_int_to_string v =
     rbind (py_int v) (\<lambda>i. Inr (lossy (PStr (show_int i)) ''Converted to string''))"

definition conv_bool_to_int :: "pyval \<Rightarrow> (pyerr, conversion) result" where
  "conv_bool_to_int v = Inr (plain (PInt (of_bool (py_truthy v))))"

definition conv_bool_to_float :: "pyval \<Rightarrow> (pyerr, conversion) result" where
  "conv_bool_to_float v = Inr (plain (PFloat (Fin (of_bool (py_truthy v)))))"

definition conv_bool_to_string :: "pyval \<Rightarrow> (pyerr, conversion) result" where
  "conv_bool_to_string v =
     Inr (lossy (PStr (if py_truthy v then ''True'' else ''False'')) ''Converted to string'')"

definition quoted :: "pyval \<Rightarrow> string" where
  "quoted v = [char_of (39 :: nat)] @ py_str v @ [char_of (39 :: nat)]"

definition conv_string_to_float :: "pyval \<Rightarrow> (pyerr, conversion) result" where
  "conv_string_to_float v =
     Inr (case parse_float (py_str v) of
            Some f \<Rightarrow> lossy (PFloat f) ''Parsed from string''
          | None \<Rightarrow> lossy (PFloat (Fin 0))
              (''Cannot parse '' @ quoted v @ '' as float '' @ [CHR 0xE2, CHR 0x80, CHR 0x94]
                 @ '' defaulted to 0.0''))"

definition conv_string_to_int :: "pyval \<Rightarrow> (pyerr, conversion) result" where
  "conv_string_to_int v =
     Inr (case parse_int (py_str v) of
            Some i \<Rightarrow> lossy (PInt i) ''Parsed from string''
          | None \<Rightarrow> lossy (PInt 0)
              (''Cannot parse '' @ quoted v @ '' as int '' @ [CHR 0xE2, CHR 0x80, CHR 0x94]
                 @ '' defaulted to 0''))"

definition conv_string_to_bool :: "pyval \<Rightarrow> (pyerr, conversion) result" where
  "conv_string_to_bool v =
     (let s = py_strip (py_lower (py_str v))
      in Inr (if s \<in> {''true'', ''1'', ''yes'', ''on''} then lossy (PBool True) ''Parsed from string''
              else if s \<in> {''false'', ''0'', ''no'', ''off''}
              then lossy (PBool False) ''Parsed from string''
              else lossy (PBool (s \<noteq> [])) (''Ambiguous string '' @ quoted v @ '' coerced to bool'')))"

section \<open>The conversion matrix\<close>

type_synonym converter = "pyval \<Rightarrow> (pyerr, conversion) result"

definition converters :: "((string \<times> string) \<times> converter) list" where
  "converters =
    [((''FLOAT'', ''INTEGER''), conv_float_to_int),
     ((''FLOAT'', ''BOOLEAN''), conv_float_to_bool),
     ((''FLOAT'', ''STRING''), conv_float_to_string),
     ((''INTEGER'', ''FLOAT''), conv_int_to_float),
     ((''INTEGER'', ''BOOLEAN''), conv_int_to_bool),
     ((''INTEGER'', ''STRING''), conv_int_to_string),
     ((''BOOLEAN'', ''INTEGER''), conv_bool_to_int),
     ((''BOOLEAN'', ''FLOAT''), conv_bool_to_float),
     ((''BOOLEAN'', ''STRING''), conv_bool_to_string),
     ((''STRING'', ''FLOAT''), conv_string_to_float),
     ((''STRING'', ''INTEGER''), conv_string_to_int),
     ((''STRING'', ''BOOLEAN''), conv_string_to_bool)]"

definition sample_values :: "(string \<times> pyval) list" where
  "sample_values =
    [(''FLOAT'', PFloat (Fin (3 / 2))), (''INTEGER'', PInt 1), (''BOOLEAN'', PBool True),
     (''STRING'', PStr ''1''), (''UNKNOWN'', PBytes [])]"

definition convert :: "pyval \<Rightarrow> string \<Rightarrow> string \<Rightarrow> (pyerr, conversion) result" where
  "convert v from_type to_type =
     (if from_type = to_type then Inr (plain v)
      else case map_of converters (from_type, to_type) of
             Some fn \<Rightarrow> fn v
           | None \<Rightarrow>
               Inr (lossy (PStr (py_str v))
                 (''No direct conversion from '' @ from_type @ '' to '' @ to_type
                    @ ''; used string representation'')))"

definition can_convert :: "string \<Rightarrow> string \<Rightarrow> bool" where
  "can_convert from_type to_type \<longleftrightarrow>
     from_type = to_type \<or> (from_type, to_type) \<in> set (map fst converters)"

definition conversion_has_loss :: "string \<Rightarrow> string \<Rightarrow> (pyerr, bool) result" where
  "conversion_has_loss from_type to_type =
     (if from_type = to_type then Inr False
      else
        (let sample = (case map_of sample_values from_type of None \<Rightarrow> PBytes [] | Some v \<Rightarrow> v)
         in rbind (convert sample from_type to_type) (\<lambda>r. Inr (loss r))))"

end
