(* ===== verification/Converter_Props.thy ===== *)
theory Converter_Props
  imports Converter
begin

text \<open>What a conversion between data types promises: when it raises, when it is exact, and which
  pairs of types the configuration reports as lossy.\<close>

lemma convert_cases:
  assumes "from_type \<noteq> to_type"
  obtains c where "((from_type, to_type), c) \<in> set converters" "convert v from_type to_type = c v"
  | "(from_type, to_type) \<notin> set (map fst converters)"
    "\<exists>d. convert v from_type to_type = Inr (lossy (PStr (py_str v)) d)"
proof (cases "map_of converters (from_type, to_type)")
  case None
  then have "(from_type, to_type) \<notin> set (map fst converters)" by (simp add: map_of_eq_None_iff)
  moreover have "\<exists>d. convert v from_type to_type = Inr (lossy (PStr (py_str v)) d)"
    using None assms by (auto simp: convert_def)
  ultimately show ?thesis using that(2) by blast
next
  case (Some c)
  then have "((from_type, to_type), c) \<in> set converters" by (rule map_of_SomeD)
  moreover have "convert v from_type to_type = c v" using Some assms by (simp add: convert_def)
  ultimately show ?thesis using that(1) by blast
qed

text \<open>A value of the data type it is declared with.\<close>

definition value_of_type :: "string \<Rightarrow> pyval \<Rightarrow> bool" where
  "value_of_type t v \<longleftrightarrow>
     (t = ''FLOAT'' \<and> is_float v) \<or> (t = ''INTEGER'' \<and> is_int v \<and> \<not> is_bool v)
     \<or> (t = ''BOOLEAN'' \<and> is_bool v) \<or> (t = ''STRING'' \<and> is_str v)"

definition is_float64 :: "rat \<Rightarrow> bool" where
  "is_float64 q \<longleftrightarrow> rnd64 q = Fin q"

lemma converter_rows:
  assumes "((f, t), c) \<in> set converters"
  shows "(f, t, c) \<in> {(''FLOAT'', ''INTEGER'', conv_float_to_int), (''FLOAT'', ''BOOLEAN'', conv_float_to_bool),
     (''FLOAT'', ''STRING'', conv_float_to_string), (''INTEGER'', ''FLOAT'', conv_int_to_float),
     (''INTEGER'', ''BOOLEAN'', conv_int_to_bool), (''INTEGER'', ''STRING'', conv_int_to_string),
     (''BOOLEAN'', ''INTEGER'', conv_bool_to_int), (''BOOLEAN'', ''FLOAT'', conv_bool_to_float),
     (''BOOLEAN'', ''STRING'', conv_bool_to_string), (''STRING'', ''FLOAT'', conv_string_to_float),
     (''STRING'', ''INTEGER'', conv_string_to_int), (''STRING'', ''BOOLEAN'', conv_string_to_bool)}"
  using assms by (auto simp: converters_def)

lemma converters_find:
  "map_of converters (''FLOAT'', ''INTEGER'') = Some conv_float_to_int"
  "map_of converters (''FLOAT'', ''BOOLEAN'') = Some conv_float_to_bool"
  "map_of converters (''FLOAT'', ''STRING'') = Some conv_float_to_string"
  "map_of converters (''INTEGER'', ''FLOAT'') = Some conv_int_to_float"
  "map_of converters (''INTEGER'', ''BOOLEAN'') = Some conv_int_to_bool"
  "map_of converters (''INTEGER'', ''STRING'') = Some conv_int_to_string"
  "map_of converters (''BOOLEAN'', ''INTEGER'') = Some conv_bool_to_int"
  "map_of converters (''BOOLEAN'', ''FLOAT'') = Some conv_bool_to_float"
  "map_of converters (''BOOLEAN'', ''STRING'') = Some conv_bool_to_string"
  "map_of converters (''STRING'', ''FLOAT'') = Some conv_string_to_float"
  "map_of converters (''STRING'', ''INTEGER'') = Some conv_string_to_int"
  "map_of converters (''STRING'', ''BOOLEAN'') = Some conv_string_to_bool"
  by (simp_all add: converters_def)

lemma trunc_of_Fin: "float_to_int (Fin q) = Inr (trunc q)"
  by (simp add: float_to_int_def)

section \<open>Floats and integers\<close>

lemma abs_trunc_le: "of_int \<bar>trunc q\<bar> \<le> \<bar>q\<bar>"
proof (cases "0 \<le> q")
  case True
  then show ?thesis by (simp add: trunc_def)
next
  case False
  then have "trunc q \<le> 0" "q \<le> of_int (trunc q)" by (simp_all add: trunc_def ceiling_le_iff)
  then show ?thesis using False by simp
qed

lemma big_float64_integral:
  assumes "is_float64 q" "2 ^ 53 \<le> \<bar>q\<bar>"
  shows "\<exists>i. q = of_int i"
proof -
  have "q \<noteq> 0" using assms(2) by auto
  define e where "e = ulp_exp q"
  have pos: "0 < \<bar>q\<bar>" using \<open>q \<noteq> 0\<close> by simp
  have "53 \<le> ilog2 \<bar>q\<bar>"
    using pow2_mono [of "ilog2 \<bar>q\<bar> + 1" 53] ilog2_bounds(2) [OF pos] assms(2) pow2_nat [of 53]
    by (simp, linarith)
  then have "0 \<le> e" by (simp add: e_def ulp_exp_def)
  then have p: "pow2 e = of_int (2 ^ nat e)" by (simp add: pow2_def)
  have "rnd64 q = Fin q" using assms(1) by (simp add: is_float64_def)
  then have "q = of_int (round_half_even (q / pow2 e)) * pow2 e"
    using \<open>q \<noteq> 0\<close> by (simp add: rnd64_def Let_def flip: e_def split: if_splits)
  then show ?thesis by (metis p of_int_mult)
qed

lemma float_of_trunc:
  assumes "is_float64 q"
  shows "int_to_float (trunc q) = Inr (Fin (of_int (trunc q)))"
proof (cases "2 ^ 53 \<le> \<bar>q\<bar>")
  case True
  then obtain i where "q = of_int i" using big_float64_integral [OF assms] by blast
  then show ?thesis using assms by (simp add: int_to_float_def is_float64_def)
next
  case False
  then have "of_int \<bar>trunc q\<bar> < (of_int (2 ^ 53) :: rat)" using abs_trunc_le [of q] by simp
  then have "\<bar>trunc q\<bar> < 2 ^ 53" by (simp only: of_int_less_iff)
  then show ?thesis by (rule int_to_float_exact)
qed

section \<open>When a conversion raises\<close>

definition well_formed :: "pyval \<Rightarrow> bool" where
  "well_formed v \<longleftrightarrow> (\<forall>q. v = PFloat (Fin q) \<longrightarrow> is_float64 q)"

lemma float_to_int_conversion:
  assumes "well_formed (PFloat x)"
  shows "conv_float_to_int (PFloat x) =
    (case x of Fin q \<Rightarrow> Inr \<lparr>conv_value = PInt (trunc q), loss = (q \<noteq> of_int (trunc q)),
        loss_description = (if q \<noteq> of_int (trunc q) then ''Fractional part truncated'' else '''')\<rparr>
     | NaN \<Rightarrow> Inl ValueError | _ \<Rightarrow> Inl OverflowError)"
  using assms
  by (cases x) (auto simp: conv_float_to_int_def float_to_int_def float_of_trunc well_formed_def feq_def Let_def)

lemmas conv_defs = conv_float_to_bool_def conv_float_to_string_def conv_int_to_float_def
  conv_int_to_bool_def conv_int_to_string_def conv_bool_to_int_def conv_bool_to_float_def
  conv_bool_to_string_def conv_string_to_float_def conv_string_to_int_def conv_string_to_bool_def

lemma total_converters:
  assumes "c \<in> {conv_float_to_bool, conv_float_to_string}" "is_float v"
  shows "c v \<noteq> Inl e"
  using assms by (cases v) (auto simp: conv_defs Let_def)

lemma total_converters_int:
  assumes "c \<in> {conv_int_to_bool, conv_int_to_string}" "is_int v"
  shows "c v \<noteq> Inl e"
  using assms by (cases v) (auto simp: conv_defs Let_def)

lemma total_converters_any:
  assumes "c \<in> {conv_bool_to_int, conv_bool_to_float, conv_bool_to_string, conv_string_to_float,
    conv_string_to_int, conv_string_to_bool}"
  shows "c v \<noteq> Inl e"
  using assms by (auto simp: conv_defs Let_def)

lemma lossy_converters:
  assumes "c \<in> {conv_float_to_string, conv_int_to_string, conv_bool_to_string, conv_string_to_float,
    conv_string_to_int, conv_string_to_bool}" "c v = Inr r"
  shows "loss r"
  using assms by (auto simp: conv_defs lossy_def rbind_eq_Inr Let_def split: option.splits)

lemma float_to_int_raises:
  assumes "value_of_type ''FLOAT'' v" "well_formed v"
  shows "conv_float_to_int v = Inl e \<longleftrightarrow>
    v = PFloat NaN \<and> e = ValueError \<or> v \<in> {PFloat PosInf, PFloat NegInf} \<and> e = OverflowError"
proof -
  obtain x where "v = PFloat x" using assms(1) by (cases v) (auto simp: value_of_type_def)
  then show ?thesis using assms(2) float_to_int_conversion [of x] by (cases x) auto
qed

lemma int_to_float_raises:
  assumes "value_of_type ''INTEGER'' v"
  shows "conv_int_to_float v = Inl e \<longleftrightarrow> (\<exists>i. v = PInt i \<and> int_to_float i = Inl e)"
proof -
  obtain i where "v = PInt i" using assms by (cases v) (auto simp: value_of_type_def)
  then show ?thesis by (auto simp: conv_int_to_float_def rbind_eq_Inl)
qed

lemma value_of_typeD:
  "value_of_type ''FLOAT'' v \<Longrightarrow> is_float v" "value_of_type ''INTEGER'' v \<Longrightarrow> is_int v"
  by (auto simp: value_of_type_def)

lemma converter_raises:
  assumes "((f, t), c) \<in> set converters" "value_of_type f v" "well_formed v"
  shows "c v = Inl e \<longleftrightarrow>
    (f = ''FLOAT'' \<and> t = ''INTEGER'' \<and>
       (v = PFloat NaN \<and> e = ValueError \<or> v \<in> {PFloat PosInf, PFloat NegInf} \<and> e = OverflowError))
    \<or> (f = ''INTEGER'' \<and> t = ''FLOAT'' \<and> (\<exists>i. v = PInt i \<and> int_to_float i = Inl e))"
proof -
  consider "(f, t, c) = (''FLOAT'', ''INTEGER'', conv_float_to_int)"
    | "(f, t, c) = (''INTEGER'', ''FLOAT'', conv_int_to_float)"
    | "c v \<noteq> Inl e" "(f, t) \<noteq> (''FLOAT'', ''INTEGER'')" "(f, t) \<noteq> (''INTEGER'', ''FLOAT'')"
    using converter_rows [OF assms(1)] assms(2) total_converters [of c v] total_converters_int [of c v]
      total_converters_any [of c v] value_of_typeD [of v]
    by (elim insertE emptyE) simp_all
  then show ?thesis
  proof cases
    case 1
    then show ?thesis using float_to_int_raises assms(2,3) by simp
  next
    case 2
    then show ?thesis using int_to_float_raises assms(2) by simp
  next
    case 3
    then show ?thesis by auto
  qed
qed

text \<open>
  C38. A conversion of a value of its declared type raises only where a number has no counterpart:
  an infinite or undefined float has no integer, and an integer beyond the float range no float.
  The promise of \<open>convert\<close> never to raise does not hold for these.
\<close>

theorem convert_raises_iff:
  assumes "value_of_type from_type v" "well_formed v"
  shows "convert v from_type to_type = Inl e \<longleftrightarrow>
    (from_type = ''FLOAT'' \<and> to_type = ''INTEGER'' \<and>
       (v = PFloat NaN \<and> e = ValueError \<or> v \<in> {PFloat PosInf, PFloat NegInf} \<and> e = OverflowError))
    \<or> (from_type = ''INTEGER'' \<and> to_type = ''FLOAT'' \<and> (\<exists>i. v = PInt i \<and> int_to_float i = Inl e))"
proof (cases "from_type = to_type")
  case True
  then show ?thesis by (auto simp: convert_def)
next
  case False
  then show ?thesis
  proof (cases rule: convert_cases [of from_type to_type v])
    case (1 c)
    then show ?thesis using converter_raises [OF 1(1) assms] by simp
  next
    case 2
    moreover have "(''FLOAT'', ''INTEGER'') \<in> set (map fst converters)"
        "(''INTEGER'', ''FLOAT'') \<in> set (map fst converters)"
      by (simp_all add: converters_def)
    ultimately show ?thesis by auto
  qed
qed

section \<open>Exact conversions\<close>

lemma exact_converter:
  assumes "((f, t), c) \<in> set converters" "c v = Inr r" "\<not> loss r"
    and "value_of_type f v" "well_formed v"
    and "f = ''INTEGER'' \<and> t = ''FLOAT'' \<Longrightarrow> \<exists>i. v = PInt i \<and> \<bar>i\<bar> < 2 ^ 53"
  shows "\<exists>c'. map_of converters (t, f) = Some c' \<and> (\<exists>r'. c' (conv_value r) = Inr r' \<and> conv_value r' = v \<and> \<not> loss r')"
proof -
  consider "(f, t, c) = (''FLOAT'', ''INTEGER'', conv_float_to_int)"
    | "(f, t, c) = (''FLOAT'', ''BOOLEAN'', conv_float_to_bool)"
    | "(f, t, c) = (''INTEGER'', ''FLOAT'', conv_int_to_float)"
    | "(f, t, c) = (''INTEGER'', ''BOOLEAN'', conv_int_to_bool)"
    | "(f, t, c) = (''BOOLEAN'', ''INTEGER'', conv_bool_to_int)"
    | "(f, t, c) = (''BOOLEAN'', ''FLOAT'', conv_bool_to_float)"
    using converter_rows [OF assms(1)] lossy_converters [of c v r] assms(2,3)
    by (elim insertE emptyE) simp_all
  then show ?thesis
  proof cases
    case 1
    then obtain x where v: "v = PFloat x" using assms(4) by (cases v) (auto simp: value_of_type_def)
    then obtain q where q: "x = Fin q" "q = of_int (trunc q)" "conv_value r = PInt (trunc q)"
      using assms(2,3,5) 1 float_to_int_conversion [of x] by (cases x) auto
    then have "int_to_float (trunc q) = Inr x" using float_of_trunc assms(5) v by (simp add: well_formed_def)
    then show ?thesis using 1 q v by (simp add: converters_find conv_int_to_float_def plain_def)
  next
    case 2
    then obtain x where "v = PFloat x" using assms(4) by (cases v) (auto simp: value_of_type_def)
    then show ?thesis using 2 assms(2,3)
      by (auto simp: converters_find conv_defs plain_def feq_def Let_def)
  next
    case 3
    then obtain i where i: "v = PInt i" "\<bar>i\<bar> < 2 ^ 53" using assms(6) by auto
    then have "conv_value r = PFloat (Fin (of_int i))" "int_to_float i = Inr (Fin (of_int i))"
      using 3 assms(2) int_to_float_exact [OF i(2)] by (auto simp: conv_defs plain_def)
    then show ?thesis using 3 i
      by (simp add: converters_find conv_float_to_int_def float_to_int_def feq_def)
  next
    case 4
    then obtain i where "v = PInt i" using assms(4) by (cases v) (auto simp: value_of_type_def)
    then show ?thesis using 4 assms(2,3)
      by (auto simp: converters_find conv_defs plain_def Let_def)
  next
    case 5
    then obtain b where "v = PBool b" using assms(4) by (cases v) (auto simp: value_of_type_def)
    then show ?thesis using 5 assms(2,3)
      by (auto simp: converters_find conv_defs plain_def)
  next
    case 6
    then obtain b where "v = PBool b" using assms(4) by (cases v) (auto simp: value_of_type_def)
    then show ?thesis using 6 assms(2,3)
      by (auto simp: converters_find conv_defs plain_def feq_def)
  qed
qed

text \<open>
  A conversion that does not report a loss loses nothing: converting the result back gives the
  original value, again without a loss.  For an integer made a float this holds within the 53 bits
  of a float's mantissa.
\<close>

theorem convert_lossless_roundtrip:
  assumes "convert v from_type to_type = Inr r" "\<not> loss r" "value_of_type from_type v" "well_formed v"
    and "from_type = ''INTEGER'' \<and> to_type = ''FLOAT'' \<longrightarrow> (\<exists>i. v = PInt i \<and> \<bar>i\<bar> < 2 ^ 53)"
  shows "\<exists>r'. convert (conv_value r) to_type from_type = Inr r' \<and> conv_value r' = v \<and> \<not> loss r'"
proof (cases "from_type = to_type")
  case True
  then show ?thesis using assms(1) by (auto simp: convert_def plain_def)
next
  case False
  then show ?thesis
  proof (cases rule: convert_cases [of from_type to_type v])
    case (1 c)
    have "\<exists>c'. map_of converters (to_type, from_type) = Some c' \<and>
        (\<exists>r'. c' (conv_value r) = Inr r' \<and> conv_value r' = v \<and> \<not> loss r')"
      using exact_converter [OF 1(1)] 1(2) assms by simp
    then show ?thesis using False by (auto simp: convert_def)
  next
    case 2
    then show ?thesis using assms(1,2) by (auto simp: lossy_def)
  qed
qed

section \<open>The query for lossy conversions\<close>

lemma int_to_float_1: "int_to_float 1 = Inr (Fin 1)"
  using int_to_float_exact [of 1] by simp

lemma float_sample_lossy:
  "\<exists>r. conv_float_to_int (PFloat (Fin (3 / 2))) = Inr r \<and> loss r"
  "\<exists>r. conv_float_to_bool (PFloat (Fin (3 / 2))) = Inr r \<and> loss r"
proof -
  have "trunc (3 / 2) = 1" by (simp add: trunc_def floor_eq_iff)
  then show "\<exists>r. conv_float_to_int (PFloat (Fin (3 / 2))) = Inr r \<and> loss r"
    by (simp add: conv_float_to_int_def float_to_int_def int_to_float_1 feq_def)
  show "\<exists>r. conv_float_to_bool (PFloat (Fin (3 / 2))) = Inr r \<and> loss r"
    by (simp add: conv_float_to_bool_def feq_def)
qed

lemma sample_loss:
  assumes "((f, t), c) \<in> set converters"
  shows "\<exists>r. c (case map_of sample_values f of None \<Rightarrow> PBytes [] | Some v \<Rightarrow> v) = Inr r
    \<and> loss r = ((f, t) \<notin> {(''INTEGER'', ''FLOAT''), (''INTEGER'', ''BOOLEAN''),
        (''BOOLEAN'', ''INTEGER''), (''BOOLEAN'', ''FLOAT'')})"
  using converter_rows [OF assms]
  by (elim insertE emptyE)
    (simp_all add: sample_values_def conv_defs float_sample_lossy [simplified conv_defs]
      float_sample_lossy int_to_float_1 lossy_def plain_def feq_def Let_def split: option.splits)

lemma exact_pairs:
  "(f, t) \<in> {(''INTEGER'', ''FLOAT''), (''INTEGER'', ''BOOLEAN''), (''BOOLEAN'', ''INTEGER''), (''BOOLEAN'', ''FLOAT'')}
   \<Longrightarrow> (f, t) \<in> set (map fst converters)"
  unfolding converters_def by (elim insertE emptyE) simp_all

text \<open>
  The configuration is told that a conversion loses nothing exactly for equal types and for
  the four conversions among integers, floats and booleans that start from an integer or a boolean;
  the query itself never raises.
\<close>

theorem conversion_has_loss_table:
  "conversion_has_loss from_type to_type =
     Inr (from_type \<noteq> to_type \<and> (from_type, to_type) \<notin>
       {(''INTEGER'', ''FLOAT''), (''INTEGER'', ''BOOLEAN''), (''BOOLEAN'', ''INTEGER''), (''BOOLEAN'', ''FLOAT'')})"
proof (cases "from_type = to_type")
  case True
  then show ?thesis by (simp add: conversion_has_loss_def)
next
  case False
  define v where "v = (case map_of sample_values from_type of None \<Rightarrow> PBytes [] | Some v \<Rightarrow> v)"
  have q: "conversion_has_loss from_type to_type = rbind (convert v from_type to_type) (\<lambda>r. Inr (loss r))"
    using False by (simp add: conversion_has_loss_def v_def)
  from False show ?thesis
  proof (cases rule: convert_cases [of from_type to_type v])
    case (1 c)
    then show ?thesis using sample_loss [OF 1(1)] q False unfolding v_def by auto
  next
    case 2
    then show ?thesis using q False exact_pairs [of from_type to_type] by (auto simp: lossy_def)
  qed
qed

text \<open>
  Two of those are too kind to integers: an integer other than 0 and 1 made a boolean is a loss
  that the conversion itself reports, and the smallest integer beyond 53 bits made a float comes
  back changed although the conversion reports no loss.
\<close>

theorem integer_losses_not_reported:
  "conversion_has_loss ''INTEGER'' ''BOOLEAN'' = Inr False
   \<and> (\<exists>r. convert (PInt 2) ''INTEGER'' ''BOOLEAN'' = Inr r \<and> loss r)
   \<and> convert (PInt (2 ^ 53 + 1)) ''INTEGER'' ''FLOAT'' = Inr (plain (PFloat (Fin (2 ^ 53))))
   \<and> convert (PFloat (Fin (2 ^ 53))) ''FLOAT'' ''INTEGER'' = Inr (plain (PInt (2 ^ 53)))"
proof (intro conjI)
  have "\<lfloor>9007199254740993 / 2 :: rat\<rfloor> = 4503599627370496" by (simp add: floor_eq_iff)
  then have tie: "round_half_even ((2 ^ 53 + 1) / 2) = 2 ^ 52"
    by (simp add: round_half_even_def Let_def)
  have rnd: "rnd64 (2 ^ 53 + 1) = Fin (of_int (2 ^ 52) * pow2 1)"
    by (rule rnd64_eqI) (simp_all add: pow2_def tie [simplified])
  show "conversion_has_loss ''INTEGER'' ''BOOLEAN'' = Inr False"
    by (simp add: conversion_has_loss_def sample_values_def convert_def converters_find conv_int_to_bool_def)
  show "\<exists>r. convert (PInt 2) ''INTEGER'' ''BOOLEAN'' = Inr r \<and> loss r"
    by (simp add: convert_def converters_find conv_int_to_bool_def)
  show "convert (PInt (2 ^ 53 + 1)) ''INTEGER'' ''FLOAT'' = Inr (plain (PFloat (Fin (2 ^ 53))))"
    using rnd by (simp add: convert_def converters_find conv_int_to_float_def int_to_float_def pow2_def)
  have "rnd64 (of_int (2 ^ 53)) = Fin (of_int (2 ^ 52) * pow2 1)"
    by (rule rnd64_eqI) (simp_all add: pow2_def round_half_even_of_int [of "2 ^ 52", simplified])
  then show "convert (PFloat (Fin (2 ^ 53))) ''FLOAT'' ''INTEGER'' = Inr (plain (PInt (2 ^ 53)))"
    using trunc_of_int [of "2 ^ 53"]
    by (simp add: convert_def converters_find conv_float_to_int_def float_to_int_def int_to_float_def
        feq_def plain_def pow2_def)
qed

section \<open>Concrete instances\<close>

theorem convert_raises_iff_witness:
  "convert (PFloat NaN) ''FLOAT'' ''INTEGER'' = Inl ValueError"
  using convert_raises_iff [of "''FLOAT''" "PFloat NaN" "''INTEGER''" ValueError]
  by (simp add: value_of_type_def well_formed_def)

theorem convert_lossless_roundtrip_witness:
  "\<exists>r'. convert (PFloat (Fin 7)) ''FLOAT'' ''INTEGER'' = Inr r' \<and> conv_value r' = PInt 7 \<and> \<not> loss r'"
proof -
  have "convert (PInt 7) ''INTEGER'' ''FLOAT'' = Inr (plain (PFloat (Fin 7)))"
    using int_to_float_exact [of 7] by (simp add: convert_def converters_find conv_int_to_float_def)
  from convert_lossless_roundtrip [OF this] show ?thesis
    by (simp add: plain_def value_of_type_def well_formed_def)
qed

end
