(* ===== verification/Versions.thy ===== *)
theory Versions
  imports Py_Value "HOL-Library.List_Lexorder" "HOL-Library.Product_Lexorder"
begin

text \<open>
  The version contract and the channel rules of the update check (\<open>obs/update/versions.py\<close>).
  A key is a tuple, here a list compared lexicographically.  A timestamp is the number of
  microseconds since the start of year 1 in UTC, and a date the number of its day, so both are
  compared as the code compares them.  \<open>datetime.fromisoformat\<close> is a parameter: it gives the wall
  clock of a text and its offset from UTC, if the text has one.
\<close>

section \<open>Versions\<close>

datatype version_kind = Stable | Rc | Nightly

datatype channel = Stable_Channel | Pre_Release | Nightly_Channel

record version =
  raw :: string
  kind :: version_kind
  key :: "nat list"

definition default_channel :: channel where
  "default_channel = Stable_Channel"

definition after_all_rcs :: nat where
  "after_all_rcs = 1000"

fun channel_kinds :: "channel \<Rightarrow> version_kind set" where
  "channel_kinds Stable_Channel = {Stable}"
| "channel_kinds Pre_Release = {Stable, Rc}"
| "channel_kinds Nightly_Channel = {Nightly}"

definition nightly_date :: "version \<Rightarrow> nat option" where
  "nightly_date v =
     (if kind v \<noteq> Nightly then None
      else case key v of [y, m, d] \<Rightarrow> Some (ordinal y m d) | _ \<Rightarrow> None)"

section \<open>Parsing\<close>

text \<open>A run of at least \<open>lo\<close> and at most \<open>hi\<close> digits, as many as there are.\<close>

definition take_digits :: "nat \<Rightarrow> nat \<Rightarrow> string \<Rightarrow> (nat \<times> string) option" where
  "take_digits lo hi s =
     (let ds = takeWhile is_dec (take hi s)
      in if lo \<le> length ds then Some (dec_val ds, drop (length ds) s) else None)"

definition take_text :: "string \<Rightarrow> string \<Rightarrow> string option" where
  "take_text p s = (if take (length p) s = p then Some (drop (length p) s) else None)"

text \<open>The groups of \<open>_VERSIONED_RE\<close>: year, month, patch and the number of the RC, if it is one.\<close>

definition versioned_re :: "string \<Rightarrow> (nat \<times> nat \<times> nat \<times> nat option) option" where
  "versioned_re s =
     (case take_digits 4 4 s of None \<Rightarrow> None | Some (y, s1) \<Rightarrow>
     (case take_text ''.'' s1 of None \<Rightarrow> None | Some s2 \<Rightarrow>
     (case take_digits 1 2 s2 of None \<Rightarrow> None | Some (m, s3) \<Rightarrow>
     (case take_text ''.'' s3 of None \<Rightarrow> None | Some s4 \<Rightarrow>
     (case take_digits 1 3 s4 of None \<Rightarrow> None | Some (p, s5) \<Rightarrow>
      if s5 = [] then Some (y, m, p, None)
      else if py_lower (take 3 s5) = ''-rc'' then
        (case take_digits 1 3 (drop 3 s5) of
           Some (n, []) \<Rightarrow> Some (y, m, p, Some n)
         | _ \<Rightarrow> None)
      else None)))))"

definition is_lower_hex :: "char \<Rightarrow> bool" where
  "is_lower_hex c \<longleftrightarrow> is_dec c \<or> (97 \<le> code c \<and> code c \<le> 102)"

text \<open>The groups of \<open>_NIGHTLY_RE\<close>: year, month, day, and whether there is a commit suffix.\<close>

definition nightly_re :: "string \<Rightarrow> (nat \<times> nat \<times> nat \<times> bool) option" where
  "nightly_re s =
     (case take_text ''nightly-'' s of None \<Rightarrow> None | Some s1 \<Rightarrow>
     (case take_digits 4 4 s1 of None \<Rightarrow> None | Some (y, s2) \<Rightarrow>
     (case take_digits 2 2 s2 of None \<Rightarrow> None | Some (m, s3) \<Rightarrow>
     (case take_digits 2 2 s3 of None \<Rightarrow> None | Some (d, s4) \<Rightarrow>
      if s4 = [] then Some (y, m, d, False)
      else (case take_text ''-'' s4 of
              None \<Rightarrow> None
            | Some sha \<Rightarrow>
                if 7 \<le> length sha \<and> length sha \<le> 40 \<and> list_all is_lower_hex sha
                then Some (y, m, d, True) else None)))))"

definition parse_version :: "pyval \<Rightarrow> bool \<Rightarrow> version option" where
  "parse_version r allow_commit_suffix =
     (case r of
        PStr s \<Rightarrow>
          (let txt = py_strip s
           in case versioned_re txt of
                Some (y, m, p, rc) \<Rightarrow>
                  if \<not> (1 \<le> m \<and> m \<le> 12) then None
                  else (case rc of
                          None \<Rightarrow> Some \<lparr>raw = txt, kind = Stable, key = [y, m, p, 1, 0]\<rparr>
                        | Some n \<Rightarrow> Some \<lparr>raw = txt, kind = Rc, key = [y, m, p, 0, n]\<rparr>)
              | None \<Rightarrow>
                  (case nightly_re txt of
                     Some (y, m, d, sha) \<Rightarrow>
                       if sha \<and> \<not> allow_commit_suffix then None
                       else if valid_date y m d
                       then Some \<lparr>raw = txt, kind = Nightly, key = [y, m, d]\<rparr> else None
                   | None \<Rightarrow> None))
      | _ \<Rightarrow> None)"

definition channel_for_version :: "pyval \<Rightarrow> channel" where
  "channel_for_version r =
     (case parse_version r True of
        None \<Rightarrow> default_channel
      | Some v \<Rightarrow> if kind v = Stable then default_channel
                  else if kind v = Rc then Pre_Release else Nightly_Channel)"

definition channel_allows :: "channel \<Rightarrow> version_kind \<Rightarrow> bool" where
  "channel_allows c k \<longleftrightarrow> k \<in> channel_kinds c"

section \<open>Releases\<close>

type_synonym timestamp = int
type_synonym iso_reader = "string \<Rightarrow> (int \<times> int option) option"

record release =
  rel_version :: version
  published_at :: "timestamp option"
  rel_url :: string
  rel_body :: string
  rel_name :: string

definition tag :: "release \<Rightarrow> string" where
  "tag r = raw (rel_version r)"

definition parse_timestamp :: "iso_reader \<Rightarrow> pyval \<Rightarrow> timestamp option" where
  "parse_timestamp fromiso v =
     (case v of
        PStr s \<Rightarrow>
          if s = [] then None
          else (case fromiso s of
                  None \<Rightarrow> None
                | Some (wall, offset) \<Rightarrow>
                    Some (wall - (case offset of None \<Rightarrow> 0 | Some o' \<Rightarrow> o')))
      | _ \<Rightarrow> None)"

definition day_us :: int where
  "day_us = 24 * 60 * 60 * 1000000"

text \<open>\<open>.astimezone(UTC).date()\<close>, as the number of the day.\<close>

definition utc_date :: "timestamp \<Rightarrow> int" where
  "utc_date t = t div day_us + 1"

definition dict_get :: "(string \<times> pyval) list \<Rightarrow> string \<Rightarrow> pyval" where
  "dict_get kvs k = (case map_of kvs k of None \<Rightarrow> PNone | Some v \<Rightarrow> v)"

text \<open>A tag that reads as stable but is marked as a pre-release sorts after all RCs of its version.\<close>

definition mark_prerelease :: "(string \<times> pyval) list \<Rightarrow> version \<Rightarrow> version" where
  "mark_prerelease kvs v =
     (if kind v = Stable \<and> dict_get kvs ''prerelease'' = PBool True
      then v\<lparr>kind := Rc, key := take 3 (key v) @ [0, after_all_rcs]\<rparr> else v)"

definition classify_release :: "iso_reader \<Rightarrow> pyval \<Rightarrow> release option" where
  "classify_release fromiso item =
     (case item of
        PDict kvs \<Rightarrow>
          if dict_get kvs ''draft'' \<noteq> PBool False then None
          else (case parse_version (dict_get kvs ''tag_name'') False of
                  None \<Rightarrow> None
                | Some v0 \<Rightarrow>
                    (let v = mark_prerelease kvs v0
                     in Some \<lparr>rel_version = v,
                              published_at = parse_timestamp fromiso (dict_get kvs ''published_at''),
                              rel_url = (case dict_get kvs ''html_url'' of
                                  PStr u \<Rightarrow> if take 8 u = ''https://'' then u else ''''
                                | _ \<Rightarrow> ''''),
                              rel_body = (case dict_get kvs ''body'' of PStr b \<Rightarrow> b | _ \<Rightarrow> ''''),
                              rel_name = (case dict_get kvs ''name'' of
                                  PStr n \<Rightarrow> if n \<noteq> [] then n else raw v
                                | _ \<Rightarrow> raw v)\<rparr>))
      | _ \<Rightarrow> None)"

definition classify_releases :: "iso_reader \<Rightarrow> pyval \<Rightarrow> (pyerr, release list) result" where
  "classify_releases fromiso payload =
     (case payload of
        PList items \<Rightarrow> Inr (List.map_filter (classify_release fromiso) items)
      | _ \<Rightarrow> Inl TypeError)"

section \<open>Ordering\<close>

definition published_date :: "version \<Rightarrow> release list \<Rightarrow> int option" where
  "published_date installed rels =
     (case find (\<lambda>r. py_lower (raw (rel_version r)) = py_lower (raw installed)
                    \<and> published_at r \<noteq> None) rels of
        None \<Rightarrow> None
      | Some r \<Rightarrow> map_option utc_date (published_at r))"

definition is_newer :: "release \<Rightarrow> version \<Rightarrow> release list \<Rightarrow> bool option" where
  "is_newer candidate installed rels =
     (let cand = rel_version candidate
      in if (kind cand = Nightly) = (kind installed = Nightly) then Some (key installed < key cand)
         else if kind installed = Nightly then
           (case published_at candidate of
              None \<Rightarrow> None
            | Some t \<Rightarrow> map_option (\<lambda>d. int d < utc_date t) (nightly_date installed))
         else
           (case published_date installed rels of
              None \<Rightarrow> None
            | Some day \<Rightarrow> map_option (\<lambda>d. day < int d) (nightly_date cand)))"

definition rel_sort_key :: "release \<Rightarrow> nat list \<times> timestamp" where
  "rel_sort_key r =
     (key (rel_version r), case published_at r of None \<Rightarrow> 0 | Some t \<Rightarrow> t)"

record channel_evaluation =
  latest :: "release option"
  update_available :: "bool option"
  pending :: "release list"

definition evaluate_channel :: "channel \<Rightarrow> pyval \<Rightarrow> release list \<Rightarrow> channel_evaluation" where
  "evaluate_channel ch installed_raw rels =
     (let eligible = filter (\<lambda>r. channel_allows ch (kind (rel_version r))) rels
      in if eligible = [] then \<lparr>latest = None, update_available = None, pending = []\<rparr>
         else
           (let ordered = sort_key rel_sort_key eligible; newest = last ordered
            in case parse_version installed_raw True of
                 None \<Rightarrow> \<lparr>latest = Some newest, update_available = None, pending = []\<rparr>
               | Some installed \<Rightarrow>
                   (let newer = is_newer newest installed rels
                    in if newer \<noteq> Some True
                       then \<lparr>latest = Some newest, update_available = newer, pending = []\<rparr>
                       else \<lparr>latest = Some newest, update_available = Some True,
                             pending = filter (\<lambda>r. is_newer r installed rels = Some True) ordered\<rparr>)))"

end
