(* ===== verification/Version_Props.thy ===== *)
theory Version_Props
  imports Versions
begin

text \<open>
  What the update check relies on: parsed keys stay in their ranges, a release candidate sorts
  before its final build, and the evaluation of a channel offers exactly what is newer.
\<close>

section \<open>Ranges of the parsed keys\<close>

lemma foldl_dec_bound:
  "list_all is_dec s \<Longrightarrow> foldl (\<lambda>n c. 10 * n + digit_val c) m s < (m + 1) * 10 ^ length s"
proof (induction s arbitrary: m)
  case (Cons c s)
  have "digit_val c \<le> 9" using Cons.prems by (auto simp: digit_val_def is_dec_def)
  have "foldl (\<lambda>n c. 10 * n + digit_val c) m (c # s) < (10 * m + digit_val c + 1) * 10 ^ length s"
    using Cons.IH [of "10 * m + digit_val c"] Cons.prems by simp
  also have "\<dots> \<le> (10 * m + 10) * 10 ^ length s"
    using \<open>digit_val c \<le> 9\<close> by (intro mult_le_mono1) simp
  finally show ?case by (simp add: algebra_simps)
qed simp

lemma dec_val_bound: "list_all is_dec s \<Longrightarrow> dec_val s < 10 ^ length s"
  using foldl_dec_bound [of s 0] by (simp add: dec_val_def)

lemma take_digits_bound:
  assumes "take_digits lo hi s = Some (n, r)"
  shows "n < 10 ^ hi"
proof -
  let ?ds = "takeWhile is_dec (take hi s)"
  have "n = dec_val ?ds" using assms by (auto simp: take_digits_def Let_def split: if_splits)
  moreover have "list_all is_dec ?ds" by (auto simp: list_all_iff dest: set_takeWhileD)
  then have "dec_val ?ds < 10 ^ length ?ds" by (rule dec_val_bound)
  moreover have "length ?ds \<le> hi"
    by (rule order_trans [OF length_takeWhile_le]) simp
  then have "(10::nat) ^ length ?ds \<le> 10 ^ hi" by (simp add: power_increasing)
  ultimately show ?thesis by linarith
qed

lemma versioned_re_bounds:
  assumes "versioned_re s = Some (y, m, p, rc)"
  shows "y < 10000 \<and> p < 1000 \<and> (case rc of None \<Rightarrow> True | Some n \<Rightarrow> n < after_all_rcs)"
  using assms
  by (auto simp: versioned_re_def after_all_rcs_def split: option.splits prod.splits if_splits list.splits
      dest!: take_digits_bound)

definition version_wf :: "nat \<Rightarrow> version \<Rightarrow> bool" where
  "version_wf rcs v =
     (case kind v of
        Stable \<Rightarrow> (case key v of
            [y, m, p, f, n] \<Rightarrow> y < 10000 \<and> 1 \<le> m \<and> m \<le> 12 \<and> p < 1000 \<and> f = 1 \<and> n = 0 | _ \<Rightarrow> False)
      | Rc \<Rightarrow> (case key v of
            [y, m, p, f, n] \<Rightarrow> y < 10000 \<and> 1 \<le> m \<and> m \<le> 12 \<and> p < 1000 \<and> f = 0 \<and> n < rcs | _ \<Rightarrow> False)
      | Nightly \<Rightarrow> (case key v of [y, m, d] \<Rightarrow> valid_date y m d | _ \<Rightarrow> False))"

lemma parse_version_wf:
  assumes "parse_version r a = Some v"
  shows "version_wf after_all_rcs v"
  using assms
  by (auto simp: parse_version_def version_wf_def Let_def split: pyval.splits option.splits prod.splits
      if_splits dest!: versioned_re_bounds)

lemma version_wfE:
  assumes "version_wf rcs v"
  obtains y m p where "kind v = Stable" "key v = [y, m, p, 1, 0]"
  | y m p n where "kind v = Rc" "key v = [y, m, p, 0, n]" "n < rcs"
  | y m d where "kind v = Nightly" "key v = [y, m, d]" "valid_date y m d"
  using assms by (auto simp: version_wf_def split: version_kind.splits list.splits)

text \<open>
  Parsing a version respects the contract: a stable version or a release candidate has a
  month from 1 to 12 and components within their digits, an RC number stays below the number kept
  for a stable tag GitHub marks as a pre-release, and a nightly has a build date that exists.
  The channel guessed for an installed version offers versions of its kind.
\<close>

theorem parse_version_contract:
  assumes "parse_version r a = Some v"
  shows "version_wf after_all_rcs v \<and> channel_allows (channel_for_version r) (kind v)"
proof (rule conjI)
  show "version_wf after_all_rcs v" using assms by (rule parse_version_wf)
  have "parse_version r True = Some v"
    using assms by (auto simp: parse_version_def Let_def split: pyval.splits option.splits prod.splits if_splits)
  then show "channel_allows (channel_for_version r) (kind v)"
    by (cases "kind v") (auto simp: channel_for_version_def channel_allows_def default_channel_def)
qed

text \<open>
  Release candidates sort before the final build of their version, and a stable tag that
  GitHub marks as a pre-release sorts after all of its candidates and still before the final build.
\<close>

theorem rc_before_final:
  assumes "parse_version r a = Some rc" "kind rc = Rc"
    and "parse_version r' a' = Some st" "kind st = Stable"
    and "take 3 (key rc) = take 3 (key st)"
  shows "key rc < take 3 (key st) @ [0, after_all_rcs]
    \<and> take 3 (key st) @ [0, after_all_rcs] < key st"
proof -
  obtain y m p n where rc: "key rc = [y, m, p, 0, n]" "n < after_all_rcs"
    using parse_version_wf [OF assms(1)] assms(2) by (auto elim!: version_wfE)
  obtain y' m' p' where st: "key st = [y', m', p', 1, 0]"
    using parse_version_wf [OF assms(3)] assms(4) by (auto elim!: version_wfE)
  show ?thesis
    using rc st assms(5) by (simp_all add: eval_nat_numeral)
qed

section \<open>The releases of the payload\<close>

lemma classify_releaseD:
  assumes "classify_release fromiso item = Some rel"
  shows "\<exists>kvs v0 s. item = PDict kvs \<and> dict_get kvs ''draft'' = PBool False
    \<and> dict_get kvs ''tag_name'' = PStr s \<and> parse_version (PStr s) False = Some v0
    \<and> rel_version rel = mark_prerelease kvs v0"
proof -
  obtain kvs where kvs: "item = PDict kvs"
    using assms by (auto simp: classify_release_def split: pyval.splits)
  have draft: "dict_get kvs ''draft'' = PBool False"
    using assms by (auto simp: classify_release_def kvs split: if_splits)
  obtain v0 where v0: "parse_version (dict_get kvs ''tag_name'') False = Some v0"
    using assms draft by (auto simp: classify_release_def kvs split: option.splits)
  obtain s where s: "dict_get kvs ''tag_name'' = PStr s"
    using v0 by (auto simp: parse_version_def split: pyval.splits)
  have "rel_version rel = mark_prerelease kvs v0"
    using assms draft v0 by (auto simp: classify_release_def kvs Let_def)
  then show ?thesis using kvs draft v0 s by auto
qed

lemma mark_prerelease_wf:
  assumes "version_wf after_all_rcs v"
  shows "version_wf (after_all_rcs + 1) (mark_prerelease kvs v)"
  using assms
  by (cases "kind v")
    (auto simp: version_wf_def mark_prerelease_def split: list.splits)

lemma parse_version_raw: "parse_version (PStr s) a = Some v \<Longrightarrow> raw v = py_strip s"
  by (auto simp: parse_version_def Let_def split: option.splits prod.splits if_splits)

text \<open>
  Classifying a release list drops what the contract does not cover: every release that is
  kept comes from an entry that is not a draft and has a tag within the contract, its version is
  well formed, and only an entry that is not marked as a pre-release is ever stable.
\<close>

theorem classify_releases_sound:
  assumes "classify_releases fromiso (PList items) = Inr rels" "rel \<in> set rels"
  shows "version_wf (after_all_rcs + 1) (rel_version rel)
    \<and> (\<exists>kvs. PDict kvs \<in> set items \<and> dict_get kvs ''draft'' = PBool False
      \<and> (\<exists>s. dict_get kvs ''tag_name'' = PStr s \<and> tag rel = py_strip s)
      \<and> (kind (rel_version rel) = Stable \<longrightarrow> dict_get kvs ''prerelease'' \<noteq> PBool True))"
proof (rule conjI)
  obtain item where item: "item \<in> set items" "classify_release fromiso item = Some rel"
    using assms by (auto simp: classify_releases_def map_filter_def)
  obtain kvs v0 s where kvs: "item = PDict kvs" "dict_get kvs ''draft'' = PBool False"
      "dict_get kvs ''tag_name'' = PStr s" "parse_version (PStr s) False = Some v0"
      "rel_version rel = mark_prerelease kvs v0"
    using classify_releaseD [OF item(2)] by blast
  show "version_wf (after_all_rcs + 1) (rel_version rel)"
    using mark_prerelease_wf [OF parse_version_wf [OF kvs(4)]] kvs(5) by simp
  have "tag rel = py_strip s"
    using parse_version_raw [OF kvs(4)] kvs(5) by (simp add: tag_def mark_prerelease_def)
  moreover have "kind (rel_version rel) = Stable \<longrightarrow> dict_get kvs ''prerelease'' \<noteq> PBool True"
    using kvs(5) by (auto simp: mark_prerelease_def)
  ultimately show "\<exists>kvs. PDict kvs \<in> set items \<and> dict_get kvs ''draft'' = PBool False
      \<and> (\<exists>s. dict_get kvs ''tag_name'' = PStr s \<and> tag rel = py_strip s)
      \<and> (kind (rel_version rel) = Stable \<longrightarrow> dict_get kvs ''prerelease'' \<noteq> PBool True)"
    using item(1) kvs by blast
qed

section \<open>Evaluating a channel\<close>

lemma sorted_last:
  assumes "sorted (map f xs)" "x \<in> set xs"
  shows "f x \<le> f (last xs)"
proof -
  obtain ys z where xs: "xs = ys @ [z]" using assms(2) by (cases xs rule: rev_cases) auto
  then show ?thesis using assms by (auto simp: sorted_append)
qed

lemma last_filter: "xs \<noteq> [] \<Longrightarrow> P (last xs) \<Longrightarrow> filter P xs \<noteq> [] \<and> last (filter P xs) = last xs"
  by (cases xs rule: rev_cases) auto

lemma sorted_filter_map: "sorted (map f xs) \<Longrightarrow> sorted (map f (filter P xs))"
  by (induction xs) auto

lemma evaluate_channel_offerD:
  assumes "update_available (evaluate_channel ch r rels) = Some True"
  shows "\<exists>ord inst. ord \<noteq> [] \<and> sorted (map rel_sort_key ord)
    \<and> set ord = {x \<in> set rels. channel_allows ch (kind (rel_version x))}
    \<and> parse_version r True = Some inst \<and> is_newer (last ord) inst rels = Some True
    \<and> evaluate_channel ch r rels = \<lparr>latest = Some (last ord), update_available = Some True,
        pending = filter (\<lambda>r. is_newer r inst rels = Some True) ord\<rparr>"
proof -
  define el where "el = filter (\<lambda>r. channel_allows ch (kind (rel_version r))) rels"
  define ord where "ord = sort_key rel_sort_key el"
  have ne: "el \<noteq> []"
    using assms by (auto simp: evaluate_channel_def el_def Let_def split: if_splits)
  obtain inst where inst: "parse_version r True = Some inst"
    using assms ne
    by (cases "parse_version r True") (simp_all add: evaluate_channel_def el_def [symmetric] Let_def)
  have newer: "is_newer (last ord) inst rels = Some True"
    using assms ne inst
    by (simp add: evaluate_channel_def el_def [symmetric] ord_def [symmetric] Let_def split: if_splits)
  have ev: "evaluate_channel ch r rels = \<lparr>latest = Some (last ord), update_available = Some True,
      pending = filter (\<lambda>r. is_newer r inst rels = Some True) ord\<rparr>"
    using ne inst newer
    by (simp add: evaluate_channel_def el_def [symmetric] ord_def [symmetric] Let_def)
  moreover have "set ord = {x \<in> set rels. channel_allows ch (kind (rel_version x))}"
    and "sorted (map rel_sort_key ord)"
    by (auto simp: ord_def el_def)
  moreover have "ord \<noteq> []" using ne by (simp add: ord_def flip: set_empty)
  ultimately show ?thesis using inst newer by blast
qed

lemma offer_has_pending:
  assumes "update_available (evaluate_channel ch r rels) = Some True"
  shows "pending (evaluate_channel ch r rels) \<noteq> []"
proof -
  obtain ord inst where "ord \<noteq> []" "is_newer (last ord) inst rels = Some True"
    and ev: "evaluate_channel ch r rels = \<lparr>latest = Some (last ord), update_available = Some True,
        pending = filter (\<lambda>r. is_newer r inst rels = Some True) ord\<rparr>"
    using evaluate_channel_offerD [OF assms] by blast
  then show ?thesis
    using last_filter [of ord "\<lambda>r. is_newer r inst rels = Some True"] by (simp only: ev) simp
qed

text \<open>
  C39. An update is offered only when it is there, and in full: the installed version is within the
  contract, the newest release is the largest one of the channel and is newer than the installed
  version, and the pending list holds exactly the releases of the channel that are newer, oldest
  first and ending with the newest.
\<close>

theorem evaluate_channel_offer:
  assumes "update_available (evaluate_channel ch r rels) = Some True"
  shows "\<exists>installed newest. parse_version r True = Some installed
    \<and> latest (evaluate_channel ch r rels) = Some newest
    \<and> is_newer newest installed rels = Some True
    \<and> pending (evaluate_channel ch r rels) \<noteq> []
    \<and> last (pending (evaluate_channel ch r rels)) = newest
    \<and> set (pending (evaluate_channel ch r rels)) =
        {x \<in> set rels. channel_allows ch (kind (rel_version x)) \<and> is_newer x installed rels = Some True}
    \<and> sorted (map rel_sort_key (pending (evaluate_channel ch r rels)))
    \<and> (\<forall>x \<in> set rels. channel_allows ch (kind (rel_version x)) \<longrightarrow> rel_sort_key x \<le> rel_sort_key newest)"
proof -
  obtain ord inst where ord: "ord \<noteq> []" "sorted (map rel_sort_key ord)"
      "set ord = {x \<in> set rels. channel_allows ch (kind (rel_version x))}"
    and inst: "parse_version r True = Some inst" "is_newer (last ord) inst rels = Some True"
    and ev: "evaluate_channel ch r rels = \<lparr>latest = Some (last ord), update_available = Some True,
        pending = filter (\<lambda>r. is_newer r inst rels = Some True) ord\<rparr>"
    using evaluate_channel_offerD [OF assms] by blast
  note lf = last_filter [of ord "\<lambda>r. is_newer r inst rels = Some True", OF ord(1) inst(2)]
  have "sorted (map rel_sort_key (filter (\<lambda>r. is_newer r inst rels = Some True) ord))"
    using ord(2) by (rule sorted_filter_map)
  moreover have "\<forall>x \<in> set rels. channel_allows ch (kind (rel_version x)) \<longrightarrow>
      rel_sort_key x \<le> rel_sort_key (last ord)"
    using sorted_last [OF ord(2)] ord(3) by simp
  ultimately show ?thesis
    using inst lf ord(3) by (intro exI [of _ inst] exI [of _ "last ord"]) (auto simp: ev)
qed

text \<open>
  Within one family the offer is an upgrade by version: when neither side or both sides are
  nightlies, an offered update has a strictly larger key than the installed version; across
  families it has a strictly later day.
\<close>

theorem evaluate_channel_upgrades:
  assumes "x \<in> set (pending (evaluate_channel ch r rels))" "parse_version r True = Some inst"
  shows "((kind (rel_version x) = Nightly) = (kind inst = Nightly) \<longrightarrow> key inst < key (rel_version x))
    \<and> (kind (rel_version x) \<noteq> Nightly \<and> kind inst = Nightly \<longrightarrow>
        (\<exists>d t. nightly_date inst = Some d \<and> published_at x = Some t \<and> int d < utc_date t))
    \<and> (kind (rel_version x) = Nightly \<and> kind inst \<noteq> Nightly \<longrightarrow>
        (\<exists>d day. nightly_date (rel_version x) = Some d \<and> published_date inst rels = Some day \<and> day < int d))"
proof -
  have "is_newer x inst rels = Some True"
    using assms by (auto simp: evaluate_channel_def Let_def split: if_splits option.splits)
  then show ?thesis
    by (auto simp: is_newer_def Let_def split: option.splits if_splits)
qed

text \<open>
  No offer leaves nothing pending, and there is no newest release only when the channel has no
  release at all.
\<close>

theorem evaluate_channel_no_offer:
  "(update_available (evaluate_channel ch r rels) \<noteq> Some True \<longleftrightarrow>
      pending (evaluate_channel ch r rels) = [])
   \<and> (latest (evaluate_channel ch r rels) = None \<longleftrightarrow>
      filter (\<lambda>x. channel_allows ch (kind (rel_version x))) rels = [])"
proof (rule conjI)
  show "update_available (evaluate_channel ch r rels) \<noteq> Some True \<longleftrightarrow>
      pending (evaluate_channel ch r rels) = []"
  proof
    assume "update_available (evaluate_channel ch r rels) \<noteq> Some True"
    then show "pending (evaluate_channel ch r rels) = []"
      by (auto simp: evaluate_channel_def Let_def split: if_splits option.splits)
  next
    assume "pending (evaluate_channel ch r rels) = []"
    then show "update_available (evaluate_channel ch r rels) \<noteq> Some True"
      using offer_has_pending by blast
  qed
  show "latest (evaluate_channel ch r rels) = None \<longleftrightarrow>
      filter (\<lambda>x. channel_allows ch (kind (rel_version x))) rels = []"
    by (auto simp: evaluate_channel_def Let_def split: option.splits)
qed

section \<open>Concrete instances\<close>

lemmas version_eval = parse_version_def versioned_re_def nightly_re_def take_digits_def take_text_def
  py_strip_def is_space_def code_def is_dec_def dec_val_def digit_val_def py_lower_def lower_char_def char_of_eq_iff Let_def

lemma parse_2026_10: "parse_version (PStr ''2026.10.0'') True =
    Some \<lparr>raw = ''2026.10.0'', kind = Stable, key = [2026, 10, 0, 1, 0]\<rparr>"
  by (simp add: version_eval)

lemma parse_2026_10_rc: "parse_version (PStr ''2026.10.0-RC2'') True =
    Some \<lparr>raw = ''2026.10.0-RC2'', kind = Rc, key = [2026, 10, 0, 0, 2]\<rparr>"
  by (simp add: version_eval)

definition release_2026_11 :: release where
  "release_2026_11 = \<lparr>rel_version = \<lparr>raw = ''2026.11.0'', kind = Stable, key = [2026, 11, 0, 1, 0]\<rparr>,
     published_at = None, rel_url = '''', rel_body = '''', rel_name = ''2026.11.0''\<rparr>"

theorem parse_version_contract_witness:
  "version_wf after_all_rcs \<lparr>raw = ''2026.10.0'', kind = Stable, key = [2026, 10, 0, 1, 0]\<rparr>
   \<and> channel_allows (channel_for_version (PStr ''2026.10.0'')) Stable"
  using parse_version_contract [OF parse_2026_10] by simp

theorem rc_before_final_witness:
  "[2026, 10, 0, 0, 2] < [2026, 10, 0, 0, 1000 :: nat] \<and> [2026, 10, 0, 0, 1000] < [2026, 10, 0, 1, 0 :: nat]"
  using rc_before_final [OF parse_2026_10_rc _ parse_2026_10] by (simp add: after_all_rcs_def)

theorem evaluate_channel_offer_witness:
  "\<exists>installed newest. parse_version (PStr ''2026.10.0'') True = Some installed
    \<and> is_newer newest installed [release_2026_11] = Some True"
proof -
  have "update_available (evaluate_channel Stable_Channel (PStr ''2026.10.0'') [release_2026_11]) = Some True"
    by (simp add: evaluate_channel_def parse_2026_10 channel_allows_def release_2026_11_def is_newer_def Let_def)
  from evaluate_channel_offer [OF this] show ?thesis by blast
qed

theorem evaluate_channel_upgrades_witness:
  "[2026, 10, 0, 1, 0] < key (rel_version release_2026_11)"
proof -
  have "release_2026_11 \<in> set (pending (evaluate_channel Stable_Channel (PStr ''2026.10.0'') [release_2026_11]))"
    by (simp add: evaluate_channel_def parse_2026_10 channel_allows_def release_2026_11_def is_newer_def Let_def)
  from evaluate_channel_upgrades [OF this parse_2026_10] show ?thesis
    by (simp add: release_2026_11_def)
qed

theorem classify_releases_sound_witness:
  "\<exists>kvs. PDict kvs \<in> {PDict [(''draft'', PBool False), (''tag_name'', PStr ''2026.11.0'')]}
     \<and> dict_get kvs ''draft'' = PBool False"
proof -
  let ?item = "PDict [(''draft'', PBool False), (''tag_name'', PStr ''2026.11.0'')]"
  have "classify_releases (\<lambda>_. None) (PList [?item]) = Inr [release_2026_11]"
    by (simp add: classify_releases_def classify_release_def map_filter_def dict_get_def
        mark_prerelease_def parse_timestamp_def release_2026_11_def version_eval)
  from classify_releases_sound [OF this, of release_2026_11] show ?thesis by auto
qed

end
