(* ===== verification/Authz.thy ===== *)
theory Authz
  imports Prelude
begin

text \<open>
  The authorization policy (\<open>obs/api/authz.py\<close>, \<open>obs/api/authz_service.py\<close>).  A decision is a
  function of a principal, an action, targets and grants.  The database is a parameter: the rows of
  the tables the queries read.  The recursive query for the ancestors of a node is written out as
  the walk it performs, with the node identifiers seen so far.  The enumerations of the rows are
  typed; the schema admits no other text.
\<close>

section \<open>Policy data\<close>

datatype role = Owner | Resident | Operator | Guest

datatype authz_action = Read | Write | Generate | Activate

datatype grant_effect = Allow | Deny

datatype control_class = Room_Local | Central_Plant

record principal =
  subject :: string
  principal_kind :: string
  is_admin :: bool

record authz_target =
  t_node_type :: string
  t_node_id :: string
  t_ancestors :: "string list"
  min_role :: "role option"
  t_control_class :: control_class

record role_grant =
  g_principal_type :: string
  g_principal_id :: string
  g_node_type :: string
  g_node_id :: string
  g_role :: role
  g_effect :: grant_effect
  g_central_control :: bool
  g_ancestors :: "string list"

datatype reason =
  No_Targets | Admin | Explicit_Deny | Allowed | Missing_Allow | Central_Control_Required

record authz_decision =
  allowed :: bool
  reason :: reason

definition decide :: "bool \<Rightarrow> reason \<Rightarrow> authz_decision" where
  "decide a r = \<lparr>allowed = a, reason = r\<rparr>"

lemma decide_simps [simp]: "allowed (decide a r) = a" "reason (decide a r) = r"
  by (simp_all add: decide_def)

fun role_rank :: "role \<Rightarrow> nat" where
  "role_rank Guest = 0"
| "role_rank Resident = 1"
| "role_rank Operator = 2"
| "role_rank Owner = 3"

fun role_actions :: "role \<Rightarrow> authz_action set" where
  "role_actions Owner = {Read, Write, Generate, Activate}"
| "role_actions Operator = {Read, Write, Generate, Activate}"
| "role_actions Resident = {Read, Write, Activate}"
| "role_actions Guest = {Read}"

definition target_path :: "authz_target \<Rightarrow> string list" where
  "target_path t = t_ancestors t @ [t_node_id t]"

definition grant_path :: "role_grant \<Rightarrow> string list" where
  "grant_path g = g_ancestors g @ [g_node_id g]"

section \<open>The decision\<close>

definition remove_prefix :: "string \<Rightarrow> string \<Rightarrow> string" where
  "remove_prefix p s = (if take (length p) s = p then drop (length p) s else s)"

definition api_key_prefix :: string where
  "api_key_prefix = ''api_key:''"

definition has_api_key_prefix :: "principal \<Rightarrow> bool" where
  "has_api_key_prefix p \<longleftrightarrow>
     principal_kind p = ''api_key'' \<and> take (length api_key_prefix) (subject p) = api_key_prefix"

definition matches_principal :: "principal \<Rightarrow> role_grant \<Rightarrow> bool" where
  "matches_principal p g \<longleftrightarrow>
     g_principal_type g = principal_kind p \<and>
     (g_principal_id g = subject p \<or>
      has_api_key_prefix p \<and> g_principal_id g = remove_prefix api_key_prefix (subject p))"

definition role_allows :: "role \<Rightarrow> authz_action \<Rightarrow> authz_target \<Rightarrow> bool" where
  "role_allows r a t \<longleftrightarrow>
     a \<in> role_actions r \<and>
     (case min_role t of None \<Rightarrow> True | Some m \<Rightarrow> role_rank m \<le> role_rank r)"

definition grant_allows :: "role_grant \<Rightarrow> authz_action \<Rightarrow> authz_target \<Rightarrow> bool" where
  "grant_allows g a t \<longleftrightarrow>
     role_allows (g_role g) a t \<and>
     (a = Read \<or> t_control_class t = Room_Local \<or> g_central_control g)"

definition grant_applies :: "authz_action \<Rightarrow> role_grant \<Rightarrow> authz_target \<Rightarrow> bool" where
  "grant_applies a g t \<longleftrightarrow>
     g_node_type g = t_node_type t \<and>
     (if a = Read then
        (if g_effect g = Deny then g_node_id g \<in> set (target_path t)
         else t_node_id t \<in> set (grant_path g) \<or> g_node_id g \<in> set (target_path t))
      else g_node_id g \<in> set (target_path t))"

definition authorize_target :: "authz_action \<Rightarrow> authz_target \<Rightarrow> role_grant list \<Rightarrow> authz_decision" where
  "authorize_target a t grants =
     (let matching = filter (\<lambda>g. grant_applies a g t) grants
      in if list_ex (\<lambda>g. g_effect g = Deny) matching then decide False Explicit_Deny
         else if list_ex (\<lambda>g. grant_allows g a t) matching then decide True Allowed
         else if a \<noteq> Read \<and> t_control_class t = Central_Plant
              \<and> list_ex (\<lambda>g. role_allows (g_role g) a t) matching
         then decide False Central_Control_Required
         else decide False Missing_Allow)"

definition authorize :: "principal \<Rightarrow> authz_action \<Rightarrow> authz_target list \<Rightarrow> role_grant list \<Rightarrow> authz_decision" where
  "authorize p a targets grants =
     (if targets = [] then decide False No_Targets
      else if principal_kind p = ''user'' \<and> is_admin p then decide True Admin
      else
        (let gs = filter (matches_principal p) grants;
             ds = map (\<lambda>t. authorize_target a t gs) targets
         in if list_ex (\<lambda>d. reason d = Explicit_Deny) ds then decide False Explicit_Deny
            else if a = Read then
              (if list_ex allowed ds then decide True Allowed else decide False Missing_Allow)
            else if list_all allowed ds then decide True Allowed
            else if list_ex (\<lambda>d. reason d = Central_Control_Required) ds
            then decide False Central_Control_Required
            else decide False Missing_Allow))"

section \<open>Targets from the database\<close>

text \<open>A tree table: the parent of each node, if it has one.\<close>

type_synonym tree = "(string \<times> string option) list"

record authz_db =
  hierarchy_nodes :: tree
  visu_nodes :: tree
  datapoint_rows :: "(string \<times> control_class) list"
  datapoint_links :: "(string \<times> string) list"   \<comment> \<open>ordered by datapoint and node\<close>
  grant_rows :: "role_grant list"                 \<comment> \<open>ordered by type, node and role, without ancestors\<close>

definition unique :: "'a list \<Rightarrow> 'a list" where
  "unique xs = dedup_from [] xs"

text \<open>The recursive query: parents of \<open>cur\<close>, nearest first, never a node already on the way.\<close>

function ancestor_walk :: "tree \<Rightarrow> string list \<Rightarrow> string \<Rightarrow> string list" where
  "ancestor_walk nodes seen cur =
     (case map_of nodes cur of
        Some (Some parent) \<Rightarrow>
          if map_of nodes parent = None \<or> parent \<in> set seen then []
          else parent # ancestor_walk nodes (parent # seen) parent
      | _ \<Rightarrow> [])"
  by pat_completeness auto
termination
proof (relation "measure (\<lambda>(nodes, seen, cur). card (fst ` set nodes - set seen))", goal_cases)
  case 1
  then show ?case by simp
next
  case (2 nodes seen cur p parent)
  then have "parent \<in> fst ` set nodes - set seen" by (auto simp: map_of_eq_None_iff)
  moreover have "finite (fst ` set nodes - set seen)" by simp
  ultimately have "card ((fst ` set nodes - set seen) - {parent}) < card (fst ` set nodes - set seen)"
    by (rule card_Diff1_less [rotated])
  moreover have "fst ` set nodes - set (parent # seen) = (fst ` set nodes - set seen) - {parent}" by auto
  ultimately show ?case by simp
qed

declare ancestor_walk.simps [simp del]

definition node_target :: "string \<Rightarrow> string \<Rightarrow> string list \<Rightarrow> control_class \<Rightarrow> authz_target" where
  "node_target nt i anc cc =
     \<lparr>t_node_type = nt, t_node_id = i, t_ancestors = anc, min_role = None, t_control_class = cc\<rparr>"

definition resolve_tree_targets :: "string \<Rightarrow> tree \<Rightarrow> string list \<Rightarrow> authz_target list" where
  "resolve_tree_targets nt nodes ids =
     map (\<lambda>i. node_target nt i (rev (ancestor_walk nodes [i] i)) Room_Local)
       (filter (\<lambda>i. map_of nodes i \<noteq> None) (unique ids))"

definition resolve_hierarchy_targets :: "authz_db \<Rightarrow> string list \<Rightarrow> authz_target list" where
  "resolve_hierarchy_targets db ids = resolve_tree_targets ''hierarchy'' (hierarchy_nodes db) ids"

definition resolve_visu_page_targets :: "authz_db \<Rightarrow> string list \<Rightarrow> authz_target list" where
  "resolve_visu_page_targets db ids = resolve_tree_targets ''visu_page'' (visu_nodes db) ids"

definition find_target :: "authz_target list \<Rightarrow> string \<Rightarrow> authz_target option" where
  "find_target ts i = find (\<lambda>t. t_node_id t = i) ts"

definition principal_ids :: "principal \<Rightarrow> string list" where
  "principal_ids p =
     (if has_api_key_prefix p then unique [remove_prefix api_key_prefix (subject p), subject p]
      else [subject p])"

definition load_role_grants :: "authz_db \<Rightarrow> principal \<Rightarrow> string option \<Rightarrow> role_grant list" where
  "load_role_grants db p node_type =
     (let rows = filter (\<lambda>r. g_principal_type r = principal_kind p
                  \<and> g_principal_id r \<in> set (principal_ids p)
                  \<and> (case node_type of None \<Rightarrow> True | Some nt \<Rightarrow> g_node_type r = nt)) (grant_rows db);
          hs = resolve_hierarchy_targets db (map g_node_id (filter (\<lambda>r. g_node_type r = ''hierarchy'') rows));
          vs = resolve_visu_page_targets db (map g_node_id (filter (\<lambda>r. g_node_type r = ''visu_page'') rows));
          anc = (\<lambda>r. if g_node_type r = ''hierarchy''
                 then (case find_target hs (g_node_id r) of None \<Rightarrow> [] | Some t \<Rightarrow> t_ancestors t)
                 else if g_node_type r = ''visu_page''
                 then (case find_target vs (g_node_id r) of None \<Rightarrow> [] | Some t \<Rightarrow> t_ancestors t)
                 else [])
      in map (\<lambda>r. r\<lparr>g_ancestors := anc r\<rparr>) rows)"

definition authorize_visu_page :: "authz_db \<Rightarrow> principal \<Rightarrow> string \<Rightarrow> authz_action \<Rightarrow> bool \<Rightarrow> bool" where
  "authorize_visu_page db p i a strict =
     (let targets = resolve_visu_page_targets db [i];
          grants = load_role_grants db p (Some ''visu_page'');
          grants' = (case targets of
              t # _ \<Rightarrow> if strict then filter (\<lambda>g. g_node_id g \<in> set (target_path t)) grants else grants
            | [] \<Rightarrow> grants)
      in allowed (authorize p a targets grants'))"

definition authorize_adapter_instance ::
  "authz_db \<Rightarrow> principal \<Rightarrow> string \<Rightarrow> authz_action \<Rightarrow> role option \<Rightarrow> authz_decision" where
  "authorize_adapter_instance db p i a mr =
     authorize p a [(node_target ''adapter_instance'' i [] Room_Local)\<lparr>min_role := mr\<rparr>]
       (load_role_grants db p (Some ''adapter_instance''))"

text \<open>\<open>supports\<close> is the declaration of the adapter types, \<open>registry.supports_delegation\<close>.\<close>

definition adapter_delegates :: "(string \<Rightarrow> 'c \<Rightarrow> bool) \<Rightarrow> principal \<Rightarrow> string \<Rightarrow> 'c list \<Rightarrow> bool" where
  "adapter_delegates supports p adapter_type capabilities \<longleftrightarrow>
     (if principal_kind p = ''user'' \<and> is_admin p then True
      else principal_kind p = ''user'' \<and> capabilities \<noteq> [] \<and> list_all (supports adapter_type) capabilities)"

text \<open>The targets of one linked datapoint, with its own control class.\<close>

definition linked_targets :: "authz_db \<Rightarrow> string list \<Rightarrow> string \<Rightarrow> authz_target list" where
  "linked_targets db ids dp =
     (let links = filter (\<lambda>l. fst l \<in> set ids) (datapoint_links db);
          node_targets = resolve_hierarchy_targets db (map snd links)
      in List.map_filter (\<lambda>(d, n).
           if d \<noteq> dp then None
           else (case (find_target node_targets n, map_of (datapoint_rows db) d) of
                   (Some t, Some cc) \<Rightarrow> Some (node_target (t_node_type t) (t_node_id t) (t_ancestors t) cc)
                 | _ \<Rightarrow> None)) links)"

definition resolve_datapoint_targets :: "authz_db \<Rightarrow> string list \<Rightarrow> string \<Rightarrow> authz_target list" where
  "resolve_datapoint_targets db ids dp =
     (if dp \<notin> set ids then []
      else
        (let linked = linked_targets db ids dp
         in case map_of (datapoint_rows db) dp of
              Some cc \<Rightarrow> if linked = [] then [node_target ''datapoint'' dp [] cc] else linked
            | None \<Rightarrow> linked))"

definition datapoint_read_grants :: "role_grant list \<Rightarrow> authz_target list \<Rightarrow> role_grant list" where
  "datapoint_read_grants grants targets =
     filter (\<lambda>g. list_ex (\<lambda>t. g_node_type g = t_node_type t \<and> g_node_id g \<in> set (target_path t)) targets) grants"

section \<open>Filtering\<close>

definition first_control_class :: "authz_target list \<Rightarrow> control_class" where
  "first_control_class ts = (case ts of [] \<Rightarrow> Room_Local | t # _ \<Rightarrow> t_control_class t)"

definition direct_grant_ids :: "role_grant list \<Rightarrow> string list \<Rightarrow> string list" where
  "direct_grant_ids grants ids =
     map g_node_id (filter (\<lambda>g. g_node_type g = ''datapoint'' \<and> g_node_id g \<in> set ids) grants)"

text \<open>The targets of one datapoint, for READ with itself where a grant names it directly.\<close>

definition datapoint_targets :: "authz_db \<Rightarrow> authz_action \<Rightarrow> role_grant list \<Rightarrow> string list \<Rightarrow> string \<Rightarrow> authz_target list" where
  "datapoint_targets db a grants ids dp =
     (let ts = resolve_datapoint_targets db ids dp
      in if a = Read \<and> dp \<in> set (direct_grant_ids grants ids)
           \<and> \<not> list_ex (\<lambda>t. t_node_type t = ''datapoint'' \<and> t_node_id t = dp) ts
         then ts @ [node_target ''datapoint'' dp [] (first_control_class ts)] else ts)"

definition datapoint_allowed :: "authz_db \<Rightarrow> principal \<Rightarrow> authz_action \<Rightarrow> role_grant list \<Rightarrow> string list \<Rightarrow> string \<Rightarrow> bool" where
  "datapoint_allowed db p a grants ids dp =
     (let targets = datapoint_targets db a grants ids dp;
          d = authorize p a targets (if a = Read then datapoint_read_grants grants targets else grants)
      in if a \<noteq> Read \<and> dp \<in> set (direct_grant_ids grants ids) then
           (let dd = authorize p a [node_target ''datapoint'' dp [] (first_control_class targets)] grants
            in if reason d = Explicit_Deny \<or> reason dd = Explicit_Deny then False
               else allowed d \<or> allowed dd)
         else allowed d)"

definition filter_authorized_datapoints ::
  "authz_db \<Rightarrow> principal \<Rightarrow> string list \<Rightarrow> authz_action \<Rightarrow> role_grant list option \<Rightarrow> string list" where
  "filter_authorized_datapoints db p dp_ids a grants =
     (let ids = unique dp_ids;
          gs = (case grants of Some g \<Rightarrow> g | None \<Rightarrow> load_role_grants db p None)
      in filter (datapoint_allowed db p a gs ids) ids)"

definition filter_authorized_hierarchy_nodes ::
  "authz_db \<Rightarrow> principal \<Rightarrow> string list \<Rightarrow> authz_action \<Rightarrow> role_grant list option \<Rightarrow> string list" where
  "filter_authorized_hierarchy_nodes db p node_ids a grants =
     (let ids = unique node_ids
      in if principal_kind p = ''user'' \<and> is_admin p then ids
         else
           (let gs = (case grants of Some g \<Rightarrow> g | None \<Rightarrow> load_role_grants db p (Some ''hierarchy''));
                targets = resolve_hierarchy_targets db ids
            in filter (\<lambda>i. case find_target targets i of
                 None \<Rightarrow> False | Some t \<Rightarrow> allowed (authorize p a [t] gs)) ids))"

end
