(* ===== verification/Authz_Props.thy ===== *)
theory Authz_Props
  imports Authz
begin

text \<open>
  The guarantees of the authorization policy: a full characterisation of the decision, deny before
  allow, monotonicity in the grants and in the role, and filters that return only what the policy
  allows.  The ancestors of a target form a parent chain even when the tree has a cycle.
\<close>

section \<open>Decisions\<close>

definition admin :: "principal \<Rightarrow> bool" where
  "admin p \<longleftrightarrow> principal_kind p = ''user'' \<and> is_admin p"

text \<open>A grant of the principal denies, or allows, the action on the target.\<close>

definition denied_by :: "principal \<Rightarrow> authz_action \<Rightarrow> role_grant list \<Rightarrow> authz_target \<Rightarrow> bool" where
  "denied_by p a grants t \<longleftrightarrow>
     (\<exists>g \<in> set grants. matches_principal p g \<and> g_effect g = Deny \<and> grant_applies a g t)"

definition allowed_by :: "principal \<Rightarrow> authz_action \<Rightarrow> role_grant list \<Rightarrow> authz_target \<Rightarrow> bool" where
  "allowed_by p a grants t \<longleftrightarrow>
     (\<exists>g \<in> set grants. matches_principal p g \<and> g_effect g = Allow \<and> grant_applies a g t \<and> grant_allows g a t)"

lemma effect_cases: "g_effect g = Deny \<or> g_effect g = Allow"
  by (cases "g_effect g") auto

lemma authorize_target_deny:
  "reason (authorize_target a t gs) = Explicit_Deny \<longleftrightarrow>
     (\<exists>g \<in> set gs. g_effect g = Deny \<and> grant_applies a g t)"
  by (auto simp: authorize_target_def Let_def list_ex_iff)

lemma authorize_target_allowed:
  "allowed (authorize_target a t gs) \<longleftrightarrow>
     \<not> (\<exists>g \<in> set gs. g_effect g = Deny \<and> grant_applies a g t)
     \<and> (\<exists>g \<in> set gs. g_effect g = Allow \<and> grant_applies a g t \<and> grant_allows g a t)"
  using effect_cases by (auto simp: authorize_target_def Let_def list_ex_iff)

lemma target_deny_iff:
  "reason (authorize_target a t (filter (matches_principal p) gs)) = Explicit_Deny \<longleftrightarrow> denied_by p a gs t"
  by (auto simp: authorize_target_deny denied_by_def)

lemma target_allowed_iff:
  "allowed (authorize_target a t (filter (matches_principal p) gs)) \<longleftrightarrow>
     \<not> denied_by p a gs t \<and> allowed_by p a gs t"
  by (auto simp: authorize_target_allowed denied_by_def allowed_by_def)

lemma authorize_deny:
  "reason (authorize p a ts gs) = Explicit_Deny \<longleftrightarrow> \<not> admin p \<and> (\<exists>t \<in> set ts. denied_by p a gs t)"
  by (auto simp: authorize_def admin_def Let_def list_ex_iff target_deny_iff)

lemma authorize_allowed_iff:
  "allowed (authorize p a ts gs) \<longleftrightarrow>
     ts \<noteq> [] \<and> (admin p \<or>
       (\<forall>t \<in> set ts. \<not> denied_by p a gs t) \<and>
       (if a = Read then \<exists>t \<in> set ts. allowed_by p a gs t else \<forall>t \<in> set ts. allowed_by p a gs t))"
proof -
  have "allowed (authorize p a ts gs) \<longleftrightarrow> ts \<noteq> [] \<and> (admin p \<or>
       (\<forall>t \<in> set ts. \<not> denied_by p a gs t) \<and>
       (if a = Read then \<exists>t \<in> set ts. \<not> denied_by p a gs t \<and> allowed_by p a gs t
        else \<forall>t \<in> set ts. \<not> denied_by p a gs t \<and> allowed_by p a gs t))"
    by (simp add: authorize_def admin_def Let_def list_ex_iff list_all_iff target_deny_iff target_allowed_iff)
  then show ?thesis by auto
qed

text \<open>
  C11. The decision in full.  An administrator is allowed whatever has a target.  Anybody else needs
  a target and must not be denied on any of them; then reading takes an allowing grant on one
  target, and every other action one on each target.
\<close>

theorem authorize_iff:
  "allowed (authorize p a ts gs) \<longleftrightarrow>
     ts \<noteq> [] \<and> (admin p \<or>
       (\<forall>t \<in> set ts. \<not> denied_by p a gs t) \<and>
       (if a = Read then \<exists>t \<in> set ts. allowed_by p a gs t else \<forall>t \<in> set ts. allowed_by p a gs t))"
  by (rule authorize_allowed_iff)

text \<open>
  Grants act in one direction each: adding allowing grants never takes a permission away, and
  adding denying grants never gives one.
\<close>

theorem authorize_monotonic:
  "(allowed (authorize p a ts gs) \<and> list_all (\<lambda>g. g_effect g = Allow) extra \<longrightarrow>
      allowed (authorize p a ts (gs @ extra)))
   \<and> (allowed (authorize p a ts (gs @ extra)) \<and> list_all (\<lambda>g. g_effect g = Deny) extra \<longrightarrow>
      allowed (authorize p a ts gs))"
proof -
  have allow: "denied_by p a (gs @ extra) t = denied_by p a gs t \<and> (allowed_by p a gs t \<longrightarrow> allowed_by p a (gs @ extra) t)"
    if "list_all (\<lambda>g. g_effect g = Allow) extra" for t
    using that by (auto simp: denied_by_def allowed_by_def list_all_iff)
  have deny: "(denied_by p a gs t \<longrightarrow> denied_by p a (gs @ extra) t) \<and> allowed_by p a (gs @ extra) t = allowed_by p a gs t"
    if "list_all (\<lambda>g. g_effect g = Deny) extra" for t
    using that by (auto simp: denied_by_def allowed_by_def list_all_iff)
  show ?thesis
    using allow deny by (auto simp: authorize_allowed_iff split: if_splits)
qed

lemma role_actions_mono: "role_rank r \<le> role_rank r' \<Longrightarrow> role_actions r \<subseteq> role_actions r'"
  by (cases r; cases r') auto

lemma role_allows_mono: "role_rank r \<le> role_rank r' \<Longrightarrow> role_allows r a t \<Longrightarrow> role_allows r' a t"
  using role_actions_mono [of r r'] by (auto simp: role_allows_def split: option.splits)

text \<open>
  A higher role never allows less: raising the role of a grant keeps every permission.
\<close>

theorem authorize_role_monotonic:
  assumes "role_rank (g_role g) \<le> role_rank r" "allowed (authorize p a ts (gs @ g # gs'))"
  shows "allowed (authorize p a ts (gs @ (g\<lparr>g_role := r\<rparr>) # gs'))"
proof -
  let ?g = "g\<lparr>g_role := r\<rparr>"
  have ap: "grant_applies a ?g t = grant_applies a g t" and mp: "matches_principal p ?g = matches_principal p g"
    for t by (simp_all add: grant_applies_def matches_principal_def grant_path_def)
  have al: "grant_allows g a t \<Longrightarrow> grant_allows ?g a t" for t
    using role_allows_mono [OF assms(1)] by (simp add: grant_allows_def)
  have "denied_by p a (gs @ ?g # gs') t = denied_by p a (gs @ g # gs') t" for t
    by (simp add: denied_by_def ap mp)
  moreover have "allowed_by p a (gs @ g # gs') t \<Longrightarrow> allowed_by p a (gs @ ?g # gs') t" for t
    using al by (auto simp: allowed_by_def ap mp)
  ultimately show ?thesis
    using assms(2) by (auto simp: authorize_allowed_iff split: if_splits)
qed

section \<open>Ancestors\<close>

text \<open>A path from the root end of the walk down to a node.\<close>

fun parent_chain :: "tree \<Rightarrow> string \<Rightarrow> string list \<Rightarrow> bool" where
  "parent_chain nodes cur [] = True"
| "parent_chain nodes cur (p # ps) = (map_of nodes cur = Some (Some p) \<and> map_of nodes p \<noteq> None \<and> parent_chain nodes p ps)"

lemma walk_chain: "parent_chain nodes cur (ancestor_walk nodes seen cur)"
  by (induction nodes seen cur rule: ancestor_walk.induct)
    (subst ancestor_walk.simps, auto split: option.splits)

lemma walk_distinct:
  "distinct (ancestor_walk nodes seen cur) \<and> set (ancestor_walk nodes seen cur) \<inter> set seen = {}"
  by (induction nodes seen cur rule: ancestor_walk.induct)
    (subst ancestor_walk.simps, subst (2) ancestor_walk.simps, auto split: option.splits)

text \<open>The walk stops only at a root, a missing parent or a node it has already met.\<close>

lemma walk_stops:
  "case map_of nodes (last (cur # ancestor_walk nodes seen cur)) of
     Some (Some p) \<Rightarrow> map_of nodes p = None \<or> p \<in> set seen \<union> set (ancestor_walk nodes seen cur)
   | _ \<Rightarrow> True"
proof (induction nodes seen cur rule: ancestor_walk.induct)
  case (1 nodes seen cur)
  show ?case
    using 1 by (subst (1 2) ancestor_walk.simps) (auto split: option.splits if_splits)
qed

lemma set_unique [simp]: "set (unique xs) = set xs"
  by (simp add: unique_def set_dedup_from)

lemma distinct_unique [simp]: "distinct (unique xs)"
  by (simp add: unique_def distinct_dedup_from)

lemma node_target_simps [simp]:
  "t_node_type (node_target nt i anc cc) = nt" "t_node_id (node_target nt i anc cc) = i"
  "t_ancestors (node_target nt i anc cc) = anc" "t_control_class (node_target nt i anc cc) = cc"
  by (simp_all add: node_target_def)

lemma find_map_id: "find (\<lambda>t. t_node_id t = n) (map (\<lambda>i. node_target nt i (f i) cc) ids) =
    (if n \<in> set ids then Some (node_target nt n (f n) cc) else None)"
  by (induction ids) auto

lemma find_tree_target:
  "find_target (resolve_tree_targets nt nodes ids) n =
     (if n \<in> set ids \<and> map_of nodes n \<noteq> None
      then Some (node_target nt n (rev (ancestor_walk nodes [n] n)) Room_Local) else None)"
  by (simp add: find_target_def resolve_tree_targets_def find_map_id)

text \<open>
  C40. A resolved target stands for an existing node of the request, its ancestors form the chain of
  its parents, root end first, without a repetition, and the chain is complete: it ends where there
  is no further parent or where following it would close a cycle.
\<close>

theorem resolve_tree_targets_chain:
  assumes "t \<in> set (resolve_tree_targets nt nodes ids)"
  shows "t_node_id t \<in> set ids \<and> map_of nodes (t_node_id t) \<noteq> None
    \<and> distinct (target_path t) \<and> parent_chain nodes (t_node_id t) (rev (t_ancestors t))
    \<and> (case map_of nodes (hd (target_path t)) of
         Some (Some p) \<Rightarrow> map_of nodes p = None \<or> p \<in> set (target_path t) | _ \<Rightarrow> True)"
proof -
  obtain i where i: "i \<in> set ids" "map_of nodes i \<noteq> None"
      "t = node_target nt i (rev (ancestor_walk nodes [i] i)) Room_Local"
    using assms by (auto simp: resolve_tree_targets_def)
  let ?w = "ancestor_walk nodes [i] i"
  have path: "target_path t = rev (i # ?w)" by (simp add: i(3) target_path_def)
  then have "hd (target_path t) = last (i # ?w)" by (simp only: hd_rev)
  then show ?thesis
    using i walk_chain [of nodes i "[i]"] walk_distinct [of nodes "[i]" i]
      walk_stops [where nodes = nodes and seen = "[i]" and cur = i] path
    by (auto split: option.splits)
qed

section \<open>Filters\<close>

text \<open>The grant names the datapoint, or a hierarchy node it is linked to or an ancestor of one.\<close>

definition covers_datapoint :: "authz_db \<Rightarrow> role_grant \<Rightarrow> string \<Rightarrow> bool" where
  "covers_datapoint db g dp \<longleftrightarrow>
     (g_node_type g = ''datapoint'' \<and> g_node_id g = dp) \<or>
     (g_node_type g = ''hierarchy'' \<and>
        (\<exists>n. (dp, n) \<in> set (datapoint_links db) \<and> map_of (hierarchy_nodes db) n \<noteq> None
           \<and> map_of (datapoint_rows db) dp \<noteq> None
           \<and> g_node_id g \<in> set (n # ancestor_walk (hierarchy_nodes db) [n] n)))"

lemma linked_targets_iff:
  "t \<in> set (linked_targets db ids dp) \<longleftrightarrow>
     dp \<in> set ids \<and> (\<exists>n cc. (dp, n) \<in> set (datapoint_links db) \<and> map_of (hierarchy_nodes db) n \<noteq> None
       \<and> map_of (datapoint_rows db) dp = Some cc
       \<and> t = node_target ''hierarchy'' n (rev (ancestor_walk (hierarchy_nodes db) [n] n)) cc)"
  (is "?l \<longleftrightarrow> ?r")
proof -
  define links where "links = filter (\<lambda>l. fst l \<in> set ids) (datapoint_links db)"
  have "?l \<longleftrightarrow> (\<exists>(d, n) \<in> set links. d = dp \<and> (\<exists>cc. map_of (hierarchy_nodes db) n \<noteq> None
      \<and> map_of (datapoint_rows db) dp = Some cc
      \<and> t = node_target ''hierarchy'' n (rev (ancestor_walk (hierarchy_nodes db) [n] n)) cc))"
    by (force simp: linked_targets_def resolve_hierarchy_targets_def find_tree_target map_filter_def Let_def
        simp flip: links_def split: option.splits if_splits)
  then show ?thesis by (auto simp: links_def)
qed

lemma resolve_datapoint_targets_linked:
  assumes "dp \<in> set ids" "(dp, n) \<in> set (datapoint_links db)" "map_of (hierarchy_nodes db) n \<noteq> None"
    and "map_of (datapoint_rows db) dp = Some cc"
  shows "node_target ''hierarchy'' n (rev (ancestor_walk (hierarchy_nodes db) [n] n)) cc
    \<in> set (resolve_datapoint_targets db ids dp)"
proof -
  have "node_target ''hierarchy'' n (rev (ancestor_walk (hierarchy_nodes db) [n] n)) cc
      \<in> set (linked_targets db ids dp)"
    using assms by (auto simp: linked_targets_iff)
  then show ?thesis using assms by (auto simp: resolve_datapoint_targets_def Let_def)
qed

lemma resolve_datapoint_targets_origin:
  assumes "t \<in> set (resolve_datapoint_targets db ids dp)"
  shows "t = node_target ''datapoint'' dp [] (t_control_class t) \<or>
    (\<exists>n. (dp, n) \<in> set (datapoint_links db) \<and> map_of (hierarchy_nodes db) n \<noteq> None
       \<and> map_of (datapoint_rows db) dp \<noteq> None
       \<and> t = node_target ''hierarchy'' n (rev (ancestor_walk (hierarchy_nodes db) [n] n)) (t_control_class t))"
proof (cases "t \<in> set (linked_targets db ids dp)")
  case True
  then show ?thesis by (auto simp: linked_targets_iff)
next
  case False
  then show ?thesis
    using assms by (auto simp: resolve_datapoint_targets_def Let_def split: if_splits option.splits)
qed

lemma deny_in_read_grants:
  assumes "g \<in> set gs" "g_node_type g = t_node_type t" "g_node_id g \<in> set (target_path t)" "t \<in> set ts"
  shows "g \<in> set (datapoint_read_grants gs ts)"
  using assms by (auto simp: datapoint_read_grants_def list_ex_iff)

text \<open>A grant that covers the datapoint sits on the path of one of the targets it is checked on.\<close>

definition checked_targets :: "authz_db \<Rightarrow> authz_action \<Rightarrow> role_grant list \<Rightarrow> string list \<Rightarrow> string \<Rightarrow> authz_target list" where
  "checked_targets db a gs ids dp =
     (let ts = datapoint_targets db a gs ids dp
      in ts @ (if a \<noteq> Read \<and> dp \<in> set (direct_grant_ids gs ids)
               then [node_target ''datapoint'' dp [] (first_control_class ts)] else []))"

lemma covered_target:
  assumes "covers_datapoint db g dp" "g \<in> set gs" "dp \<in> set ids"
  shows "\<exists>t \<in> set (checked_targets db a gs ids dp). g_node_type g = t_node_type t \<and> g_node_id g \<in> set (target_path t)"
proof (cases "g_node_type g = ''datapoint'' \<and> g_node_id g = dp")
  case True
  then have "dp \<in> set (direct_grant_ids gs ids)"
    using assms(2,3) by (force simp: direct_grant_ids_def)
  then have "\<exists>t \<in> set (checked_targets db a gs ids dp). t_node_type t = ''datapoint'' \<and> t_node_id t = dp"
    by (cases "a = Read") (auto simp: checked_targets_def datapoint_targets_def Let_def list_ex_iff)
  then obtain t where "t \<in> set (checked_targets db a gs ids dp)" "t_node_type t = ''datapoint''" "t_node_id t = dp"
    by blast
  then show ?thesis using True by (intro bexI [of _ t]) (simp_all add: target_path_def)
next
  case False
  then obtain n cc where n: "g_node_type g = ''hierarchy''" "(dp, n) \<in> set (datapoint_links db)"
      "map_of (hierarchy_nodes db) n \<noteq> None" "map_of (datapoint_rows db) dp = Some cc"
      "g_node_id g \<in> set (n # ancestor_walk (hierarchy_nodes db) [n] n)"
    using assms(1) by (auto simp: covers_datapoint_def)
  let ?t = "node_target ''hierarchy'' n (rev (ancestor_walk (hierarchy_nodes db) [n] n)) cc"
  have "?t \<in> set (resolve_datapoint_targets db ids dp)"
    using resolve_datapoint_targets_linked [OF assms(3) n(2,3,4)] .
  then have "?t \<in> set (checked_targets db a gs ids dp)"
    by (auto simp: checked_targets_def datapoint_targets_def Let_def)
  moreover have "g_node_id g \<in> set (target_path ?t)" using n(5) by (auto simp: target_path_def)
  ultimately show ?thesis using n(1) by force
qed

lemma deny_excludes:
  assumes "\<not> admin p" "g \<in> set gs" "matches_principal p g" "g_effect g = Deny"
    and "t \<in> set (checked_targets db a gs ids dp)" "g_node_type g = t_node_type t"
    and "g_node_id g \<in> set (target_path t)"
  shows "\<not> datapoint_allowed db p a gs ids dp"
proof -
  have ap: "grant_applies a g t" using assms(4,6,7) by (simp add: grant_applies_def)
  let ?ts = "datapoint_targets db a gs ids dp"
  show ?thesis
  proof (cases "t \<in> set ?ts")
    case True
    have "denied_by p a (if a = Read then datapoint_read_grants gs ?ts else gs) t"
      using assms(2,3,4) ap deny_in_read_grants [OF assms(2,6,7) True] by (auto simp: denied_by_def)
    then have "reason (authorize p a ?ts (if a = Read then datapoint_read_grants gs ?ts else gs)) = Explicit_Deny"
        and "\<not> allowed (authorize p a ?ts (if a = Read then datapoint_read_grants gs ?ts else gs))"
      using True assms(1) by (auto simp: authorize_deny authorize_allowed_iff)
    then show ?thesis by (cases "a = Read") (simp_all add: datapoint_allowed_def Let_def)
  next
    case False
    then have t: "a \<noteq> Read" "dp \<in> set (direct_grant_ids gs ids)"
        "t = node_target ''datapoint'' dp [] (first_control_class ?ts)"
      using assms(5) by (auto simp: checked_targets_def Let_def split: if_splits)
    have "reason (authorize p a [t] gs) = Explicit_Deny"
      using assms(1,2,3,4) ap by (auto simp: authorize_deny denied_by_def)
    then show ?thesis using t by (simp add: datapoint_allowed_def Let_def)
  qed
qed

text \<open>
  C15. A deny cannot be bypassed: a datapoint is not returned, for any action, to a principal who is
  no administrator and has a denying grant on the datapoint itself, on a hierarchy node it is
  linked to, or on an ancestor of one, whatever else has been granted.
\<close>

theorem filter_datapoints_respects_deny:
  assumes "\<not> admin p" "g \<in> set gs" "matches_principal p g" "g_effect g = Deny"
    and "covers_datapoint db g dp"
  shows "dp \<notin> set (filter_authorized_datapoints db p ids a (Some gs))"
proof
  assume "dp \<in> set (filter_authorized_datapoints db p ids a (Some gs))"
  then have dp: "dp \<in> set (unique ids)" "datapoint_allowed db p a gs (unique ids) dp"
    by (simp_all add: filter_authorized_datapoints_def Let_def)
  obtain t where "t \<in> set (checked_targets db a gs (unique ids) dp)"
      "g_node_type g = t_node_type t" "g_node_id g \<in> set (target_path t)"
    using covered_target [OF assms(5,2) dp(1)] by blast
  then show False using deny_excludes [OF assms(1-4)] dp(2) by blast
qed

lemma checked_target_origin:
  assumes "t \<in> set (checked_targets db a gs ids dp)" "g_node_type g = t_node_type t"
    and "g_node_id g \<in> set (target_path t)"
  shows "covers_datapoint db g dp"
proof -
  consider "t \<in> set (resolve_datapoint_targets db ids dp)"
    | cc where "t = node_target ''datapoint'' dp [] cc"
    using assms(1) by (auto simp: checked_targets_def datapoint_targets_def Let_def split: if_splits)
  then show ?thesis
  proof cases
    case 1
    from resolve_datapoint_targets_origin [OF 1] show ?thesis
    proof
      assume t: "t = node_target ''datapoint'' dp [] (t_control_class t)"
      have "t_node_type t = ''datapoint''" "target_path t = [dp]" by (subst t, simp add: target_path_def)+
      then show ?thesis using assms(2,3) by (simp add: covers_datapoint_def)
    next
      assume "\<exists>n. (dp, n) \<in> set (datapoint_links db) \<and> map_of (hierarchy_nodes db) n \<noteq> None
       \<and> map_of (datapoint_rows db) dp \<noteq> None
       \<and> t = node_target ''hierarchy'' n (rev (ancestor_walk (hierarchy_nodes db) [n] n)) (t_control_class t)"
      then obtain n where n: "(dp, n) \<in> set (datapoint_links db)" "map_of (hierarchy_nodes db) n \<noteq> None"
          "map_of (datapoint_rows db) dp \<noteq> None"
        and t: "t = node_target ''hierarchy'' n (rev (ancestor_walk (hierarchy_nodes db) [n] n)) (t_control_class t)"
        by blast
      have "t_node_type t = ''hierarchy''" "set (target_path t) = set (n # ancestor_walk (hierarchy_nodes db) [n] n)"
        by (subst t, simp add: target_path_def)+
      then show ?thesis using assms(2,3) n by (auto simp: covers_datapoint_def)
    qed
  next
    case 2
    then show ?thesis using assms(2,3) by (simp add: covers_datapoint_def target_path_def)
  qed
qed

lemma read_grants_path:
  assumes "g \<in> set (datapoint_read_grants gs ts)"
  shows "g \<in> set gs" "\<exists>t \<in> set ts. g_node_type g = t_node_type t \<and> g_node_id g \<in> set (target_path t)"
  using assms by (auto simp: datapoint_read_grants_def list_ex_iff)

lemma allowed_has_grant:
  assumes "datapoint_allowed db p a gs ids dp" "\<not> admin p"
  shows "\<exists>g \<in> set gs. matches_principal p g \<and> g_effect g = Allow \<and> a \<in> role_actions (g_role g)
    \<and> (\<exists>t \<in> set (checked_targets db a gs ids dp). g_node_type g = t_node_type t \<and> g_node_id g \<in> set (target_path t))"
proof (cases "a = Read")
  case True
  let ?ts = "datapoint_targets db a gs ids dp"
  have "allowed (authorize p a ?ts (datapoint_read_grants gs ?ts))"
    using assms(1) True by (simp add: datapoint_allowed_def Let_def)
  then obtain t g where g: "g \<in> set (datapoint_read_grants gs ?ts)" "matches_principal p g" "g_effect g = Allow"
      "grant_allows g a t"
    using assms(2) True by (auto simp: authorize_allowed_iff allowed_by_def)
  have "set ?ts \<subseteq> set (checked_targets db a gs ids dp)" by (auto simp: checked_targets_def Let_def)
  moreover have "a \<in> role_actions (g_role g)" using g(4) by (simp add: grant_allows_def role_allows_def)
  ultimately show ?thesis using g(2,3) read_grants_path [OF g(1)] by blast
next
  case False
  let ?ts = "datapoint_targets db a gs ids dp"
  let ?d = "node_target ''datapoint'' dp [] (first_control_class ?ts)"
  have "allowed (authorize p a ?ts gs) \<or> dp \<in> set (direct_grant_ids gs ids) \<and> allowed (authorize p a [?d] gs)"
    using assms(1) False by (auto simp: datapoint_allowed_def Let_def split: if_splits)
  then obtain t where t: "t \<in> set (checked_targets db a gs ids dp)" "allowed_by p a gs t"
  proof
    assume "allowed (authorize p a ?ts gs)"
    then have "\<exists>t \<in> set ?ts. allowed_by p a gs t"
      using assms(2) False by (cases ?ts) (auto simp: authorize_allowed_iff)
    then show thesis using that by (auto simp: checked_targets_def Let_def)
  next
    assume "dp \<in> set (direct_grant_ids gs ids) \<and> allowed (authorize p a [?d] gs)"
    then show thesis
      using that [of ?d] assms(2) False by (auto simp: authorize_allowed_iff checked_targets_def Let_def)
  qed
  then show ?thesis
    using False by (auto simp: allowed_by_def grant_applies_def grant_allows_def role_allows_def)
qed

text \<open>
  Nothing is returned without a reason: a datapoint returned to a principal who is no
  administrator is one of the request, and is backed by an allowing grant of that principal, with a
  role that covers the action, on the datapoint, on a hierarchy node it is linked to, or on an
  ancestor of one.  The order of the request is kept and nothing is returned twice.
\<close>

theorem filter_datapoints_sound:
  assumes "dp \<in> set (filter_authorized_datapoints db p ids a (Some gs))"
  shows "dp \<in> set ids
    \<and> (admin p \<or> (\<exists>g \<in> set gs. matches_principal p g \<and> g_effect g = Allow \<and> a \<in> role_actions (g_role g)
         \<and> covers_datapoint db g dp))
    \<and> distinct (filter_authorized_datapoints db p ids a (Some gs))"
proof -
  have dp: "dp \<in> set ids" "datapoint_allowed db p a gs (unique ids) dp"
    using assms by (simp_all add: filter_authorized_datapoints_def Let_def)
  then have "admin p \<or> (\<exists>g \<in> set gs. matches_principal p g \<and> g_effect g = Allow \<and> a \<in> role_actions (g_role g)
         \<and> covers_datapoint db g dp)"
    using allowed_has_grant [OF dp(2)] checked_target_origin by blast
  then show ?thesis using dp by (simp add: filter_authorized_datapoints_def Let_def)
qed

section \<open>Concrete instances\<close>

definition anna :: principal where
  "anna = \<lparr>subject = ''anna'', principal_kind = ''user'', is_admin = False\<rparr>"

definition grant_to_anna :: "string \<Rightarrow> string \<Rightarrow> role \<Rightarrow> grant_effect \<Rightarrow> role_grant" where
  "grant_to_anna nt i r e = \<lparr>g_principal_type = ''user'', g_principal_id = ''anna'', g_node_type = nt,
     g_node_id = i, g_role = r, g_effect = e, g_central_control = False, g_ancestors = []\<rparr>"

definition small_db :: authz_db where
  "small_db = \<lparr>hierarchy_nodes = [(''house'', None), (''room'', Some ''house'')], visu_nodes = [],
     datapoint_rows = [(''lamp'', Room_Local)], datapoint_links = [(''lamp'', ''room'')], grant_rows = []\<rparr>"

lemma small_walk: "ancestor_walk (hierarchy_nodes small_db) [''room''] ''room'' = [''house'']"
  by (simp add: ancestor_walk.simps small_db_def)

lemma anna_no_admin: "\<not> admin anna"
  by (simp add: admin_def anna_def)

lemma small_targets:
  "resolve_datapoint_targets small_db [''lamp''] ''lamp'' =
     [node_target ''hierarchy'' ''room'' [''house''] Room_Local]"
  using small_walk
  by (simp add: resolve_datapoint_targets_def linked_targets_def resolve_hierarchy_targets_def
      find_tree_target map_filter_def small_db_def)

theorem filter_datapoints_respects_deny_witness:
  "''lamp'' \<notin> set (filter_authorized_datapoints small_db anna [''lamp''] Write
     (Some [grant_to_anna ''datapoint'' ''lamp'' Owner Allow, grant_to_anna ''hierarchy'' ''house'' Guest Deny]))"
  by (rule filter_datapoints_respects_deny [OF anna_no_admin, where g = "grant_to_anna ''hierarchy'' ''house'' Guest Deny"])
    (use small_walk in \<open>simp_all add: grant_to_anna_def matches_principal_def anna_def covers_datapoint_def small_db_def\<close>)

theorem filter_datapoints_sound_witness:
  "\<exists>g \<in> set [grant_to_anna ''hierarchy'' ''house'' Guest Allow]. covers_datapoint small_db g ''lamp''"
proof -
  have "''lamp'' \<in> set (filter_authorized_datapoints small_db anna [''lamp''] Read
      (Some [grant_to_anna ''hierarchy'' ''house'' Guest Allow]))"
    by (simp add: filter_authorized_datapoints_def unique_def datapoint_allowed_def datapoint_targets_def
        small_targets authorize_allowed_iff denied_by_def allowed_by_def datapoint_read_grants_def
        grant_to_anna_def anna_def matches_principal_def target_path_def grant_applies_def grant_allows_def
        role_allows_def node_target_def direct_grant_ids_def)
  from filter_datapoints_sound [OF this] anna_no_admin show ?thesis by blast
qed

theorem authorize_role_monotonic_witness:
  "allowed (authorize anna Read [node_target ''datapoint'' ''lamp'' [] Room_Local]
     [grant_to_anna ''datapoint'' ''lamp'' Owner Allow])"
proof -
  let ?g = "grant_to_anna ''datapoint'' ''lamp'' Guest Allow"
  have "allowed (authorize anna Read [node_target ''datapoint'' ''lamp'' [] Room_Local] ([] @ ?g # []))"
    by (simp add: authorize_allowed_iff denied_by_def allowed_by_def grant_to_anna_def anna_def
        matches_principal_def target_path_def grant_applies_def grant_allows_def role_allows_def node_target_def)
  from authorize_role_monotonic [OF _ this, of Owner] show ?thesis by (simp add: grant_to_anna_def)
qed

theorem resolve_tree_targets_chain_witness:
  "distinct (target_path (node_target ''hierarchy'' ''room'' [''house''] Room_Local))"
proof -
  have "node_target ''hierarchy'' ''room'' [''house''] Room_Local
      \<in> set (resolve_tree_targets ''hierarchy'' (hierarchy_nodes small_db) [''room''])"
    using small_walk by (simp add: resolve_tree_targets_def unique_def small_db_def)
  from resolve_tree_targets_chain [OF this] show ?thesis by blast
qed

theorem authorize_monotonic_witness:
  "allowed (authorize anna Read [node_target ''datapoint'' ''lamp'' [] Room_Local]
     ([grant_to_anna ''datapoint'' ''lamp'' Guest Allow] @ [grant_to_anna ''datapoint'' ''door'' Guest Allow]))"
proof -
  let ?g = "grant_to_anna ''datapoint'' ''lamp'' Guest Allow"
  have "allowed (authorize anna Read [node_target ''datapoint'' ''lamp'' [] Room_Local] [?g])"
    by (simp add: authorize_allowed_iff denied_by_def allowed_by_def grant_to_anna_def anna_def
        matches_principal_def target_path_def grant_applies_def grant_allows_def role_allows_def node_target_def)
  then show ?thesis
    using authorize_monotonic [of anna Read "[node_target ''datapoint'' ''lamp'' [] Room_Local]" "[?g]"
        "[grant_to_anna ''datapoint'' ''door'' Guest Allow]"]
    by (simp add: grant_to_anna_def)
qed

theorem authorize_iff_witness:
  "allowed (authorize anna Read [node_target ''datapoint'' ''lamp'' [] Room_Local]
     [grant_to_anna ''datapoint'' ''lamp'' Guest Allow])"
  by (simp add: authorize_iff denied_by_def allowed_by_def grant_to_anna_def anna_def
      matches_principal_def target_path_def grant_applies_def grant_allows_def role_allows_def node_target_def)

end
