(* ===== verification/Transformation.thy ===== *)
theory Transformation
  imports Json
begin

text \<open>
  The value transformations the adapters share (\<open>obs/core/transformation.py\<close>): the path into a
  decoded payload, the coercion to the declared source type and the substitution map.  Reading XML
  is left to the host; log messages are not modelled.
\<close>

section \<open>Paths into a payload\<close>

text \<open>
  \<open>re.sub\<close> of every \<open>[digits]\<close> by a dot and the digits, from left to right.  The regular
  expression after its opening bracket: the digits, and the text behind the closing bracket.
\<close>

definition bracket_match :: "string \<Rightarrow> (string \<times> string) option" where
  "bracket_match s =
     (case dropWhile is_dec s of
        d # rest \<Rightarrow>
          if takeWhile is_dec s \<noteq> [] \<and> d = CHR '']'' then Some (takeWhile is_dec s, rest) else None
      | [] \<Rightarrow> None)"

lemma bracket_match_eq:
  "bracket_match s = Some (ds, rest) \<longleftrightarrow> s = ds @ CHR '']'' # rest \<and> all_dec ds"
proof
  assume "bracket_match s = Some (ds, rest)"
  then have d: "dropWhile is_dec s = CHR '']'' # rest" "takeWhile is_dec s = ds" "ds \<noteq> []"
    by (auto simp: bracket_match_def split: list.splits if_splits)
  have "list_all is_dec ds"
    using d(2) by (auto simp: list_all_iff dest: set_takeWhileD)
  with d show "s = ds @ CHR '']'' # rest \<and> all_dec ds"
    using takeWhile_dropWhile_id [of is_dec s] by (simp add: all_dec_def)
next
  assume "s = ds @ CHR '']'' # rest \<and> all_dec ds"
  then show "bracket_match s = Some (ds, rest)"
    by (simp add: bracket_match_def all_dec_def list_all_iff takeWhile_append2 dropWhile_append2
        is_dec_def code_def)
qed

lemma bracket_match_shorter [termination_simp]:
  "bracket_match s = Some (ds, rest) \<Longrightarrow> length rest < length s"
  by (simp add: bracket_match_eq)

fun brackets_to_dots :: "string \<Rightarrow> string" where
  "brackets_to_dots [] = []"
| "brackets_to_dots (c # cs) =
     (if c = CHR ''['' then
        (case bracket_match cs of
           Some (ds, rest) \<Rightarrow> CHR ''.'' # ds @ brackets_to_dots rest
         | None \<Rightarrow> c # brackets_to_dots cs)
      else c # brackets_to_dots cs)"

definition path_parts :: "string \<Rightarrow> string list" where
  "path_parts path = filter (\<lambda>p. p \<noteq> []) (py_split (CHR ''.'') (brackets_to_dots path))"

text \<open>\<open>xs[i]\<close>: a negative index counts from the end.\<close>

definition py_index :: "'a list \<Rightarrow> int \<Rightarrow> (pyerr, 'a) result" where
  "py_index xs i =
     (let j = (if i < 0 then i + int (length xs) else i)
      in if 0 \<le> j \<and> j < int (length xs) then Inr (xs ! nat j) else Inl IndexError)"

fun step_into :: "pyval \<Rightarrow> string \<Rightarrow> (pyerr, pyval) result" where
  "step_into (PDict kvs) part = of_opt KeyError (map_of kvs part)"
| "step_into (PList xs) part = rbind (of_opt ValueError (parse_int part)) (py_index xs)"
| "step_into _ part = Inl TypeError"

fun walk_parts :: "pyval \<Rightarrow> string list \<Rightarrow> (pyerr, pyval) result" where
  "walk_parts v [] = Inr v"
| "walk_parts v (p # ps) = rbind (step_into v p) (\<lambda>w. walk_parts w ps)"

definition extract_nested :: "pyval \<Rightarrow> string \<Rightarrow> (pyerr, pyval) result" where
  "extract_nested obj path = walk_parts obj (path_parts path)"

section \<open>The source type\<close>

text \<open>
  What the XML reader of the host answers for a text and an optional path: an exception, no such
  element, or the text of the element found (of the root, where no path is given).
\<close>

datatype xml_answer = XmlFailed | XmlMissing | XmlText "string option"

text \<open>The text of an element: an integer, else a float, else the text itself.\<close>

definition xml_number :: "string \<Rightarrow> pyval" where
  "xml_number t =
     (case parse_int t of
        Some i \<Rightarrow> PInt i
      | None \<Rightarrow> (case parse_float t of Some x \<Rightarrow> PFloat x | None \<Rightarrow> PStr t))"

definition opt_text :: "string option \<Rightarrow> string" where
  "opt_text t = (case t of None \<Rightarrow> [] | Some s \<Rightarrow> s)"

definition source_json :: "string \<Rightarrow> pyval \<Rightarrow> string option \<Rightarrow> (pyerr, pyval) result" where
  "source_json raw auto_value json_key =
     rbind (case auto_value of PDict _ \<Rightarrow> Inr auto_value | PList _ \<Rightarrow> Inr auto_value
            | _ \<Rightarrow> json_loads raw)
       (\<lambda>obj. if opt_text json_key \<noteq> []
          then (case extract_nested obj (opt_text json_key) of
                  Inr v \<Rightarrow> Inr v
                | Inl e \<Rightarrow> if e \<in> {KeyError, IndexError, TypeError, ValueError} then Inr auto_value
                          else Inl e)
          else Inr obj)"

definition source_xml ::
  "(string \<Rightarrow> string option \<Rightarrow> xml_answer) \<Rightarrow> string \<Rightarrow> pyval \<Rightarrow> string option \<Rightarrow> pyval" where
  "source_xml xml raw auto_value xml_path =
     (if opt_text xml_path \<noteq> []
      then (case xml raw xml_path of
              XmlText t \<Rightarrow> xml_number (py_strip (opt_text t))
            | _ \<Rightarrow> auto_value)
      else (case xml raw None of
              XmlText t \<Rightarrow> PStr (py_strip (opt_text t))
            | _ \<Rightarrow> auto_value))"

text \<open>A conversion whose \<open>ValueError\<close> and \<open>TypeError\<close> are logged, leaving the value as it was.\<close>

definition or_unchanged :: "pyval \<Rightarrow> (pyerr, pyval) result \<Rightarrow> (pyerr, pyval) result" where
  "or_unchanged v r =
     (case r of Inl e \<Rightarrow> if e \<in> {ValueError, TypeError} then Inr v else Inl e | Inr w \<Rightarrow> Inr w)"

definition source_int :: "pyval \<Rightarrow> (pyerr, pyval) result" where
  "source_int v =
     or_unchanged v
       (rbind (case v of PStr s \<Rightarrow> rbind (py_float v) float_to_int | _ \<Rightarrow> py_int v)
          (\<lambda>i. Inr (PInt i)))"

definition source_float :: "pyval \<Rightarrow> (pyerr, pyval) result" where
  "source_float v = or_unchanged v (rbind (py_float v) (\<lambda>x. Inr (PFloat x)))"

definition source_bool :: "pyval \<Rightarrow> pyval" where
  "source_bool v =
     (case v of
        PBool b \<Rightarrow> v
      | PStr s \<Rightarrow> PBool (py_lower s \<in> {''true'', ''1'', ''on'', ''yes''})
      | _ \<Rightarrow> PBool (py_truthy v))"

definition apply_source_type ::
  "(string \<Rightarrow> string option \<Rightarrow> xml_answer) \<Rightarrow> string \<Rightarrow> pyval \<Rightarrow> string option \<Rightarrow> string option
     \<Rightarrow> string option \<Rightarrow> (pyerr, pyval) result" where
  "apply_source_type xml raw auto_value source_data_type json_key xml_path =
     (if source_data_type = Some ''json'' then source_json raw auto_value json_key
      else if source_data_type = Some ''xml'' then Inr (source_xml xml raw auto_value xml_path)
      else if source_data_type = Some ''int'' then source_int auto_value
      else if source_data_type = Some ''float'' then source_float auto_value
      else if source_data_type = Some ''bool'' then Inr (source_bool auto_value)
      else if source_data_type = Some ''string'' then Inr (PStr (py_str auto_value))
      else Inr auto_value)"

section \<open>The substitution map\<close>

text \<open>
  \<open>str.casefold\<close> on code points below 256: lower case, and the sharp s becomes two letters.  The
  micro sign folds to a letter outside this range that no other code point below 256 folds to, so
  leaving it alone compares the same texts equal.
\<close>

definition casefold :: "string \<Rightarrow> string" where
  "casefold s = concat (map (\<lambda>c. if code c = 223 then ''ss'' else [lower_char c]) s)"

definition float_integral :: "pyfloat \<Rightarrow> int option" where
  "float_integral x =
     (case x of Fin q \<Rightarrow> if of_int \<lfloor>q\<rfloor> = q then Some \<lfloor>q\<rfloor> else None | _ \<Rightarrow> None)"

definition map_keys :: "pyval \<Rightarrow> string list" where
  "map_keys v =
     (case v of
        PBool b \<Rightarrow> (if b then [''true'', ''1''] else [''false'', ''0''])
      | PFloat x \<Rightarrow> (case float_integral x of Some i \<Rightarrow> [show_int i] | None \<Rightarrow> [py_str v])
      | _ \<Rightarrow> [py_str v])"

definition map_lookup :: "(string \<times> pyval) list \<Rightarrow> string \<Rightarrow> pyval option" where
  "map_lookup m key =
     (case map_of m key of
        Some v \<Rightarrow> Some v
      | None \<Rightarrow> map_option snd (find (\<lambda>(k, v). casefold k = casefold key) m))"

fun first_mapped :: "(string \<times> pyval) list \<Rightarrow> string list \<Rightarrow> pyval option" where
  "first_mapped m [] = None"
| "first_mapped m (key # keys) =
     (case map_lookup m key of Some v \<Rightarrow> Some v | None \<Rightarrow> first_mapped m keys)"

definition apply_value_map :: "pyval \<Rightarrow> (string \<times> pyval) list option \<Rightarrow> pyval" where
  "apply_value_map v value_map =
     (case value_map of
        None \<Rightarrow> v
      | Some m \<Rightarrow> if m = [] then v
                  else (case first_mapped m (map_keys v) of Some w \<Rightarrow> w | None \<Rightarrow> v))"

section \<open>Composition of paths\<close>

text \<open>A match never crosses a dot or an opening bracket.\<close>

lemma bracket_match_append:
  assumes "d \<in> {CHR ''.'', CHR ''[''}"
  shows "bracket_match (p @ d # q) = map_option (\<lambda>(ds, r). (ds, r @ d # q)) (bracket_match p)"
proof -
  have nd: "\<not> is_dec d" "d \<noteq> CHR '']''" using assms by (auto simp: is_dec_def code_def)
  show ?thesis
  proof (cases "\<forall>c \<in> set p. is_dec c")
    case True
    then have "dropWhile is_dec (p @ d # q) = d # q" "dropWhile is_dec p = []"
      using nd by (simp_all add: dropWhile_append2 dropWhile_eq_Nil_conv)
    with nd show ?thesis by (simp only: bracket_match_def) simp
  next
    case False
    then have "dropWhile is_dec (p @ d # q) = dropWhile is_dec p @ d # q"
      "takeWhile is_dec (p @ d # q) = takeWhile is_dec p" "dropWhile is_dec p \<noteq> []"
      by (auto simp: dropWhile_append1 takeWhile_append1 dropWhile_eq_Nil_conv)
    then show ?thesis by (auto simp: bracket_match_def split: list.splits)
  qed
qed

lemma brackets_to_dots_append:
  assumes "d \<in> {CHR ''.'', CHR ''[''}"
  shows "brackets_to_dots (p @ d # q) = brackets_to_dots p @ brackets_to_dots (d # q)"
proof (induction p rule: brackets_to_dots.induct)
  case 1
  then show ?case by (simp only: append_Nil brackets_to_dots.simps(1))
next
  case (2 c cs)
  then show ?case
    using bracket_match_append [OF assms, of cs q]
    by (auto simp del: brackets_to_dots.simps(2) simp: brackets_to_dots.simps(2) [of c]
        split: option.splits)
qed

lemma walk_parts_append:
  "walk_parts v (ps @ qs) = rbind (walk_parts v ps) (\<lambda>w. walk_parts w qs)"
proof (induction ps arbitrary: v)
  case (Cons p ps)
  then show ?case by (cases "step_into v p") auto
qed simp

lemma py_split_join: "py_split c (p @ c # q) = py_split c p @ py_split c q"
proof (induction p)
  case Nil
  then show ?case by (auto split: list.splits)
next
  case (Cons d p)
  then show ?case by (cases "py_split c p") (auto split: list.splits)
qed

lemma path_parts_dot: "path_parts (p @ CHR ''.'' # q) = path_parts p @ path_parts q"
  by (simp add: path_parts_def brackets_to_dots_append py_split_join del: py_split.simps)

lemma brackets_to_dots_plain: "CHR ''['' \<notin> set k \<Longrightarrow> brackets_to_dots k = k"
  by (induction k) auto

lemma path_parts_index:
  assumes "all_dec ds"
  shows "path_parts (p @ CHR ''['' # ds @ '']'') = path_parts p @ [ds]"
proof -
  have "bracket_match (ds @ '']'') = Some (ds, [])" using assms by (simp add: bracket_match_eq)
  then have "brackets_to_dots (CHR ''['' # ds @ '']'') = CHR ''.'' # ds" by simp
  moreover have "CHR ''.'' \<notin> set ds" using assms by (auto simp: all_dec_def list_all_iff is_dec_def code_def)
  ultimately show ?thesis
    using assms
    by (simp add: path_parts_def brackets_to_dots_append py_split_join pystr all_dec_def
        del: py_split.simps brackets_to_dots.simps)
qed

lemma path_parts_key:
  assumes "k \<noteq> []" "CHR ''.'' \<notin> set k" "CHR ''['' \<notin> set k"
  shows "path_parts (p @ CHR ''.'' # k) = path_parts p @ [k]"
  using assms
  by (simp add: path_parts_dot) (simp add: path_parts_def brackets_to_dots_plain pystr)

text \<open>
  A path is followed in order: the value at \<open>p.q\<close> is the value at \<open>q\<close> inside the value at
  \<open>p\<close>, and \<open>p[n]\<close> is the item \<open>n\<close> of the list, or the member of that name of the object, at
  \<open>p\<close>; an error of the first part is the error of the whole.
\<close>

theorem extract_nested_compose:
  "extract_nested v (p @ ''.'' @ q) = rbind (extract_nested v p) (\<lambda>w. extract_nested w q)
   \<and> extract_nested v (p @ ''['' @ show_nat n @ '']'')
     = rbind (extract_nested v p) (\<lambda>w. step_into w (show_nat n))"
proof -
  have "all_dec (show_nat n)" by (auto simp: all_dec_def list_all_iff dest: show_nat_digits)
  moreover have "rbind r Inr = r" for r :: "(pyerr, pyval) result" by (cases r) auto
  ultimately show ?thesis
    by (simp add: extract_nested_def path_parts_dot path_parts_index walk_parts_append)
qed

section \<open>Reaching every member\<close>

text \<open>The abstract path: members of objects and positions in lists.\<close>

datatype path_step = Key string | Item nat

fun step_text :: "path_step \<Rightarrow> string" where
  "step_text (Key k) = CHR ''.'' # k"
| "step_text (Item n) = ''['' @ show_nat n @ '']''"

definition path_text :: "path_step list \<Rightarrow> string" where
  "path_text ps = concat (map step_text ps)"

fun writable_step :: "path_step \<Rightarrow> bool" where
  "writable_step (Key k) = (k \<noteq> [] \<and> CHR ''.'' \<notin> set k \<and> CHR ''['' \<notin> set k)"
| "writable_step (Item n) = True"

text \<open>\<open>at_path v ps w\<close>: the document \<open>v\<close> has \<open>w\<close> at the position \<open>ps\<close>.\<close>

inductive at_path :: "pyval \<Rightarrow> path_step list \<Rightarrow> pyval \<Rightarrow> bool" where
  here: "at_path v [] v"
| member: "map_of kvs k = Some u \<Longrightarrow> at_path u ps w \<Longrightarrow> at_path (PDict kvs) (Key k # ps) w"
| item: "n < length xs \<Longrightarrow> at_path (xs ! n) ps w \<Longrightarrow> at_path (PList xs) (Item n # ps) w"

fun step_part :: "path_step \<Rightarrow> string" where
  "step_part (Key k) = k"
| "step_part (Item n) = show_nat n"

lemma path_parts_path_text:
  "list_all writable_step ps \<Longrightarrow> path_parts (path_text ps) = map step_part ps"
proof (induction ps rule: rev_induct)
  case Nil
  then show ?case by (simp add: path_text_def path_parts_def)
next
  case (snoc s ps)
  have dec: "all_dec (show_nat n)" for n
    by (auto simp: all_dec_def list_all_iff dest: show_nat_digits)
  have "path_text (ps @ [s]) = path_text ps @ step_text s" by (simp add: path_text_def)
  with snoc dec show ?case
    by (cases s) (simp_all add: path_parts_key path_parts_index)
qed

lemma walk_parts_at_path: "at_path v ps w \<Longrightarrow> walk_parts v (map step_part ps) = Inr w"
  by (induction rule: at_path.induct)
    (simp_all add: of_opt_def parse_int_show_nat py_index_def)

text \<open>
  Every member of a document can be reached: the text of its position, with keys after dots
  and positions in brackets, extracts exactly the value there, as long as the keys are not empty
  and hold no dot and no opening bracket.
\<close>

theorem extract_nested_reaches:
  assumes "at_path v ps w" and "list_all writable_step ps"
  shows "extract_nested v (path_text ps) = Inr w"
  using assms by (simp add: extract_nested_def path_parts_path_text walk_parts_at_path)

theorem extract_nested_reaches_witness:
  "extract_nested (PDict [(''a'', PList [PInt 1, PDict [(''b'', PBool True)]])]) ''.a[1].b''
   = Inr (PBool True)"
proof -
  let ?v = "PDict [(''a'', PList [PInt 1, PDict [(''b'', PBool True)]])]"
  have "at_path ?v [Key ''a'', Item 1, Key ''b''] (PBool True)"
    by (rule at_path.member, simp, rule at_path.item, simp, simp add: at_path.intros)
  then have "extract_nested ?v (path_text [Key ''a'', Item 1, Key ''b'']) = Inr (PBool True)"
    by (rule extract_nested_reaches) simp
  then show ?thesis by (simp add: path_text_def text_eval)
qed

section \<open>The substitution map, as a specification\<close>

lemma map_lookup_Some:
  assumes "map_lookup m key = Some w"
  shows "\<exists>k. (k, w) \<in> set m \<and> casefold k = casefold key \<and> (key \<in> fst ` set m \<longrightarrow> k = key)"
proof (cases "map_of m key")
  case None
  with assms obtain k where "find (\<lambda>(k, v). casefold k = casefold key) m = Some (k, w)"
    by (auto simp: map_lookup_def)
  then have "(k, w) \<in> set m" "casefold k = casefold key"
    by (auto simp: find_Some_iff) (metis nth_mem)
  with None show ?thesis by (auto simp: map_of_eq_None_iff)
next
  case (Some u)
  with assms show ?thesis by (auto simp: map_lookup_def dest: map_of_SomeD)
qed

lemma map_lookup_None:
  "map_lookup m key = None \<Longrightarrow> (k, w) \<in> set m \<Longrightarrow> casefold k \<noteq> casefold key"
  by (auto simp: map_lookup_def find_None_iff split: option.splits)

lemma first_mapped_Some:
  "first_mapped m keys = Some w \<Longrightarrow>
   \<exists>key k. key \<in> set keys \<and> (k, w) \<in> set m \<and> casefold k = casefold key
     \<and> (key \<in> fst ` set m \<longrightarrow> k = key)"
  by (induction keys) (auto split: option.splits dest: map_lookup_Some)

lemma first_mapped_None:
  "first_mapped m keys = None \<Longrightarrow> key \<in> set keys \<Longrightarrow> (k, w) \<in> set m \<Longrightarrow> casefold k \<noteq> casefold key"
  by (induction keys) (auto split: option.splits dest: map_lookup_None)

text \<open>
  The substitution map returns the value as it is exactly when no entry matches one of its
  texts up to letter case; otherwise the replacement is that of a matching entry, of the entry with
  the very text where there is one.
\<close>

theorem apply_value_map_spec:
  "(apply_value_map v (Some m) = v
      \<and> (\<forall>key \<in> set (map_keys v). \<forall>(k, w) \<in> set m. casefold k \<noteq> casefold key))
   \<or> (\<exists>key k w. apply_value_map v (Some m) = w \<and> key \<in> set (map_keys v) \<and> (k, w) \<in> set m
        \<and> casefold k = casefold key \<and> (key \<in> fst ` set m \<longrightarrow> k = key))"
proof (cases "first_mapped m (map_keys v)")
  case None
  then show ?thesis by (auto simp: apply_value_map_def dest: first_mapped_None)
next
  case (Some w)
  then have "m \<noteq> []" using first_mapped_Some [OF Some] by auto
  with Some first_mapped_Some [OF Some] show ?thesis by (auto simp: apply_value_map_def)
qed

theorem apply_value_map_spec_witness:
  "apply_value_map (PStr ''ON'') (Some [(''on'', PInt 1), (''off'', PInt 0)]) = PInt 1"
proof -
  have no: "apply_value_map (PStr ''ON'') (Some [(''on'', PInt 1), (''off'', PInt 0)]) \<noteq> PStr ''ON''
      \<and> casefold ''off'' \<noteq> casefold ''ON''"
    by code_simp
  show ?thesis
    using apply_value_map_spec [of "PStr ''ON''" "[(''on'', PInt 1), (''off'', PInt 0)]"] no
    by (auto simp: map_keys_def)
qed

lemma map_keys_numbers:
  "map_keys (PInt i) = [show_int i]" "map_keys (PFloat (Fin (of_int i))) = [show_int i]"
  "map_keys (PStr (show_int i)) = [show_int i]"
  by (simp_all add: map_keys_def float_integral_def)

text \<open>
  A map with numeric keys answers alike however the number arrives: as an integer, as a float
  without a fraction, as text, and, for 0 and 1, as a boolean the map has no key for.
\<close>

theorem apply_value_map_numbers:
  assumes "map_of m (show_int i) = Some w"
  shows "apply_value_map (PInt i) (Some m) = w
    \<and> apply_value_map (PFloat (Fin (of_int i))) (Some m) = w
    \<and> apply_value_map (PStr (show_int i)) (Some m) = w
    \<and> (i = of_bool b \<and> map_lookup m (if b then ''true'' else ''false'') = None
        \<longrightarrow> apply_value_map (PBool b) (Some m) = w)"
proof -
  have m: "m \<noteq> []" and l: "map_lookup m (show_int i) = Some w"
    using assms by (auto simp: map_lookup_def)
  have "map_keys (PBool b) = [if b then ''true'' else ''false'', show_int (of_bool b)]"
    by (cases b) (simp_all add: map_keys_def show_int_def text_eval)
  with m l show ?thesis by (auto simp: apply_value_map_def map_keys_numbers)
qed

theorem apply_value_map_numbers_witness:
  "apply_value_map (PFloat (Fin 10)) (Some [(''0'', PStr ''Aus''), (''10'', PStr ''Standby'')])
     = PStr ''Standby''
   \<and> apply_value_map (PBool True) (Some [(''1'', PStr ''0'')]) = PStr ''0''"
proof -
  have a: "map_of [(''0'', PStr ''Aus''), (''10'', PStr ''Standby'')] (show_int 10) = Some (PStr ''Standby'')"
    and b: "map_of [(''1'', PStr ''0'')] (show_int 1) = Some (PStr ''0'')"
    and c: "map_lookup [(''1'', PStr ''0'')] ''true'' = None"
    by (simp_all add: show_int_def text_eval map_lookup_def casefold_def lower_char_def)
  show ?thesis
    using apply_value_map_numbers [OF a] apply_value_map_numbers [OF b, of True] c by simp
qed

section \<open>Errors of the source type\<close>

lemma json_loads_error: "json_loads s = Inl e \<Longrightarrow> e = ValueError"
  by (auto simp: json_loads_def split: option.splits prod.splits if_splits)

lemma step_into_error:
  "step_into v p = Inl e \<Longrightarrow> e \<in> {KeyError, IndexError, TypeError, ValueError}"
  by (cases v) (auto simp: of_opt_def rbind_eq_Inl py_index_def Let_def split: option.splits if_splits)

lemma extract_nested_error:
  "extract_nested v p = Inl e \<Longrightarrow> e \<in> {KeyError, IndexError, TypeError, ValueError}"
proof -
  have "walk_parts v ps = Inl e \<Longrightarrow> e \<in> {KeyError, IndexError, TypeError, ValueError}" for v ps
    by (induction ps arbitrary: v) (auto simp: rbind_eq_Inl dest: step_into_error)
  then show "extract_nested v p = Inl e \<Longrightarrow> e \<in> {KeyError, IndexError, TypeError, ValueError}"
    by (simp add: extract_nested_def)
qed

lemma source_json_error:
  "source_json raw v k = Inl e \<longleftrightarrow>
     e = ValueError \<and> (case v of PDict _ \<Rightarrow> False | PList _ \<Rightarrow> False | _ \<Rightarrow> json_loads raw = Inl ValueError)"
proof -
  have inner: "(case extract_nested w q of Inr x \<Rightarrow> Inr x
      | Inl e \<Rightarrow> if e \<in> {KeyError, IndexError, TypeError, ValueError} then Inr v else Inl e) \<noteq> Inl e"
    for w q
    by (cases "extract_nested w q") (use extract_nested_error in \<open>auto split: if_splits\<close>)
  have "source_json raw v k = Inl e \<longleftrightarrow>
      (case v of PDict _ \<Rightarrow> Inr v | PList _ \<Rightarrow> Inr v | _ \<Rightarrow> json_loads raw) = Inl e"
    unfolding source_json_def rbind_eq_Inl using inner by auto
  then show ?thesis
    using json_loads_error by (cases v) auto
qed

lemma or_unchanged_Inl:
  "or_unchanged v r = Inl e \<longleftrightarrow> r = Inl e \<and> e \<notin> {ValueError, TypeError}"
  by (auto simp: or_unchanged_def split: sum.splits)

lemma float_to_int_error:
  "float_to_int x = Inl e \<longleftrightarrow>
     (x = NaN \<and> e = ValueError) \<or> (x \<in> {PosInf, NegInf} \<and> e = OverflowError)"
  by (cases x) (auto simp: float_to_int_def)

lemma source_int_error:
  "source_int v = Inl e \<longleftrightarrow>
     e = OverflowError \<and> (\<exists>x \<in> {PosInf, NegInf}. v = PFloat x \<or> (\<exists>s. v = PStr s \<and> parse_float s = Some x))"
  by (cases v)
    (auto simp: source_int_def or_unchanged_Inl rbind_eq_Inl of_opt_def float_to_int_error
      split: option.splits)

lemma int_to_float_error: "int_to_float i = Inl e \<Longrightarrow> e = OverflowError"
  by (auto simp: int_to_float_def split: pyfloat.splits)

lemma source_float_error:
  "source_float v = Inl e \<longleftrightarrow> e = OverflowError \<and> (\<exists>i. v = PInt i \<and> int_to_float i = Inl OverflowError)"
  by (cases v)
    (auto simp: source_float_def or_unchanged_Inl rbind_eq_Inl of_opt_def dest: int_to_float_error
      split: option.splits)

text \<open>
  C23. Which payloads make \<open>apply_source_type\<close> raise: text that is not JSON where a document was
  announced, an infinity read as an integer, and an integer beyond the range of a float.  Every
  other value that does not fit is passed on unchanged.
\<close>

theorem apply_source_type_raises_iff:
  "apply_source_type xml raw v t jk xp = Inl e \<longleftrightarrow>
     (t = Some ''json'' \<and> e = ValueError
        \<and> (case v of PDict _ \<Rightarrow> False | PList _ \<Rightarrow> False | _ \<Rightarrow> json_loads raw = Inl ValueError))
   \<or> (t = Some ''int'' \<and> e = OverflowError
        \<and> (\<exists>x \<in> {PosInf, NegInf}. v = PFloat x \<or> (\<exists>s. v = PStr s \<and> parse_float s = Some x)))
   \<or> (t = Some ''float'' \<and> e = OverflowError \<and> (\<exists>i. v = PInt i \<and> int_to_float i = Inl OverflowError))"
  unfolding apply_source_type_def
  by (simp add: source_json_error source_int_error source_float_error cong: conj_cong)

theorem apply_source_type_raises_iff_witness:
  "apply_source_type (\<lambda>_ _. XmlFailed) ''inf'' (PStr ''inf'') (Some ''int'') None None
   = Inl OverflowError"
proof -
  have "parse_float ''inf'' = Some PosInf"
    by code_simp
  then show ?thesis
    using apply_source_type_raises_iff
      [of "\<lambda>_ _. XmlFailed" "''inf''" "PStr ''inf''" "Some ''int''" None None OverflowError] by simp
qed

text \<open>
  A declared type is delivered or the value is left as it was: a \<open>string\<close> or \<open>bool\<close> source
  always delivers its type, an \<open>int\<close> or \<open>float\<close> source delivers a number of that type unless it
  reports the value as it came.
\<close>

theorem apply_source_type_typed:
  assumes "apply_source_type xml raw v t jk xp = Inr w"
  shows "(t = Some ''string'' \<longrightarrow> is_str w) \<and> (t = Some ''bool'' \<longrightarrow> is_bool w)
    \<and> (t = Some ''int'' \<longrightarrow> (\<exists>i. w = PInt i) \<or> w = v)
    \<and> (t = Some ''float'' \<longrightarrow> is_float w \<or> w = v)
    \<and> (t = None \<longrightarrow> w = v)"
proof -
  have num: "or_unchanged v r = Inr w \<Longrightarrow> r = Inr w \<or> w = v" for r
    by (auto simp: or_unchanged_def split: sum.splits if_splits)
  have "source_int v = Inr w \<Longrightarrow> (\<exists>i. w = PInt i) \<or> w = v"
    unfolding source_int_def by (drule num) (auto simp: rbind_eq_Inr)
  moreover have "source_float v = Inr w \<Longrightarrow> is_float w \<or> w = v"
    unfolding source_float_def by (drule num) (auto simp: rbind_eq_Inr)
  moreover have "is_bool (source_bool v)" by (cases v) (simp_all add: source_bool_def)
  ultimately show ?thesis
    using assms unfolding apply_source_type_def by (auto split: if_splits)
qed

theorem apply_source_type_typed_witness:
  "is_bool (PBool True)
   \<and> apply_source_type (\<lambda>_ _. XmlFailed) ''Yes'' (PStr ''Yes'') (Some ''bool'') None None
     = Inr (PBool True)"
proof -
  have r: "apply_source_type (\<lambda>_ _. XmlFailed) ''Yes'' (PStr ''Yes'') (Some ''bool'') None None
     = Inr (PBool True)"
    by code_simp
  show ?thesis using apply_source_type_typed [OF r] r by simp
qed

end
