(* ===== verification/Py_Dict.thy ===== *)
theory Py_Dict
  imports Py_Value
begin

text \<open>
  Dicts as the stateful components use them, and the equality of values.  A dict is an association
  list in insertion order; \<open>d[k] = v\<close> is \<^term>\<open>assoc_set\<close>, \<open>d.pop(k, None)\<close> is \<open>assoc_del\<close>.  The
  locale states what the components rely on; their lemmas on sequences of operations are proved
  from it alone.
\<close>

section \<open>Removal of a key\<close>

definition assoc_del :: "'k \<Rightarrow> ('k \<times> 'v) list \<Rightarrow> ('k \<times> 'v) list" where
  "assoc_del k kvs = filter (\<lambda>(k', v). k' \<noteq> k) kvs"

lemma map_of_assoc_del: "map_of (assoc_del k kvs) = (map_of kvs)(k := None)"
  by (induction kvs) (auto simp: assoc_del_def fun_eq_iff)

lemma keys_assoc_del: "map fst (assoc_del k kvs) = filter (\<lambda>k'. k' \<noteq> k) (map fst kvs)"
  by (induction kvs) (auto simp: assoc_del_def)

lemma distinct_assoc_del: "distinct (map fst kvs) \<Longrightarrow> distinct (map fst (assoc_del k kvs))"
  by (simp add: keys_assoc_del)

lemma assoc_set_twice: "assoc_set k v (assoc_set k u kvs) = assoc_set k v kvs"
  by (induction kvs) auto

section \<open>The interface of a dict\<close>

locale dict_table =
  fixes empty :: 'd
    and get :: "'d \<Rightarrow> 'k \<Rightarrow> 'v option"
    and put :: "'k \<Rightarrow> 'v \<Rightarrow> 'd \<Rightarrow> 'd"
    and del :: "'k \<Rightarrow> 'd \<Rightarrow> 'd"
  assumes get_empty: "get empty k = None"
    and get_put: "get (put k v d) k' = (if k' = k then Some v else get d k')"
    and get_del: "get (del k d) k' = (if k' = k then None else get d k')"
begin

text \<open>What a sequence of updates leaves: the last one of the key decides.\<close>

fun apply_op :: "'k \<times> 'v option \<Rightarrow> 'd \<Rightarrow> 'd" where
  "apply_op (k, Some v) d = put k v d"
| "apply_op (k, None) d = del k d"

definition apply_ops :: "('k \<times> 'v option) list \<Rightarrow> 'd \<Rightarrow> 'd" where
  "apply_ops ops d = fold apply_op ops d"

lemma get_apply_op: "get (apply_op (k, x) d) k' = (if k' = k then x else get d k')"
  by (cases x) (simp_all add: get_put get_del)

lemma get_apply_ops:
  "get (apply_ops ops d) k =
     (case map_of (rev ops) k of None \<Rightarrow> get d k | Some x \<Rightarrow> x)"
proof (induction ops arbitrary: d)
  case Nil
  then show ?case by (simp add: apply_ops_def)
next
  case (Cons op ops)
  obtain k' x where "op = (k', x)" by (cases op)
  then show ?case
    using Cons [of "apply_op op d"]
    by (simp add: apply_ops_def get_apply_op map_add_def split: option.splits)
qed

lemma get_untouched: "k \<notin> fst ` set ops \<Longrightarrow> get (apply_ops ops d) k = get d k"
  by (simp add: get_apply_ops map_of_eq_None_iff [THEN iffD2] image_iff)

lemma put_again: "get (put k v (put k u d)) = get (put k v d)"
  by (simp add: fun_eq_iff get_put)

lemma del_put: "get (del k (put k v d)) = get (del k d)"
  by (simp add: fun_eq_iff get_put get_del)

lemma put_commute: "k \<noteq> k' \<Longrightarrow> get (put k v (put k' u d)) = get (put k' u (put k v d))"
  by (auto simp: fun_eq_iff get_put)

end

text \<open>A dict that also remembers the order in which its keys came.\<close>

locale ordered_dict = dict_table +
  fixes keys :: "'a \<Rightarrow> 'b list"
  assumes keys_empty: "keys empty = []"
    and keys_put: "keys (put k v d) = (if k \<in> set (keys d) then keys d else keys d @ [k])"
    and keys_del: "keys (del k d) = filter (\<lambda>k'. k' \<noteq> k) (keys d)"
begin

lemma keys_refresh: "keys (put k v (del k d)) = filter (\<lambda>k'. k' \<noteq> k) (keys d) @ [k]"
  by (simp add: keys_put keys_del)

lemma distinct_keys_put: "distinct (keys d) \<Longrightarrow> distinct (keys (put k v d))"
  by (simp add: keys_put)

lemma distinct_keys_del: "distinct (keys d) \<Longrightarrow> distinct (keys (del k d))"
  by (simp add: keys_del)

lemma distinct_keys_apply_ops: "distinct (keys d) \<Longrightarrow> distinct (keys (apply_ops ops d))"
proof (induction ops arbitrary: d)
  case Nil
  then show ?case by (simp add: apply_ops_def)
next
  case (Cons op ops)
  obtain k x where "op = (k, x)" by (cases op)
  then have "distinct (keys (apply_op op d))"
    using Cons.prems by (cases x) (simp_all add: distinct_keys_put distinct_keys_del)
  from Cons.IH [OF this] show ?case by (simp add: apply_ops_def)
qed

end

lemma keys_assoc_set_list:
  "map fst (assoc_set k v kvs) = (if k \<in> set (map fst kvs) then map fst kvs else map fst kvs @ [k])"
  by (induction k v kvs rule: assoc_set.induct) auto

interpretation dict: ordered_dict "[] :: ('k \<times> 'v) list" map_of assoc_set assoc_del "map fst"
  by unfold_locales
    (simp_all add: map_of_assoc_set map_of_assoc_del keys_assoc_set_list keys_assoc_del)

section \<open>Equality of values\<close>

text \<open>
  \<open>a == b\<close>: numbers and booleans by their value, whatever their type; not-a-number differs from
  everything; lists by position, dicts by key.  (CPython takes a list item for equal to itself
  without comparing; the values of the model have no identity, so a list holding not-a-number
  differs from itself here.)
\<close>

lemma size_zip_left [termination_simp]:
  "(x, y) \<in> set (zip xs ys) \<Longrightarrow> size (x :: pyval) < Suc (size_list size xs)"
  by (drule set_zip_leftD) (simp add: size_list_estimation' less_Suc_eq_le)

fun py_eq :: "pyval \<Rightarrow> pyval \<Rightarrow> bool" where
  "py_eq (PList xs) w = (case w of PList ys \<Rightarrow> length xs = length ys \<and> list_all (\<lambda>(x, y). py_eq x y) (zip xs ys) | _ \<Rightarrow> False)"
| "py_eq (PDict kvs) w =
     (case w of
        PDict ws \<Rightarrow> length kvs = length ws
          \<and> list_all (\<lambda>(k, x). case map_of ws k of None \<Rightarrow> False | Some y \<Rightarrow> py_eq x y) kvs
      | _ \<Rightarrow> False)"
| "py_eq v w =
     (case (num_value v, num_value w) of
        (Some x, Some y) \<Rightarrow> feq x y
      | (None, None) \<Rightarrow> v = w
      | _ \<Rightarrow> False)"

lemma py_eq_numbers:
  "py_eq (PBool b) (PInt i) \<longleftrightarrow> i = of_bool b"
  "py_eq (PInt i) (PInt j) \<longleftrightarrow> i = j"
  "py_eq (PBool a) (PBool b) \<longleftrightarrow> a = b"
  by (auto simp: feq_def)

lemma py_eq_str: "py_eq (PStr s) (PStr t) \<longleftrightarrow> s = t"
  by simp

lemma py_eq_none: "py_eq PNone v \<longleftrightarrow> v = PNone"
  by (cases v) auto

end
