(* ===== verification/Event_Bus.thy ===== *)
theory Event_Bus
  imports Py_Dict Json
begin

text \<open>
  The read-only system datapoints (\<open>obs/core/system_datapoints.py\<close>) and the event bus
  (\<open>obs/core/event_bus.py\<close>) that protects them.  A \<open>uuid.UUID\<close> is its canonical text.  The handlers
  of one event are run one after the other, in the order in which \<open>asyncio.gather\<close> starts them;
  their interleaving at a suspension is not modelled.
\<close>

section \<open>System datapoints\<close>

type_synonym uuid = string

definition system_source_adapter :: string where
  "system_source_adapter = ''obs_system''"

definition system_tag :: string where
  "system_tag = ''system''"

record system_dp_def =
  sys_key :: string
  sys_name :: string
  sys_type :: string

text \<open>\<open>uuid5(SYSTEM_DATAPOINT_NAMESPACE, key)\<close> of the five keys.\<close>

definition system_uuid :: "string \<Rightarrow> uuid" where
  "system_uuid k =
     (if k = ''update-channel'' then ''986724a8-f7cc-53d9-980a-027c47ca7e43''
      else if k = ''current-version'' then ''3798f13a-7a2f-5d71-937f-de53c929098a''
      else if k = ''latest-version'' then ''1cd54729-d457-51c7-981a-2b31c9aac15b''
      else if k = ''last-check'' then ''9f70eb45-f1aa-5ae0-86c2-69bab3f817ba''
      else if k = ''update-available'' then ''e9a22ddf-c977-5676-a9b6-e5dc8278f63e''
      else [])"

definition system_datapoints :: "system_dp_def list" where
  "system_datapoints =
    [\<lparr>sys_key = ''update-channel'', sys_name = ''OBS Update Channel'', sys_type = ''STRING''\<rparr>,
     \<lparr>sys_key = ''current-version'', sys_name = ''OBS Current Version'', sys_type = ''STRING''\<rparr>,
     \<lparr>sys_key = ''latest-version'', sys_name = ''OBS Latest Version'', sys_type = ''STRING''\<rparr>,
     \<lparr>sys_key = ''last-check'', sys_name = ''OBS Last Check'', sys_type = ''DATETIME''\<rparr>,
     \<lparr>sys_key = ''update-available'', sys_name = ''OBS Update Available'', sys_type = ''BOOLEAN''\<rparr>]"

definition system_ids :: "uuid list" where
  "system_ids = map (\<lambda>d. system_uuid (sys_key d)) system_datapoints"

text \<open>
  \<open>uuid.UUID(text)\<close>: the text without \<open>urn:\<close>, \<open>uuid:\<close>, braces and hyphens, of 32 characters, read
  by \<open>int(_, 16)\<close>; the canonical text of the number.
\<close>

fun remove_all :: "string \<Rightarrow> string \<Rightarrow> string" where
  "remove_all p [] = []"
| "remove_all p (c # cs) =
     (if p \<noteq> [] \<and> take (length p) (c # cs) = p
      then remove_all p (drop (length p - 1) cs) else c # remove_all p cs)"

definition is_hex_digit :: "char \<Rightarrow> bool" where
  "is_hex_digit c \<longleftrightarrow> hex_val c \<noteq> None"

fun hex_underscores_ok :: "bool \<Rightarrow> string \<Rightarrow> bool" where
  "hex_underscores_ok digit_before [] = digit_before"
| "hex_underscores_ok digit_before (c # cs) =
     (if c = CHR ''_'' then digit_before \<and> cs \<noteq> [] \<and> hex_underscores_ok False cs
      else is_hex_digit c \<and> hex_underscores_ok True cs)"

definition hex_digits :: "string \<Rightarrow> string option" where
  "hex_digits s =
     (let (neg, r) = split_sign (py_strip s);
          prefixed = (take 2 r = ''0x'' \<or> take 2 r = ''0X'');
          ds = (if prefixed then drop 2 r else r);
          digits = filter (\<lambda>c. c \<noteq> CHR ''_'') ds
      in if digits \<noteq> [] \<and> hex_underscores_ok (prefixed \<and> take 1 ds = ''_'') ds
            \<and> (neg \<longrightarrow> list_all (\<lambda>c. c = CHR ''0'') digits)
         then Some digits else None)"

definition strip_chars :: "char set \<Rightarrow> string \<Rightarrow> string" where
  "strip_chars cs s = rev (dropWhile (\<lambda>c. c \<in> cs) (rev (dropWhile (\<lambda>c. c \<in> cs) s)))"

definition group_uuid :: "string \<Rightarrow> uuid" where
  "group_uuid h =
     take 8 h @ ''-'' @ take 4 (drop 8 h) @ ''-'' @ take 4 (drop 12 h) @ ''-''
       @ take 4 (drop 16 h) @ ''-'' @ drop 20 h"

definition parse_uuid :: "string \<Rightarrow> uuid option" where
  "parse_uuid s =
     (let hex = remove_all ''-'' (strip_chars {CHR ''{'', CHR ''}''}
                  (remove_all ''uuid:'' (remove_all ''urn:'' s)))
      in if length hex \<noteq> 32 then None
         else map_option (\<lambda>ds. group_uuid (pad_left 32 (py_lower ds))) (hex_digits hex))"

text \<open>The argument of \<open>is_system_datapoint\<close>: absent, a UUID, or a text to be read as one.\<close>

datatype dp_ref = NoRef | Uuid uuid | RefText string

fun is_system_ref :: "dp_ref \<Rightarrow> bool" where
  "is_system_ref NoRef = False"
| "is_system_ref (Uuid u) = (u \<in> set system_ids)"
| "is_system_ref (RefText s) = (case parse_uuid s of None \<Rightarrow> False | Some u \<Rightarrow> u \<in> set system_ids)"

definition is_system_datapoint :: "uuid \<Rightarrow> bool" where
  "is_system_datapoint u = is_system_ref (Uuid u)"

section \<open>Events\<close>

text \<open>A time stamp in UTC, and its \<open>isoformat()\<close>.\<close>

record timestamp =
  ts_year :: nat
  ts_month :: nat
  ts_day :: nat
  ts_hour :: nat
  ts_minute :: nat
  ts_second :: nat
  ts_micro :: nat

definition ts_iso :: "timestamp \<Rightarrow> string" where
  "ts_iso t =
     iso_date (ts_year t) (ts_month t) (ts_day t) @ ''T''
       @ iso_time (ts_hour t) (ts_minute t) (ts_second t)
       @ (if ts_micro t = 0 then [] else ''.'' @ pad_left 6 (show_nat (ts_micro t))) @ ''+00:00''"

record value_event =
  ev_datapoint :: uuid
  ev_value :: pyval
  ev_quality :: string
  ev_source :: string
  ev_ts :: timestamp
  ev_binding :: "uuid option"
  ev_logic_depth :: int
  ev_suppress_write :: bool
  ev_suppress_actions :: bool
  ev_initialization :: bool

record status_event =
  st_adapter_type :: string
  st_connected :: bool
  st_detail :: string
  st_instance :: "uuid option"
  st_instance_name :: string
  st_severity :: string
  st_code :: "string option"
  st_params :: "(string \<times> pyval) list"

record started_event =
  sta_instance :: uuid
  sta_adapter_type :: string
  sta_connected :: bool

record renamed_event =
  ren_dp :: uuid
  ren_old :: string
  ren_new :: string

datatype event =
    ValueEvent value_event
  | StatusEvent status_event
  | StartedEvent started_event
  | RenamedEvent renamed_event

datatype event_type = TValueEvent | TStatusEvent | TStartedEvent | TRenamedEvent

fun type_of :: "event \<Rightarrow> event_type" where
  "type_of (ValueEvent _) = TValueEvent"
| "type_of (StatusEvent _) = TStatusEvent"
| "type_of (StartedEvent _) = TStartedEvent"
| "type_of (RenamedEvent _) = TRenamedEvent"

section \<open>The bus\<close>

type_synonym 'h bus = "(event_type \<times> 'h list) list"

definition handlers :: "'h bus \<Rightarrow> event_type \<Rightarrow> 'h list" where
  "handlers b t = (case map_of b t of None \<Rightarrow> [] | Some hs \<Rightarrow> hs)"

definition subscribe :: "event_type \<Rightarrow> 'h \<Rightarrow> 'h bus \<Rightarrow> 'h bus" where
  "subscribe t h b = assoc_set t (handlers b t @ [h]) b"

definition unsubscribe :: "event_type \<Rightarrow> 'h \<Rightarrow> 'h bus \<Rightarrow> 'h bus" where
  "unsubscribe t h b =
     (case map_of b t of None \<Rightarrow> b | Some hs \<Rightarrow> assoc_set t (remove1 h hs) b)"

text \<open>The guard of the bus: a value of a system datapoint from anyone but the backend.\<close>

definition rejected :: "event \<Rightarrow> bool" where
  "rejected e =
     (case e of
        ValueEvent v \<Rightarrow> ev_datapoint v \<in> set system_ids \<and> ev_source v \<noteq> system_source_adapter
      | _ \<Rightarrow> False)"

text \<open>What is logged of a rejected write: a warning once for each datapoint and source.\<close>

datatype log_level = Debug | Warning

type_synonym warned = "(uuid \<times> string) list"

definition log_rejected_system_write :: "value_event \<Rightarrow> warned \<Rightarrow> log_level \<times> warned" where
  "log_rejected_system_write v w =
     (let key = (ev_datapoint v, ev_source v)
      in if ev_suppress_write v \<or> key \<in> set w then (Debug, w) else (Warning, key # w))"

text \<open>
  A handler changes the state of the program and may raise; \<open>run\<close> gives both.  An exception is
  logged and does not keep the other handlers from running.
\<close>

definition run_handlers :: "('h \<Rightarrow> event \<Rightarrow> 's \<Rightarrow> 's \<times> bool) \<Rightarrow> 'h list \<Rightarrow> event \<Rightarrow> 's \<Rightarrow> 's \<times> bool list" where
  "run_handlers run hs e s =
     foldl (\<lambda>(s, raised) h. let (s', r) = run h e s in (s', raised @ [r])) (s, []) hs"

record 's bus_result =
  pub_state :: 's
  pub_raised :: "bool list"            \<comment> \<open>one entry for each handler run\<close>
  pub_log :: "log_level list"
  pub_warned :: warned

definition publish_event ::
  "('h \<Rightarrow> event \<Rightarrow> 's \<Rightarrow> 's \<times> bool) \<Rightarrow> 'h bus \<Rightarrow> warned \<Rightarrow> event \<Rightarrow> 's \<Rightarrow> 's bus_result" where
  "publish_event run b w e s =
     (case (rejected e, e) of
        (True, ValueEvent v) \<Rightarrow>
          (let (level, w') = log_rejected_system_write v w
           in \<lparr>pub_state = s, pub_raised = [], pub_log = [level], pub_warned = w'\<rparr>)
      | _ \<Rightarrow>
          (let (s', raised) = run_handlers run (handlers b (type_of e)) e s
           in \<lparr>pub_state = s', pub_raised = raised, pub_log = [], pub_warned = w\<rparr>))"

section \<open>Subscriptions\<close>

lemma handlers_subscribe:
  "handlers (subscribe t h b) t' = (if t' = t then handlers b t @ [h] else handlers b t')"
  by (simp add: handlers_def subscribe_def map_of_assoc_set)

lemma handlers_unsubscribe:
  "handlers (unsubscribe t h b) t' = (if t' = t then remove1 h (handlers b t) else handlers b t')"
  by (auto simp: handlers_def unsubscribe_def map_of_assoc_set split: option.splits)

text \<open>What the components that subscribe rely on.\<close>

locale subscriptions =
  fixes hs :: "'b \<Rightarrow> 't \<Rightarrow> 'h list"
    and sub :: "'t \<Rightarrow> 'h \<Rightarrow> 'b \<Rightarrow> 'b"
    and unsub :: "'t \<Rightarrow> 'h \<Rightarrow> 'b \<Rightarrow> 'b"
  assumes hs_sub: "hs (sub t h b) t' = (if t' = t then hs b t @ [h] else hs b t')"
    and hs_unsub: "hs (unsub t h b) t' = (if t' = t then remove1 h (hs b t) else hs b t')"
begin

lemma unsub_sub: "h \<notin> set (hs b t) \<Longrightarrow> hs (unsub t h (sub t h b)) = hs b"
  by (auto simp: fun_eq_iff hs_sub hs_unsub remove1_append)

lemma unsub_unknown: "h \<notin> set (hs b t) \<Longrightarrow> hs (unsub t h b) = hs b"
  by (auto simp: fun_eq_iff hs_unsub remove1_idem)

lemma sub_order:
  "h \<in> set (hs b t) \<Longrightarrow> \<exists>before. hs (sub t h' b) t = before @ [h'] \<and> h \<in> set before"
  by (auto simp: hs_sub)

lemma count_sub: "count_list (hs (sub t h b) t) h = Suc (count_list (hs b t) h)"
  by (simp add: hs_sub count_list_append)

end

interpretation bus: subscriptions handlers subscribe unsubscribe
  by unfold_locales (simp_all add: handlers_subscribe handlers_unsubscribe)

section \<open>Delivery\<close>

definition handler_state :: "('h \<Rightarrow> event \<Rightarrow> 's \<Rightarrow> 's \<times> bool) \<Rightarrow> event \<Rightarrow> 'h \<Rightarrow> 's \<Rightarrow> 's" where
  "handler_state run e h s = fst (run h e s)"

lemma run_handlers_state: "fst (run_handlers run hs e s) = fold (handler_state run e) hs s"
proof -
  have "fst (foldl (\<lambda>(s, raised) h. let (s', r) = run h e s in (s', raised @ [r])) (s, rs) hs)
      = fold (handler_state run e) hs s" for rs
    by (induction hs arbitrary: s rs) (simp_all add: handler_state_def Let_def split_beta)
  then show ?thesis by (simp add: run_handlers_def)
qed

lemma run_handlers_raised: "length (snd (run_handlers run hs e s)) = length hs"
proof -
  have "length (snd (foldl (\<lambda>(s, raised) h. let (s', r) = run h e s in (s', raised @ [r])) (s, rs) hs))
      = length rs + length hs" for rs
    by (induction hs arbitrary: s rs) (simp_all add: Let_def split_beta)
  then show ?thesis by (simp add: run_handlers_def)
qed



lemma system_ids_eq:
  "system_ids =
    [''986724a8-f7cc-53d9-980a-027c47ca7e43'', ''3798f13a-7a2f-5d71-937f-de53c929098a'',
     ''1cd54729-d457-51c7-981a-2b31c9aac15b'', ''9f70eb45-f1aa-5ae0-86c2-69bab3f817ba'',
     ''e9a22ddf-c977-5676-a9b6-e5dc8278f63e'']"
  by (simp add: system_ids_def system_datapoints_def system_uuid_def)

section \<open>Canonical texts of UUIDs\<close>

definition is_low_hex :: "char \<Rightarrow> bool" where
  "is_low_hex c \<longleftrightarrow> (48 \<le> code c \<and> code c \<le> 57) \<or> (97 \<le> code c \<and> code c \<le> 102)"

lemma remove_all_absent: "p \<noteq> [] \<Longrightarrow> c \<in> set p \<Longrightarrow> c \<notin> set s \<Longrightarrow> remove_all p s = s"
proof (induction s)
  case (Cons d s)
  have "take (length p) (d # s) \<noteq> p"
  proof
    assume "take (length p) (d # s) = p"
    then have "set p \<subseteq> set (d # s)" by (metis set_take_subset)
    with Cons.prems show False by auto
  qed
  with Cons show ?case by simp
qed simp

lemma remove_all_char: "remove_all [c] s = filter (\<lambda>d. d \<noteq> c) s"
  by (induction s) auto

lemma low_hex_facts:
  assumes "is_low_hex c"
  shows "is_hex_digit c" "c \<noteq> CHR ''-''" "c \<noteq> CHR '':''" "c \<noteq> CHR ''{''" "c \<noteq> CHR ''}''"
    "c \<noteq> CHR ''_''" "c \<noteq> CHR ''x''" "c \<noteq> CHR ''X''" "c \<noteq> CHR ''+''" "\<not> is_space c" "lower_char c = c"
  using assms
  by (auto simp: is_low_hex_def is_hex_digit_def hex_val_def Let_def is_space_def lower_char_def code_def)

lemma hex_underscores_low: "list_all is_low_hex h \<Longrightarrow> h \<noteq> [] \<Longrightarrow> hex_underscores_ok b h"
proof (induction h arbitrary: b)
  case (Cons c h)
  then show ?case using low_hex_facts [of c] by (cases h) auto
qed simp

lemma hex_digits_low:
  assumes "list_all is_low_hex h" and "h \<noteq> []"
  shows "hex_digits h = Some h"
proof -
  have low: "\<forall>c \<in> set h. is_low_hex c" using assms(1) by (simp add: list_all_iff)
  have strip: "py_strip h = h"
    by (rule py_strip_no_space) (use low low_hex_facts(10) in blast)
  obtain c t where c: "h = c # t" using assms(2) by (cases h) auto
  have sign: "split_sign h = (False, h)"
    using low c low_hex_facts [of c] by auto
  have pre: "take 2 h \<noteq> ''0x'' \<and> take 2 h \<noteq> ''0X''"
    using low low_hex_facts(7,8) c by (cases t) auto
  have flt: "filter (\<lambda>c. c \<noteq> CHR ''_'') h = h"
    using low low_hex_facts(6) by (intro filter_True) blast
  show ?thesis
    using assms(2) hex_underscores_low [OF assms] pre
    by (simp add: hex_digits_def strip sign flt Let_def)
qed

lemma parse_uuid_canonical:
  assumes "list_all is_low_hex h" and "length h = 32"
  shows "parse_uuid (group_uuid h) = Some (group_uuid h)"
proof -
  have low: "\<forall>c \<in> set h. is_low_hex c" using assms(1) by (simp add: list_all_iff)
  have sub: "set (take n (drop m h)) \<subseteq> set h" "set (drop m h) \<subseteq> set h" "set (take n h) \<subseteq> set h" for n m
    by (auto dest: in_set_takeD in_set_dropD)
  have ss: "set (group_uuid h) \<subseteq> insert (CHR ''-'') (set h)"
    using sub by (simp add: group_uuid_def) blast
  have no: "CHR '':'' \<notin> set (group_uuid h)" "CHR ''{'' \<notin> set (group_uuid h)" "CHR ''}'' \<notin> set (group_uuid h)"
  proof -
    have "c \<notin> set (group_uuid h)" if "\<not> is_low_hex c" "c \<noteq> CHR ''-''" for c
      using ss low that by blast
    then show "CHR '':'' \<notin> set (group_uuid h)" "CHR ''{'' \<notin> set (group_uuid h)"
      "CHR ''}'' \<notin> set (group_uuid h)"
      by (simp_all add: is_low_hex_def code_def)
  qed
  have 1: "remove_all ''uuid:'' (remove_all ''urn:'' (group_uuid h)) = group_uuid h"
    using no by (simp add: remove_all_absent [of _ "CHR '':''"])
  have keep: "dropWhile (\<lambda>c. c \<in> {CHR ''{'', CHR ''}''}) t = t" if "set t \<subseteq> set (group_uuid h)" for t
    using that no by (cases t) auto
  have 2: "strip_chars {CHR ''{'', CHR ''}''} (group_uuid h) = group_uuid h"
  proof -
    have "dropWhile (\<lambda>c. c \<in> {CHR ''{'', CHR ''}''}) (group_uuid h) = group_uuid h"
      "dropWhile (\<lambda>c. c \<in> {CHR ''{'', CHR ''}''}) (rev (group_uuid h)) = rev (group_uuid h)"
      by (rule keep, simp)+
    then show ?thesis by (simp only: strip_chars_def rev_rev_ident)
  qed
  have nodash: "filter (\<lambda>d. d \<noteq> CHR ''-'') t = t" if "set t \<subseteq> set h" for t
    using that low low_hex_facts(2) by (intro filter_True) blast
  have "take 8 h @ take 4 (drop 8 h) @ take 4 (drop 12 h) @ take 4 (drop 16 h) @ drop 20 h = h"
  proof -
    have "take 4 (drop 16 h) @ drop 20 h = drop 16 h"
      using append_take_drop_id [of 4 "drop 16 h"] by simp
    moreover have "take 4 (drop 12 h) @ drop 16 h = drop 12 h"
      using append_take_drop_id [of 4 "drop 12 h"] by simp
    moreover have "take 4 (drop 8 h) @ drop 12 h = drop 8 h"
      using append_take_drop_id [of 4 "drop 8 h"] by simp
    ultimately show ?thesis by simp
  qed
  then have 3: "remove_all ''-'' (group_uuid h) = h"
    by (simp add: remove_all_char group_uuid_def nodash sub)
  have "py_lower h = h"
    unfolding py_lower_def using low low_hex_facts(11) by (intro map_idI) blast
  moreover have "h \<noteq> []" using assms(2) by auto
  ultimately show ?thesis
    using assms by (simp add: parse_uuid_def Let_def 1 2 3 hex_digits_low)
qed

text \<open>A canonical text is read as itself.\<close>

lemma parse_uuid_text:
  assumes "u = group_uuid h" "length h = 32" "list_all is_low_hex h"
  shows "parse_uuid u = Some u"
  using parse_uuid_canonical assms by simp

end
