(* ===== verification/Confirmation.thy ===== *)
theory Confirmation
  imports Event_Bus
begin

text \<open>
  The part of an adapter every protocol shares (\<open>obs/adapters/base.py\<close>): the token that lets one
  confirmation of a command trigger actions, the order of the confirmations, the status an adapter
  reports and its list of bindings.  The objects shared by reference (a token, the tracker of the
  router) are entries of a state that the operations return updated.
\<close>

section \<open>Delegation\<close>

datatype delegation_capability = CreateDevice | CreateDatapoint | LinkBinding | ConfigureInstance

section \<open>The action token\<close>

record action_token =
  claimed :: bool

definition new_token :: action_token where
  "new_token = \<lparr>claimed = False\<rparr>"

definition claim :: "action_token \<Rightarrow> bool \<times> action_token" where
  "claim t = (if claimed t then (False, t) else (True, t\<lparr>claimed := True\<rparr>))"

section \<open>The order of writes\<close>

record order_tracker =
  next_sequence :: nat
  latest_activated :: "(string \<times> nat) list"

definition new_tracker :: order_tracker where
  "new_tracker = \<lparr>next_sequence = 0, latest_activated = []\<rparr>"

record write_order =
  wo_tracker :: nat                   \<comment> \<open>which tracker issued it\<close>
  wo_datapoint :: string
  wo_sequence :: nat

definition issue :: "nat \<Rightarrow> string \<Rightarrow> order_tracker \<Rightarrow> write_order \<times> order_tracker" where
  "issue tid dp tr =
     (let n = next_sequence tr + 1
      in (\<lparr>wo_tracker = tid, wo_datapoint = dp, wo_sequence = n\<rparr>, tr\<lparr>next_sequence := n\<rparr>))"

definition activate_seq :: "string \<Rightarrow> nat \<Rightarrow> order_tracker \<Rightarrow> order_tracker" where
  "activate_seq dp n tr =
     (case map_of (latest_activated tr) dp of
        None \<Rightarrow> tr\<lparr>latest_activated := assoc_set dp n (latest_activated tr)\<rparr>
      | Some latest \<Rightarrow>
          if latest < n then tr\<lparr>latest_activated := assoc_set dp n (latest_activated tr)\<rparr> else tr)"

definition accept_seq :: "string \<Rightarrow> nat \<Rightarrow> order_tracker \<Rightarrow> bool" where
  "accept_seq dp n tr \<longleftrightarrow>
     (case map_of (latest_activated tr) dp of None \<Rightarrow> True | Some latest \<Rightarrow> latest \<le> n)"

definition activate_order :: "write_order \<Rightarrow> order_tracker \<Rightarrow> order_tracker" where
  "activate_order o' tr = activate_seq (wo_datapoint o') (wo_sequence o') tr"

definition accept_confirmation :: "write_order \<Rightarrow> order_tracker \<Rightarrow> bool" where
  "accept_confirmation o' tr \<longleftrightarrow> accept_seq (wo_datapoint o') (wo_sequence o') tr"

definition is_newer_than :: "write_order \<Rightarrow> write_order \<Rightarrow> bool" where
  "is_newer_than o1 o2 \<longleftrightarrow> wo_tracker o1 = wo_tracker o2 \<and> wo_sequence o2 < wo_sequence o1"

section \<open>The context of a confirmation\<close>

text \<open>The token is shared: the context names it, the state holds it.\<close>

record action_context =
  ctx_suppress :: bool
  ctx_token :: "nat option"
  ctx_order :: "write_order option"

type_synonym tokens = "(nat \<times> action_token) list"

definition shares_action_token :: "action_context \<Rightarrow> bool" where
  "shares_action_token c \<longleftrightarrow> ctx_token c \<noteq> None"

definition token_at :: "tokens \<Rightarrow> nat \<Rightarrow> action_token" where
  "token_at ts i = (case map_of ts i of None \<Rightarrow> new_token | Some t \<Rightarrow> t)"

definition suppress_actions_at_confirmation :: "action_context \<Rightarrow> tokens \<Rightarrow> bool \<times> tokens" where
  "suppress_actions_at_confirmation c ts =
     (if ctx_suppress c then (True, ts)
      else case ctx_token c of
        None \<Rightarrow> (False, ts)
      | Some i \<Rightarrow> (let (ok, t) = claim (token_at ts i) in (\<not> ok, assoc_set i t ts)))"

section \<open>Status and bindings of an adapter\<close>

record 'b adapter =
  adapter_type :: string
  instance_id :: uuid
  instance_name :: string
  connected :: bool
  adapter_bindings :: "'b list"
  last_severity :: string
  last_detail :: string
  last_detail_code :: "string option"
  last_detail_params :: "(string \<times> pyval) list"

definition new_adapter :: "string \<Rightarrow> uuid \<Rightarrow> string option \<Rightarrow> 'b adapter" where
  "new_adapter ty iid name =
     \<lparr>adapter_type = ty, instance_id = iid,
      instance_name = (if name = None \<or> name = Some [] then ty else the name), connected = False,
      adapter_bindings = [], last_severity = ''ok'', last_detail = [], last_detail_code = None,
      last_detail_params = []\<rparr>"

definition reload_bindings :: "'b list \<Rightarrow> 'b adapter \<Rightarrow> 'b adapter" where
  "reload_bindings bs a = a\<lparr>adapter_bindings := bs\<rparr>"

definition get_bindings :: "'b adapter \<Rightarrow> 'b list" where
  "get_bindings a = adapter_bindings a"

text \<open>A warning leaves the connection flag as it was.\<close>

definition publish_status ::
  "bool \<Rightarrow> string \<Rightarrow> string \<Rightarrow> string option \<Rightarrow> (string \<times> pyval) list option \<Rightarrow> 'b adapter
     \<Rightarrow> 'b adapter \<times> event" where
  "publish_status conn detail severity c params a =
     (let a' = (if severity \<noteq> ''warning'' then a\<lparr>connected := conn\<rparr> else a);
          ps = (case params of None \<Rightarrow> [] | Some p \<Rightarrow> p);
          a'' = a'\<lparr>last_severity := severity, last_detail := detail, last_detail_code := c,
                   last_detail_params := ps\<rparr>
      in (a'', StatusEvent
            \<lparr>st_adapter_type = adapter_type a'', st_connected = connected a'', st_detail = detail,
             st_instance = Some (instance_id a''), st_instance_name = instance_name a'',
             st_severity = severity, st_code = c, st_params = ps\<rparr>))"

section \<open>One action for each command\<close>

text \<open>The confirmations of the contexts, one after the other: which of them suppress actions.\<close>

fun confirmations :: "action_context list \<Rightarrow> tokens \<Rightarrow> bool list" where
  "confirmations [] ts = []"
| "confirmations (c # cs) ts =
     (let (r, ts') = suppress_actions_at_confirmation c ts in r # confirmations cs ts')"

lemma token_at_assoc_set: "token_at (assoc_set i t ts) j = (if j = i then t else token_at ts j)"
  by (simp add: token_at_def map_of_assoc_set)

lemma claimed_suppresses:
  "claimed (token_at ts i) \<Longrightarrow> ctx_token c = Some i \<Longrightarrow>
   suppress_actions_at_confirmation c ts = (True, if ctx_suppress c then ts else assoc_set i (token_at ts i) ts)"
  by (simp add: suppress_actions_at_confirmation_def claim_def)

lemma confirmations_claimed:
  assumes "claimed (token_at ts i)" and "\<forall>c \<in> set cs. ctx_token c = Some i"
  shows "confirmations cs ts = replicate (length cs) True"
  using assms
proof (induction cs arbitrary: ts)
  case (Cons c cs)
  have "claimed (token_at (if ctx_suppress c then ts else assoc_set i (token_at ts i) ts) i)"
    using Cons.prems by (simp add: token_at_assoc_set)
  with Cons show ?case by (simp add: claimed_suppresses)
qed simp

text \<open>
  C19. However many destinations confirm one command, exactly one of the confirmations that share its
  token triggers actions, namely the first that is not suppressed by itself; with none of that
  kind, none does.
\<close>

theorem confirmations_single_action:
  assumes "\<not> claimed (token_at ts i)" and "\<forall>c \<in> set cs. ctx_token c = Some i"
  shows "confirmations cs ts =
    map (\<lambda>k. k \<noteq> length (takeWhile ctx_suppress cs)) [0..<length cs]"
  using assms
proof (induction cs arbitrary: ts)
  case (Cons c cs)
  have shift: "map f [0..<Suc n] = f 0 # map (\<lambda>k. f (Suc k)) [0..<n]" for f :: "nat \<Rightarrow> bool" and n
    by (simp add: upt_conv_Cons map_Suc_upt [symmetric] o_def del: upt_Suc)
  show ?case
  proof (cases "ctx_suppress c")
    case True
    then have "suppress_actions_at_confirmation c ts = (True, ts)"
      by (simp add: suppress_actions_at_confirmation_def)
    with Cons True show ?thesis by (simp add: shift del: upt_Suc)
  next
    case False
    let ?ts = "assoc_set i (token_at ts i\<lparr>claimed := True\<rparr>) ts"
    have "suppress_actions_at_confirmation c ts = (False, ?ts)"
      using Cons.prems False by (simp add: suppress_actions_at_confirmation_def claim_def)
    moreover have "confirmations cs ?ts = replicate (length cs) True"
      by (rule confirmations_claimed [where i = i]) (use Cons.prems in \<open>auto simp: token_at_assoc_set\<close>)
    ultimately show ?thesis
      using False by (simp add: shift map_replicate_const del: upt_Suc)
  qed
qed simp

theorem confirmations_single_action_witness:
  "confirmations
     [\<lparr>ctx_suppress = False, ctx_token = Some 7, ctx_order = None\<rparr>,
      \<lparr>ctx_suppress = False, ctx_token = Some 7, ctx_order = None\<rparr>] [] = [False, True]"
  by (subst confirmations_single_action [where i = 7]) (simp_all add: token_at_def new_token_def)

section \<open>The order tracker as a state machine\<close>

text \<open>
  The steps of the router and of the adapters that hold its orders: a new order, an order issued
  before becoming active.  A state keeps the orders issued so far.
\<close>

record order_state =
  os_tracker :: order_tracker
  os_issued :: "write_order list"
  os_active :: "write_order list"

inductive order_step :: "nat \<Rightarrow> order_state \<Rightarrow> order_state \<Rightarrow> bool" for tid where
  step_issue:
    "issue tid dp (os_tracker s) = (w, tr) \<Longrightarrow>
     order_step tid s (s\<lparr>os_tracker := tr, os_issued := w # os_issued s\<rparr>)"
| step_activate:
    "w \<in> set (os_issued s) \<Longrightarrow>
     order_step tid s
       (s\<lparr>os_tracker := activate_order w (os_tracker s), os_active := w # os_active s\<rparr>)"

inductive order_reach :: "nat \<Rightarrow> order_state \<Rightarrow> bool" for tid where
  reach_init: "order_reach tid \<lparr>os_tracker = new_tracker, os_issued = [], os_active = []\<rparr>"
| reach_step: "order_reach tid s \<Longrightarrow> order_step tid s s' \<Longrightarrow> order_reach tid s'"

inductive_cases order_stepE: "order_step tid s s'"

lemma order_step_split [consumes 1]:
  assumes "order_step tid s s'"
  obtains (issued) dp w tr where
      "s' = s\<lparr>os_tracker := tr, os_issued := w # os_issued s\<rparr>" "issue tid dp (os_tracker s) = (w, tr)"
    | (activated) w where
      "s' = s\<lparr>os_tracker := activate_order w (os_tracker s), os_active := w # os_active s\<rparr>"
      "w \<in> set (os_issued s)"
  using assms by (rule order_stepE) (rule that, assumption+)+

text \<open>What the tracker knows of a datapoint: the greatest sequence among the active orders.\<close>

definition latest_of :: "write_order list \<Rightarrow> string \<Rightarrow> nat option \<Rightarrow> bool" where
  "latest_of ws dp x \<longleftrightarrow>
     (case x of
        None \<Rightarrow> \<forall>w \<in> set ws. wo_datapoint w \<noteq> dp
      | Some n \<Rightarrow> (\<exists>w \<in> set ws. wo_datapoint w = dp \<and> wo_sequence w = n)
          \<and> (\<forall>w \<in> set ws. wo_datapoint w = dp \<longrightarrow> wo_sequence w \<le> n))"

text \<open>
  The invariant: sequences are issued once and in order, and the tracker holds the greatest
  sequence activated for each datapoint.
\<close>

definition order_inv :: "nat \<Rightarrow> order_state \<Rightarrow> bool" where
  "order_inv tid s \<longleftrightarrow>
     distinct (map wo_sequence (os_issued s))
     \<and> (\<forall>w \<in> set (os_issued s). wo_tracker w = tid \<and> wo_sequence w \<le> next_sequence (os_tracker s))
     \<and> set (os_active s) \<subseteq> set (os_issued s)
     \<and> (\<forall>dp. latest_of (os_active s) dp (map_of (latest_activated (os_tracker s)) dp))"

lemma issue_sequence:
  "issue tid dp tr = (w, tr') \<Longrightarrow>
   wo_sequence w = Suc (next_sequence tr) \<and> wo_tracker w = tid \<and> wo_datapoint w = dp
   \<and> next_sequence tr' = Suc (next_sequence tr) \<and> latest_activated tr' = latest_activated tr"
  by (auto simp: issue_def Let_def)

lemma activate_latest:
  "map_of (latest_activated (activate_order w tr)) dp =
     (if dp = wo_datapoint w
      then Some (case map_of (latest_activated tr) dp of
                   None \<Rightarrow> wo_sequence w | Some n \<Rightarrow> max n (wo_sequence w))
      else map_of (latest_activated tr) dp)"
  by (auto simp: activate_order_def activate_seq_def map_of_assoc_set max_def split: option.splits)

lemma activate_next: "next_sequence (activate_order w tr) = next_sequence tr"
  by (auto simp: activate_order_def activate_seq_def split: option.splits)

lemma latest_of_activate:
  assumes "latest_of ws dp (map_of (latest_activated tr) dp)"
  shows "latest_of (w # ws) dp (map_of (latest_activated (activate_order w tr)) dp)"
proof (cases "map_of (latest_activated tr) dp")
  case None
  with assms show ?thesis by (auto simp: latest_of_def activate_latest)
next
  case (Some n)
  with assms obtain v where v: "v \<in> set ws" "wo_datapoint v = dp" "wo_sequence v = n"
    and le: "\<forall>w \<in> set ws. wo_datapoint w = dp \<longrightarrow> wo_sequence w \<le> n"
    by (auto simp: latest_of_def)
  show ?thesis
  proof (cases "dp = wo_datapoint w")
    case True
    have "map_of (latest_activated (activate_order w tr)) dp = Some (max n (wo_sequence w))"
      using Some True by (simp add: activate_latest)
    moreover have "\<exists>u \<in> set (w # ws). wo_datapoint u = dp \<and> wo_sequence u = max n (wo_sequence w)"
      using v True by (cases "n \<le> wo_sequence w") (auto simp: max_def)
    ultimately show ?thesis using le by (auto simp: latest_of_def)
  next
    case False
    with Some assms show ?thesis by (simp add: latest_of_def activate_latest)
  qed
qed

lemma order_inv_step:
  assumes "order_inv tid s" and "order_step tid s s'"
  shows "order_inv tid s'"
  using assms(2)
proof (cases rule: order_step_split)
  case (issued dp w tr)
  note i = issue_sequence [OF issued(2)]
  have "wo_sequence w \<notin> set (map wo_sequence (os_issued s))"
    using assms(1) i by (auto simp: order_inv_def)
  with assms(1) i issued(1) show ?thesis
    by (auto simp: order_inv_def)
next
  case (activated w)
  with assms(1) show ?thesis
    by (auto simp: order_inv_def activate_next latest_of_activate)
qed

lemma order_inv_reach: "order_reach tid s \<Longrightarrow> order_inv tid s"
proof (induction rule: order_reach.induct)
  case reach_init
  then show ?case by (simp add: order_inv_def new_tracker_def latest_of_def)
next
  case (reach_step s s')
  then show ?case by (blast intro: order_inv_step)
qed

text \<open>
  C18. In every state the router and its adapters can reach, a confirmation is accepted exactly when
  no newer order for the same datapoint has become active, and a refused order stays refused.
\<close>

theorem confirmations_accepted_iff:
  assumes "order_reach tid s" and "w \<in> set (os_issued s)"
  shows "(accept_confirmation w (os_tracker s) \<longleftrightarrow>
      (\<forall>a \<in> set (os_active s). wo_datapoint a = wo_datapoint w \<longrightarrow> \<not> is_newer_than a w))
    \<and> (order_step tid s s' \<longrightarrow> \<not> accept_confirmation w (os_tracker s)
        \<longrightarrow> \<not> accept_confirmation w (os_tracker s'))"
proof -
  note inv = order_inv_reach [OF assms(1)]
  have tr: "\<forall>a \<in> set (os_active s). wo_tracker a = wo_tracker w"
    using inv assms(2) by (auto simp: order_inv_def)
  have l: "latest_of (os_active s) (wo_datapoint w)
      (map_of (latest_activated (os_tracker s)) (wo_datapoint w))"
    using inv by (simp add: order_inv_def)
  have "accept_confirmation w (os_tracker s) \<longleftrightarrow>
      (\<forall>a \<in> set (os_active s). wo_datapoint a = wo_datapoint w \<longrightarrow> wo_sequence a \<le> wo_sequence w)"
    using l by (auto simp: accept_confirmation_def accept_seq_def latest_of_def split: option.splits)
  moreover have "\<not> accept_confirmation w (os_tracker s')"
    if st: "order_step tid s s'" and no: "\<not> accept_confirmation w (os_tracker s)"
    using st
  proof (cases rule: order_step_split)
    case (issued dp v tr)
    with no issue_sequence [OF issued(2)] show ?thesis
      by (simp add: accept_confirmation_def accept_seq_def)
  next
    case (activated v)
    with no show ?thesis
      by (auto simp: accept_confirmation_def accept_seq_def activate_latest split: option.splits)
  qed
  ultimately show ?thesis using tr by (auto simp: is_newer_than_def not_less)
qed

theorem confirmations_accepted_iff_witness:
  "\<not> accept_confirmation \<lparr>wo_tracker = 0, wo_datapoint = ''d'', wo_sequence = 1\<rparr>
      (activate_seq ''d'' 2 new_tracker)"
proof -
  let ?w1 = "\<lparr>wo_tracker = 0, wo_datapoint = ''d'', wo_sequence = 1\<rparr>"
  let ?w2 = "\<lparr>wo_tracker = 0, wo_datapoint = ''d'', wo_sequence = 2\<rparr>"
  let ?s = "\<lambda>n la iss act. \<lparr>os_tracker = \<lparr>next_sequence = n, latest_activated = la\<rparr>,
      os_issued = iss, os_active = act\<rparr>"
  have "order_reach 0 (?s 0 [] [] [])" using reach_init [of 0] by (simp add: new_tracker_def)
  then have "order_reach 0 (?s 1 [] [?w1] [])"
    by (rule reach_step) (use step_issue [of 0 "''d''" "?s 0 [] [] []"] in \<open>simp add: issue_def\<close>)
  then have "order_reach 0 (?s 2 [] [?w2, ?w1] [])"
    by (rule reach_step) (use step_issue [of 0 "''d''" "?s 1 [] [?w1] []"] in
        \<open>simp add: issue_def numeral_2_eq_2\<close>)
  then have "order_reach 0 (?s 2 [(''d'', 2)] [?w2, ?w1] [?w2])"
    by (rule reach_step) (use step_activate [of ?w2 "?s 2 [] [?w2, ?w1] []" 0] in
        \<open>simp add: activate_order_def activate_seq_def\<close>)
  from confirmations_accepted_iff [OF this, of ?w1 undefined]
  show ?thesis
    by (simp add: is_newer_than_def accept_confirmation_def accept_seq_def activate_seq_def new_tracker_def)
qed

end
