(* ===== verification/Json_Roundtrip.thy ===== *)
theory Json_Roundtrip
  imports Json_Props
begin

text \<open>
  \<open>json.loads\<close> reads back what \<open>json.dumps\<close> writes, for every document without floats and
  without repeated keys, also in front of further text.
\<close>

fun plain :: "pyval \<Rightarrow> bool" where
  "plain PNone = True"
| "plain (PBool _) = True"
| "plain (PInt _) = True"
| "plain (PStr _) = True"
| "plain (PList xs) = list_all plain xs"
| "plain (PDict kvs) = (distinct (map fst kvs) \<and> list_all (\<lambda>(k, x). plain x) kvs)"
| "plain _ = False"

text \<open>What may follow a value inside a document.\<close>

definition ends_value :: "string \<Rightarrow> bool" where
  "ends_value r \<longleftrightarrow> (case r of [] \<Rightarrow> True | c # _ \<Rightarrow> c = CHR '','' \<or> c = CHR '']'' \<or> c = CHR ''}'')"

lemma ends_value_parts:
  assumes "ends_value r"
  shows "frac_part r = ([], r)" "exp_part r = ([], r)" "takeWhile is_dec r = []" "dropWhile is_dec r = r"
  using assms by (auto simp: ends_value_def frac_part_def exp_part_def is_dec_def code_def split: list.splits)

lemma int_part_show_nat_rest:
  assumes "ends_value r"
  shows "int_part (show_nat n @ r) = Some (show_nat n, r)"
proof (cases "show_nat n")
  case (Cons c s)
  note d = takeWhile_show_nat [OF Cons]
  have "takeWhile is_dec (s @ r) = s" "dropWhile is_dec (s @ r) = r"
    using d ends_value_parts [OF assms] by (simp_all add: takeWhile_append dropWhile_append)
  then show ?thesis
    using show_nat_zero_head [of n s] d Cons by (auto simp: int_part_def)
qed simp

lemma json_number_int_rest:
  assumes "ends_value r"
  shows "json_number (show_int i @ r) = Some (PInt i, r)"
proof -
  have nat: "json_number (show_nat n @ r) = Some (PInt (int n), r)" for n
  proof (cases "show_nat n")
    case (Cons c s)
    have "c \<noteq> CHR ''-''" using takeWhile_show_nat(1) [OF Cons] by (auto simp: is_dec_def code_def)
    then have "(case show_nat n @ r of c # cs \<Rightarrow> if c = CHR ''-'' then (True, cs) else (False, show_nat n @ r)
        | [] \<Rightarrow> (False, [])) = (False, show_nat n @ r)"
      using Cons by simp
    then show ?thesis
      by (simp add: json_number_def Let_def int_part_show_nat_rest assms ends_value_parts)
  qed simp
  show ?thesis
    using nat by (cases "i < 0")
      (simp_all add: show_int_def json_number_def Let_def int_part_show_nat_rest assms ends_value_parts)
qed

lemma json_word_int_rest:
  assumes "ends_value r"
  shows "json_word (show_int i @ r) = Some (PInt i, r)"
proof -
  obtain c s where cs: "show_int i = c # s" "c = CHR ''-'' \<or> is_dec c" "\<forall>d \<in> set s. is_dec d"
  proof (cases "i < 0")
    case True
    then show thesis
      using that [of "CHR ''-''" "show_nat (nat (- i))"] show_nat_digits by (auto simp: show_int_def)
  next
    case False
    then show thesis
      using that [of "hd (show_nat (nat i))" "tl (show_nat (nat i))"] show_nat_digits [of _ "nat i"]
      by (auto simp: show_int_def) (metis list.set_sel(2) show_nat_not_Nil)
  qed
  have "d \<noteq> CHR ''I''" if "s @ r = d # t" for d t
    using that cs(3) assms by (cases s) (auto simp: is_dec_def code_def ends_value_def)
  then have "json_word (c # s @ r) = json_number (c # s @ r)"
    using cs(2) json_word_number [of c] by (cases "s @ r") (auto simp: is_dec_def code_def)
  then show ?thesis using cs(1) json_number_int_rest [OF assms, of i] by simp
qed

definition starts_value :: "string \<Rightarrow> bool" where
  "starts_value s \<longleftrightarrow> (\<exists>c cs. s = c # cs \<and> \<not> is_json_ws c \<and> c \<noteq> CHR '']'' \<and> c \<noteq> CHR ''}'')"

lemma starts_value_Cons:
  "starts_value (c # cs) \<longleftrightarrow> \<not> is_json_ws c \<and> c \<noteq> CHR '']'' \<and> c \<noteq> CHR ''}''"
  by (simp add: starts_value_def)

lemma starts_value_show_int: "starts_value (show_int i)"
proof -
  obtain c cs where c: "show_int i = c # cs"
    by (cases "show_int i") (auto simp: show_int_def split: if_splits)
  then have "c = CHR ''-'' \<or> is_dec c"
    using show_nat_digits by (auto simp: show_int_def split: if_splits) (metis list.set_intros(1))
  then show ?thesis
    unfolding c starts_value_Cons by (auto simp: is_json_ws_def is_dec_def code_def)
qed

lemma starts_value_quote: "starts_value (json_quote t)"
  by (simp add: json_quote_def starts_value_Cons is_json_ws_def code_char_of char_of_eq_iff)

lemma json_dumps_head:
  assumes "json_dumps v = Inr s" "plain v"
  shows "starts_value s"
proof (cases v)
  case (PList xs)
  then obtain t where "s = CHR ''['' # t" using assms(1) by (auto simp: rbind_eq_Inr)
  then show ?thesis by (simp add: starts_value_Cons is_json_ws_def code_def)
next
  case (PDict kvs)
  then obtain t where "s = CHR ''{'' # t" using assms(1) by (auto simp: rbind_eq_Inr)
  then show ?thesis by (simp add: starts_value_Cons is_json_ws_def code_def)
next
  case (PBool b)
  then show ?thesis using assms(1) by (cases b) (auto simp: starts_value_Cons is_json_ws_def code_def)
qed (use assms starts_value_show_int starts_value_quote in
    \<open>auto simp: starts_value_Cons is_json_ws_def code_def\<close>)

lemma skip_ws_dumps: "json_dumps v = Inr s \<Longrightarrow> plain v \<Longrightarrow> skip_ws (s @ r) = s @ r"
  using json_dumps_head [of v s] by (auto simp: skip_ws_def starts_value_def)

lemma json_value_quote:
  "0 < n \<Longrightarrow> json_value n (json_quote t @ r) = Some (PStr t, r)"
  using json_string_escaped [of t r]
  by (cases n) (simp_all add: json_quote_def json_value_Suc code_char_of del: json_value.simps(2))

lemma skip_ws_space: "skip_ws (CHR '' '' # s) = skip_ws s"
  by (simp add: skip_ws_def is_json_ws_def code_def)

lemma skip_ws_delim: "c \<in> {CHR '','', CHR '']'', CHR ''}'', CHR '':''} \<Longrightarrow> skip_ws (c # s) = c # s"
  by (auto simp: skip_ws_def is_json_ws_def code_def)

lemma json_items_Suc:
  assumes "json_value n s = Some (v, r)" "skip_ws r = c # r'"
  shows "json_items (Suc n) xs s =
    (if c = CHR '']'' then Some (PList (xs @ [v]), r')
     else if c = CHR '','' then json_items n (xs @ [v]) (skip_ws r') else None)"
  using assms by simp

lemma json_members_Suc:
  assumes "json_value n s = Some (v, r)" "skip_ws s = s" "skip_ws r = c # r'"
    and "k \<notin> set (map fst kvs)"
  shows "json_members (Suc n) kvs (json_quote k @ '': '' @ s) =
    (if c = CHR ''}'' then Some (PDict (kvs @ [(k, v)]), r')
     else if c = CHR '','' then json_members n (kvs @ [(k, v)]) (skip_ws r') else None)"
  using assms json_string_escaped [of k "'': '' @ s"]
  by (simp add: json_quote_def code_char_of skip_ws_delim skip_ws_space assoc_set_new Let_def
      del: json_value.simps json_string.simps)

lemma json_dumps_list_Nil_iff: "json_dumps_list xs = Inr [] \<longleftrightarrow> xs = []"
  by (cases xs) (auto simp: rbind_eq_Inr)

lemma json_dumps_members_Nil_iff: "json_dumps_members kvs = Inr [] \<longleftrightarrow> kvs = []"
  by (cases kvs) (auto simp: rbind_eq_Inr)

lemma join_with_Cons: "join_with sep (s # ss) = (if ss = [] then s else s @ sep @ join_with sep ss)"
  by (cases ss) auto

lemma json_value_word:
  assumes "s @ r = c # cs" "code c \<noteq> 34" "c \<noteq> CHR ''{''" "c \<noteq> CHR ''[''" "0 < n"
  shows "json_value n (s @ r) = json_word (s @ r)"
  using assms by (cases n) (simp_all add: json_value_Suc del: json_value.simps(2))

text \<open>The three readers follow the three writers.\<close>

definition reads_value :: "pyval \<Rightarrow> bool" where
  "reads_value v \<longleftrightarrow>
     (\<forall>s n r. json_dumps v = Inr s \<longrightarrow> length s \<le> n \<longrightarrow> ends_value r
        \<longrightarrow> json_value n (s @ r) = Some (v, r))"

lemma reads_valueD:
  "reads_value v \<Longrightarrow> json_dumps v = Inr s \<Longrightarrow> length s \<le> n \<Longrightarrow> ends_value r \<Longrightarrow>
   json_value n (s @ r) = Some (v, r)"
  by (simp add: reads_value_def)

lemma reads_scalar:
  "reads_value PNone" "reads_value (PBool b)" "reads_value (PInt i)" "reads_value (PStr t)"
proof -
  show "reads_value PNone"
    unfolding reads_value_def
    using json_value_word [of "''null''"] by (auto simp: json_word_def strip_prefix_def code_def)
  show "reads_value (PBool b)"
    unfolding reads_value_def
    using json_value_word [of "''true''"] json_value_word [of "''false''"]
    by (cases b) (auto simp: json_word_def strip_prefix_def code_def)
  show "reads_value (PStr t)"
    unfolding reads_value_def using json_value_quote [of _ t]
    by (auto simp: json_quote_def)
  show "reads_value (PInt i)"
    unfolding reads_value_def
  proof (intro allI impI)
    fix s n r
    assume s: "json_dumps (PInt i) = Inr s" and n: "length s \<le> n" and r: "ends_value r"
    obtain c cs where c: "show_int i = c # cs" by (cases "show_int i") (auto simp: show_int_def split: if_splits)
    then have "0 < n" using s n by (cases n) auto
    then show "json_value n (s @ r) = Some (PInt i, r)"
      using c s n r show_int_head [OF c] json_value_word [of s r c "cs @ r" n] json_word_int_rest [OF r, of i]
      by simp
  qed
qed

lemma reads_items:
  assumes "\<forall>x \<in> set xs. plain x \<and> reads_value x" "json_dumps_list xs = Inr ss" "xs \<noteq> []"
    and "length (join_with '', '' ss) < n"
  shows "json_items n acc (join_with '', '' ss @ CHR '']'' # r) = Some (PList (acc @ xs), r)"
  using assms
proof (induction xs arbitrary: ss n acc)
  case (Cons x xs)
  obtain s ss' where s: "json_dumps x = Inr s" "json_dumps_list xs = Inr ss'" "ss = s # ss'"
    using Cons.prems(2) by (auto simp: rbind_eq_Inr)
  obtain m where m: "n = Suc m" using Cons.prems(4) by (cases n) auto
  have rd: "length s \<le> m \<Longrightarrow> ends_value q \<Longrightarrow> json_value m (s @ q) = Some (x, q)" for q
    using Cons.prems(1) s(1) by (simp add: reads_value_def)
  show ?case
  proof (cases "xs = []")
    case True
    then have "ss = [s]" using s by simp
    with True Cons.prems(4) m rd [of "CHR '']'' # r"] show ?thesis
      by (simp add: json_items_Suc [of m _ x "CHR '']'' # r" "CHR '']''" r] ends_value_def skip_ws_delim
          del: json_items.simps)
  next
    case False
    then have "ss' \<noteq> []" using s(2) json_dumps_list_Nil_iff by auto
    then have join: "join_with '', '' ss = s @ CHR '','' # CHR '' '' # join_with '', '' ss'"
      using s(3) by (simp add: join_with_Cons)
    let ?q = "CHR '','' # CHR '' '' # join_with '', '' ss' @ CHR '']'' # r"
    obtain x' xs' where xs: "xs = x' # xs'" using False by (cases xs) auto
    then obtain s' where "json_dumps x' = Inr s'" "ss' = s' # tl ss'"
      using s(2) by (auto simp: rbind_eq_Inr)
    then have ws: "skip_ws (CHR '' '' # join_with '', '' ss' @ CHR '']'' # r) = join_with '', '' ss' @ CHR '']'' # r"
      using Cons.prems(1) xs skip_ws_dumps [of x' s']
      by (cases "tl ss' = []") (metis (no_types) append_assoc join_with_Cons list.set_intros skip_ws_space)+
    have "json_value m (s @ ?q) = Some (x, ?q)"
      using Cons.prems(4) m join by (intro rd) (simp_all add: ends_value_def)
    then have "json_items n acc (s @ ?q) = json_items m (acc @ [x]) (join_with '', '' ss' @ CHR '']'' # r)"
      using json_items_Suc [of m "s @ ?q" x ?q "CHR '',''"] m ws
      by (simp add: skip_ws_delim del: json_items.simps)
    also have "\<dots> = Some (PList ((acc @ [x]) @ xs), r)"
      by (rule Cons.IH) (use Cons.prems s(2) False m join in auto)
    finally show ?thesis using join by simp
  qed
qed simp

lemma reads_members:
  assumes "\<forall>(k, x) \<in> set kvs. plain x \<and> reads_value x" "json_dumps_members kvs = Inr ms" "kvs \<noteq> []"
    and "distinct (map fst (done @ kvs))" and "length (join_with '', '' ms) < n"
  shows "json_members n done (join_with '', '' ms @ CHR ''}'' # r) = Some (PDict (done @ kvs), r)"
  using assms
proof (induction kvs arbitrary: ms n "done")
  case (Cons kx kvs)
  obtain k x where kx: "kx = (k, x)" by (cases kx)
  obtain s ms' where s: "json_dumps x = Inr s" "json_dumps_members kvs = Inr ms'"
      "ms = (json_quote k @ '': '' @ s) # ms'"
    using Cons.prems(2) kx by (auto simp: rbind_eq_Inr)
  obtain m where m: "n = Suc m" using Cons.prems(5) by (cases n) auto
  have k: "k \<notin> set (map fst done)" using Cons.prems(4) kx by auto
  have rd: "length s \<le> m \<Longrightarrow> ends_value q \<Longrightarrow> json_value m (s @ q) = Some (x, q)" for q
    using Cons.prems(1) kx s(1) by (simp add: reads_value_def)
  have ws: "skip_ws (s @ q) = s @ q" for q
    using Cons.prems(1) kx skip_ws_dumps [OF s(1)] by simp
  show ?case
  proof (cases "kvs = []")
    case True
    then have ms: "ms = [json_quote k @ '': '' @ s]" using s by simp
    have "json_value m (s @ CHR ''}'' # r) = Some (x, CHR ''}'' # r)"
      using Cons.prems(5) m ms by (intro rd) (simp_all add: ends_value_def)
    then have "json_members n done (json_quote k @ '': '' @ s @ CHR ''}'' # r) = Some (PDict (done @ [(k, x)]), r)"
      using json_members_Suc [of m "s @ CHR ''}'' # r" x "CHR ''}'' # r" "CHR ''}''" r k "done"] m ws k
      by (simp add: skip_ws_delim del: json_members.simps)
    then show ?thesis using ms True kx by simp
  next
    case False
    then have "ms' \<noteq> []" using s(2) json_dumps_members_Nil_iff by auto
    then have join: "join_with '', '' ms =
        json_quote k @ '': '' @ s @ CHR '','' # CHR '' '' # join_with '', '' ms'"
      using s(3) by (simp add: join_with_Cons)
    let ?q = "CHR '','' # CHR '' '' # join_with '', '' ms' @ CHR ''}'' # r"
    obtain k' x' kvs' where "kvs = (k', x') # kvs'" using False by (cases kvs) auto
    then obtain s' where "ms' = (json_quote k' @ '': '' @ s') # tl ms'"
      using s(2) by (auto simp: rbind_eq_Inr)
    then have ws': "skip_ws (CHR '' '' # join_with '', '' ms' @ CHR ''}'' # r) = join_with '', '' ms' @ CHR ''}'' # r"
      by (cases "tl ms' = []")
        (metis (no_types) append_assoc append_Cons join_with_Cons json_quote_def skip_ws_quote skip_ws_space)+
    have "json_value m (s @ ?q) = Some (x, ?q)"
      using Cons.prems(5) m join by (intro rd) (simp_all add: ends_value_def)
    then have "json_members n done (json_quote k @ '': '' @ s @ ?q)
        = json_members m (done @ [(k, x)]) (join_with '', '' ms' @ CHR ''}'' # r)"
      using json_members_Suc [of m "s @ ?q" x ?q "CHR '',''" _ k "done"] m ws ws' k
      by (simp add: skip_ws_delim del: json_members.simps)
    also have "\<dots> = Some (PDict ((done @ [(k, x)]) @ kvs), r)"
      by (rule Cons.IH) (use Cons.prems s(2) False m join kx in auto)
    finally show ?thesis using join kx by simp
  qed
qed simp

lemma reads_list:
  assumes "\<forall>x \<in> set xs. plain x \<and> reads_value x"
  shows "reads_value (PList xs)"
  unfolding reads_value_def
proof (intro allI impI)
  fix s n r
  assume s: "json_dumps (PList xs) = Inr s" and n: "length s \<le> n" and r: "ends_value r"
  then obtain ss where ss: "json_dumps_list xs = Inr ss" "s = ''['' @ join_with '', '' ss @ '']''"
    by (auto simp: rbind_eq_Inr)
  obtain m where m: "n = Suc m" using n ss by (cases n) auto
  show "json_value n (s @ r) = Some (PList xs, r)"
  proof (cases "xs = []")
    case True
    then show ?thesis
      using ss m by (simp add: json_value_Suc skip_ws_delim code_def del: json_value.simps)
  next
    case False
    obtain x xs' where x: "xs = x # xs'" using False by (cases xs) auto
    then obtain t where t: "json_dumps x = Inr t" "ss = t # tl ss" using ss by (auto simp: rbind_eq_Inr)
    obtain c cs where c: "t = c # cs" "\<not> is_json_ws c" "c \<noteq> CHR '']''"
      using json_dumps_head [OF t(1)] assms x by (auto simp: starts_value_def)
    have "\<exists>cs. join_with '', '' ss @ CHR '']'' # r = c # cs"
      by (subst t(2)) (simp add: join_with_Cons c(1))
    then obtain cs' where cs': "join_with '', '' ss @ CHR '']'' # r = c # cs'" by auto
    have "json_items m [] (c # cs') = Some (PList xs, r)"
      using reads_items [OF assms ss(1) False, of m "[]" r] n ss(2) m cs' by simp
    then show ?thesis
      using ss(2) m c cs' by (simp add: json_value_Suc skip_ws_def code_def del: json_value.simps)
  qed
qed

lemma reads_dict:
  assumes "\<forall>(k, x) \<in> set kvs. plain x \<and> reads_value x" and "distinct (map fst kvs)"
  shows "reads_value (PDict kvs)"
  unfolding reads_value_def
proof (intro allI impI)
  fix s n r
  assume s: "json_dumps (PDict kvs) = Inr s" and n: "length s \<le> n" and r: "ends_value r"
  then obtain ms where ms: "json_dumps_members kvs = Inr ms" "s = ''{'' @ join_with '', '' ms @ ''}''"
    by (auto simp: rbind_eq_Inr)
  obtain m where m: "n = Suc m" using n ms by (cases n) auto
  show "json_value n (s @ r) = Some (PDict kvs, r)"
  proof (cases "kvs = []")
    case True
    then show ?thesis
      using ms m by (simp add: json_value_Suc skip_ws_delim code_def del: json_value.simps)
  next
    case False
    obtain k x kvs' where "kvs = (k, x) # kvs'" using False by (cases kvs) auto
    then obtain t where t: "ms = (json_quote k @ '': '' @ t) # tl ms" using ms by (auto simp: rbind_eq_Inr)
    let ?d = "char_of (34::nat) :: char"
    have "\<exists>cs. join_with '', '' ms @ CHR ''}'' # r = ?d # cs"
      by (subst t) (simp add: join_with_Cons json_quote_def)
    then obtain cs' where cs': "join_with '', '' ms @ CHR ''}'' # r = ?d # cs'" by auto
    have "json_members m [] (?d # cs') = Some (PDict kvs, r)"
      using reads_members [OF assms(1) ms(1) False, of "[]" m r] assms(2) n ms(2) m cs' by simp
    moreover have "?d \<noteq> CHR ''}''" by (simp add: char_of_eq_iff)
    ultimately show ?thesis
      using ms(2) m cs' by (simp add: json_value_Suc skip_ws_quote code_def [of "CHR ''{''"] del: json_value.simps)
  qed
qed

lemma reads_plain: "plain v \<Longrightarrow> reads_value v"
proof (induction v rule: plain.induct)
  case (5 xs)
  then show ?case by (intro reads_list) (auto simp: list_all_iff)
next
  case (6 kvs)
  then show ?case by (intro reads_dict) (auto simp: list_all_iff)
qed (simp_all add: reads_scalar)

lemma json_loads_dumps: "plain v \<Longrightarrow> json_dumps v = Inr s \<Longrightarrow> json_loads s = Inr v"
proof -
  assume v: "plain v" "json_dumps v = Inr s"
  have "json_value (2 * length s + 2) (s @ []) = Some (v, [])"
    by (rule reads_valueD [OF reads_plain [OF v(1)] v(2)]) (simp_all add: ends_value_def)
  then show "json_loads s = Inr v"
    using skip_ws_dumps [OF v(2,1), of "[]"]
    by (simp add: json_loads_def skip_ws_def [of "[]"] del: json_value.simps)
qed

lemma json_dumps_plain: "plain v \<Longrightarrow> \<exists>s. json_dumps v = Inr s"
  "list_all plain xs \<Longrightarrow> \<exists>ss. json_dumps_list xs = Inr ss"
  "list_all (\<lambda>(k, x). plain x) kvs \<Longrightarrow> \<exists>ss. json_dumps_members kvs = Inr ss"
  by (induction v and xs and kvs rule: json_dumps_json_dumps_list_json_dumps_members.induct)
    (auto simp: rbind_eq_Inr split: sum.splits)

end
