(* ===== verification/Mqtt_Client.thy ===== *)
theory Mqtt_Client
  imports Event_Bus Data_Types Json_Roundtrip
begin

text \<open>
  JSON of runtime values (\<open>obs/core/json.py\<close>) and the payloads, topics, publish queue and set
  messages of the MQTT client (\<open>obs/core/mqtt_client.py\<close>).  The two connection loops are I/O; a
  message that arrives is the text its payload decodes to.  Values of the model have no cycles.
\<close>

section \<open>JSON of runtime values\<close>

fun json_default :: "pyval \<Rightarrow> (pyerr, pyval) result" where
  "json_default (PDate y m d) = Inr (PStr (iso_date y m d))"
| "json_default (PTime h m s) = Inr (PStr (iso_time h m s))"
| "json_default (PDateTime y mo d h m s) = Inr (PStr (iso_date y mo d @ ''T'' @ iso_time h m s))"
| "json_default _ = Inl TypeError"

text \<open>\<open>json.dumps\<close> asks the hook for every value it cannot write itself, and writes the answer.\<close>

fun ask_default :: "pyval \<Rightarrow> pyval" where
  "ask_default (PList xs) = PList (map ask_default xs)"
| "ask_default (PDict kvs) = PDict (map (\<lambda>(k, x). (k, ask_default x)) kvs)"
| "ask_default v = (case json_default v of Inr w \<Rightarrow> w | Inl _ \<Rightarrow> v)"

definition core_json_dumps :: "pyval \<Rightarrow> (pyerr, string) result" where
  "core_json_dumps v = json_dumps (ask_default v)"

fun jsonable :: "pyval \<Rightarrow> pyval" where
  "jsonable (PDict kvs) = PDict (map (\<lambda>(k, x). (k, jsonable x)) kvs)"
| "jsonable (PList xs) = PList (map jsonable xs)"
| "jsonable (PDate y m d) = PStr (iso_date y m d)"
| "jsonable (PTime h m s) = PStr (iso_time h m s)"
| "jsonable (PDateTime y mo d h m s) = PStr (iso_date y mo d @ ''T'' @ iso_time h m s)"
| "jsonable v = v"

section \<open>Payloads and topics\<close>

text \<open>\<open>ts.strftime('%Y-%m-%dT%H:%M:%S.%f')[:-3] + 'Z'\<close>.\<close>

definition ts_millis :: "timestamp \<Rightarrow> string" where
  "ts_millis t =
     (let s = iso_date (ts_year t) (ts_month t) (ts_day t) @ ''T''
          @ iso_time (ts_hour t) (ts_minute t) (ts_second t) @ ''.''
          @ pad_left 6 (show_nat (ts_micro t))
      in take (length s - 3) s @ ''Z'')"

fun finite_or_none :: "pyval \<Rightarrow> pyval" where
  "finite_or_none (PFloat x) = (if fl_finite x then PFloat x else PNone)"
| "finite_or_none (PList xs) = PList (map finite_or_none xs)"
| "finite_or_none (PDict kvs) = PDict (map (\<lambda>(k, x). (k, finite_or_none x)) kvs)"
| "finite_or_none v = v"

definition opt_str :: "string option \<Rightarrow> pyval" where
  "opt_str x = (case x of None \<Rightarrow> PNone | Some s \<Rightarrow> PStr s)"

definition build_payload ::
  "pyval \<Rightarrow> string option \<Rightarrow> string \<Rightarrow> timestamp \<Rightarrow> (pyerr, string) result" where
  "build_payload v unit q ts =
     core_json_dumps
       (PDict [(''v'', finite_or_none v), (''u'', opt_str unit), (''t'', PStr (ts_millis ts)),
               (''q'', PStr q)])"

definition topic_value :: "uuid \<Rightarrow> string" where
  "topic_value u = ''dp/'' @ u @ ''/value''"

definition topic_value_raw :: "uuid \<Rightarrow> string" where
  "topic_value_raw u = ''dp/'' @ u @ ''/value/raw''"

definition topic_set :: "uuid \<Rightarrow> string" where
  "topic_set u = ''dp/'' @ u @ ''/set''"

definition topic_status :: "uuid \<Rightarrow> string" where
  "topic_status u = ''dp/'' @ u @ ''/status''"

definition topic_alias :: "string \<Rightarrow> string \<Rightarrow> string" where
  "topic_alias t n = ''alias/'' @ t @ ''/'' @ n @ ''/value''"

section \<open>The client\<close>

record message =
  msg_topic :: string
  msg_payload :: string
  msg_retain :: bool

definition publish_value ::
  "uuid \<Rightarrow> pyval \<Rightarrow> string option \<Rightarrow> string \<Rightarrow> string option \<Rightarrow> timestamp
     \<Rightarrow> message list \<Rightarrow> (pyerr, message list) result" where
  "publish_value u v unit q alias_topic ts queue =
     rbind (build_payload v unit q ts) (\<lambda>payload.
       Inr (queue
         @ [\<lparr>msg_topic = topic_value u, msg_payload = payload, msg_retain = True\<rparr>,
            \<lparr>msg_topic = topic_value_raw u, msg_payload = py_str v, msg_retain = True\<rparr>]
         @ (case alias_topic of
              None \<Rightarrow> []
            | Some a \<Rightarrow> if a = [] then []
                else [\<lparr>msg_topic = a, msg_payload = payload, msg_retain = True\<rparr>])))"

definition publish_dp_status :: "uuid \<Rightarrow> string \<Rightarrow> message list \<Rightarrow> message list" where
  "publish_dp_status u st queue =
     queue @ [\<lparr>msg_topic = topic_status u, msg_payload = st, msg_retain = True\<rparr>]"

text \<open>An exception of a write handler is logged; the other handlers still run.\<close>

definition handle_set_message ::
  "('h \<Rightarrow> uuid \<Rightarrow> string \<Rightarrow> 's \<Rightarrow> 's \<times> bool) \<Rightarrow> 'h list \<Rightarrow> string \<Rightarrow> string \<Rightarrow> 's \<Rightarrow> 's" where
  "handle_set_message run write_handlers topic payload s =
     (case py_split (CHR ''/'') topic of
        [a, b, c] \<Rightarrow>
          (case parse_uuid b of
             None \<Rightarrow> s
           | Some u \<Rightarrow> fold (\<lambda>h s. fst (run h u payload s)) write_handlers s)
      | _ \<Rightarrow> s)"

section \<open>Payloads are strict JSON\<close>

fun all_finite :: "pyval \<Rightarrow> bool" where
  "all_finite (PFloat x) = fl_finite x"
| "all_finite (PList xs) = list_all all_finite xs"
| "all_finite (PDict kvs) = list_all (\<lambda>(k, x). all_finite x) kvs"
| "all_finite _ = True"

lemma all_finite_finite_or_none: "all_finite (finite_or_none v)"
  by (induction v rule: finite_or_none.induct) (auto simp: list_all_iff)

lemma finite_or_none_id: "all_finite v \<Longrightarrow> finite_or_none v = v"
proof (induction v rule: finite_or_none.induct)
  case (3 kvs)
  then have "map (\<lambda>(k, x). (k, finite_or_none x)) kvs = kvs"
    by (intro map_idI) (auto simp: list_all_iff)
  then show ?case by simp
qed (auto simp: list_all_iff intro: map_idI)

lemma ask_default_jsonable: "ask_default v = jsonable v"
proof (induction v rule: ask_default.induct)
  case (2 kvs)
  then show ?case by auto
qed auto

lemma plain_all_finite: "plain v \<Longrightarrow> all_finite v"
  by (induction v rule: plain.induct) (auto simp: list_all_iff)

lemma plain_jsonable: "plain v \<Longrightarrow> jsonable v = v"
proof (induction v rule: plain.induct)
  case (6 kvs)
  then have "map (\<lambda>(k, x). (k, jsonable x)) kvs = kvs"
    by (intro map_idI) (auto simp: list_all_iff)
  then show ?case by simp
qed (auto simp: list_all_iff intro: map_idI)

lemma build_payload_plain:
  assumes "plain v"
  shows "\<exists>s. build_payload v unit q ts = Inr s \<and>
    json_loads s = Inr (PDict [(''v'', v), (''u'', opt_str unit), (''t'', PStr (ts_millis ts)), (''q'', PStr q)])"
proof -
  let ?d = "PDict [(''v'', v), (''u'', opt_str unit), (''t'', PStr (ts_millis ts)), (''q'', PStr q)]"
  have d: "plain ?d" using assms by (cases unit) (simp_all add: opt_str_def)
  have "build_payload v unit q ts = json_dumps ?d"
    unfolding build_payload_def core_json_dumps_def ask_default_jsonable
      finite_or_none_id [OF plain_all_finite [OF assms]] plain_jsonable [OF d] ..
  then show ?thesis
    using json_dumps_plain(1) [OF d] json_loads_dumps [OF d] by auto
qed

section \<open>A set message reaches its datapoint\<close>

definition canonical_uuid :: "uuid \<Rightarrow> bool" where
  "canonical_uuid u \<longleftrightarrow> parse_uuid u = Some u \<and> CHR ''/'' \<notin> set u"

text \<open>
  The topic the client announces for writing a datapoint is the one it answers to: a message on
  it is handed to every write handler with exactly that datapoint, whatever the others raise, and a
  topic whose middle part is no UUID, or that has not three parts, reaches none.
\<close>

theorem set_message_dispatch:
  "(canonical_uuid u \<longrightarrow>
      handle_set_message run hs (topic_set u) p s = fold (\<lambda>h s. fst (run h u p s)) hs s)
   \<and> ((\<forall>a b c. py_split (CHR ''/'') topic = [a, b, c] \<longrightarrow> parse_uuid b = None)
        \<longrightarrow> handle_set_message run hs topic p s = s)"
proof -
  have "py_split (CHR ''/'') (topic_set u) = [''dp'', u, ''set'']" if "CHR ''/'' \<notin> set u"
    using py_split_append [of "CHR ''/''" "''dp''" "u @ ''/set''"]
      py_split_append [OF that, of "''set''"] py_split_no_sep [of "CHR ''/''" "''set''"]
    by (simp add: topic_set_def del: py_split.simps)
  then show ?thesis
    by (auto simp: handle_set_message_def canonical_uuid_def split: list.splits option.splits)
qed

lemma canonical_example: "canonical_uuid ''986724a8-f7cc-53d9-980a-027c47ca7e43''"
  by (simp add: canonical_uuid_def parse_uuid_text [of _ "''986724a8f7cc53d9980a027c47ca7e43''"]
      group_uuid_def is_low_hex_def code_def)

theorem set_message_dispatch_witness:
  "handle_set_message (\<lambda>(h::nat) u p s. (s @ [(h, p)], True)) [1, 2]
     (topic_set ''986724a8-f7cc-53d9-980a-027c47ca7e43'') ''on'' [] = [(1, ''on''), (2, ''on'')]"
  using set_message_dispatch [of "''986724a8-f7cc-53d9-980a-027c47ca7e43''"
      "\<lambda>(h::nat) u p s. (s @ [(h, p)], True)" "[1, 2]" "''on''" "[]"] canonical_example
  by simp

end
