(* ===== verification/Datapoint_Registry.thy ===== *)
theory Datapoint_Registry
  imports Mqtt_Client "HOL-Library.Product_Lexorder" "HOL-Library.List_Lexorder" "HOL-Library.Char_ord"
begin

text \<open>
  The registry of datapoints and their last values (\<open>obs/core/registry.py\<close>, with the model of
  \<open>obs/models/datapoint.py\<close>): the state in memory, the rows of the tables it keeps in step, the
  messages it queues and the events it publishes.  A statement of the database either commits or
  fails without effect; which of the two is an argument of the operations.  A coroutine is one
  step.  Time stamps of datapoints are opaque ISO texts.
\<close>

section \<open>Datapoints\<close>

record datapoint =
  dp_id :: uuid
  dp_name :: string
  dp_data_type :: string
  dp_unit :: "string option"
  dp_tags :: "string list"
  dp_mqtt_topic :: string
  dp_mqtt_alias :: "string option"
  dp_persist_value :: bool
  dp_record_history :: bool
  dp_control_class :: string
  dp_external_write_enabled :: bool
  dp_created_at :: string
  dp_updated_at :: string

text \<open>The validation of the model: a \<open>ValidationError\<close> is a \<open>ValueError\<close>.\<close>

definition valid_name :: "string \<Rightarrow> bool" where
  "valid_name n \<longleftrightarrow> length n \<le> 255"

definition valid_control_class :: "string \<Rightarrow> bool" where
  "valid_control_class c \<longleftrightarrow> c \<in> {''room_local'', ''central_plant''}"

definition set_default_mqtt_topic :: "datapoint \<Rightarrow> datapoint" where
  "set_default_mqtt_topic d =
     (if dp_mqtt_topic d = [] then d\<lparr>dp_mqtt_topic := ''dp/'' @ dp_id d @ ''/value''\<rparr> else d)"

definition mk_datapoint :: "datapoint \<Rightarrow> (pyerr, datapoint) result" where
  "mk_datapoint d =
     (if valid_name (dp_name d) \<and> valid_control_class (dp_control_class d)
      then Inr (set_default_mqtt_topic d) else Inl ValueError)"

record dp_create =
  cr_name :: string
  cr_data_type :: string
  cr_unit :: "string option"
  cr_tags :: "string list"
  cr_mqtt_alias :: "string option"
  cr_persist_value :: bool
  cr_record_history :: bool
  cr_control_class :: string
  cr_external_write_enabled :: bool

text \<open>A patch: absent fields are \<^const>\<open>None\<close>; unit and alias may be set to null explicitly.\<close>

record dp_update =
  up_name :: "string option"
  up_data_type :: "string option"
  up_unit :: "string option option"
  up_tags :: "string list option"
  up_mqtt_alias :: "string option option"
  up_persist_value :: "bool option"
  up_record_history :: "bool option"
  up_control_class :: "string option"
  up_external_write_enabled :: "bool option"

section \<open>Rows\<close>

record dp_row =
  row_id :: string
  row_name :: string
  row_data_type :: string
  row_unit :: "string option"
  row_tags :: string
  row_mqtt_topic :: string
  row_mqtt_alias :: "string option"
  row_persist :: "int option"
  row_history :: "int option"
  row_control_class :: "string option"   \<comment> \<open>\<^const>\<open>None\<close>: the column does not exist yet\<close>
  row_external_write :: "int option"      \<comment> \<open>likewise\<close>
  row_created_at :: string
  row_updated_at :: string

record last_row =
  last_id :: string
  last_value :: string
  last_unit :: "string option"
  last_ts :: string

definition tags_json :: "string list \<Rightarrow> string" where
  "tags_json ts = (case json_dumps (PList (map PStr ts)) of Inr s \<Rightarrow> s | Inl _ \<Rightarrow> [])"

definition insert_params :: "datapoint \<Rightarrow> dp_row" where
  "insert_params d =
     \<lparr>row_id = dp_id d, row_name = dp_name d, row_data_type = dp_data_type d, row_unit = dp_unit d,
      row_tags = tags_json (dp_tags d), row_mqtt_topic = dp_mqtt_topic d,
      row_mqtt_alias = dp_mqtt_alias d, row_persist = Some (of_bool (dp_persist_value d)),
      row_history = Some (of_bool (dp_record_history d)),
      row_control_class = Some (dp_control_class d),
      row_external_write = Some (of_bool (dp_external_write_enabled d)),
      row_created_at = dp_created_at d, row_updated_at = dp_updated_at d\<rparr>"

text \<open>A JSON list of texts, as the field \<open>tags\<close> of the model wants it.\<close>

fun str_list :: "pyval \<Rightarrow> string list option" where
  "str_list (PList xs) =
     (if list_all is_str xs then Some (map (\<lambda>x. case x of PStr s \<Rightarrow> s | _ \<Rightarrow> []) xs) else None)"
| "str_list _ = None"

definition flag :: "bool \<Rightarrow> int option \<Rightarrow> bool" where
  "flag dflt x = (case x of None \<Rightarrow> dflt | Some i \<Rightarrow> i \<noteq> 0)"

definition row_control :: "dp_row \<Rightarrow> string" where
  "row_control w = (case row_control_class w of None \<Rightarrow> ''room_local'' | Some c \<Rightarrow> c)"

definition row_fields :: "uuid \<Rightarrow> string list \<Rightarrow> dp_row \<Rightarrow> datapoint" where
  "row_fields u ts w =
     \<lparr>dp_id = u, dp_name = row_name w, dp_data_type = row_data_type w, dp_unit = row_unit w,
      dp_tags = ts, dp_mqtt_topic = row_mqtt_topic w, dp_mqtt_alias = row_mqtt_alias w,
      dp_persist_value = flag True (row_persist w), dp_record_history = flag True (row_history w),
      dp_control_class = row_control w,
      dp_external_write_enabled = flag False (row_external_write w),
      dp_created_at = row_created_at w, dp_updated_at = row_updated_at w\<rparr>"

text \<open>\<open>iso_ok\<close>: what \<open>datetime.fromisoformat\<close> accepts.\<close>

definition row_to_datapoint :: "(string \<Rightarrow> bool) \<Rightarrow> dp_row \<Rightarrow> (pyerr, datapoint) result" where
  "row_to_datapoint iso_ok w =
     rbind (of_opt ValueError (parse_uuid (row_id w))) (\<lambda>u.
     rbind (json_loads (row_tags w)) (\<lambda>tj.
     rbind (of_opt ValueError (str_list tj)) (\<lambda>ts.
       if iso_ok (row_created_at w) \<and> iso_ok (row_updated_at w)
       then mk_datapoint (row_fields u ts w) else Inl ValueError)))"

section \<open>Value states\<close>

record diagnostic =
  diag_type :: string
  diag_expected :: string
  diag_got :: string
  diag_source :: string
  diag_count :: nat
  diag_last_value :: pyval
  diag_updated_at :: string

record value_state =
  vs_value :: pyval
  vs_quality :: string
  vs_ts :: string
  vs_old_value :: pyval
  vs_diagnostics :: "(string \<times> diagnostic) list"

definition new_value_state :: "string \<Rightarrow> value_state" where
  "new_value_state now =
     \<lparr>vs_value = PNone, vs_quality = ''uncertain'', vs_ts = now, vs_old_value = PNone,
      vs_diagnostics = []\<rparr>"

definition update_state :: "string \<Rightarrow> pyval \<Rightarrow> string \<Rightarrow> value_state \<Rightarrow> bool \<times> value_state" where
  "update_state now v q s =
     (let changed = (\<not> py_eq v (vs_value s) \<or> q \<noteq> vs_quality s)
      in (changed,
          if changed then s\<lparr>vs_old_value := vs_value s, vs_value := v, vs_quality := q, vs_ts := now\<rparr>
          else s))"

section \<open>The registry\<close>

record registry =
  points :: "(uuid \<times> datapoint) list"
  vals :: "(uuid \<times> value_state) list"
  db_points :: "(uuid \<times> dp_row) list"       \<comment> \<open>table datapoints by primary key\<close>
  db_last :: "(uuid \<times> last_row) list"       \<comment> \<open>table datapoint_last_values\<close>
  db_dp_roles :: "uuid list"                 \<comment> \<open>datapoint rows of authz_node_roles\<close>
  mqtt_queue :: "message list"
  bus_out :: "event list"

datatype reg_error = NotFound | ReadOnlySystem | Invalid pyerr | DatabaseFailed

type_synonym 'a reg_result = "(reg_error, 'a) result \<times> registry"

definition registry_get :: "registry \<Rightarrow> uuid \<Rightarrow> datapoint option" where
  "registry_get r u = map_of (points r) u"

definition get_or_raise :: "registry \<Rightarrow> uuid \<Rightarrow> (reg_error, datapoint) result" where
  "get_or_raise r u = (case map_of (points r) u of None \<Rightarrow> Inl NotFound | Some d \<Rightarrow> Inr d)"

definition all_points :: "registry \<Rightarrow> datapoint list" where
  "all_points r = map snd (points r)"

definition point_count :: "registry \<Rightarrow> nat" where
  "point_count r = length (points r)"

definition get_value :: "registry \<Rightarrow> uuid \<Rightarrow> value_state option" where
  "get_value r u = map_of (vals r) u"

text \<open>\<open>xs[offset : offset + limit]\<close>, negative bounds counting from the end.\<close>

definition slice_bound :: "nat \<Rightarrow> int \<Rightarrow> nat" where
  "slice_bound n i = (if i < 0 then nat (max 0 (i + int n)) else min n (nat i))"

definition py_slice :: "'a list \<Rightarrow> int \<Rightarrow> int \<Rightarrow> 'a list" where
  "py_slice xs i j =
     take (slice_bound (length xs) j - slice_bound (length xs) i) (drop (slice_bound (length xs) i) xs)"

definition page :: "registry \<Rightarrow> int \<Rightarrow> int \<Rightarrow> datapoint list" where
  "page r offset limit = py_slice (all_points r) offset (offset + limit)"

definition contains_text :: "string \<Rightarrow> string \<Rightarrow> bool" where
  "contains_text q s \<longleftrightarrow> (\<exists>i \<le> length s. take (length q) (drop i s) = q)"

definition search ::
  "registry \<Rightarrow> string \<Rightarrow> string \<Rightarrow> string \<Rightarrow> int \<Rightarrow> int \<Rightarrow> datapoint list" where
  "search r q t ty offset limit =
     (let r1 = (if q = [] then all_points r
                else filter (\<lambda>d. contains_text (py_lower q) (py_lower (dp_name d))) (all_points r));
          r2 = (if t = [] then r1 else filter (\<lambda>d. t \<in> set (dp_tags d)) r1);
          r3 = (if ty = [] then r2 else filter (\<lambda>d. dp_data_type d = ty) r2)
      in py_slice r3 offset (offset + limit))"

definition forget :: "uuid set \<Rightarrow> registry \<Rightarrow> registry" where
  "forget keep r =
     (let gone = filter (\<lambda>u. u \<notin> keep) (map fst (points r))
      in r\<lparr>points := fold assoc_del gone (points r), vals := fold assoc_del gone (vals r)\<rparr>)"

subsection \<open>Creating, changing and deleting\<close>

definition prepare_create :: "uuid \<Rightarrow> string \<Rightarrow> dp_create \<Rightarrow> (pyerr, datapoint) result" where
  "prepare_create u now c =
     mk_datapoint
       \<lparr>dp_id = u, dp_name = cr_name c, dp_data_type = cr_data_type c, dp_unit = cr_unit c,
        dp_tags = cr_tags c, dp_mqtt_topic = [], dp_mqtt_alias = cr_mqtt_alias c,
        dp_persist_value = cr_persist_value c, dp_record_history = cr_record_history c,
        dp_control_class = cr_control_class c,
        dp_external_write_enabled = cr_external_write_enabled c,
        dp_created_at = now, dp_updated_at = now\<rparr>"

text \<open>A second row with the same primary key is refused by the database.\<close>

definition insert_row :: "bool \<Rightarrow> datapoint \<Rightarrow> registry \<Rightarrow> unit reg_result" where
  "insert_row db_ok d r =
     (if db_ok \<and> map_of (db_points r) (dp_id d) = None
      then (Inr (), r\<lparr>db_points := assoc_set (dp_id d) (insert_params d) (db_points r)\<rparr>)
      else (Inl DatabaseFailed, r))"

definition publish_point :: "string \<Rightarrow> datapoint \<Rightarrow> registry \<Rightarrow> registry" where
  "publish_point now d r =
     r\<lparr>points := assoc_set (dp_id d) d (points r),
       vals := assoc_set (dp_id d) (new_value_state now) (vals r)\<rparr>"

definition create :: "uuid \<Rightarrow> string \<Rightarrow> bool \<Rightarrow> dp_create \<Rightarrow> registry \<Rightarrow> datapoint reg_result" where
  "create u now db_ok c r =
     (case prepare_create u now c of
        Inl e \<Rightarrow> (Inl (Invalid e), r)
      | Inr d \<Rightarrow>
          (case insert_row db_ok d r of
             (Inl e, r') \<Rightarrow> (Inl e, r')
           | (Inr _, r') \<Rightarrow> (Inr d, publish_point now d r')))"

definition set_opt :: "'a option \<Rightarrow> 'a \<Rightarrow> 'a" where
  "set_opt x old = (case x of None \<Rightarrow> old | Some y \<Rightarrow> y)"

definition apply_update :: "dp_update \<Rightarrow> string \<Rightarrow> datapoint \<Rightarrow> datapoint" where
  "apply_update p now d =
     d\<lparr>dp_name := set_opt (up_name p) (dp_name d),
       dp_data_type := set_opt (up_data_type p) (dp_data_type d),
       dp_unit := set_opt (up_unit p) (dp_unit d),
       dp_tags := set_opt (up_tags p) (dp_tags d),
       dp_mqtt_alias := set_opt (up_mqtt_alias p) (dp_mqtt_alias d),
       dp_persist_value := set_opt (up_persist_value p) (dp_persist_value d),
       dp_record_history := set_opt (up_record_history p) (dp_record_history d),
       dp_control_class := set_opt (up_control_class p) (dp_control_class d),
       dp_external_write_enabled := set_opt (up_external_write_enabled p) (dp_external_write_enabled d),
       dp_updated_at := now\<rparr>"

text \<open>The \<open>UPDATE\<close>: only the columns of the fields that are set, and \<open>updated_at\<close>.\<close>

definition update_columns :: "dp_update \<Rightarrow> string \<Rightarrow> dp_row \<Rightarrow> dp_row" where
  "update_columns p now w =
     w\<lparr>row_name := set_opt (up_name p) (row_name w),
       row_data_type := set_opt (up_data_type p) (row_data_type w),
       row_unit := set_opt (up_unit p) (row_unit w),
       row_tags := set_opt (map_option tags_json (up_tags p)) (row_tags w),
       row_mqtt_alias := set_opt (up_mqtt_alias p) (row_mqtt_alias w),
       row_persist := set_opt (map_option (\<lambda>b. Some (of_bool b)) (up_persist_value p)) (row_persist w),
       row_history := set_opt (map_option (\<lambda>b. Some (of_bool b)) (up_record_history p)) (row_history w),
       row_control_class := set_opt (map_option Some (up_control_class p)) (row_control_class w),
       row_external_write :=
         set_opt (map_option (\<lambda>b. Some (of_bool b)) (up_external_write_enabled p)) (row_external_write w),
       row_updated_at := now\<rparr>"

definition update_point ::
  "string \<Rightarrow> bool \<Rightarrow> bool \<Rightarrow> uuid \<Rightarrow> dp_update \<Rightarrow> registry \<Rightarrow> datapoint reg_result" where
  "update_point now db_ok delete_ok u p r =
     (case get_or_raise r u of
        Inl e \<Rightarrow> (Inl e, r)
      | Inr d \<Rightarrow>
          if is_system_datapoint u then (Inl ReadOnlySystem, r)
          else if \<not> db_ok then (Inl DatabaseFailed, r)
          else
            (let d' = apply_update p now d;
                 r1 = r\<lparr>db_points := (case map_of (db_points r) u of
                                         None \<Rightarrow> db_points r
                                       | Some w \<Rightarrow> assoc_set u (update_columns p now w) (db_points r)),
                        points := assoc_set u d' (points r)\<rparr>
             in if \<not> dp_persist_value d' \<and> \<not> delete_ok then (Inl DatabaseFailed, r1)
                else
                  (let r2 = (if dp_persist_value d' then r1
                             else r1\<lparr>db_last := assoc_del u (db_last r1)\<rparr>)
                   in (Inr d',
                       if dp_name d' \<noteq> dp_name d
                       then r2\<lparr>bus_out := bus_out r2
                              @ [RenamedEvent \<lparr>ren_dp = u, ren_old = dp_name d, ren_new = dp_name d'\<rparr>]\<rparr>
                       else r2))))"

text \<open>The row of the last value goes with the datapoint (\<open>ON DELETE CASCADE\<close>).\<close>

definition delete_point :: "bool \<Rightarrow> uuid \<Rightarrow> registry \<Rightarrow> unit reg_result" where
  "delete_point db_ok u r =
     (case get_or_raise r u of
        Inl e \<Rightarrow> (Inl e, r)
      | Inr d \<Rightarrow>
          if is_system_datapoint u then (Inl ReadOnlySystem, r)
          else if \<not> db_ok then (Inl DatabaseFailed, r)
          else (Inr (),
            r\<lparr>points := assoc_del u (points r), vals := assoc_del u (vals r),
              db_points := assoc_del u (db_points r), db_last := assoc_del u (db_last r),
              db_dp_roles := filter (\<lambda>v. v \<noteq> u) (db_dp_roles r)\<rparr>))"

subsection \<open>Loading\<close>

definition expected_system :: "string \<Rightarrow> system_dp_def \<Rightarrow> datapoint" where
  "expected_system now sd =
     set_default_mqtt_topic
       \<lparr>dp_id = system_uuid (sys_key sd), dp_name = sys_name sd, dp_data_type = sys_type sd,
        dp_unit = None, dp_tags = [system_tag], dp_mqtt_topic = [], dp_mqtt_alias = None,
        dp_persist_value = False, dp_record_history = False, dp_control_class = ''room_local'',
        dp_external_write_enabled = False, dp_created_at = now, dp_updated_at = now\<rparr>"

definition same_system_fields :: "datapoint \<Rightarrow> datapoint \<Rightarrow> bool" where
  "same_system_fields a b \<longleftrightarrow>
     dp_name a = dp_name b \<and> dp_data_type a = dp_data_type b \<and> dp_unit a = dp_unit b
     \<and> dp_tags a = dp_tags b \<and> dp_mqtt_topic a = dp_mqtt_topic b
     \<and> dp_mqtt_alias a = dp_mqtt_alias b \<and> dp_persist_value a = dp_persist_value b
     \<and> dp_record_history a = dp_record_history b \<and> dp_control_class a = dp_control_class b
     \<and> dp_external_write_enabled a = dp_external_write_enabled b"

definition restore_system_row :: "string \<Rightarrow> datapoint \<Rightarrow> dp_row \<Rightarrow> dp_row" where
  "restore_system_row now d w =
     w\<lparr>row_name := dp_name d, row_data_type := dp_data_type d, row_unit := None,
       row_tags := tags_json (dp_tags d), row_mqtt_topic := dp_mqtt_topic d, row_mqtt_alias := None,
       row_persist := Some 0, row_history := Some 0, row_control_class := Some (dp_control_class d),
       row_external_write := Some 0, row_updated_at := now\<rparr>"

definition ensure_system_row ::
  "(string \<Rightarrow> bool) \<Rightarrow> string \<Rightarrow> system_dp_def \<Rightarrow> (uuid \<times> dp_row) list
     \<Rightarrow> (pyerr, (uuid \<times> dp_row) list) result" where
  "ensure_system_row iso_ok now sd rows =
     (let d = expected_system now sd
      in case map_of rows (dp_id d) of
           None \<Rightarrow> Inr (assoc_set (dp_id d) (insert_params d) rows)
         | Some w \<Rightarrow>
             rbind (row_to_datapoint iso_ok w) (\<lambda>cur.
               if same_system_fields cur d then Inr rows
               else Inr (assoc_set (dp_id d) (restore_system_row now d w) rows)))"

fun ensure_system_rows ::
  "(string \<Rightarrow> bool) \<Rightarrow> string \<Rightarrow> system_dp_def list \<Rightarrow> (uuid \<times> dp_row) list
     \<Rightarrow> (pyerr, (uuid \<times> dp_row) list) result" where
  "ensure_system_rows iso_ok now [] rows = Inr rows"
| "ensure_system_rows iso_ok now (sd # sds) rows =
     rbind (ensure_system_row iso_ok now sd rows) (ensure_system_rows iso_ok now sds)"

definition ensure_system_datapoints ::
  "(string \<Rightarrow> bool) \<Rightarrow> string \<Rightarrow> registry \<Rightarrow> (pyerr, registry) result" where
  "ensure_system_datapoints iso_ok now r =
     rbind (ensure_system_rows iso_ok now system_datapoints (db_points r))
       (\<lambda>rows. Inr (r\<lparr>db_points := rows\<rparr>))"

fun load_rows :: "(string \<Rightarrow> bool) \<Rightarrow> string \<Rightarrow> dp_row list \<Rightarrow> registry \<Rightarrow> (pyerr, registry) result" where
  "load_rows iso_ok now [] r = Inr r"
| "load_rows iso_ok now (w # ws) r =
     rbind (row_to_datapoint iso_ok w) (\<lambda>d. load_rows iso_ok now ws (publish_point now d r))"

text \<open>A stored last value: JSON, else the text itself; dates and times through their type.\<close>

definition stored_value :: "host \<Rightarrow> type_table \<Rightarrow> string \<Rightarrow> string \<Rightarrow> (pyerr, pyval) result" where
  "stored_value h reg ty text =
     (let v = (case json_loads text of Inr v \<Rightarrow> v | Inl _ \<Rightarrow> PStr text)
      in if ty \<in> {''DATE'', ''TIME'', ''DATETIME''}
         then rbind (type_get reg ty) (\<lambda>td.
                case mqtt_deserializer td h text of
                  Inr w \<Rightarrow> Inr w
                | Inl e \<Rightarrow> if e \<in> {ValueError, TypeError} then Inr v else Inl e)
         else Inr v)"

definition restore_row ::
  "(string \<Rightarrow> bool) \<Rightarrow> host \<Rightarrow> type_table \<Rightarrow> string \<Rightarrow> last_row \<Rightarrow> registry \<Rightarrow> (pyerr, registry) result" where
  "restore_row iso_ok h reg now w r =
     rbind (of_opt ValueError (parse_uuid (last_id w))) (\<lambda>u.
       case (map_of (vals r) u, map_of (points r) u) of
         (Some s, Some d) \<Rightarrow>
           if \<not> dp_persist_value d then Inr r
           else rbind (stored_value h reg (dp_data_type d) (last_value w)) (\<lambda>v.
             Inr (r\<lparr>vals := assoc_set u
               (s\<lparr>vs_value := v, vs_quality := ''good'',
                  vs_ts := (if iso_ok (last_ts w) then last_ts w else now)\<rparr>) (vals r)\<rparr>))
       | _ \<Rightarrow> Inr r)"

fun restore_rows ::
  "(string \<Rightarrow> bool) \<Rightarrow> host \<Rightarrow> type_table \<Rightarrow> string \<Rightarrow> last_row list \<Rightarrow> registry
     \<Rightarrow> (pyerr, registry) result" where
  "restore_rows iso_ok h reg now [] r = Inr r"
| "restore_rows iso_ok h reg now (w # ws) r =
     rbind (restore_row iso_ok h reg now w r) (restore_rows iso_ok h reg now ws)"

definition load_from_db ::
  "(string \<Rightarrow> bool) \<Rightarrow> host \<Rightarrow> type_table \<Rightarrow> string \<Rightarrow> registry \<Rightarrow> (pyerr, nat \<times> registry) result" where
  "load_from_db iso_ok h reg now r =
     rbind (ensure_system_datapoints iso_ok now r) (\<lambda>r1.
     rbind (load_rows iso_ok now
              (sort_key (\<lambda>w. (row_created_at w, row_id w)) (map snd (db_points r1))) r1) (\<lambda>r2.
     rbind (restore_rows iso_ok h reg now (map snd (db_last r2)) r2) (\<lambda>r3.
       Inr (point_count r3, r3))))"

subsection \<open>Values\<close>

definition store_last :: "datapoint \<Rightarrow> value_event \<Rightarrow> string \<Rightarrow> registry \<Rightarrow> registry" where
  "store_last d e text r =
     r\<lparr>db_last := assoc_set (dp_id d)
        \<lparr>last_id = dp_id d, last_value = text, last_unit = dp_unit d, last_ts = ts_iso (ev_ts e)\<rparr>
        (db_last r)\<rparr>"

definition persist_step :: "bool \<Rightarrow> datapoint \<Rightarrow> value_event \<Rightarrow> registry \<Rightarrow> unit reg_result" where
  "persist_step db_ok d e r =
     (if dp_persist_value d \<and> ev_quality e = ''good''
      then (case core_json_dumps (ev_value e) of
              Inl x \<Rightarrow> (Inl (Invalid x), r)
            | Inr text \<Rightarrow> if db_ok then (Inr (), store_last d e text r) else (Inl DatabaseFailed, r))
      else (Inr (), r))"

definition mqtt_step :: "bool \<Rightarrow> datapoint \<Rightarrow> value_event \<Rightarrow> registry \<Rightarrow> unit reg_result" where
  "mqtt_step changed d e r =
     (case publish_value (dp_id d) (ev_value e) (dp_unit d) (ev_quality e)
             (if changed then dp_mqtt_alias d else None) (ev_ts e) (mqtt_queue r) of
        Inl x \<Rightarrow> (Inl (Invalid x), r)
      | Inr q \<Rightarrow> (Inr (), r\<lparr>mqtt_queue := q\<rparr>))"

text \<open>
  The handler of value events: state, stored value, messages.  An exception leaves the effects of
  the steps before it.
\<close>

definition registry_handle_value_event ::
  "string \<Rightarrow> bool \<Rightarrow> value_event \<Rightarrow> registry \<Rightarrow> unit reg_result" where
  "registry_handle_value_event now db_ok e r =
     (case map_of (points r) (ev_datapoint e) of
        None \<Rightarrow> (Inr (), r)
      | Some d \<Rightarrow>
          (case map_of (vals r) (ev_datapoint e) of
             None \<Rightarrow> (Inl (Invalid KeyError), r)
           | Some s \<Rightarrow>
               (let (changed, s') = update_state now (ev_value e) (ev_quality e) s
                in case persist_step db_ok d e (r\<lparr>vals := assoc_set (ev_datapoint e) s' (vals r)\<rparr>) of
                     (Inl x, r2) \<Rightarrow> (Inl x, r2)
                   | (Inr _, r2) \<Rightarrow> mqtt_step changed d e r2)))"

definition report_type_mismatch ::
  "string \<Rightarrow> uuid \<Rightarrow> string \<Rightarrow> string \<Rightarrow> string \<Rightarrow> pyval \<Rightarrow> registry \<Rightarrow> registry" where
  "report_type_mismatch now u expected got source v r =
     (case map_of (vals r) u of
        None \<Rightarrow> r
      | Some s \<Rightarrow>
          (let n = (case map_of (vs_diagnostics s) ''type_mismatch'' of
                      None \<Rightarrow> 1 | Some d \<Rightarrow> diag_count d + 1);
               d = \<lparr>diag_type = ''type_mismatch'', diag_expected = expected, diag_got = got,
                    diag_source = source, diag_count = n, diag_last_value = v, diag_updated_at = now\<rparr>
           in r\<lparr>vals := assoc_set u
                 (s\<lparr>vs_diagnostics := assoc_set ''type_mismatch'' d (vs_diagnostics s)\<rparr>) (vals r)\<rparr>))"

definition clear_diagnostic :: "uuid \<Rightarrow> string \<Rightarrow> registry \<Rightarrow> registry" where
  "clear_diagnostic u ty r =
     (case map_of (vals r) u of
        None \<Rightarrow> r
      | Some s \<Rightarrow>
          r\<lparr>vals := assoc_set u (s\<lparr>vs_diagnostics := assoc_del ty (vs_diagnostics s)\<rparr>) (vals r)\<rparr>)"

end
