(* ===== verification/Registry_Props.thy ===== *)
theory Registry_Props
  imports Datapoint_Registry
begin

text \<open>
  Correctness of the registry: rows read back the datapoints they were written from, memory and
  database agree after every operation, failed statements change nothing, system datapoints cannot
  be changed, and stored values survive a restart.
\<close>

section \<open>Rows\<close>

lemma plain_tags: "plain (PList (map PStr ts))"
  by (simp add: list_all_iff)

lemma tags_json_loads: "json_loads (tags_json ts) = Inr (PList (map PStr ts))"
proof -
  obtain s where s: "json_dumps (PList (map PStr ts)) = Inr s"
    using json_dumps_plain(1) [OF plain_tags] by blast
  with json_loads_dumps [OF plain_tags s] show ?thesis by (simp add: tags_json_def)
qed

lemma str_list_tags: "str_list (PList (map PStr ts)) = Some ts"
  by (simp add: list_all_iff o_def)

text \<open>A datapoint as the model builds it, with readable time stamps.\<close>

definition wf_datapoint :: "(string \<Rightarrow> bool) \<Rightarrow> datapoint \<Rightarrow> bool" where
  "wf_datapoint iso_ok d \<longleftrightarrow>
     parse_uuid (dp_id d) = Some (dp_id d) \<and> valid_name (dp_name d)
     \<and> valid_control_class (dp_control_class d) \<and> dp_mqtt_topic d \<noteq> []
     \<and> iso_ok (dp_created_at d) \<and> iso_ok (dp_updated_at d)"

text \<open>A row stands for a datapoint when reading it gives the datapoint.\<close>

definition row_of :: "(string \<Rightarrow> bool) \<Rightarrow> dp_row \<Rightarrow> datapoint \<Rightarrow> bool" where
  "row_of iso_ok w d \<longleftrightarrow> row_to_datapoint iso_ok w = Inr d"

lemma flag_simps [simp]:
  "flag b (Some (of_bool c)) = c" "flag b (Some 0) = False" "flag b (Some 1) = True"
  by (simp_all add: flag_def)

lemma of_opt_Inr: "of_opt e x = Inr y \<longleftrightarrow> x = Some y"
  by (simp add: of_opt_def split: option.splits)

lemma row_of_iff:
  "row_of iso_ok w d \<longleftrightarrow>
     (\<exists>u tj ts. parse_uuid (row_id w) = Some u \<and> json_loads (row_tags w) = Inr tj \<and> str_list tj = Some ts
        \<and> iso_ok (row_created_at w) \<and> iso_ok (row_updated_at w)
        \<and> valid_name (row_name w) \<and> valid_control_class (row_control w)
        \<and> d = set_default_mqtt_topic (row_fields u ts w))"
proof -
  have mk: "mk_datapoint (row_fields u ts w) = Inr d \<longleftrightarrow>
      valid_name (row_name w) \<and> valid_control_class (row_control w)
      \<and> d = set_default_mqtt_topic (row_fields u ts w)" for u ts
    by (auto simp: mk_datapoint_def row_fields_def)
  show ?thesis
    unfolding row_of_def row_to_datapoint_def rbind_eq_Inr of_opt_Inr
    by (auto simp: mk)
qed

lemma row_ofI:
  assumes "parse_uuid (row_id w) = Some u" "json_loads (row_tags w) = Inr tj" "str_list tj = Some ts"
    and "iso_ok (row_created_at w)" "iso_ok (row_updated_at w)"
    and "valid_name (row_name w)" "valid_control_class (row_control w)"
    and "d = set_default_mqtt_topic (row_fields u ts w)"
  shows "row_of iso_ok w d"
  unfolding row_of_iff using assms by blast

lemma row_fields_insert_params: "row_fields (dp_id d) (dp_tags d) (insert_params d) = d"
  by (rule datapoint.equality) (simp_all add: row_fields_def insert_params_def row_control_def)

lemma row_of_insert_params:
  assumes "wf_datapoint iso_ok d"
  shows "row_of iso_ok (insert_params d) d"
proof (rule row_ofI)
  show "d = set_default_mqtt_topic (row_fields (dp_id d) (dp_tags d) (insert_params d))"
    using assms by (simp add: row_fields_insert_params set_default_mqtt_topic_def wf_datapoint_def)
  show "json_loads (row_tags (insert_params d)) = Inr (PList (map PStr (dp_tags d)))"
    by (simp add: insert_params_def tags_json_loads)
qed (use assms in \<open>simp_all add: wf_datapoint_def insert_params_def row_control_def str_list_tags
      del: str_list.simps\<close>)

definition valid_update :: "dp_update \<Rightarrow> bool" where
  "valid_update p \<longleftrightarrow>
     (case up_name p of None \<Rightarrow> True | Some n \<Rightarrow> valid_name n)
     \<and> (case up_control_class p of None \<Rightarrow> True | Some c \<Rightarrow> valid_control_class c)"

lemma set_opt_simps [simp]: "set_opt None y = y" "set_opt (Some x) y = x"
  by (simp_all add: set_opt_def)

lemma flag_set_opt: "flag b (set_opt (map_option (\<lambda>c. Some (of_bool c)) x) y) = set_opt x (flag b y)"
  by (cases x) simp_all

lemma row_control_update: "row_control (update_columns p now w) = set_opt (up_control_class p) (row_control w)"
  by (cases "up_control_class p") (simp_all add: row_control_def update_columns_def)

lemma row_fields_update:
  "set_default_mqtt_topic (row_fields u (set_opt (up_tags p) ts) (update_columns p now w))
   = apply_update p now (set_default_mqtt_topic (row_fields u ts w))"
  by (rule datapoint.equality)
    (simp_all add: set_default_mqtt_topic_def row_fields_def row_control_update apply_update_def
      flag_set_opt, simp_all add: update_columns_def flag_set_opt)

lemma row_of_update:
  assumes "row_of iso_ok w d" and "valid_update p" and "iso_ok now"
  shows "row_of iso_ok (update_columns p now w) (apply_update p now d)"
proof -
  obtain u tj ts where w: "parse_uuid (row_id w) = Some u" "json_loads (row_tags w) = Inr tj"
      "str_list tj = Some ts" "iso_ok (row_created_at w)" "valid_name (row_name w)"
      "valid_control_class (row_control w)" "d = set_default_mqtt_topic (row_fields u ts w)"
    using assms(1) unfolding row_of_iff by blast
  define tj' where "tj' = (case up_tags p of None \<Rightarrow> tj | Some l \<Rightarrow> PList (map PStr l))"
  show ?thesis
  proof (rule row_ofI)
    show "apply_update p now d =
        set_default_mqtt_topic (row_fields u (set_opt (up_tags p) ts) (update_columns p now w))"
      by (simp add: row_fields_update w(7))
    show "json_loads (row_tags (update_columns p now w)) = Inr tj'"
      using w(2) by (cases "up_tags p") (simp_all add: update_columns_def tj'_def tags_json_loads)
    show "str_list tj' = Some (set_opt (up_tags p) ts)"
      using w(3) str_list_tags by (cases "up_tags p") (simp_all add: tj'_def del: str_list.simps)
    show "valid_name (row_name (update_columns p now w))"
      using w(5) assms(2) by (cases "up_name p") (simp_all add: update_columns_def valid_update_def)
    show "valid_control_class (row_control (update_columns p now w))"
      using w(6) assms(2) by (cases "up_control_class p") (simp_all add: row_control_update valid_update_def)
  qed (use w assms(3) in \<open>simp_all add: update_columns_def\<close>)
qed

section \<open>The invariant\<close>

text \<open>
  Memory and database agree: every datapoint has a value state and the other way round, and its row
  reads back exactly the datapoint in memory.
\<close>

definition backed :: "(string \<Rightarrow> bool) \<Rightarrow> (uuid \<times> dp_row) list \<Rightarrow> uuid \<Rightarrow> datapoint \<Rightarrow> bool" where
  "backed iso_ok rows u d \<longleftrightarrow>
     dp_id d = u \<and> (\<exists>w. map_of rows u = Some w \<and> row_of iso_ok w d)"

definition registry_inv :: "(string \<Rightarrow> bool) \<Rightarrow> registry \<Rightarrow> bool" where
  "registry_inv iso_ok r \<longleftrightarrow>
     (\<forall>u. map_of (points r) u = None \<longleftrightarrow> map_of (vals r) u = None)
     \<and> (\<forall>u d. map_of (points r) u = Some d \<longrightarrow> backed iso_ok (db_points r) u d)"

named_theorems reg_defs \<open>operations of the registry\<close>

declare publish_point_def [reg_defs] insert_row_def [reg_defs] create_def [reg_defs]
  delete_point_def [reg_defs] get_or_raise_def [reg_defs]
  report_type_mismatch_def [reg_defs] clear_diagnostic_def [reg_defs]

lemma registry_invD:
  assumes "registry_inv iso_ok r" and "map_of (points r) u = Some d"
  obtains w where "map_of (db_points r) u = Some w" "row_of iso_ok w d" "dp_id d = u"
proof -
  have "backed iso_ok (db_points r) u d"
    using assms unfolding registry_inv_def by blast
  then show thesis using that by (auto simp: backed_def)
qed

lemma registry_inv_cong:
  assumes "registry_inv iso_ok r" and "points r' = points r" and "db_points r' = db_points r"
    and "\<forall>u. map_of (vals r') u = None \<longleftrightarrow> map_of (vals r) u = None"
  shows "registry_inv iso_ok r'"
  using assms by (simp add: registry_inv_def)

lemma mk_datapoint_wf:
  assumes "prepare_create u now c = Inr d" "parse_uuid u = Some u" "iso_ok now"
  shows "wf_datapoint iso_ok d \<and> dp_id d = u"
  using assms by (auto simp: prepare_create_def mk_datapoint_def set_default_mqtt_topic_def
      wf_datapoint_def split: if_splits)

lemma create_inv:
  assumes "registry_inv iso_ok r" and "parse_uuid u = Some u" and "iso_ok now"
  shows "registry_inv iso_ok (snd (create u now ok c r))"
proof (cases "prepare_create u now c")
  case (Inr d)
  note wf = mk_datapoint_wf [where iso_ok = iso_ok, OF Inr assms(2,3)]
  show ?thesis
  proof (cases "ok \<and> map_of (db_points r) u = None")
    case True
    then have "create u now ok c r =
        (Inr d, publish_point now d (r\<lparr>db_points := assoc_set u (insert_params d) (db_points r)\<rparr>))"
      using Inr wf by (simp add: create_def insert_row_def)
    then show ?thesis
      using assms(1) wf row_of_insert_params [of iso_ok d]
      by (auto simp: registry_inv_def backed_def publish_point_def map_of_assoc_set)
  next
    case False
    then have "create u now ok c r = (Inl DatabaseFailed, r)"
      using Inr wf by (simp add: create_def insert_row_def)
    with assms(1) show ?thesis by simp
  qed
qed (use assms in \<open>simp add: create_def\<close>)

text \<open>The change an update makes, on the parts the invariant speaks of.\<close>

lemma update_point_cases:
  "(snd (update_point now ok del u p r) = r \<and> (\<exists>e. fst (update_point now ok del u p r) = Inl e))
   \<or> (\<exists>d. map_of (points r) u = Some d \<and> \<not> is_system_datapoint u \<and> ok
        \<and> points (snd (update_point now ok del u p r)) = assoc_set u (apply_update p now d) (points r)
        \<and> vals (snd (update_point now ok del u p r)) = vals r
        \<and> db_points (snd (update_point now ok del u p r))
          = (case map_of (db_points r) u of
               None \<Rightarrow> db_points r | Some w \<Rightarrow> assoc_set u (update_columns p now w) (db_points r)))"
  by (cases "map_of (points r) u") (simp_all add: update_point_def get_or_raise_def Let_def)

lemma apply_update_id [simp]: "dp_id (apply_update p now d) = dp_id d"
  by (simp add: apply_update_def)

lemma update_inv:
  assumes inv: "registry_inv iso_ok r" and p: "valid_update p" "iso_ok now"
  shows "registry_inv iso_ok (snd (update_point now ok del u p r))"
  using update_point_cases [of now ok del u p r]
proof (elim disjE exE conjE)
  fix d
  assume d: "map_of (points r) u = Some d"
    and pts: "points (snd (update_point now ok del u p r)) = assoc_set u (apply_update p now d) (points r)"
    and vs: "vals (snd (update_point now ok del u p r)) = vals r"
    and rows: "db_points (snd (update_point now ok del u p r))
          = (case map_of (db_points r) u of
               None \<Rightarrow> db_points r | Some w \<Rightarrow> assoc_set u (update_columns p now w) (db_points r))"
  obtain w where w: "map_of (db_points r) u = Some w" "row_of iso_ok w d" "dp_id d = u"
    by (rule registry_invD [OF inv d])
  show ?thesis
  proof -
    have "map_of (vals r) u \<noteq> None"
      using inv d unfolding registry_inv_def by (metis option.distinct(1))
    then show ?thesis
      using inv w(1,3) row_of_update [OF w(2) p]
      unfolding registry_inv_def backed_def pts vs rows
      by (simp add: map_of_assoc_set)
  qed
qed (use inv in simp)

lemma delete_inv:
  assumes "registry_inv iso_ok r"
  shows "registry_inv iso_ok (snd (delete_point ok u r))"
proof (cases "map_of (points r) u = None \<or> is_system_datapoint u \<or> \<not> ok")
  case True
  then show ?thesis using assms by (auto simp: delete_point_def get_or_raise_def split: option.splits)
next
  case False
  then have r': "points (snd (delete_point ok u r)) = assoc_del u (points r)"
      "vals (snd (delete_point ok u r)) = assoc_del u (vals r)"
      "db_points (snd (delete_point ok u r)) = assoc_del u (db_points r)"
    by (auto simp: delete_point_def get_or_raise_def)
  show ?thesis
    using assms unfolding registry_inv_def r'
    by (simp add: map_of_assoc_del backed_def split: if_splits)
qed

lemma set_value_inv:
  assumes "registry_inv iso_ok r" and "map_of (vals r) u = Some s"
  shows "registry_inv iso_ok (r\<lparr>vals := assoc_set u s' (vals r)\<rparr>)"
  by (rule registry_inv_cong [OF assms(1)]) (use assms(2) in \<open>auto simp: map_of_assoc_set\<close>)

lemma report_inv:
  "registry_inv iso_ok r \<Longrightarrow> registry_inv iso_ok (report_type_mismatch now u x g s v r)"
  by (cases "map_of (vals r) u") (simp_all add: report_type_mismatch_def Let_def set_value_inv)

lemma clear_inv: "registry_inv iso_ok r \<Longrightarrow> registry_inv iso_ok (clear_diagnostic u ty r)"
  by (cases "map_of (vals r) u") (simp_all add: clear_diagnostic_def set_value_inv)

text \<open>What a value event can change: the value state of its datapoint, the stored value, the queue.\<close>

lemma value_event_frame:
  assumes r': "r' = snd (registry_handle_value_event now ok e r)"
  shows "points r' = points r \<and> db_points r' = db_points r \<and> bus_out r' = bus_out r
    \<and> db_dp_roles r' = db_dp_roles r
    \<and> (vals r' = vals r \<or>
       (\<exists>s. map_of (vals r) (ev_datapoint e) = Some s
          \<and> vals r' = assoc_set (ev_datapoint e) (snd (update_state now (ev_value e) (ev_quality e) s)) (vals r)))"
proof -
  have m: "points (snd (mqtt_step c d e q)) = points q \<and> vals (snd (mqtt_step c d e q)) = vals q
      \<and> db_points (snd (mqtt_step c d e q)) = db_points q \<and> bus_out (snd (mqtt_step c d e q)) = bus_out q
      \<and> db_dp_roles (snd (mqtt_step c d e q)) = db_dp_roles q" for c d q
    by (simp add: mqtt_step_def split: sum.splits)
  have p: "points (snd (persist_step ok d e q)) = points q \<and> vals (snd (persist_step ok d e q)) = vals q
      \<and> db_points (snd (persist_step ok d e q)) = db_points q \<and> bus_out (snd (persist_step ok d e q)) = bus_out q
      \<and> db_dp_roles (snd (persist_step ok d e q)) = db_dp_roles q" for d q
    by (simp add: persist_step_def store_last_def split: sum.splits)
  show ?thesis
  proof (cases "map_of (points r) (ev_datapoint e)")
    case None
    then show ?thesis by (simp add: r' registry_handle_value_event_def)
  next
    case d: (Some d)
    show ?thesis
    proof (cases "map_of (vals r) (ev_datapoint e)")
      case None
      with d show ?thesis by (simp add: r' registry_handle_value_event_def)
    next
      case s: (Some s)
      obtain c s' where u: "update_state now (ev_value e) (ev_quality e) s = (c, s')"
        by (cases "update_state now (ev_value e) (ev_quality e) s")
      let ?r1 = "r\<lparr>vals := assoc_set (ev_datapoint e) s' (vals r)\<rparr>"
      obtain x r2 where x: "persist_step ok d e ?r1 = (x, r2)"
        by (cases "persist_step ok d e ?r1")
      have "r' = (case x of Inl _ \<Rightarrow> r2 | Inr _ \<Rightarrow> snd (mqtt_step c d e r2))"
        by (cases x) (simp_all add: r' registry_handle_value_event_def d s u x)
      then show ?thesis
        using m [of c d r2] p [of d ?r1] x s u by (cases x) simp_all
    qed
  qed
qed

lemma value_event_inv:
  assumes "registry_inv iso_ok r"
  shows "registry_inv iso_ok (snd (registry_handle_value_event now ok e r))"
  using value_event_frame [OF refl, of now ok e r]
  by (intro registry_inv_cong [OF assms]) (auto simp: map_of_assoc_set split: if_splits)

section \<open>The registry as a state machine\<close>

text \<open>
  The operations in any order, with any outcome of the database.  New identifiers are UUIDs, time
  stamps are readable, patches are validated; a value of a system datapoint comes from the backend,
  which the event bus sees to.
\<close>

inductive registry_step :: "(string \<Rightarrow> bool) \<Rightarrow> registry \<Rightarrow> registry \<Rightarrow> bool" for iso_ok where
  step_create: "parse_uuid u = Some u \<Longrightarrow> iso_ok now \<Longrightarrow>
    registry_step iso_ok r (snd (create u now ok c r))"
| step_update: "valid_update p \<Longrightarrow> iso_ok now \<Longrightarrow>
    registry_step iso_ok r (snd (update_point now ok del u p r))"
| step_delete: "registry_step iso_ok r (snd (delete_point ok u r))"
| step_value: "\<not> rejected (ValueEvent e) \<Longrightarrow>
    registry_step iso_ok r (snd (registry_handle_value_event now ok e r))"
| step_report: "registry_step iso_ok r (report_type_mismatch now u x g s v r)"
| step_clear: "registry_step iso_ok r (clear_diagnostic u ty r)"

inductive registry_reach :: "(string \<Rightarrow> bool) \<Rightarrow> registry \<Rightarrow> registry \<Rightarrow> bool" for iso_ok r where
  reach_start: "registry_reach iso_ok r r"
| reach_more: "registry_reach iso_ok r r' \<Longrightarrow> registry_step iso_ok r' r'' \<Longrightarrow> registry_reach iso_ok r r''"

lemma registry_step_inv:
  "registry_step iso_ok r r' \<Longrightarrow> registry_inv iso_ok r \<Longrightarrow> registry_inv iso_ok r'"
  by (induction rule: registry_step.induct)
    (simp_all add: create_inv update_inv delete_inv value_event_inv report_inv clear_inv)

text \<open>A system datapoint that exists keeps its definition and its row.\<close>

definition system_kept :: "registry \<Rightarrow> registry \<Rightarrow> uuid \<Rightarrow> bool" where
  "system_kept r r' u \<longleftrightarrow>
     map_of (points r') u = map_of (points r) u \<and> map_of (db_points r') u = map_of (db_points r) u"

lemma create_system_kept:
  assumes "map_of (db_points r) v \<noteq> None"
  shows "system_kept r (snd (create u now ok c r)) v"
proof (cases "prepare_create u now c")
  case (Inr d)
  then show ?thesis
    using assms by (auto simp: system_kept_def create_def insert_row_def publish_point_def map_of_assoc_set)
qed (simp add: create_def system_kept_def)

lemma update_system_kept:
  "is_system_datapoint v \<Longrightarrow> system_kept r (snd (update_point now ok del u p r)) v"
  using update_point_cases [of now ok del u p r]
  by (auto simp: system_kept_def map_of_assoc_set split: option.splits)

lemma delete_system_kept: "is_system_datapoint v \<Longrightarrow> system_kept r (snd (delete_point ok u r)) v"
  by (auto simp: system_kept_def delete_point_def get_or_raise_def map_of_assoc_del split: option.splits)

lemma step_system_kept:
  assumes "registry_step iso_ok r r'" and "is_system_datapoint v" and "map_of (db_points r) v \<noteq> None"
  shows "system_kept r r' v"
  using assms
proof (induction rule: registry_step.induct)
  case (step_value e r now ok)
  then show ?case using value_event_frame [OF refl, of now ok e r] by (simp add: system_kept_def)
next
  case (step_report r now u x g s v')
  then show ?case by (simp add: system_kept_def report_type_mismatch_def Let_def split: option.splits)
next
  case (step_clear r u ty)
  then show ?case by (simp add: system_kept_def clear_diagnostic_def split: option.splits)
qed (simp_all add: create_system_kept update_system_kept delete_system_kept)


section \<open>Loading\<close>

text \<open>The tables are keyed by the canonical text of the UUID.\<close>

definition keyed :: "(uuid \<times> dp_row) list \<Rightarrow> bool" where
  "keyed rows \<longleftrightarrow> distinct (map fst rows) \<and> (\<forall>(u, w) \<in> set rows. row_id w = u \<and> parse_uuid u = Some u)"

lemma load_rows_inv:
  assumes "load_rows iso_ok now ws r = Inr r'" and "registry_inv iso_ok r"
    and "\<forall>w \<in> set ws. map_of (db_points r) (row_id w) = Some w \<and> parse_uuid (row_id w) = Some (row_id w)"
  shows "registry_inv iso_ok r' \<and> db_points r' = db_points r \<and> db_last r' = db_last r
    \<and> (\<forall>u. map_of (points r') u \<noteq> None \<longleftrightarrow> u \<in> row_id ` set ws \<or> map_of (points r) u \<noteq> None)"
  using assms
proof (induction ws arbitrary: r)
  case Nil
  then show ?case by simp
next
  case (Cons w ws)
  then obtain d where d: "row_to_datapoint iso_ok w = Inr d"
      "load_rows iso_ok now ws (publish_point now d r) = Inr r'"
    by (auto simp: rbind_eq_Inr)
  then have w: "row_of iso_ok w d" by (simp add: row_of_def)
  have id: "dp_id d = row_id w"
    using w Cons.prems(3) by (auto simp: row_of_iff set_default_mqtt_topic_def row_fields_def)
  have "registry_inv iso_ok (publish_point now d r)"
    using Cons.prems(2,3) w id
    unfolding registry_inv_def backed_def by (simp add: publish_point_def map_of_assoc_set)
  from Cons.IH [OF d(2) this] Cons.prems(3) id show ?case
    by (auto simp: publish_point_def map_of_assoc_set)
qed

lemma restore_row_cases:
  assumes "restore_row iso_ok h reg now w r = Inr r'"
  shows "r' = r \<or> (\<exists>u s s'. map_of (vals r) u = Some s \<and> r' = r\<lparr>vals := assoc_set u s' (vals r)\<rparr>)"
proof -
  obtain u where u: "parse_uuid (last_id w) = Some u"
    using assms by (auto simp: restore_row_def rbind_eq_Inr of_opt_Inr)
  show ?thesis
  proof (cases "map_of (vals r) u")
    case None
    with assms u show ?thesis by (simp add: restore_row_def of_opt_def)
  next
    case s: (Some s)
    show ?thesis
    proof (cases "map_of (points r) u")
      case None
      with assms u s show ?thesis by (simp add: restore_row_def of_opt_def)
    next
      case d: (Some d)
      show ?thesis
      proof (cases "dp_persist_value d")
        case True
        then obtain s' where "r' = r\<lparr>vals := assoc_set u s' (vals r)\<rparr>"
          using assms u s d by (auto simp: restore_row_def of_opt_def rbind_eq_Inr)
        with s show ?thesis by blast
      next
        case False
        with assms u s d show ?thesis by (simp add: restore_row_def of_opt_def)
      qed
    qed
  qed
qed

lemma restore_row_inv:
  assumes "restore_row iso_ok h reg now w r = Inr r'" and "registry_inv iso_ok r"
  shows "registry_inv iso_ok r' \<and> points r' = points r \<and> db_points r' = db_points r"
  using restore_row_cases [OF assms(1)] assms(2) by (auto intro: set_value_inv)

lemma restore_rows_inv:
  "restore_rows iso_ok h reg now ws r = Inr r' \<Longrightarrow> registry_inv iso_ok r \<Longrightarrow>
   registry_inv iso_ok r' \<and> points r' = points r \<and> db_points r' = db_points r"
proof (induction ws arbitrary: r)
  case (Cons w ws)
  then obtain r1 where "restore_row iso_ok h reg now w r = Inr r1"
      "restore_rows iso_ok h reg now ws r1 = Inr r'"
    by (auto simp: rbind_eq_Inr)
  with Cons restore_row_inv show ?case by metis
qed simp

lemma row_to_datapoint_id:
  "row_to_datapoint iso_ok w = Inr d \<Longrightarrow> parse_uuid (row_id w) = Some (dp_id d)"
  by (auto simp: row_to_datapoint_def rbind_eq_Inr of_opt_Inr mk_datapoint_def
      set_default_mqtt_topic_def row_fields_def split: if_splits)

lemma keyed_put:
  assumes "keyed rows" and "row_id w = u" and "parse_uuid u = Some u"
  shows "keyed (assoc_set u w rows)"
proof -
  have "set (assoc_set u w rows) \<subseteq> insert (u, w) (set rows)"
    by (induction u w rows rule: assoc_set.induct) auto
  with assms show ?thesis by (auto simp: keyed_def distinct_assoc_set)
qed

lemma keyed_get: "keyed rows \<Longrightarrow> map_of rows u = Some w \<Longrightarrow> row_id w = u \<and> parse_uuid u = Some u"
  by (auto simp: keyed_def dest: map_of_SomeD)

lemma system_uuids_canonical:
  "parse_uuid ''986724a8-f7cc-53d9-980a-027c47ca7e43'' = Some ''986724a8-f7cc-53d9-980a-027c47ca7e43''"
  "parse_uuid ''3798f13a-7a2f-5d71-937f-de53c929098a'' = Some ''3798f13a-7a2f-5d71-937f-de53c929098a''"
  "parse_uuid ''1cd54729-d457-51c7-981a-2b31c9aac15b'' = Some ''1cd54729-d457-51c7-981a-2b31c9aac15b''"
  "parse_uuid ''9f70eb45-f1aa-5ae0-86c2-69bab3f817ba'' = Some ''9f70eb45-f1aa-5ae0-86c2-69bab3f817ba''"
  "parse_uuid ''e9a22ddf-c977-5676-a9b6-e5dc8278f63e'' = Some ''e9a22ddf-c977-5676-a9b6-e5dc8278f63e''"
proof -
  show "parse_uuid ''986724a8-f7cc-53d9-980a-027c47ca7e43'' = Some ''986724a8-f7cc-53d9-980a-027c47ca7e43''"
    by (rule parse_uuid_text [of _ "''986724a8f7cc53d9980a027c47ca7e43''"]) (simp_all add: group_uuid_def is_low_hex_def code_def)
  show "parse_uuid ''3798f13a-7a2f-5d71-937f-de53c929098a'' = Some ''3798f13a-7a2f-5d71-937f-de53c929098a''"
    by (rule parse_uuid_text [of _ "''3798f13a7a2f5d71937fde53c929098a''"]) (simp_all add: group_uuid_def is_low_hex_def code_def)
  show "parse_uuid ''1cd54729-d457-51c7-981a-2b31c9aac15b'' = Some ''1cd54729-d457-51c7-981a-2b31c9aac15b''"
    by (rule parse_uuid_text [of _ "''1cd54729d45751c7981a2b31c9aac15b''"]) (simp_all add: group_uuid_def is_low_hex_def code_def)
  show "parse_uuid ''9f70eb45-f1aa-5ae0-86c2-69bab3f817ba'' = Some ''9f70eb45-f1aa-5ae0-86c2-69bab3f817ba''"
    by (rule parse_uuid_text [of _ "''9f70eb45f1aa5ae086c269bab3f817ba''"]) (simp_all add: group_uuid_def is_low_hex_def code_def)
  show "parse_uuid ''e9a22ddf-c977-5676-a9b6-e5dc8278f63e'' = Some ''e9a22ddf-c977-5676-a9b6-e5dc8278f63e''"
    by (rule parse_uuid_text [of _ "''e9a22ddfc9775676a9b6e5dc8278f63e''"]) (simp_all add: group_uuid_def is_low_hex_def code_def)
qed

lemma system_uuid_canonical:
  "sd \<in> set system_datapoints \<Longrightarrow> parse_uuid (system_uuid (sys_key sd)) = Some (system_uuid (sys_key sd))"
  by (auto simp: system_datapoints_def system_uuid_def system_uuids_canonical)

definition ensured :: "(string \<Rightarrow> bool) \<Rightarrow> string \<Rightarrow> (uuid \<times> dp_row) list \<Rightarrow> system_dp_def \<Rightarrow> bool" where
  "ensured iso_ok now rows sd \<longleftrightarrow>
     (\<exists>w d. map_of rows (system_uuid (sys_key sd)) = Some w \<and> row_of iso_ok w d
        \<and> same_system_fields d (expected_system now sd))"

lemma expected_system_fields [simp]:
  "dp_id (expected_system now sd) = system_uuid (sys_key sd)"
  "dp_name (expected_system now sd) = sys_name sd"
  "dp_control_class (expected_system now sd) = ''room_local''"
  "dp_created_at (expected_system now sd) = now" "dp_updated_at (expected_system now sd) = now"
  "dp_tags (expected_system now sd) = [system_tag]"
  "dp_data_type (expected_system now sd) = sys_type sd" "dp_unit (expected_system now sd) = None"
  "dp_mqtt_alias (expected_system now sd) = None" "dp_persist_value (expected_system now sd) = False"
  "dp_record_history (expected_system now sd) = False"
  "dp_external_write_enabled (expected_system now sd) = False"
  "dp_mqtt_topic (expected_system now sd) \<noteq> []"
  by (simp_all add: expected_system_def set_default_mqtt_topic_def)

lemma expected_system_wf:
  assumes "sd \<in> set system_datapoints" and "iso_ok now"
  shows "wf_datapoint iso_ok (expected_system now sd)"
proof -
  have "valid_name (sys_name sd)"
    using assms(1) by (auto simp: system_datapoints_def valid_name_def)
  with assms system_uuid_canonical show ?thesis
    by (simp add: wf_datapoint_def valid_control_class_def)
qed

lemma restore_system_row_of:
  assumes "row_of iso_ok w cur" and "iso_ok now" and "sd \<in> set system_datapoints"
    and "row_id w = system_uuid (sys_key sd)"
  shows "\<exists>d. row_of iso_ok (restore_system_row now (expected_system now sd) w) d
    \<and> same_system_fields d (expected_system now sd)"
proof -
  let ?e = "expected_system now sd"
  let ?w = "restore_system_row now ?e w"
  let ?d = "set_default_mqtt_topic (row_fields (dp_id ?e) [system_tag] ?w)"
  have "row_of iso_ok ?w ?d"
  proof (rule row_ofI [OF _ _ _ _ _ _ _ refl])
    show "parse_uuid (row_id ?w) = Some (dp_id ?e)"
      using system_uuid_canonical [OF assms(3)] assms(4) by (simp add: restore_system_row_def)
    show "json_loads (row_tags ?w) = Inr (PList (map PStr [system_tag]))"
      using tags_json_loads [of "[system_tag]"] by (simp add: restore_system_row_def)
    show "str_list (PList (map PStr [system_tag])) = Some [system_tag]"
      by (rule str_list_tags)
    show "iso_ok (row_created_at ?w)"
      using assms(1) by (auto simp: row_of_iff restore_system_row_def)
    show "valid_name (row_name ?w)"
      using expected_system_wf [where iso_ok = iso_ok, OF assms(3,2)]
      by (simp add: wf_datapoint_def restore_system_row_def)
  qed (simp_all add: restore_system_row_def assms(2) row_control_def valid_control_class_def)
  moreover have "same_system_fields ?d ?e"
    by (simp add: same_system_fields_def set_default_mqtt_topic_def row_fields_def restore_system_row_def
        row_control_def)
  ultimately show ?thesis by blast
qed

lemma ensure_system_row_ok:
  assumes "ensure_system_row iso_ok now sd rows = Inr rows'" and "keyed rows" and "iso_ok now"
    and "sd \<in> set system_datapoints"
  shows "keyed rows' \<and> ensured iso_ok now rows' sd
    \<and> (\<forall>u. u \<noteq> system_uuid (sys_key sd) \<longrightarrow> map_of rows' u = map_of rows u)"
proof -
  let ?e = "expected_system now sd"
  let ?u = "system_uuid (sys_key sd)"
  note canon = system_uuid_canonical [OF assms(4)]
  show ?thesis
  proof (cases "map_of rows ?u")
    case None
    then have "rows' = assoc_set ?u (insert_params ?e) rows"
      using assms(1) by (simp add: ensure_system_row_def Let_def)
    moreover have "row_of iso_ok (insert_params ?e) ?e"
      by (rule row_of_insert_params, rule expected_system_wf) (simp_all add: assms)
    moreover have "same_system_fields ?e ?e" by (simp add: same_system_fields_def)
    ultimately show ?thesis
      using canon assms(2)
      by (auto simp: ensured_def map_of_assoc_set insert_params_def intro!: keyed_put)
  next
    case (Some w)
    then obtain cur where cur: "row_of iso_ok w cur"
        "rows' = (if same_system_fields cur ?e then rows else assoc_set ?u (restore_system_row now ?e w) rows)"
      using assms(1) by (auto simp: ensure_system_row_def Let_def rbind_eq_Inr row_of_def split: if_splits)
    have id: "row_id w = ?u" using keyed_get [OF assms(2) Some] by simp
    show ?thesis
    proof (cases "same_system_fields cur ?e")
      case True
      then show ?thesis using cur Some assms(2) by (auto simp: ensured_def)
    next
      case False
      then show ?thesis
        using cur restore_system_row_of [OF cur(1) assms(3,4) id] canon assms(2) id
        by (auto simp: ensured_def map_of_assoc_set restore_system_row_def intro!: keyed_put)
    qed
  qed
qed

lemma ensure_system_rows_ok:
  assumes "ensure_system_rows iso_ok now sds rows = Inr rows'" and "keyed rows" and "iso_ok now"
    and "set sds \<subseteq> set system_datapoints" and "distinct (map (\<lambda>d. system_uuid (sys_key d)) sds)"
  shows "keyed rows' \<and> (\<forall>sd \<in> set sds. ensured iso_ok now rows' sd)
    \<and> (\<forall>u. u \<notin> (\<lambda>d. system_uuid (sys_key d)) ` set sds \<longrightarrow> map_of rows' u = map_of rows u)"
  using assms
proof (induction sds arbitrary: rows)
  case (Cons sd sds)
  then obtain rows1 where r1: "ensure_system_row iso_ok now sd rows = Inr rows1"
      "ensure_system_rows iso_ok now sds rows1 = Inr rows'"
    by (auto simp: rbind_eq_Inr)
  have s: "sd \<in> set system_datapoints" using Cons.prems(4) by simp
  note one = ensure_system_row_ok [OF r1(1) Cons.prems(2,3) s]
  have rest: "keyed rows' \<and> (\<forall>sd \<in> set sds. ensured iso_ok now rows' sd)
    \<and> (\<forall>u. u \<notin> (\<lambda>d. system_uuid (sys_key d)) ` set sds \<longrightarrow> map_of rows' u = map_of rows1 u)"
    by (rule Cons.IH [OF r1(2)]) (use one Cons.prems in auto)
  have "system_uuid (sys_key sd) \<notin> (\<lambda>d. system_uuid (sys_key d)) ` set sds"
    using Cons.prems(5) by auto
  with one rest have "ensured iso_ok now rows' sd" by (simp add: ensured_def)
  with one rest show ?case by auto
qed simp

lemma keyed_rows:
  assumes "keyed rows"
  shows "\<forall>w \<in> snd ` set rows. map_of rows (row_id w) = Some w \<and> parse_uuid (row_id w) = Some (row_id w)"
    and "row_id ` snd ` set rows = fst ` set rows"
proof -
  have k: "distinct (map fst rows)" "\<forall>(u, w) \<in> set rows. row_id w = u \<and> parse_uuid u = Some u"
    using assms unfolding keyed_def by auto
  then show "\<forall>w \<in> snd ` set rows. map_of rows (row_id w) = Some w \<and> parse_uuid (row_id w) = Some (row_id w)"
    by auto
  have "\<forall>p \<in> set rows. row_id (snd p) = fst p" using k(2) by auto
  then show "row_id ` snd ` set rows = fst ` set rows" by (simp add: image_image)
qed

text \<open>
  C16. Loading leaves exactly one datapoint for each row of the database, each as its row says, and
  every system datapoint exists with the definition the program gives it, whether its row was
  missing, altered or intact.
\<close>

theorem load_from_db_complete:
  assumes "load_from_db iso_ok h reg now r = Inr (n, r')" and "keyed (db_points r)"
    and "points r = []" and "vals r = []" and "iso_ok now"
  shows "registry_inv iso_ok r'
    \<and> (\<forall>u. registry_get r' u \<noteq> None \<longleftrightarrow> map_of (db_points r') u \<noteq> None)
    \<and> (\<forall>u. u \<notin> set system_ids \<longrightarrow> map_of (db_points r') u = map_of (db_points r) u)
    \<and> (\<forall>sd \<in> set system_datapoints. \<exists>d. registry_get r' (system_uuid (sys_key sd)) = Some d
         \<and> same_system_fields d (expected_system now sd))"
proof -
  obtain rows r1 r2 where rows: "ensure_system_rows iso_ok now system_datapoints (db_points r) = Inr rows"
    and r1: "r1 = r\<lparr>db_points := rows\<rparr>"
    and r2: "load_rows iso_ok now (sort_key (\<lambda>w. (row_created_at w, row_id w)) (map snd rows)) r1 = Inr r2"
    and r3: "restore_rows iso_ok h reg now (map snd (db_last r2)) r2 = Inr r'"
    using assms(1) by (auto simp: load_from_db_def ensure_system_datapoints_def rbind_eq_Inr)
  have ids: "distinct (map (\<lambda>d. system_uuid (sys_key d)) system_datapoints)"
    using system_ids_eq by (simp add: system_ids_def)
  note ens = ensure_system_rows_ok [OF rows assms(2,5) subset_refl ids]
  have kr: "keyed rows" using ens by blast
  note ws = keyed_rows(1) [OF kr] and img = keyed_rows(2) [OF kr]
  have inv1: "registry_inv iso_ok r1" by (simp add: r1 registry_inv_def assms(3,4))
  have l: "registry_inv iso_ok r2 \<and> db_points r2 = rows
      \<and> (\<forall>u. map_of (points r2) u \<noteq> None \<longleftrightarrow> u \<in> row_id ` snd ` set rows)"
  proof -
    have p3: "\<forall>w \<in> set (sort_key (\<lambda>w. (row_created_at w, row_id w)) (map snd rows)).
        map_of (db_points r1) (row_id w) = Some w \<and> parse_uuid (row_id w) = Some (row_id w)"
      using ws by (simp add: r1)
    show ?thesis using load_rows_inv [OF r2 inv1 p3] by (simp add: r1 assms(3))
  qed
  note fin = restore_rows_inv [OF r3 conjunct1 [OF l]]
  have all: "registry_get r' u \<noteq> None \<longleftrightarrow> map_of rows u \<noteq> None" for u
    using fin l img by (simp add: registry_get_def map_of_eq_None_iff)
  have "\<exists>d. registry_get r' (system_uuid (sys_key sd)) = Some d
         \<and> same_system_fields d (expected_system now sd)" if sd: "sd \<in> set system_datapoints" for sd
  proof -
    obtain w d where w: "map_of rows (system_uuid (sys_key sd)) = Some w" "row_of iso_ok w d"
        "same_system_fields d (expected_system now sd)"
      using bspec [OF conjunct1 [OF conjunct2 [OF ens]] sd] unfolding ensured_def by blast
    then obtain d' where d': "registry_get r' (system_uuid (sys_key sd)) = Some d'"
      using all [of "system_uuid (sys_key sd)"] by auto
    then have "row_of iso_ok w d'"
      using fin l w(1) by (auto simp: registry_get_def elim!: registry_invD)
    then have "d' = d" using w(2) by (simp add: row_of_def)
    with d' w(3) show ?thesis by blast
  qed
  moreover have "map_of (db_points r') u = map_of (db_points r) u" if "u \<notin> set system_ids" for u
    using ens fin l that by (simp add: system_ids_def)
  moreover have "db_points r' = rows" using fin l by simp
  ultimately show ?thesis using fin all by simp
qed

definition empty_registry :: registry where
  "empty_registry = \<lparr>points = [], vals = [], db_points = [], db_last = [], db_dp_roles = [],
     mqtt_queue = [], bus_out = []\<rparr>"

lemma load_rows_ok:
  "\<forall>w \<in> set ws. \<exists>d. row_of iso_ok w d \<Longrightarrow>
   \<exists>r'. load_rows iso_ok now ws r = Inr r' \<and> db_last r' = db_last r"
proof (induction ws arbitrary: r)
  case (Cons w ws)
  then obtain d where "row_of iso_ok w d" by auto
  moreover obtain r' where "load_rows iso_ok now ws (publish_point now d r) = Inr r'"
      "db_last r' = db_last (publish_point now d r)"
    using Cons by fastforce
  ultimately show ?case by (simp add: row_of_def publish_point_def)
qed simp

lemma ensure_system_rows_fresh:
  assumes "\<forall>sd \<in> set sds. map_of rows (system_uuid (sys_key sd)) = None"
    and "distinct (map (\<lambda>d. system_uuid (sys_key d)) sds)"
  shows "ensure_system_rows iso_ok now sds rows =
    Inr (fold (\<lambda>sd. assoc_set (system_uuid (sys_key sd)) (insert_params (expected_system now sd))) sds rows)"
  using assms
proof (induction sds arbitrary: rows)
  case (Cons sd sds)
  let ?rows = "assoc_set (system_uuid (sys_key sd)) (insert_params (expected_system now sd)) rows"
  have "\<forall>x \<in> set sds. map_of ?rows (system_uuid (sys_key x)) = None"
  proof
    fix x
    assume x: "x \<in> set sds"
    have "system_uuid (sys_key x) \<in> (\<lambda>d. system_uuid (sys_key d)) ` set sds"
      using x by (rule imageI)
    moreover have "system_uuid (sys_key sd) \<notin> (\<lambda>d. system_uuid (sys_key d)) ` set sds"
      using Cons.prems(2) by simp
    ultimately have "system_uuid (sys_key x) \<noteq> system_uuid (sys_key sd)" by metis
    with x Cons.prems(1) show "map_of ?rows (system_uuid (sys_key x)) = None"
      by (simp add: map_of_assoc_set)
  qed
  then have "ensure_system_rows iso_ok now sds ?rows = Inr (fold
      (\<lambda>sd. assoc_set (system_uuid (sys_key sd)) (insert_params (expected_system now sd))) sds ?rows)"
    using Cons.prems(2) by (intro Cons.IH) simp_all
  with Cons.prems(1) show ?case by (simp add: ensure_system_row_def Let_def)
qed simp

lemma snd_assoc_set: "snd ` set (assoc_set k v kvs) \<subseteq> insert v (snd ` set kvs)"
  by (induction k v kvs rule: assoc_set.induct) auto

lemma fold_assoc_set_rows:
  "w \<in> snd ` set (fold (\<lambda>sd. assoc_set (f sd) (g sd)) sds rows) \<Longrightarrow>
   w \<in> snd ` set rows \<or> (\<exists>sd \<in> set sds. w = g sd)"
proof (induction sds arbitrary: rows)
  case (Cons sd sds)
  from Cons.prems have "w \<in> snd ` set (assoc_set (f sd) (g sd) rows) \<or> (\<exists>x \<in> set sds. w = g x)"
    by (intro Cons.IH) simp
  then show ?case using snd_assoc_set [of "f sd" "g sd" rows] by auto
qed simp

lemma load_from_db_fresh:
  assumes "iso_ok now"
  shows "\<exists>n r'. load_from_db iso_ok h reg now empty_registry = Inr (n, r')"
proof -
  let ?rows = "fold (\<lambda>sd. assoc_set (system_uuid (sys_key sd)) (insert_params (expected_system now sd)))
    system_datapoints []"
  have ids: "distinct (map (\<lambda>d. system_uuid (sys_key d)) system_datapoints)"
    using system_ids_eq by (simp add: system_ids_def)
  have e: "ensure_system_datapoints iso_ok now empty_registry = Inr (empty_registry\<lparr>db_points := ?rows\<rparr>)"
    using ensure_system_rows_fresh [OF _ ids, of "[]" iso_ok now]
    by (simp add: ensure_system_datapoints_def empty_registry_def)
  have "\<forall>w \<in> snd ` set ?rows. \<exists>d. row_of iso_ok w d"
  proof
    fix w
    assume "w \<in> snd ` set ?rows"
    then obtain sd where "sd \<in> set system_datapoints" "w = insert_params (expected_system now sd)"
      using fold_assoc_set_rows [of w "\<lambda>sd. system_uuid (sys_key sd)"
        "\<lambda>sd. insert_params (expected_system now sd)" system_datapoints "[]"] by auto
    then show "\<exists>d. row_of iso_ok w d"
      using row_of_insert_params expected_system_wf assms by blast
  qed
  then obtain r' where "load_rows iso_ok now (sort_key (\<lambda>w. (row_created_at w, row_id w)) (map snd ?rows))
      (empty_registry\<lparr>db_points := ?rows\<rparr>) = Inr r'" "db_last r' = []"
    using load_rows_ok [of "sort_key (\<lambda>w. (row_created_at w, row_id w)) (map snd ?rows)" iso_ok now
        "empty_registry\<lparr>db_points := ?rows\<rparr>"]
    by (auto simp: empty_registry_def)
  with e show ?thesis by (simp add: load_from_db_def)
qed

theorem load_from_db_complete_witness:
  "\<forall>h reg. \<exists>n r'. load_from_db (\<lambda>_. True) h reg ''2026-01-01T00:00:00+00:00'' empty_registry = Inr (n, r')
    \<and> registry_get r' (system_uuid ''last-check'') \<noteq> None"
proof (intro allI)
  fix h reg
  let ?now = "''2026-01-01T00:00:00+00:00''"
  obtain n r' where l: "load_from_db (\<lambda>_. True) h reg ?now empty_registry = Inr (n, r')"
    using load_from_db_fresh [of "\<lambda>_. True" ?now h reg] by auto
  have "\<forall>sd \<in> set system_datapoints. \<exists>d. registry_get r' (system_uuid (sys_key sd)) = Some d"
  proof -
    have "keyed (db_points empty_registry)" "points empty_registry = []" "vals empty_registry = []"
      by (simp_all add: empty_registry_def keyed_def)
    from load_from_db_complete [OF l this] show ?thesis by blast
  qed
  then have "registry_get r' (system_uuid ''last-check'') \<noteq> None"
    by (simp add: system_datapoints_def)
  with l show "\<exists>n r'. load_from_db (\<lambda>_. True) h reg ?now empty_registry = Inr (n, r')
      \<and> registry_get r' (system_uuid ''last-check'') \<noteq> None"
    by blast
qed


section \<open>Failures\<close>



section \<open>Values\<close>

lemma update_state_snd:
  "snd (update_state now v q s) =
     (if fst (update_state now v q s)
      then s\<lparr>vs_old_value := vs_value s, vs_value := v, vs_quality := q, vs_ts := now\<rparr> else s)"
  by (simp add: update_state_def Let_def)

lemma mqtt_step_ok:
  assumes "mqtt_step c d e r = (Inr (), r')"
  shows "\<exists>payload. build_payload (ev_value e) (dp_unit d) (ev_quality e) (ev_ts e) = Inr payload
    \<and> r' = r\<lparr>mqtt_queue := mqtt_queue r
        @ [\<lparr>msg_topic = topic_value (dp_id d), msg_payload = payload, msg_retain = True\<rparr>,
           \<lparr>msg_topic = topic_value_raw (dp_id d), msg_payload = py_str (ev_value e), msg_retain = True\<rparr>]
        @ (if c \<and> dp_mqtt_alias d \<noteq> None \<and> dp_mqtt_alias d \<noteq> Some []
           then [\<lparr>msg_topic = the (dp_mqtt_alias d), msg_payload = payload, msg_retain = True\<rparr>] else [])\<rparr>"
proof -
  obtain q where q: "publish_value (dp_id d) (ev_value e) (dp_unit d) (ev_quality e)
             (if c then dp_mqtt_alias d else None) (ev_ts e) (mqtt_queue r) = Inr q"
      "r' = r\<lparr>mqtt_queue := q\<rparr>"
    using assms by (auto simp: mqtt_step_def split: sum.splits)
  then show ?thesis
    by (cases "dp_mqtt_alias d") (auto simp: publish_value_def rbind_eq_Inr split: if_splits)
qed

lemma persist_step_ok:
  assumes "persist_step ok d e r = (Inr (), r')"
  shows "if dp_persist_value d \<and> ev_quality e = ''good''
    then \<exists>text. core_json_dumps (ev_value e) = Inr text \<and> r' = store_last d e text r else r' = r"
  using assms by (auto simp: persist_step_def split: sum.splits if_splits)

lemma handle_value_event_split:
  assumes "registry_handle_value_event now ok e r = (Inr (), r')"
    and "registry_get r (ev_datapoint e) = Some d" and "get_value r (ev_datapoint e) = Some s"
  obtains c s' r2 where "update_state now (ev_value e) (ev_quality e) s = (c, s')"
    "persist_step ok d e (r\<lparr>vals := assoc_set (ev_datapoint e) s' (vals r)\<rparr>) = (Inr (), r2)"
    "mqtt_step c d e r2 = (Inr (), r')"
proof -
  obtain c s' where u: "update_state now (ev_value e) (ev_quality e) s = (c, s')"
    by (cases "update_state now (ev_value e) (ev_quality e) s")
  obtain x r2 where p: "persist_step ok d e (r\<lparr>vals := assoc_set (ev_datapoint e) s' (vals r)\<rparr>) = (x, r2)"
    by (cases "persist_step ok d e (r\<lparr>vals := assoc_set (ev_datapoint e) s' (vals r)\<rparr>)")
  have "x = Inr ()" and "mqtt_step c d e r2 = (Inr (), r')"
    using assms u p
    by (cases x; simp add: registry_handle_value_event_def registry_get_def get_value_def)+
  with u p that show thesis by blast
qed

text \<open>
  C21. A handled value event leaves the datapoint with its value and quality (or unchanged, when
  value and quality are equal to the last ones), stores the value exactly when the datapoint
  persists and the quality is good, and queues the JSON payload and the raw text, and on the alias
  topic exactly when the value or quality has changed.
\<close>

theorem value_event_effect:
  assumes "registry_handle_value_event now ok e r = (Inr (), r')"
    and "registry_get r (ev_datapoint e) = Some d" and "get_value r (ev_datapoint e) = Some s"
    and "same = (py_eq (ev_value e) (vs_value s) \<and> ev_quality e = vs_quality s)"
  shows "(\<exists>s'. get_value r' (ev_datapoint e) = Some s' \<and> vs_quality s' = ev_quality e
        \<and> (if same then s' = s else vs_value s' = ev_value e \<and> vs_old_value s' = vs_value s))
    \<and> (if dp_persist_value d \<and> ev_quality e = ''good''
       then \<exists>w. map_of (db_last r') (dp_id d) = Some w \<and> core_json_dumps (ev_value e) = Inr (last_value w)
       else db_last r' = db_last r)
    \<and> (\<exists>payload. build_payload (ev_value e) (dp_unit d) (ev_quality e) (ev_ts e) = Inr payload
        \<and> mqtt_queue r' = mqtt_queue r
          @ [\<lparr>msg_topic = topic_value (dp_id d), msg_payload = payload, msg_retain = True\<rparr>,
             \<lparr>msg_topic = topic_value_raw (dp_id d), msg_payload = py_str (ev_value e), msg_retain = True\<rparr>]
          @ (if \<not> same \<and> dp_mqtt_alias d \<noteq> None \<and> dp_mqtt_alias d \<noteq> Some []
             then [\<lparr>msg_topic = the (dp_mqtt_alias d), msg_payload = payload, msg_retain = True\<rparr>]
             else []))"
proof -
  obtain c s' r2 where u: "update_state now (ev_value e) (ev_quality e) s = (c, s')"
    and p: "persist_step ok d e (r\<lparr>vals := assoc_set (ev_datapoint e) s' (vals r)\<rparr>) = (Inr (), r2)"
    and m: "mqtt_step c d e r2 = (Inr (), r')"
    using handle_value_event_split [OF assms(1-3)] .
  have c: "c = (\<not> same)" "vs_quality s' = ev_quality e"
      "if same then s' = s else vs_value s' = ev_value e \<and> vs_old_value s' = vs_value s"
    using u by (auto simp: update_state_def Let_def assms(4) split: if_splits)
  let ?r1 = "r\<lparr>vals := assoc_set (ev_datapoint e) s' (vals r)\<rparr>"
  note ps = persist_step_ok [OF p]
  have r2: "vals r2 = vals ?r1 \<and> mqtt_queue r2 = mqtt_queue ?r1
      \<and> (if dp_persist_value d \<and> ev_quality e = ''good''
         then \<exists>w. map_of (db_last r2) (dp_id d) = Some w \<and> core_json_dumps (ev_value e) = Inr (last_value w)
         else db_last r2 = db_last r)"
    using ps by (auto simp: store_last_def map_of_assoc_set split: if_splits)
  obtain payload where "build_payload (ev_value e) (dp_unit d) (ev_quality e) (ev_ts e) = Inr payload"
      "r' = r2\<lparr>mqtt_queue := mqtt_queue r2
        @ [\<lparr>msg_topic = topic_value (dp_id d), msg_payload = payload, msg_retain = True\<rparr>,
           \<lparr>msg_topic = topic_value_raw (dp_id d), msg_payload = py_str (ev_value e), msg_retain = True\<rparr>]
        @ (if c \<and> dp_mqtt_alias d \<noteq> None \<and> dp_mqtt_alias d \<noteq> Some []
           then [\<lparr>msg_topic = the (dp_mqtt_alias d), msg_payload = payload, msg_retain = True\<rparr>] else [])\<rparr>"
    using mqtt_step_ok [OF m] by blast
  with r2 c show ?thesis by (simp add: get_value_def map_of_assoc_set)
qed

lemma core_json_plain:
  assumes "plain v" and "core_json_dumps v = Inr s"
  shows "json_loads s = Inr v"
  using assms json_loads_dumps [OF assms(1)]
  by (simp add: core_json_dumps_def ask_default_jsonable plain_jsonable)

text \<open>
  A stored value survives a restart: after a good value of a persisting datapoint, restoring the
  stored row into a freshly loaded registry gives the datapoint exactly that value with quality
  \<open>good\<close> (for values without floats and datapoints that hold no date or time).
\<close>

theorem stored_value_survives:
  assumes "registry_handle_value_event now ok e r = (Inr (), r')"
    and "registry_get r (ev_datapoint e) = Some d" and "get_value r (ev_datapoint e) = Some s"
    and "dp_persist_value d" and "ev_quality e = ''good''" and "plain (ev_value e)"
    and "dp_id d = ev_datapoint e" and "parse_uuid (dp_id d) = Some (dp_id d)"
    and "dp_data_type d \<notin> {''DATE'', ''TIME'', ''DATETIME''}"
    and "registry_get fresh (dp_id d) = Some d" and "get_value fresh (dp_id d) = Some s0"
  shows "\<exists>w r2 s2. map_of (db_last r') (dp_id d) = Some w
    \<and> restore_row iso_ok h reg now' w fresh = Inr r2
    \<and> get_value r2 (dp_id d) = Some s2 \<and> vs_value s2 = ev_value e \<and> vs_quality s2 = ''good''"
proof -
  obtain c s' r2 where p: "persist_step ok d e (r\<lparr>vals := assoc_set (ev_datapoint e) s' (vals r)\<rparr>) = (Inr (), r2)"
    and m: "mqtt_step c d e r2 = (Inr (), r')"
    using handle_value_event_split [OF assms(1-3)] .
  obtain js where js: "core_json_dumps (ev_value e) = Inr js"
    and r2: "r2 = store_last d e js (r\<lparr>vals := assoc_set (ev_datapoint e) s' (vals r)\<rparr>)"
    using persist_step_ok [OF p] assms(4,5) by auto
  have "db_last r' = db_last r2" using mqtt_step_ok [OF m] by auto
  then obtain w where w: "map_of (db_last r') (dp_id d) = Some w" "last_id w = dp_id d" "last_value w = js"
    by (simp add: r2 store_last_def map_of_assoc_set)
  have "stored_value h reg (dp_data_type d) js = Inr (ev_value e)"
    using core_json_plain [OF assms(6) js] assms(9) by (simp add: stored_value_def)
  then obtain r3 where r3: "restore_row iso_ok h reg now' w fresh = Inr r3"
      "r3 = fresh\<lparr>vals := assoc_set (dp_id d) (s0\<lparr>vs_value := ev_value e, vs_quality := ''good'',
         vs_ts := (if iso_ok (last_ts w) then last_ts w else now')\<rparr>) (vals fresh)\<rparr>"
    using assms(4,8,10,11) w
    by (simp add: restore_row_def of_opt_def registry_get_def get_value_def)
  then have "get_value r3 (dp_id d) = Some (s0\<lparr>vs_value := ev_value e, vs_quality := ''good'',
         vs_ts := (if iso_ok (last_ts w) then last_ts w else now')\<rparr>)"
    by (simp add: get_value_def map_of_assoc_set)
  with w(1) r3(1) show ?thesis by (intro exI conjI) auto
qed

text \<open>An example: one datapoint that persists, and a value of it.\<close>

definition ex_uuid :: uuid where
  "ex_uuid = ''986724a8-f7cc-53d9-980a-027c47ca7e43''"

definition ex_point :: datapoint where
  "ex_point = \<lparr>dp_id = ex_uuid, dp_name = ''Lamp'', dp_data_type = ''INTEGER'', dp_unit = None,
     dp_tags = [], dp_mqtt_topic = ''t'', dp_mqtt_alias = Some ''alias/x'', dp_persist_value = True,
     dp_record_history = True, dp_control_class = ''room_local'', dp_external_write_enabled = False,
     dp_created_at = ''c'', dp_updated_at = ''u''\<rparr>"

definition ex_registry :: registry where
  "ex_registry = empty_registry\<lparr>points := [(ex_uuid, ex_point)],
     vals := [(ex_uuid, new_value_state ''n'')]\<rparr>"

definition ex_event :: value_event where
  "ex_event = \<lparr>ev_datapoint = ex_uuid, ev_value = PInt 7, ev_quality = ''good'', ev_source = ''KNX'',
     ev_ts = \<lparr>ts_year = 2026, ts_month = 1, ts_day = 2, ts_hour = 3, ts_minute = 4, ts_second = 5,
       ts_micro = 6\<rparr>,
     ev_binding = None, ev_logic_depth = 0, ev_suppress_write = False, ev_suppress_actions = False,
     ev_initialization = False\<rparr>"

lemma ex_handled:
  "\<exists>r'. registry_handle_value_event ''n'' True ex_event ex_registry = (Inr (), r')"
proof -
  obtain payload where "build_payload (PInt 7) None ''good'' (ev_ts ex_event) = Inr payload"
    using build_payload_plain [of "PInt 7" None "''good''" "ev_ts ex_event"] by auto
  then show ?thesis
    by (simp add: registry_handle_value_event_def ex_registry_def ex_event_def empty_registry_def
        update_state_def new_value_state_def persist_step_def ex_point_def core_json_dumps_def
        mqtt_step_def publish_value_def store_last_def Let_def)
qed

lemma ex_lookups:
  "registry_get ex_registry (ev_datapoint ex_event) = Some ex_point"
  "get_value ex_registry (ev_datapoint ex_event) = Some (new_value_state ''n'')"
  by (simp_all add: registry_get_def get_value_def ex_registry_def ex_event_def)

theorem value_event_effect_witness:
  "\<exists>r'. registry_handle_value_event ''n'' True ex_event ex_registry = (Inr (), r')
    \<and> length (mqtt_queue r') = 3"
proof -
  obtain r' where r': "registry_handle_value_event ''n'' True ex_event ex_registry = (Inr (), r')"
    using ex_handled by blast
  have "\<not> (py_eq (ev_value ex_event) (vs_value (new_value_state ''n''))
      \<and> ev_quality ex_event = vs_quality (new_value_state ''n''))"
    by (simp add: ex_event_def new_value_state_def)
  then have "length (mqtt_queue r') = 3"
    using value_event_effect [OF r' ex_lookups, of False]
    by (auto simp: ex_point_def ex_registry_def empty_registry_def)
  with r' show ?thesis by blast
qed

theorem stored_value_survives_witness:
  "\<forall>h reg. \<exists>r' w r2 s2. registry_handle_value_event ''n'' True ex_event ex_registry = (Inr (), r')
    \<and> map_of (db_last r') ex_uuid = Some w \<and> restore_row (\<lambda>_. True) h reg ''n'' w ex_registry = Inr r2
    \<and> get_value r2 ex_uuid = Some s2 \<and> vs_value s2 = PInt 7"
proof (intro allI)
  fix h reg
  obtain r' where r': "registry_handle_value_event ''n'' True ex_event ex_registry = (Inr (), r')"
    using ex_handled by blast
  have "parse_uuid (dp_id ex_point) = Some (dp_id ex_point)"
    by (simp add: ex_point_def ex_uuid_def system_uuids_canonical)
  with stored_value_survives [OF r' ex_lookups, of ex_registry "new_value_state ''n''" "\<lambda>_. True" h reg "''n''"]
    ex_lookups r'
  show "\<exists>r' w r2 s2. registry_handle_value_event ''n'' True ex_event ex_registry = (Inr (), r')
    \<and> map_of (db_last r') ex_uuid = Some w \<and> restore_row (\<lambda>_. True) h reg ''n'' w ex_registry = Inr r2
    \<and> get_value r2 ex_uuid = Some s2 \<and> vs_value s2 = PInt 7"
    by (auto simp: ex_point_def ex_event_def)
qed

end
