(* ===== verification/Adapter_Registry.thy ===== *)
theory Adapter_Registry
  imports Confirmation Mqtt_Client "HOL-Library.List_Lexorder" "HOL-Library.Char_ord"
begin

text \<open>
  The running adapter instances and their bindings (\<open>obs/adapters/registry.py\<close>, with the model of
  \<open>obs/models/binding.py\<close>).  What an adapter does when it connects or reloads its bindings is its
  protocol's business and an argument here: the adapter it becomes, the events it publishes
  meanwhile, and whether it raises.  Exceptions on disconnecting are only logged.  A coroutine is one
  step.
\<close>

section \<open>Bindings\<close>

record binding =
  b_id :: uuid
  b_datapoint :: uuid
  b_adapter_type :: string
  b_instance :: "uuid option"
  b_direction :: string
  b_config :: "(string \<times> pyval) list"
  b_enabled :: bool
  b_throttle_ms :: "int option"
  b_on_change :: bool
  b_min_delta :: "pyfloat option"
  b_min_delta_pct :: "pyfloat option"
  b_formula :: "string option"
  b_value_map :: "(string \<times> pyval) list option"

text \<open>A row of \<open>adapter_bindings\<close>; the numeric columns hold whatever SQLite stored in them.\<close>

record binding_row =
  br_id :: string
  br_datapoint :: string
  br_adapter_type :: string
  br_instance :: "string option"
  br_direction :: string
  br_config :: string
  br_enabled :: int
  br_throttle_ms :: pyval
  br_on_change :: pyval
  br_min_delta :: pyval
  br_min_delta_pct :: pyval
  br_formula :: "string option"
  br_value_map :: "string option"
  br_created_at :: string
  br_updated_at :: string

definition truthy_text :: "string option \<Rightarrow> string option" where
  "truthy_text x = (case x of None \<Rightarrow> None | Some s \<Rightarrow> if s = [] then None else Some s)"

definition opt_number :: "(pyval \<Rightarrow> (pyerr, 'a) result) \<Rightarrow> pyval \<Rightarrow> (pyerr, 'a option) result" where
  "opt_number f v = (if v = PNone then Inr None else rbind (f v) (\<lambda>x. Inr (Some x)))"

text \<open>The field \<open>value_map\<close>: null, or an object whose values are texts.\<close>

definition map_field :: "pyval option \<Rightarrow> (pyerr, (string \<times> pyval) list option) result" where
  "map_field v =
     (case v of
        None \<Rightarrow> Inr None
      | Some PNone \<Rightarrow> Inr None
      | Some (PDict kvs) \<Rightarrow> if list_all (\<lambda>(k, x). is_str x) kvs then Inr (Some kvs) else Inl ValueError
      | _ \<Rightarrow> Inl ValueError)"

definition dict_field :: "pyval \<Rightarrow> (pyerr, (string \<times> pyval) list) result" where
  "dict_field v = (case v of PDict kvs \<Rightarrow> Inr kvs | _ \<Rightarrow> Inl ValueError)"

definition row_to_binding :: "(string \<Rightarrow> bool) \<Rightarrow> binding_row \<Rightarrow> (pyerr, binding) result" where
  "row_to_binding iso_ok w =
     rbind (case truthy_text (br_value_map w) of
              None \<Rightarrow> Inr None | Some s \<Rightarrow> rbind (json_loads s) (\<lambda>v. Inr (Some v))) (\<lambda>mj.
     rbind (of_opt ValueError (parse_uuid (br_id w))) (\<lambda>bid.
     rbind (of_opt ValueError (parse_uuid (br_datapoint w))) (\<lambda>dp.
     rbind (case truthy_text (br_instance w) of
              None \<Rightarrow> Inr None
            | Some s \<Rightarrow> rbind (of_opt ValueError (parse_uuid s)) (\<lambda>u. Inr (Some u))) (\<lambda>inst.
     rbind (json_loads (br_config w)) (\<lambda>cfg.
     rbind (opt_number py_int (br_throttle_ms w)) (\<lambda>thr.
     rbind (opt_number py_float (br_min_delta w)) (\<lambda>md.
     rbind (opt_number py_float (br_min_delta_pct w)) (\<lambda>mp.
     if \<not> (iso_ok (br_created_at w) \<and> iso_ok (br_updated_at w)) then Inl ValueError
     else rbind (map_field mj) (\<lambda>vm. rbind (dict_field cfg) (\<lambda>c.
           if br_direction w \<in> {''SOURCE'', ''DEST'', ''BOTH''}
           then Inr \<lparr>b_id = bid, b_datapoint = dp, b_adapter_type = br_adapter_type w, b_instance = inst,
                     b_direction = br_direction w, b_config = c, b_enabled = (br_enabled w \<noteq> 0),
                     b_throttle_ms = thr, b_on_change = py_truthy (br_on_change w),
                     b_min_delta = md, b_min_delta_pct = mp,
                     b_formula = truthy_text (br_formula w), b_value_map = vm\<rparr>
           else Inl ValueError))))))))))"

record load_issue =
  issue_binding :: string
  issue_instance :: "string option"
  issue_reason :: pyerr

definition caught_reading :: "pyerr \<Rightarrow> bool" where
  "caught_reading e \<longleftrightarrow> e \<in> {KeyError, ValueError, TypeError}"

text \<open>Malformed rows are skipped one by one; another exception ends the loading.\<close>

fun load_valid_bindings ::
  "(string \<Rightarrow> bool) \<Rightarrow> binding_row list \<Rightarrow> (pyerr, binding list \<times> load_issue list) result" where
  "load_valid_bindings iso_ok [] = Inr ([], [])"
| "load_valid_bindings iso_ok (w # ws) =
     (case row_to_binding iso_ok w of
        Inr b \<Rightarrow> rbind (load_valid_bindings iso_ok ws) (\<lambda>(bs, is). Inr (b # bs, is))
      | Inl e \<Rightarrow>
          if caught_reading e then
            rbind (load_valid_bindings iso_ok ws) (\<lambda>(bs, is).
              Inr (bs, \<lparr>issue_binding = (if br_id w = [] then ''<unknown>'' else br_id w),
                        issue_instance = br_instance w, issue_reason = e\<rparr> # is))
          else Inl e)"

definition binding_load_prefix :: string where
  "binding_load_prefix = ''Invalid adapter bindings skipped''"

text \<open>\<open>reason_text\<close>: how an exception is put in words.\<close>

definition format_load_examples :: "(pyerr \<Rightarrow> string) \<Rightarrow> load_issue list \<Rightarrow> string" where
  "format_load_examples reason_text is =
     join_with ''; '' (map (\<lambda>i. issue_binding i @ '': '' @ reason_text (issue_reason i)) (take 3 is))
     @ (if 3 < length is then ''; +'' @ show_nat (length is - 3) @ '' more'' else [])"

definition format_load_detail :: "(pyerr \<Rightarrow> string) \<Rightarrow> load_issue list \<Rightarrow> string" where
  "format_load_detail reason_text is =
     binding_load_prefix @ '': '' @ show_nat (length is) @ '' invalid binding(s) skipped (''
       @ format_load_examples reason_text is @ '')''"

definition publish_binding_load_status ::
  "(pyerr \<Rightarrow> string) \<Rightarrow> load_issue list \<Rightarrow> binding adapter \<Rightarrow> binding adapter \<times> event list" where
  "publish_binding_load_status reason_text is a =
     (if is = [] then
        (if last_detail_code a = Some ''invalidBindingsSkipped''
            \<or> take (length binding_load_prefix) (last_detail a) = binding_load_prefix
         then (let (a', e) = publish_status (connected a) [] ''ok'' None None a in (a', [e]))
         else (a, []))
      else
        (let (a', e) = publish_status (connected a) (format_load_detail reason_text is) ''warning''
               (Some ''invalidBindingsSkipped'')
               (Some [(''count'', PInt (int (length is))),
                      (''examples'', PStr (format_load_examples reason_text is))]) a
         in (a', [e])))"

section \<open>Adapter classes\<close>

record adapter_class =
  cls_type :: string
  cls_hidden :: bool
  cls_capabilities :: "delegation_capability list option"   \<comment> \<open>\<^const>\<open>None\<close>: missing or malformed\<close>

type_synonym classes = "(string \<times> adapter_class) list"

definition register_class :: "adapter_class \<Rightarrow> classes \<Rightarrow> (pyerr, classes) result" where
  "register_class c cs =
     (if cls_type c = [] then Inl TypeError else Inr (assoc_set (cls_type c) c cs))"

definition get_class :: "classes \<Rightarrow> string \<Rightarrow> adapter_class option" where
  "get_class cs ty = map_of cs ty"

text \<open>\<open>capability\<close> is \<^const>\<open>None\<close> for anything that is not a member of the enumeration.\<close>

definition supports_delegation :: "classes \<Rightarrow> string \<Rightarrow> delegation_capability option \<Rightarrow> bool" where
  "supports_delegation cs ty capability =
     (case capability of
        None \<Rightarrow> False
      | Some c \<Rightarrow>
          (case map_of cs ty of
             None \<Rightarrow> False
           | Some k \<Rightarrow> (case cls_capabilities k of None \<Rightarrow> False | Some ds \<Rightarrow> c \<in> set ds)))"

definition all_types :: "classes \<Rightarrow> string list" where
  "all_types cs = map fst cs"

section \<open>Instances\<close>

type_synonym instances = "(uuid \<times> binding adapter) list"

definition get_instance_by_id :: "instances \<Rightarrow> uuid \<Rightarrow> binding adapter option" where
  "get_instance_by_id is u = map_of is u"

definition get_instance :: "instances \<Rightarrow> string \<Rightarrow> binding adapter option" where
  "get_instance is ty = find (\<lambda>a. adapter_type a = ty) (map snd is)"

record type_status =
  ty_running :: bool
  ty_connected :: bool
  ty_hidden :: bool

definition get_status :: "classes \<Rightarrow> instances \<Rightarrow> (string \<times> type_status) list" where
  "get_status cs is =
     map (\<lambda>(ty, c).
       (ty, \<lparr>ty_running = get_instance is ty \<noteq> None,
             ty_connected = (case get_instance is ty of None \<Rightarrow> False | Some a \<Rightarrow> connected a),
             ty_hidden = cls_hidden c\<rparr>)) cs"

record instance_row =
  ir_id :: string
  ir_adapter_type :: string
  ir_name :: string
  ir_config :: "string option"
  ir_enabled :: int

text \<open>
  What the protocol does: connecting and reloading give the adapter afterwards, the events published
  on the way, and whether an exception ended the operation.
\<close>

record protocol =
  on_connect :: "pyval \<Rightarrow> binding adapter \<Rightarrow> binding adapter \<times> event list \<times> bool"
  on_reload :: "binding adapter \<Rightarrow> binding adapter \<times> event list \<times> bool"
  iso_ok :: "string \<Rightarrow> bool"
  reason_text :: "pyerr \<Rightarrow> string"

record adapters_state =
  adapter_classes :: classes
  running :: instances
  published :: "event list"

definition emit :: "event list \<Rightarrow> adapters_state \<Rightarrow> adapters_state" where
  "emit es s = s\<lparr>published := published s @ es\<rparr>"

definition set_instance :: "uuid \<Rightarrow> binding adapter \<Rightarrow> adapters_state \<Rightarrow> adapters_state" where
  "set_instance u a s = s\<lparr>running := assoc_set u a (running s)\<rparr>"

text \<open>Replacing the bindings of a registered instance; \<^const>\<open>True\<close> when nothing was raised.\<close>

definition reload_instance_from_rows ::
  "protocol \<Rightarrow> uuid \<Rightarrow> binding adapter \<Rightarrow> binding_row list \<Rightarrow> adapters_state \<Rightarrow> bool \<times> adapters_state" where
  "reload_instance_from_rows p u a rows s =
     (case load_valid_bindings (iso_ok p) rows of
        Inl _ \<Rightarrow> (False, s)
      | Inr (bs, is) \<Rightarrow>
          (case on_reload p (reload_bindings bs a) of
             (a1, es, True) \<Rightarrow> (False, emit es (set_instance u a1 s))
           | (a1, es, False) \<Rightarrow>
               (let (a2, es') = publish_binding_load_status (reason_text p) is a1
                in (True, emit (es @ es') (set_instance u a2 s)))))"

definition instance_rows :: "binding_row list \<Rightarrow> uuid \<Rightarrow> binding_row list" where
  "instance_rows rows u = filter (\<lambda>w. br_instance w = Some u \<and> br_enabled w = 1) rows"

definition announce_started :: "uuid \<Rightarrow> string \<Rightarrow> bool \<Rightarrow> adapters_state \<Rightarrow> adapters_state" where
  "announce_started u ty conn s =
     emit [StartedEvent \<lparr>sta_instance = u, sta_adapter_type = ty, sta_connected = conn\<rparr>] s"

text \<open>
  The body both start paths share: create, connect, register, load the bindings, announce.  The
  identifier of a row is the canonical text of a UUID; another text raises.
\<close>

definition launch ::
  "protocol \<Rightarrow> binding_row list \<Rightarrow> instance_row \<Rightarrow> adapters_state \<Rightarrow> bool \<times> adapters_state" where
  "launch p rows w s =
     (case (case truthy_text (ir_config w) of None \<Rightarrow> Inr (PDict []) | Some t \<Rightarrow> json_loads t) of
        Inl _ \<Rightarrow> (False, s)
      | Inr cfg \<Rightarrow>
          (case parse_uuid (ir_id w) of
             None \<Rightarrow> (False, s)
           | Some u \<Rightarrow>
               (case on_connect p cfg (new_adapter (ir_adapter_type w) u (Some (ir_name w))) of
                  (a, es, True) \<Rightarrow> (False, emit es s)
                | (a, es, False) \<Rightarrow>
                    (let s1 = set_instance (ir_id w) a (emit es s)
                     in case reload_instance_from_rows p (ir_id w) a (instance_rows rows (ir_id w)) s1 of
                          (False, s2) \<Rightarrow> (False, s2)
                        | (True, s2) \<Rightarrow>
                            (True, announce_started u (ir_adapter_type w)
                               (case map_of (running s2) (ir_id w) of
                                  None \<Rightarrow> False | Some a2 \<Rightarrow> connected a2) s2)))))"

fun start_rows ::
  "protocol \<Rightarrow> binding_row list \<Rightarrow> instance_row list \<Rightarrow> adapters_state \<Rightarrow> adapters_state" where
  "start_rows p rows [] s = s"
| "start_rows p rows (w # ws) s =
     start_rows p rows ws
       (if map_of (adapter_classes s) (ir_adapter_type w) = None then s else snd (launch p rows w s))"

definition start_all ::
  "protocol \<Rightarrow> binding_row list \<Rightarrow> instance_row list \<Rightarrow> adapters_state \<Rightarrow> adapters_state" where
  "start_all p rows irows s = start_rows p rows (filter (\<lambda>w. ir_enabled w = 1) irows) s"

definition stop_all :: "adapters_state \<Rightarrow> adapters_state" where
  "stop_all s = s\<lparr>running := []\<rparr>"

definition restart_instance ::
  "protocol \<Rightarrow> binding_row list \<Rightarrow> instance_row list \<Rightarrow> uuid \<Rightarrow> adapters_state
     \<Rightarrow> binding adapter option \<times> adapters_state" where
  "restart_instance p rows irows u s =
     (let s0 = s\<lparr>running := assoc_del u (running s)\<rparr>
      in case find (\<lambda>w. ir_id w = u \<and> ir_enabled w = 1) irows of
           None \<Rightarrow> (None, s0)
         | Some w \<Rightarrow>
             if map_of (adapter_classes s) (ir_adapter_type w) = None then (None, s0)
             else (case launch p rows w s0 of
                     (True, s1) \<Rightarrow> (map_of (running s1) u, s1)
                   | (False, s1) \<Rightarrow> (None, s1)))"

definition start_instance ::
  "protocol \<Rightarrow> binding_row list \<Rightarrow> instance_row list \<Rightarrow> uuid \<Rightarrow> adapters_state
     \<Rightarrow> binding adapter option \<times> adapters_state" where
  "start_instance p rows irows u s = restart_instance p rows irows u s"

definition stop_instance :: "uuid \<Rightarrow> adapters_state \<Rightarrow> adapters_state" where
  "stop_instance u s = s\<lparr>running := assoc_del u (running s)\<rparr>"

subsection \<open>Deferred reloads\<close>

text \<open>The set of the enclosing block, which outlives it in the tasks started inside.\<close>

record pending =
  pending_ids :: "uuid list"
  pending_closed :: bool

text \<open>The reload proper; an exception leaves what it has done, \<^const>\<open>False\<close> is returned.\<close>

definition reload_now ::
  "protocol \<Rightarrow> binding_row list \<Rightarrow> uuid \<Rightarrow> adapters_state \<Rightarrow> bool \<times> adapters_state" where
  "reload_now p rows u s =
     (case map_of (running s) u of
        None \<Rightarrow> (True, s)
      | Some a \<Rightarrow> reload_instance_from_rows p u a (instance_rows rows u) s)"

definition reload_instance_bindings ::
  "protocol \<Rightarrow> binding_row list \<Rightarrow> uuid \<Rightarrow> pending option \<Rightarrow> adapters_state
     \<Rightarrow> pending option \<times> bool \<times> adapters_state" where
  "reload_instance_bindings p rows u pd s =
     (case pd of
        Some q \<Rightarrow>
          if \<not> pending_closed q
          then (Some (q\<lparr>pending_ids := List.insert u (pending_ids q)\<rparr>), True, s)
          else (pd, reload_now p rows u s)
      | None \<Rightarrow> (None, reload_now p rows u s))"

definition end_deferred ::
  "protocol \<Rightarrow> binding_row list \<Rightarrow> pending \<Rightarrow> adapters_state \<Rightarrow> pending \<times> adapters_state" where
  "end_deferred p rows q s =
     (q\<lparr>pending_closed := True\<rparr>, fold (\<lambda>u s. snd (reload_now p rows u s)) (sort (pending_ids q)) s)"

end
