(* ===== verification/Adapter_Props.thy ===== *)
theory Adapter_Props
  imports Adapter_Registry
begin

text \<open>
  Correctness of the adapter registry: no row of a binding is lost, a restart touches one instance
  and announces it only once it can be found, and deferred reloads do what immediate ones do.
\<close>

section \<open>Loading bindings\<close>

lemma of_opt_Inl: "of_opt e x = Inl e' \<longleftrightarrow> x = None \<and> e' = e"
  by (auto simp: of_opt_def split: option.splits)

lemma opt_number_Inl: "opt_number f v = Inl e \<Longrightarrow> f v = Inl e"
  by (auto simp: opt_number_def rbind_eq_Inl split: if_splits)

lemma py_int_error: "py_int v = Inl e \<Longrightarrow> e \<in> {ValueError, TypeError, OverflowError}"
proof (cases v)
  case (PFloat x)
  then show "py_int v = Inl e \<Longrightarrow> ?thesis" by (cases x) (auto simp: float_to_int_def)
qed (auto simp: of_opt_Inl)

lemma py_float_error: "py_float v = Inl e \<Longrightarrow> e \<in> {ValueError, TypeError, OverflowError}"
  by (cases v) (auto simp: of_opt_Inl int_to_float_def split: pyfloat.splits)

lemma json_loads_error_only: "json_loads s = Inl e \<Longrightarrow> e = ValueError"
  by (auto simp: json_loads_def split: option.splits prod.splits if_splits)

lemma map_field_error: "map_field v = Inl e \<Longrightarrow> e = ValueError"
  by (auto simp: map_field_def split: option.splits pyval.splits if_splits)

lemma dict_field_error: "dict_field v = Inl e \<Longrightarrow> e = ValueError"
  by (auto simp: dict_field_def split: pyval.splits)

lemma row_to_binding_error:
  assumes "row_to_binding isok w = Inl e"
  shows "e \<in> {ValueError, TypeError, OverflowError}"
proof -
  have int: "opt_number py_int v = Inl e \<Longrightarrow> ?thesis" for v
    using opt_number_Inl py_int_error by blast
  have flt: "opt_number py_float v = Inl e \<Longrightarrow> ?thesis" for v
    using opt_number_Inl py_float_error by blast
  from assms show ?thesis
    unfolding row_to_binding_def rbind_eq_Inl
    by (elim disjE exE conjE)
      (auto simp: of_opt_Inl rbind_eq_Inl
        dest: json_loads_error_only map_field_error dict_field_error int flt
        split: option.splits if_splits)
qed

text \<open>
  C22. Loading bindings loses no row: the bindings are those of the rows that can be read, in order, each
  other row has its issue, and the only exception that ends the loading is a number beyond the
  machine range.
\<close>

theorem load_valid_bindings_complete:
  "case load_valid_bindings isok ws of
     Inr (bs, is) \<Rightarrow>
       map Inr bs = filter (\<lambda>r. \<not> isl r) (map (row_to_binding isok) ws)
       \<and> map (\<lambda>i. Inl (issue_reason i)) is = filter isl (map (row_to_binding isok) ws)
       \<and> length bs + length is = length ws
   | Inl e \<Rightarrow> e = OverflowError \<and> (\<exists>w \<in> set ws. row_to_binding isok w = Inl e)"
proof (induction ws)
  case Nil
  then show ?case by simp
next
  case (Cons w ws)
  show ?case
  proof (cases "row_to_binding isok w")
    case (Inl e)
    with row_to_binding_error [OF Inl] Cons show ?thesis
      by (auto simp: caught_reading_def split: sum.splits)
  next
    case (Inr b)
    with Cons show ?thesis by (auto split: sum.splits)
  qed
qed

section \<open>Restarting an instance\<close>

lemma emit_simps [simp]:
  "running (emit es s) = running s" "adapter_classes (emit es s) = adapter_classes s"
  "published (emit es s) = published s @ es"
  by (simp_all add: emit_def)

lemma set_instance_simps [simp]:
  "running (set_instance u a s) = assoc_set u a (running s)"
  "adapter_classes (set_instance u a s) = adapter_classes s"
  "published (set_instance u a s) = published s"
  by (simp_all add: set_instance_def)

text \<open>What a reload makes of one instance: the adapter, its events and whether it came to its end.\<close>

definition reloaded ::
  "protocol \<Rightarrow> binding_row list \<Rightarrow> binding adapter \<Rightarrow> binding adapter \<times> event list \<times> bool" where
  "reloaded p rows a =
     (case load_valid_bindings (iso_ok p) rows of
        Inl _ \<Rightarrow> (a, [], False)
      | Inr (bs, is) \<Rightarrow>
          (case on_reload p (reload_bindings bs a) of
             (a1, es, True) \<Rightarrow> (a1, es, False)
           | (a1, es, False) \<Rightarrow>
               (case publish_binding_load_status (reason_text p) is a1 of (a2, es') \<Rightarrow> (a2, es @ es', True))))"

lemma assoc_set_same: "map_of kvs k = Some v \<Longrightarrow> assoc_set k v kvs = kvs"
  by (induction kvs) (auto split: if_splits)

lemma reload_instance_from_rows_eq:
  assumes "map_of (running s) u = Some a"
  shows "reload_instance_from_rows p u a rows s =
    (snd (snd (reloaded p rows a)),
     emit (fst (snd (reloaded p rows a))) (set_instance u (fst (reloaded p rows a)) s))"
  using assms
  by (auto simp: reload_instance_from_rows_def reloaded_def set_instance_def emit_def assoc_set_same
      split: sum.splits prod.splits bool.splits)

lemma launch_cases:
  assumes "parse_uuid (ir_id w) = Some (ir_id w)"
  shows "(\<exists>es. launch p rows w s = (False, emit es s))
    \<or> (\<exists>a es. launch p rows w s = (False, emit es (set_instance (ir_id w) a s)))
    \<or> (\<exists>a es. launch p rows w s =
         (True, announce_started (ir_id w) (ir_adapter_type w) (connected a)
            (emit es (set_instance (ir_id w) a s))))"
proof (cases "case truthy_text (ir_config w) of None \<Rightarrow> Inr (PDict []) | Some t \<Rightarrow> json_loads t")
  case (Inl e)
  then have "launch p rows w s = (False, emit [] s)" by (simp add: launch_def emit_def)
  then show ?thesis by blast
next
  case (Inr cfg)
  obtain a es fail where c: "on_connect p cfg (new_adapter (ir_adapter_type w) (ir_id w) (Some (ir_name w)))
      = (a, es, fail)"
    by (metis prod_cases3)
  show ?thesis
  proof (cases fail)
    case True
    then have "launch p rows w s = (False, emit es s)" by (simp add: launch_def Inr assms c)
    then show ?thesis by blast
  next
    case False
    let ?s1 = "set_instance (ir_id w) a (emit es s)"
    have a: "map_of (running ?s1) (ir_id w) = Some a" by (simp add: map_of_assoc_set)
    obtain b es' ok where b: "reloaded p (instance_rows rows (ir_id w)) a = (b, es', ok)"
      by (metis prod_cases3)
    have s: "emit es' (set_instance (ir_id w) b ?s1) = emit (es @ es') (set_instance (ir_id w) b s)"
      by (simp add: emit_def set_instance_def assoc_set_twice)
    show ?thesis
    proof (cases ok)
      case True
      then have "launch p rows w s = (True, announce_started (ir_id w) (ir_adapter_type w) (connected b)
          (emit (es @ es') (set_instance (ir_id w) b s)))"
        using False
        by (simp add: launch_def Inr assms c reload_instance_from_rows_eq [OF a] b s map_of_assoc_set)
      then show ?thesis by blast
    next
      case not: False
      then have "launch p rows w s = (False, emit (es @ es') (set_instance (ir_id w) b s))"
        using False by (simp add: launch_def Inr assms c reload_instance_from_rows_eq [OF a] b s)
      then show ?thesis by blast
    qed
  qed
qed

lemma announce_simps [simp]:
  "running (announce_started u ty c s) = running s"
  "published (announce_started u ty c s) =
     published s @ [StartedEvent \<lparr>sta_instance = u, sta_adapter_type = ty, sta_connected = c\<rparr>]"
  by (simp_all add: announce_started_def)

lemma map_fst_assoc_set_del:
  "map fst (assoc_set u a (assoc_del u kvs)) = filter (\<lambda>v. v \<noteq> u) (map fst kvs) @ [u]"
  using dict.keys_refresh [of u a kvs] by simp

text \<open>
  A restart touches no other instance.  When it succeeds, the new instance is found under its
  identifier, last in the order that decides which instance serves a type, and the last event
  published announces it with its state; when it returns nothing, no instance is announced.
\<close>

theorem restart_instance_spec:
  assumes "restart_instance p rows irows u s = (r, s')" and "parse_uuid u = Some u"
  shows "(\<forall>v. v \<noteq> u \<longrightarrow> get_instance_by_id (running s') v = get_instance_by_id (running s) v)
    \<and> (case r of
         Some a \<Rightarrow> get_instance_by_id (running s') u = Some a
           \<and> map fst (running s') = filter (\<lambda>v. v \<noteq> u) (map fst (running s)) @ [u]
           \<and> (\<exists>w es. w \<in> set irows \<and> ir_id w = u \<and> ir_enabled w = 1
               \<and> published s' = published s @ es @ [StartedEvent \<lparr>sta_instance = u,
                   sta_adapter_type = ir_adapter_type w, sta_connected = connected a\<rparr>])
       | None \<Rightarrow> get_instance_by_id (running s') u = None
           \<or> (\<exists>w \<in> set irows. ir_id w = u \<and> ir_enabled w = 1 \<and> fst (launch p rows w
                (s\<lparr>running := assoc_del u (running s)\<rparr>)) = False))"
proof -
  let ?s0 = "s\<lparr>running := assoc_del u (running s)\<rparr>"
  have del: "map_of (assoc_del u (running s)) v = (if v = u then None else map_of (running s) v)" for v
    by (simp add: map_of_assoc_del)
  show ?thesis
  proof (cases "find (\<lambda>w. ir_id w = u \<and> ir_enabled w = 1) irows")
    case None
    then show ?thesis
      using assms(1) del by (auto simp: restart_instance_def Let_def get_instance_by_id_def)
  next
    case (Some w)
    then have w: "w \<in> set irows" "ir_id w = u" "ir_enabled w = 1"
      by (auto simp: find_Some_iff)
    show ?thesis
    proof (cases "map_of (adapter_classes s) (ir_adapter_type w) = None")
      case True
      then show ?thesis
        using assms(1) del Some by (auto simp: restart_instance_def Let_def get_instance_by_id_def)
    next
      case False
      then have r: "(r, s') = (case launch p rows w ?s0 of
                     (True, s1) \<Rightarrow> (map_of (running s1) u, s1) | (False, s1) \<Rightarrow> (None, s1))"
        using assms(1) Some by (auto simp: restart_instance_def Let_def split: bool.splits)
      have id: "parse_uuid (ir_id w) = Some (ir_id w)" using assms(2) w(2) by simp
      from launch_cases [OF id, of p rows ?s0] show ?thesis
      proof (elim disjE exE)
        fix es
        assume "launch p rows w ?s0 = (False, emit es ?s0)"
        with r del w show ?thesis by (auto simp: get_instance_by_id_def)
      next
        fix a es
        assume "launch p rows w ?s0 = (False, emit es (set_instance (ir_id w) a ?s0))"
        with r del w show ?thesis by (auto simp: get_instance_by_id_def map_of_assoc_set)
      next
        fix a es
        assume l: "launch p rows w ?s0 = (True, announce_started (ir_id w) (ir_adapter_type w) (connected a)
            (emit es (set_instance (ir_id w) a ?s0)))"
        with r w have "r = Some a" by (simp add: map_of_assoc_set)
        with r del w l map_fst_assoc_set_del [of u a "running s"] show ?thesis
          by (auto simp: get_instance_by_id_def map_of_assoc_set)
      qed
    qed
  qed
qed

section \<open>Deferred reloads\<close>

lemma reload_now_running:
  "map_of (running (snd (reload_now p rows u s))) v =
     (if v = u then map_option (\<lambda>a. fst (reloaded p (instance_rows rows u) a)) (map_of (running s) u)
      else map_of (running s) v)"
  by (cases "map_of (running s) u")
    (simp_all add: reload_now_def reload_instance_from_rows_eq map_of_assoc_set)

lemma fold_reload_now_running:
  "distinct us \<Longrightarrow> map_of (running (fold (\<lambda>u s. snd (reload_now p rows u s)) us s)) v =
     (if v \<in> set us
      then map_option (\<lambda>a. fst (reloaded p (instance_rows rows v) a)) (map_of (running s) v)
      else map_of (running s) v)"
  by (induction us arbitrary: s) (auto simp: reload_now_running)

text \<open>The requests made inside the block.\<close>

fun request_all ::
  "protocol \<Rightarrow> binding_row list \<Rightarrow> uuid list \<Rightarrow> pending option \<Rightarrow> adapters_state
     \<Rightarrow> pending option \<times> adapters_state" where
  "request_all p rows [] pd s = (pd, s)"
| "request_all p rows (u # us) pd s =
     (case reload_instance_bindings p rows u pd s of (pd', _, s') \<Rightarrow> request_all p rows us pd' s')"

lemma request_all_open:
  "\<not> pending_closed q \<Longrightarrow>
   request_all p rows us (Some q) s = (Some (q\<lparr>pending_ids := fold List.insert us (pending_ids q)\<rparr>), s)"
  by (induction us arbitrary: q) (simp_all add: reload_instance_bindings_def)

lemma fold_insert_set: "set (fold List.insert us xs) = set us \<union> set xs"
  by (induction us arbitrary: xs) auto

lemma fold_insert_distinct: "distinct xs \<Longrightarrow> distinct (fold List.insert us xs)"
  by (induction us arbitrary: xs) simp_all

text \<open>
  However often reloads are requested inside a deferring block, nothing is reloaded before its
  end; then every requested instance that runs is reloaded exactly once, from the rows there are at
  the end, and no other instance is touched.
\<close>

theorem deferred_reloads_once:
  assumes "request_all p rows0 us (Some \<lparr>pending_ids = [], pending_closed = False\<rparr>) s = (Some q, s1)"
    and "end_deferred p rows q s1 = (q', s2)"
  shows "s1 = s \<and> pending_closed q'
    \<and> (\<forall>v. get_instance_by_id (running s2) v =
         (if v \<in> set us
          then map_option (\<lambda>a. fst (reloaded p (instance_rows rows v) a)) (get_instance_by_id (running s) v)
          else get_instance_by_id (running s) v))"
proof -
  have q: "q = \<lparr>pending_ids = fold List.insert us [], pending_closed = False\<rparr>" "s1 = s"
    using assms(1) by (simp_all add: request_all_open)
  have "distinct (sort (pending_ids q))" "set (sort (pending_ids q)) = set us"
    by (simp_all add: q fold_insert_distinct fold_insert_set)
  with assms(2) q show ?thesis
    by (auto simp: end_deferred_def get_instance_by_id_def fold_reload_now_running)
qed

section \<open>Examples\<close>

definition ex_protocol :: protocol where
  "ex_protocol =
     \<lparr>on_connect = (\<lambda>cfg a. case publish_status True [] ''ok'' None None a of (a', e) \<Rightarrow> (a', [e], False)),
      on_reload = (\<lambda>a. (a, [], False)), iso_ok = (\<lambda>_. True), reason_text = (\<lambda>_. ''error'')\<rparr>"

definition ex_id :: uuid where
  "ex_id = ''9f70eb45-f1aa-5ae0-86c2-69bab3f817ba''"

lemma parse_ex_id: "parse_uuid ex_id = Some ex_id"
  by (simp add: ex_id_def parse_uuid_text [of _ "''9f70eb45f1aa5ae086c269bab3f817ba''"]
      group_uuid_def is_low_hex_def code_def)

definition ex_state :: adapters_state where
  "ex_state = \<lparr>adapter_classes = [(''KNX'', \<lparr>cls_type = ''KNX'', cls_hidden = False, cls_capabilities = None\<rparr>)],
     running = [], published = []\<rparr>"

definition ex_row :: instance_row where
  "ex_row = \<lparr>ir_id = ex_id, ir_adapter_type = ''KNX'', ir_name = ''EG'', ir_config = None, ir_enabled = 1\<rparr>"

theorem restart_instance_spec_witness:
  "\<exists>a s'. restart_instance ex_protocol [] [ex_row] ex_id ex_state = (Some a, s')
    \<and> map fst (running s') = [ex_id]"
proof -
  obtain r s' where r: "restart_instance ex_protocol [] [ex_row] ex_id ex_state = (r, s')"
    by (cases "restart_instance ex_protocol [] [ex_row] ex_id ex_state")
  have "r \<noteq> None"
    using r parse_ex_id
    by (auto simp: restart_instance_def ex_row_def ex_state_def launch_def ex_protocol_def truthy_text_def
        publish_status_def reload_instance_from_rows_def instance_rows_def publish_binding_load_status_def
        reload_bindings_def Let_def binding_load_prefix_def new_adapter_def set_instance_def emit_def
        announce_started_def map_of_assoc_set)
  then obtain a where a: "r = Some a" by auto
  with restart_instance_spec [OF r parse_ex_id] have "map fst (running s') = [ex_id]"
    by (simp add: ex_state_def)
  with r a show ?thesis by auto
qed

theorem load_valid_bindings_complete_witness:
  "\<exists>bs is. load_valid_bindings (\<lambda>_. True) [\<lparr>br_id = ''x'', br_datapoint = ''y'', br_adapter_type = ''KNX'',
     br_instance = None, br_direction = ''DEST'', br_config = ''{}'', br_enabled = 1, br_throttle_ms = PNone,
     br_on_change = PInt 0, br_min_delta = PNone, br_min_delta_pct = PNone, br_formula = None,
     br_value_map = None, br_created_at = ''t'', br_updated_at = ''t''\<rparr>] = Inr (bs, is)
     \<and> length bs + length is = 1"
proof -
  let ?w = "\<lparr>br_id = ''x'', br_datapoint = ''y'', br_adapter_type = ''KNX'',
     br_instance = None, br_direction = ''DEST'', br_config = ''{}'', br_enabled = 1, br_throttle_ms = PNone,
     br_on_change = PInt 0, br_min_delta = PNone, br_min_delta_pct = PNone, br_formula = None,
     br_value_map = None, br_created_at = ''t'', br_updated_at = ''t''\<rparr>"
  have no: "parse_uuid ''x'' = None" by code_simp
  have "row_to_binding (\<lambda>_. True) ?w = Inl ValueError"
    by (simp add: row_to_binding_def truthy_text_def no of_opt_def)
  then obtain bs "is" where l: "load_valid_bindings (\<lambda>_. True) [?w] = Inr (bs, is)"
    by (simp add: caught_reading_def)
  with load_valid_bindings_complete [where isok = "\<lambda>_. True" and ws = "[?w]"] show ?thesis by auto
qed

theorem deferred_reloads_once_witness:
  "snd (end_deferred ex_protocol [] \<lparr>pending_ids = [ex_id], pending_closed = False\<rparr> ex_state) = ex_state"
proof -
  have "request_all ex_protocol [] [ex_id, ex_id] (Some \<lparr>pending_ids = [], pending_closed = False\<rparr>) ex_state
      = (Some \<lparr>pending_ids = [ex_id], pending_closed = False\<rparr>, ex_state)"
    by (subst request_all_open) simp_all
  moreover have e: "end_deferred ex_protocol [] \<lparr>pending_ids = [ex_id], pending_closed = False\<rparr> ex_state
      = (\<lparr>pending_ids = [ex_id], pending_closed = True\<rparr>, ex_state)"
    by (simp add: end_deferred_def reload_now_def ex_state_def)
  ultimately have "ex_state = ex_state
      \<and> pending_closed \<lparr>pending_ids = [ex_id], pending_closed = True\<rparr>"
    using deferred_reloads_once by blast
  with e show ?thesis by simp
qed

end
