(* ===== verification/Write_Router.thy ===== *)
theory Write_Router
  imports Datapoint_Registry Adapter_Registry Transformation
begin

text \<open>
  The write router (\<open>obs/core/write_router.py\<close>): the two paths on which a value reaches the adapters
  that are bound to a datapoint as destinations, with their filters, and the re-sending of system
  values to adapters that connect.  The clock, the outcome of a write, the digest and the formulas
  of bindings are arguments; a coroutine is one step, so nothing else happens between two rows.
\<close>

section \<open>Cached values\<close>

definition max_cached_value_chars :: nat where
  "max_cached_value_chars = 8192"

datatype cached = Whole pyval | StrDigest nat string | ReprDigest nat string

fun to_cached_value :: "(string \<Rightarrow> string) \<Rightarrow> pyval \<Rightarrow> cached" where
  "to_cached_value sha (PStr s) =
     (if length s \<le> max_cached_value_chars then Whole (PStr s) else StrDigest (length s) (sha s))"
| "to_cached_value sha v =
     (let r = py_repr v
      in if max_cached_value_chars < length r then ReprDigest (length r) (sha r) else Whole v)"

fun cached_value_equals :: "(string \<Rightarrow> string) \<Rightarrow> pyval \<Rightarrow> cached \<Rightarrow> bool" where
  "cached_value_equals sha v (StrDigest n d) =
     (case v of PStr s \<Rightarrow> length s = n \<and> sha s = d | _ \<Rightarrow> False)"
| "cached_value_equals sha v (ReprDigest n d) = (length (py_repr v) = n \<and> sha (py_repr v) = d)"
| "cached_value_equals sha v (Whole w) = py_eq v w"

section \<open>Payloads of set messages\<close>

definition unwrap_mqtt_set_payload :: "string \<Rightarrow> pyval \<times> bool" where
  "unwrap_mqtt_set_payload raw =
     (case json_loads raw of
        Inl _ \<Rightarrow> (PStr raw, False)
      | Inr (PDict kvs) \<Rightarrow> (case map_of kvs ''v'' of Some v \<Rightarrow> (v, True) | None \<Rightarrow> (PDict kvs, True))
      | Inr v \<Rightarrow> (v, True))"

fun coerce_mqtt_boolean :: "pyval \<Rightarrow> (pyerr, bool) result" where
  "coerce_mqtt_boolean (PBool b) = Inr b"
| "coerce_mqtt_boolean (PInt i) = (if i \<in> {0, 1} then Inr (i \<noteq> 0) else Inl ValueError)"
| "coerce_mqtt_boolean (PStr s) =
     (let t = py_lower (py_strip s)
      in if t \<in> {''true'', ''1'', ''yes'', ''on''} then Inr True
         else if t \<in> {''false'', ''0'', ''no'', ''off''} then Inr False else Inl ValueError)"
| "coerce_mqtt_boolean _ = Inl ValueError"

fun coerce_mqtt_integer :: "pyval \<Rightarrow> (pyerr, int) result" where
  "coerce_mqtt_integer (PInt i) = Inr i"
| "coerce_mqtt_integer (PFloat x) =
     rbind (float_to_int x) (\<lambda>i. if feq x (Fin (of_int i)) then Inr i else Inl ValueError)"
| "coerce_mqtt_integer _ = Inl ValueError"

fun coerce_mqtt_float :: "pyval \<Rightarrow> (pyerr, pyfloat) result" where
  "coerce_mqtt_float (PInt i) = int_to_float i"
| "coerce_mqtt_float (PFloat x) = Inr x"
| "coerce_mqtt_float _ = Inl ValueError"

definition deserialize_typed_mqtt_set_value ::
  "host \<Rightarrow> type_def \<Rightarrow> string \<Rightarrow> pyval \<Rightarrow> bool \<Rightarrow> (pyerr, pyval) result" where
  "deserialize_typed_mqtt_set_value h dt raw payload was_json =
     (let reread = (if was_json then Inr payload else json_loads raw)
      in if type_name dt = ''BOOLEAN'' then
           rbind (coerce_mqtt_boolean (if was_json then payload else PStr raw)) (\<lambda>b. Inr (PBool b))
         else if type_name dt = ''INTEGER'' then
           rbind reread (\<lambda>v. rbind (coerce_mqtt_integer v) (\<lambda>i. Inr (PInt i)))
         else if type_name dt = ''FLOAT'' then
           rbind reread (\<lambda>v. rbind (coerce_mqtt_float v) (\<lambda>x. Inr (PFloat x)))
         else if type_name dt = ''STRING'' \<and> \<not> was_json then Inr (PStr raw)
         else if type_name dt \<in> {''DATE'', ''TIME'', ''DATETIME''} \<and> \<not> was_json then
           rbind (json_dumps (PStr raw)) (mqtt_deserializer dt h)
         else rbind (if was_json then json_dumps payload else Inr raw) (mqtt_deserializer dt h))"

section \<open>State\<close>

record write_call =
  wc_instance :: uuid
  wc_binding :: binding
  wc_value :: pyval
  wc_logical :: pyval
  wc_suppress :: bool
  wc_token :: "nat option"
  wc_order :: write_order

record router =
  last_sent :: "(uuid \<times> pyfloat) list"
  last_written :: "(uuid \<times> cached) list"
  order_tracker :: order_tracker
  connected_instances :: "string list"
  token_count :: nat
  clock_reads :: nat
  calls :: "(write_call \<times> bool) list"       \<comment> \<open>the writes asked of adapters, newest first, and whether they succeeded\<close>
  router_events :: "event list"
  router_registry :: registry

record world =
  w_host :: host
  w_types :: type_table
  w_monotonic :: "nat \<Rightarrow> pyfloat"            \<comment> \<open>the readings of the clock, in order\<close>
  w_write_ok :: "(write_call \<times> bool) list \<Rightarrow> write_call \<Rightarrow> bool"
  w_sha256 :: "string \<Rightarrow> string"
  w_formula :: "string \<Rightarrow> pyval \<Rightarrow> pyval"
  w_iso_ok :: "string \<Rightarrow> bool"
  w_now :: timestamp
  w_now_text :: string
  w_rows :: "binding_row list"
  w_instances :: instances

definition monotonic :: "world \<Rightarrow> router \<Rightarrow> pyfloat" where
  "monotonic w s = w_monotonic w (clock_reads s)"

definition tick :: "nat \<Rightarrow> router \<Rightarrow> router" where
  "tick n s = s\<lparr>clock_reads := clock_reads s + n\<rparr>"

section \<open>The filters of a binding\<close>

text \<open>Whether the throttle holds the value back, and the readings of the clock it takes.\<close>

definition throttled :: "world \<Rightarrow> binding \<Rightarrow> router \<Rightarrow> (pyerr, bool) result \<times> router" where
  "throttled w b s =
     (case b_throttle_ms b of
        None \<Rightarrow> (Inr False, s)
      | Some ms \<Rightarrow>
          if ms = 0 then (Inr False, s)
          else (case rbind (int_to_float ms) (\<lambda>m. fdiv m (Fin 1000)) of
                  Inl e \<Rightarrow> (Inl e, s)
                | Inr min_interval \<Rightarrow>
                    (case map_of (last_sent s) (b_id b) of
                       None \<Rightarrow> (Inr False, s)
                     | Some ts \<Rightarrow>
                         if flt (fsub (monotonic w s) ts) min_interval
                         then (Inr True, tick 2 s) else (Inr False, tick 1 s))))"

definition cached_float :: "cached \<Rightarrow> (pyerr, pyfloat) result" where
  "cached_float c = (case c of Whole v \<Rightarrow> py_float v | _ \<Rightarrow> Inl TypeError)"

definition percent_change :: "pyfloat \<Rightarrow> pyfloat \<Rightarrow> (pyerr, pyfloat) result" where
  "percent_change v_new v_last =
     (let diff = fabs (fsub v_new v_last);
          base = (if \<not> feq v_last (Fin 0) then fabs v_last else fabs v_new)
      in if \<not> feq base (Fin 0) then rbind (fdiv diff base) (\<lambda>x. Inr (fmul x (Fin 100)))
         else Inr (Fin 0))"

text \<open>The minimal change; a value that is not numeric passes, another error escapes.\<close>

definition delta_holds_back :: "binding \<Rightarrow> pyval \<Rightarrow> cached \<Rightarrow> (pyerr, bool) result" where
  "delta_holds_back b v prev =
     (if b_min_delta b = None \<and> b_min_delta_pct b = None then Inr False
      else
        (case rbind (py_float v) (\<lambda>v_new. rbind (cached_float prev) (\<lambda>v_last.
                if (case b_min_delta b of None \<Rightarrow> False | Some d \<Rightarrow> flt (fabs (fsub v_new v_last)) d)
                then Inr True
                else (case b_min_delta_pct b of
                        None \<Rightarrow> Inr False
                      | Some p \<Rightarrow> rbind (percent_change v_new v_last) (\<lambda>pct. Inr (flt pct p))))) of
           Inl e \<Rightarrow> if e \<in> {TypeError, ValueError} then Inr False else Inl e
         | Inr x \<Rightarrow> Inr x))"

definition previous :: "router \<Rightarrow> uuid \<Rightarrow> cached option" where
  "previous s u =
     (case map_of (last_written s) u of
        Some (Whole PNone) \<Rightarrow> None
      | x \<Rightarrow> x)"

definition value_holds_back :: "world \<Rightarrow> binding \<Rightarrow> pyval \<Rightarrow> router \<Rightarrow> (pyerr, bool) result" where
  "value_holds_back w b v s =
     (case previous s (b_id b) of
        None \<Rightarrow> Inr False
      | Some prev \<Rightarrow>
          if b_on_change b \<and> cached_value_equals (w_sha256 w) v prev then Inr True
          else delta_holds_back b v prev)"

text \<open>The instance a binding is written through; \<open>targeted\<close>: a write meant for this binding only.\<close>

definition target_instance :: "instances \<Rightarrow> bool \<Rightarrow> binding \<Rightarrow> binding adapter option" where
  "target_instance is targeted b =
     (case (case b_instance b of None \<Rightarrow> None | Some u \<Rightarrow> get_instance_by_id is u) of
        Some a \<Rightarrow> Some a
      | None \<Rightarrow>
          if targeted \<and> b_instance b \<noteq> None then None else get_instance is (b_adapter_type b))"

definition transformed :: "world \<Rightarrow> binding \<Rightarrow> pyval \<Rightarrow> pyval" where
  "transformed w b v =
     (let x = (case b_formula b of
                 None \<Rightarrow> v | Some f \<Rightarrow> if f = [] then v else w_formula w f v)
      in apply_value_map x (b_value_map b))"

definition needs_value_cache :: "binding \<Rightarrow> bool" where
  "needs_value_cache b \<longleftrightarrow> b_on_change b \<or> b_min_delta b \<noteq> None \<or> b_min_delta_pct b \<noteq> None"

section \<open>Writing to the destinations\<close>

record write_request =
  wr_dp :: uuid
  wr_value :: pyval
  wr_skip :: "uuid option"
  wr_suppress :: bool
  wr_only :: "uuid option"

text \<open>The write itself: on success the time and, where a filter needs it, the value are kept.\<close>

definition perform_write ::
  "world \<Rightarrow> write_request \<Rightarrow> nat option \<Rightarrow> write_order \<Rightarrow> binding adapter \<Rightarrow> binding \<Rightarrow> router \<Rightarrow> router" where
  "perform_write w q tok ord a b s =
     (let c = \<lparr>wc_instance = instance_id a, wc_binding = b, wc_value = transformed w b (wr_value q),
               wc_logical = wr_value q, wc_suppress = wr_suppress q, wc_token = tok, wc_order = ord\<rparr>;
          ok = w_write_ok w (calls s) c;
          s1 = s\<lparr>calls := (c, ok) # calls s\<rparr>
      in if \<not> ok then s1
         else
           (let s2 = tick 1 (s1\<lparr>last_sent := assoc_set (b_id b) (monotonic w s1) (last_sent s1)\<rparr>)
            in if needs_value_cache b
               then s2\<lparr>last_written :=
                        assoc_set (b_id b) (to_cached_value (w_sha256 w) (wr_value q)) (last_written s2)\<rparr>
               else s2\<lparr>last_written := assoc_del (b_id b) (last_written s2)\<rparr>))"

text \<open>One row: \<^const>\<open>None\<close> when the loop goes on, an exception when it ends the whole write.\<close>

definition process_row ::
  "world \<Rightarrow> write_request \<Rightarrow> nat option \<Rightarrow> write_order \<Rightarrow> binding_row \<Rightarrow> router \<Rightarrow> pyerr option \<times> router" where
  "process_row w q tok ord row s =
     (case row_to_binding (w_iso_ok w) row of
        Inl _ \<Rightarrow> (None, s)
      | Inr b \<Rightarrow>
          if wr_skip q = Some (b_id b) then (None, s)
          else if b_adapter_type b = ''MESSAGE'' then (None, s)
          else
            (case target_instance (w_instances w) (wr_only q \<noteq> None) b of
               None \<Rightarrow> (None, s)
             | Some a \<Rightarrow>
                 (case throttled w b s of
                    (Inl e, s1) \<Rightarrow> (Some e, s1)
                  | (Inr True, s1) \<Rightarrow> (None, s1)
                  | (Inr False, s1) \<Rightarrow>
                      (case value_holds_back w b (wr_value q) s1 of
                         Inl e \<Rightarrow> (Some e, s1)
                       | Inr True \<Rightarrow> (None, s1)
                       | Inr False \<Rightarrow> (None, perform_write w q tok ord a b s1)))))"

fun process_rows ::
  "world \<Rightarrow> write_request \<Rightarrow> nat option \<Rightarrow> write_order \<Rightarrow> binding_row list \<Rightarrow> router \<Rightarrow> pyerr option \<times> router" where
  "process_rows w q tok ord [] s = (None, s)"
| "process_rows w q tok ord (row # rows) s =
     (case process_row w q tok ord row s of
        (Some e, s') \<Rightarrow> (Some e, s')
      | (None, s') \<Rightarrow> process_rows w q tok ord rows s')"

definition dest_rows :: "world \<Rightarrow> write_request \<Rightarrow> binding_row list" where
  "dest_rows w q =
     filter (\<lambda>r. br_datapoint r = wr_dp q \<and> br_direction r \<in> {''DEST'', ''BOTH''} \<and> br_enabled r = 1
        \<and> br_adapter_type r \<noteq> ''MESSAGE''
        \<and> (case wr_only q of None \<Rightarrow> True | Some u \<Rightarrow> br_id r = u)) (w_rows w)"

text \<open>
  The token and the order all destinations of one write share; the order of a write that triggers
  no actions is active at once.
\<close>

definition begin_write :: "write_request \<Rightarrow> router \<Rightarrow> nat option \<times> write_order \<times> router" where
  "begin_write q s =
     (case issue 0 (wr_dp q) (order_tracker s) of
        (ord, tr) \<Rightarrow>
          if wr_suppress q then (None, ord, s\<lparr>order_tracker := activate_order ord tr\<rparr>)
          else (Some (token_count s), ord, s\<lparr>token_count := token_count s + 1, order_tracker := tr\<rparr>))"

definition write_to_dest_bindings :: "world \<Rightarrow> write_request \<Rightarrow> router \<Rightarrow> pyerr option \<times> router" where
  "write_to_dest_bindings w q s =
     (if dest_rows w q = [] then (None, s)
      else (case begin_write q s of
              (tok, ord, s1) \<Rightarrow> process_rows w q tok ord (dest_rows w q) s1))"

section \<open>Path 1: set messages\<close>

definition semantic_rows :: "world \<Rightarrow> uuid \<Rightarrow> binding_row list" where
  "semantic_rows w u =
     filter (\<lambda>r. br_datapoint r = u \<and> br_enabled r = 1 \<and> br_adapter_type r \<noteq> ''MESSAGE'') (w_rows w)"

definition has_writable_bindings :: "world \<Rightarrow> uuid \<Rightarrow> bool" where
  "has_writable_bindings w u \<longleftrightarrow>
     list_ex (\<lambda>r. br_direction r \<in> {''DEST'', ''BOTH''}) (semantic_rows w u)"

text \<open>The value a payload stands for; \<^const>\<open>None\<close> when it is logged as invalid.\<close>

definition payload_value :: "world \<Rightarrow> string \<Rightarrow> string \<Rightarrow> (pyerr, pyval option) result" where
  "payload_value w data_type raw =
     rbind (type_get (w_types w) data_type) (\<lambda>dt.
       case unwrap_mqtt_set_payload raw of
         (payload, was_json) \<Rightarrow>
           if type_name dt = ''UNKNOWN'' then Inr (Some (if was_json then payload else PStr raw))
           else (case deserialize_typed_mqtt_set_value (w_host w) dt raw payload was_json of
                   Inr v \<Rightarrow> Inr (Some v)
                 | Inl e \<Rightarrow> if e \<in> {ValueError, TypeError} then Inr None else Inl e))"

definition emit_event :: "event \<Rightarrow> router \<Rightarrow> router" where
  "emit_event e s = s\<lparr>router_events := router_events s @ [e]\<rparr>"

definition mqtt_set_event :: "world \<Rightarrow> uuid \<Rightarrow> pyval \<Rightarrow> value_event" where
  "mqtt_set_event w u v =
     \<lparr>ev_datapoint = u, ev_value = v, ev_quality = ''good'', ev_source = ''mqtt_set'', ev_ts = w_now w,
      ev_binding = None, ev_logic_depth = 0, ev_suppress_write = False, ev_suppress_actions = False,
      ev_initialization = False\<rparr>"

definition handle :: "world \<Rightarrow> uuid \<Rightarrow> string \<Rightarrow> router \<Rightarrow> pyerr option \<times> router" where
  "handle w u raw s =
     (case registry_get (router_registry s) u of
        None \<Rightarrow> (None, s)
      | Some d \<Rightarrow>
          if is_system_datapoint u then (None, s)
          else if semantic_rows w u \<noteq> [] \<and> \<not> has_writable_bindings w u then (None, s)
          else
            (case payload_value w (dp_data_type d) raw of
               Inl e \<Rightarrow> (Some e, s)
             | Inr None \<Rightarrow> (None, s)
             | Inr (Some v) \<Rightarrow>
                 if has_writable_bindings w u then
                   write_to_dest_bindings w
                     \<lparr>wr_dp = u, wr_value = v, wr_skip = None, wr_suppress = False, wr_only = None\<rparr> s
                 else if dp_external_write_enabled d
                 then (None, emit_event (ValueEvent (mqtt_set_event w u v)) s)
                 else (None, s)))"

section \<open>Path 2: value events\<close>

fun py_type_name :: "py_type \<Rightarrow> string" where
  "py_type_name TBytes = ''bytes''"
| "py_type_name TBool = ''bool''"
| "py_type_name TInt = ''int''"
| "py_type_name TFloat = ''float''"
| "py_type_name TStr = ''str''"
| "py_type_name TDate = ''date''"
| "py_type_name TTime = ''time''"
| "py_type_name TDateTime = ''datetime''"

fun type_name_of :: "pyval \<Rightarrow> string" where
  "type_name_of PNone = ''NoneType''"
| "type_name_of (PBool _) = ''bool''"
| "type_name_of (PInt _) = ''int''"
| "type_name_of (PFloat _) = ''float''"
| "type_name_of (PStr _) = ''str''"
| "type_name_of (PBytes _) = ''bytes''"
| "type_name_of (PDate _ _ _) = ''date''"
| "type_name_of (PTime _ _ _) = ''time''"
| "type_name_of (PDateTime _ _ _ _ _ _) = ''datetime''"
| "type_name_of (PList _) = ''list''"
| "type_name_of (PDict _) = ''dict''"

text \<open>A value of the type of the datapoint, any number for \<open>FLOAT\<close>.\<close>

definition type_matches :: "type_def \<Rightarrow> pyval \<Rightarrow> bool" where
  "type_matches dt v \<longleftrightarrow>
     type_name dt = ''UNKNOWN'' \<or> isinstance v (python_type dt)
     \<or> (type_name dt = ''FLOAT'' \<and> (is_int v \<or> is_float v) \<and> \<not> is_bool v)"

definition handle_value_event :: "world \<Rightarrow> value_event \<Rightarrow> router \<Rightarrow> pyerr option \<times> router" where
  "handle_value_event w e s =
     (if ev_quality e \<noteq> ''good'' \<or> ev_value e = PNone then (None, s)
      else
        (case registry_get (router_registry s) (ev_datapoint e) of
           None \<Rightarrow> (None, s)
         | Some d \<Rightarrow>
             (case type_get (w_types w) (dp_data_type d) of
                Inl x \<Rightarrow> (Some x, s)
              | Inr dt \<Rightarrow>
                  if \<not> type_matches dt (ev_value e) then
                    (None, s\<lparr>router_registry :=
                       report_type_mismatch (w_now_text w) (ev_datapoint e) (py_type_name (python_type dt))
                         (type_name_of (ev_value e)) (ev_source e) (ev_value e) (router_registry s)\<rparr>)
                  else
                    (let s1 = s\<lparr>router_registry :=
                                 clear_diagnostic (ev_datapoint e) ''type_mismatch'' (router_registry s)\<rparr>
                     in if ev_suppress_write e then (None, s1)
                        else write_to_dest_bindings w
                          \<lparr>wr_dp = ev_datapoint e, wr_value = ev_value e, wr_skip = ev_binding e,
                           wr_suppress = True, wr_only = None\<rparr> s1))))"

section \<open>System values\<close>

definition write_binding :: "world \<Rightarrow> uuid \<Rightarrow> uuid \<Rightarrow> pyval \<Rightarrow> router \<Rightarrow> pyerr option \<times> router" where
  "write_binding w u b v s =
     write_to_dest_bindings w
       \<lparr>wr_dp = u, wr_value = v, wr_skip = None, wr_suppress = True, wr_only = Some b\<rparr>
       (s\<lparr>last_written := assoc_del b (last_written s), last_sent := assoc_del b (last_sent s)\<rparr>)"

definition resend_system_value :: "world \<Rightarrow> uuid \<Rightarrow> uuid \<Rightarrow> router \<Rightarrow> (pyerr, bool) result \<times> router" where
  "resend_system_value w u b s =
     (if \<not> is_system_datapoint u then (Inr False, s)
      else
        (case get_value (router_registry s) u of
           None \<Rightarrow> (Inr False, s)
         | Some st \<Rightarrow>
             if vs_quality st \<noteq> ''good'' \<or> vs_value st = PNone then (Inr False, s)
             else (case write_binding w u b (vs_value st) s of
                     (Some e, s') \<Rightarrow> (Inl e, s')
                   | (None, s') \<Rightarrow> (Inr True, s'))))"

text \<open>\<open>fallback_type\<close>: the type whose bindings without an instance go through this one.\<close>

definition first_of_type :: "instances \<Rightarrow> string \<Rightarrow> uuid option" where
  "first_of_type is ty = map_option fst (find (\<lambda>(u, a). adapter_type a = ty) is)"

definition fallback_type :: "instances \<Rightarrow> uuid \<Rightarrow> string option" where
  "fallback_type is i =
     (case get_instance_by_id is i of
        None \<Rightarrow> None
      | Some a \<Rightarrow>
          if adapter_type a \<noteq> [] \<and> first_of_type is (adapter_type a) = Some i
          then Some (adapter_type a) else None)"

definition system_rows :: "world \<Rightarrow> uuid \<Rightarrow> binding_row list" where
  "system_rows w i =
     filter (\<lambda>r. (br_instance r = Some i
          \<or> (br_instance r = None \<and> Some (br_adapter_type r) = fallback_type (w_instances w) i))
        \<and> br_direction r \<in> {''DEST'', ''BOTH''} \<and> br_enabled r = 1 \<and> br_adapter_type r \<noteq> ''MESSAGE''
        \<and> br_datapoint r \<in> set system_ids) (w_rows w)"

text \<open>An exception of one binding is logged; the others are still served.\<close>

fun resend_rows :: "world \<Rightarrow> binding_row list \<Rightarrow> router \<Rightarrow> nat \<times> router" where
  "resend_rows w [] s = (0, s)"
| "resend_rows w (r # rs) s =
     (case (case (parse_uuid (br_datapoint r), parse_uuid (br_id r)) of
              (Some u, Some b) \<Rightarrow> resend_system_value w u b s
            | _ \<Rightarrow> (Inl ValueError, s)) of
        (x, s1) \<Rightarrow>
          (case resend_rows w rs s1 of
             (n, s2) \<Rightarrow> (n + (if x = Inr True then 1 else 0), s2)))"

definition resend_system_bindings :: "world \<Rightarrow> uuid \<Rightarrow> router \<Rightarrow> nat \<times> router" where
  "resend_system_bindings w i s = resend_rows w (system_rows w i) s"

definition handle_adapter_status :: "world \<Rightarrow> status_event \<Rightarrow> router \<Rightarrow> router" where
  "handle_adapter_status w e s =
     (case st_instance e of
        None \<Rightarrow> s
      | Some key \<Rightarrow>
          if \<not> st_connected e
          then s\<lparr>connected_instances := filter (\<lambda>k. k \<noteq> key) (connected_instances s)\<rparr>
          else if key \<in> set (connected_instances s) \<or> get_instance_by_id (w_instances w) key = None then s
          else snd (resend_system_bindings w key
                 (s\<lparr>connected_instances := key # connected_instances s\<rparr>)))"

definition handle_instance_started :: "world \<Rightarrow> started_event \<Rightarrow> router \<Rightarrow> router" where
  "handle_instance_started w e s =
     (let key = sta_instance e;
          kept = filter (\<lambda>i. i \<noteq> key \<and> get_instance_by_id (w_instances w) i \<noteq> None) (connected_instances s)
      in if sta_connected e
         then snd (resend_system_bindings w key (s\<lparr>connected_instances := key # kept\<rparr>))
         else s\<lparr>connected_instances := kept\<rparr>)"

end
