(* ===== verification/Router_Props.thy ===== *)
theory Router_Props
  imports Write_Router
begin

text \<open>
  Correctness of the write router: which bindings a value can reach, that a binding gets no value
  its filters hold back, what the caches hold, and when system values are sent again.
\<close>

section \<open>One row\<close>

text \<open>The steps that change nothing but the clock.\<close>

lemma throttled_state: "\<exists>n. snd (throttled w b s) = tick n s"
proof -
  have "tick 0 s = s" by (simp add: tick_def)
  then show ?thesis
    by (cases "b_throttle_ms b"; cases "rbind (int_to_float (the (b_throttle_ms b))) (\<lambda>m. fdiv m (Fin 1000))";
        cases "map_of (last_sent s) (b_id b)")
      (auto simp: throttled_def intro: exI [of _ "0::nat"] split: sum.splits option.splits)
qed

lemma tick_simps [simp]:
  "calls (tick n s) = calls s" "last_sent (tick n s) = last_sent s"
  "last_written (tick n s) = last_written s" "connected_instances (tick n s) = connected_instances s"
  "order_tracker (tick n s) = order_tracker s" "router_registry (tick n s) = router_registry s"
  "router_events (tick n s) = router_events s" "token_count (tick n s) = token_count s"
  by (simp_all add: tick_def)

text \<open>A row is either passed over, ends the write with an exception, or makes one call.\<close>

definition reaches :: "world \<Rightarrow> write_request \<Rightarrow> binding_row \<Rightarrow> binding \<Rightarrow> binding adapter \<Rightarrow> bool" where
  "reaches w q row b a \<longleftrightarrow>
     row_to_binding (w_iso_ok w) row = Inr b \<and> wr_skip q \<noteq> Some (b_id b)
     \<and> b_adapter_type b \<noteq> ''MESSAGE'' \<and> target_instance (w_instances w) (wr_only q \<noteq> None) b = Some a"

lemma process_row_cases:
  obtains (passed) n where "process_row w q tok ord row s = (None, tick n s)"
  | (raised) n e where "process_row w q tok ord row s = (Some e, tick n s)"
  | (written) b a n where "reaches w q row b a"
      "throttled w b s = (Inr False, tick n s)" "value_holds_back w b (wr_value q) (tick n s) = Inr False"
      "process_row w q tok ord row s = (None, perform_write w q tok ord a b (tick n s))"
proof -
  have t0: "tick 0 s = s" by (simp add: tick_def)
  show thesis
  proof (cases "row_to_binding (w_iso_ok w) row")
    case (Inl e)
    then show thesis using passed [of 0] t0 by (simp add: process_row_def)
  next
    case b: (Inr b)
    show thesis
    proof (cases "wr_skip q = Some (b_id b) \<or> b_adapter_type b = ''MESSAGE''
        \<or> target_instance (w_instances w) (wr_only q \<noteq> None) b = None")
      case True
      then show thesis using passed [of 0] t0 b by (auto simp: process_row_def)
    next
      case False
      then obtain a where a: "target_instance (w_instances w) (wr_only q \<noteq> None) b = Some a" by auto
      obtain x n where x: "throttled w b s = (x, tick n s)"
        using throttled_state [of w b s] by (metis prod.collapse)
      show thesis
      proof (cases x)
        case (Inl e)
        then show thesis using raised [of e n] b a x False by (simp add: process_row_def)
      next
        case (Inr held)
        show thesis
        proof (cases held)
          case True
          then show thesis using passed [of n] b a x False Inr by (simp add: process_row_def)
        next
          case nothrottle: False
          show thesis
          proof (cases "value_holds_back w b (wr_value q) (tick n s)")
            case (Inl e)
            then show thesis using raised [of e n] b a x False Inr nothrottle by (simp add: process_row_def)
          next
            case v: (Inr held2)
            show thesis
            proof (cases held2)
              case True
              then show thesis using passed [of n] b a x False Inr nothrottle v by (simp add: process_row_def)
            next
              case False2: False
              have "reaches w q row b a" using b a False by (simp add: reaches_def)
              then show thesis
                using written [of b a n] b a x False Inr nothrottle v False2 by (simp add: process_row_def)
            qed
          qed
        qed
      qed
    qed
  qed
qed

definition the_call ::
  "world \<Rightarrow> write_request \<Rightarrow> nat option \<Rightarrow> write_order \<Rightarrow> binding adapter \<Rightarrow> binding \<Rightarrow> write_call" where
  "the_call w q tok ord a b =
     \<lparr>wc_instance = instance_id a, wc_binding = b, wc_value = transformed w b (wr_value q),
      wc_logical = wr_value q, wc_suppress = wr_suppress q, wc_token = tok, wc_order = ord\<rparr>"

lemma perform_write_eq:
  "perform_write w q tok ord a b s =
     (let c = the_call w q tok ord a b
      in if w_write_ok w (calls s) c
         then tick 1 (s\<lparr>calls := (c, True) # calls s,
                last_sent := assoc_set (b_id b) (monotonic w s) (last_sent s),
                last_written :=
                  (if needs_value_cache b
                   then assoc_set (b_id b) (to_cached_value (w_sha256 w) (wr_value q)) (last_written s)
                   else assoc_del (b_id b) (last_written s))\<rparr>)
         else s\<lparr>calls := (c, False) # calls s\<rparr>)"
  by (simp add: perform_write_def the_call_def Let_def monotonic_def tick_def)

lemma perform_write_frame [simp]:
  "connected_instances (perform_write w q tok ord a b s) = connected_instances s"
  "router_registry (perform_write w q tok ord a b s) = router_registry s"
  "router_events (perform_write w q tok ord a b s) = router_events s"
  "order_tracker (perform_write w q tok ord a b s) = order_tracker s"
  "\<exists>ok. calls (perform_write w q tok ord a b s) = (the_call w q tok ord a b, ok) # calls s"
  by (auto simp: perform_write_eq Let_def)

lemma process_row_frame [simp]:
  "connected_instances (snd (process_row w q tok ord row s)) = connected_instances s"
  "router_registry (snd (process_row w q tok ord row s)) = router_registry s"
  "router_events (snd (process_row w q tok ord row s)) = router_events s"
  by (cases rule: process_row_cases [of w q tok ord row s]; simp)+

lemma process_rows_frame [simp]:
  "connected_instances (snd (process_rows w q tok ord rows s)) = connected_instances s"
  "router_registry (snd (process_rows w q tok ord rows s)) = router_registry s"
  "router_events (snd (process_rows w q tok ord rows s)) = router_events s"
proof (induction rows arbitrary: s)
  case (Cons row rows)
  {
    case 1
    then show ?case
      using Cons(1) process_row_frame(1) [of w q tok ord row s]
      by (cases "process_row w q tok ord row s") (auto split: option.splits)
  next
    case 2
    then show ?case
      using Cons(2) process_row_frame(2) [of w q tok ord row s]
      by (cases "process_row w q tok ord row s") (auto split: option.splits)
  next
    case 3
    then show ?case
      using Cons(3) process_row_frame(3) [of w q tok ord row s]
      by (cases "process_row w q tok ord row s") (auto split: option.splits)
  }
qed simp_all

lemma write_to_dest_frame [simp]:
  "connected_instances (snd (write_to_dest_bindings w q s)) = connected_instances s"
  "router_registry (snd (write_to_dest_bindings w q s)) = router_registry s"
  "router_events (snd (write_to_dest_bindings w q s)) = router_events s"
  by (simp_all add: write_to_dest_bindings_def begin_write_def split_beta)

section \<open>Which bindings a value reaches\<close>

text \<open>The calls a write adds: at most one for each row, in the order of the rows.\<close>

lemma process_rows_calls:
  "\<exists>new. calls (snd (process_rows w q tok ord rows s)) = rev new @ calls s
     \<and> length new \<le> length rows
     \<and> (\<forall>(c, ok) \<in> set new. \<exists>row \<in> set rows. \<exists>b a. reaches w q row b a \<and> c = the_call w q tok ord a b)"
proof (induction rows arbitrary: s)
  case Nil
  then show ?case by simp
next
  case (Cons row rows)
  have t: "?case" if r: "process_row w q tok ord row s = (None, s1)"
    and s1: "calls s1 = rev new1 @ calls s" "length new1 \<le> 1"
      "\<forall>(c, ok) \<in> set new1. \<exists>b a. reaches w q row b a \<and> c = the_call w q tok ord a b" for s1 new1
  proof -
    obtain new where n: "calls (snd (process_rows w q tok ord rows s1)) = rev new @ calls s1"
        "length new \<le> length rows"
        "\<forall>(c, ok) \<in> set new. \<exists>row \<in> set rows. \<exists>b a. reaches w q row b a \<and> c = the_call w q tok ord a b"
      using Cons.IH [of s1] by blast
    show ?thesis
      using n s1 r by (intro exI [of _ "new1 @ new"]) fastforce
  qed
  show ?case
  proof (cases rule: process_row_cases [of w q tok ord row s])
    case (passed n)
    then show ?thesis using t [of "tick n s" "[]"] by simp
  next
    case (raised n e)
    then show ?thesis by (intro exI [of _ "[]"]) simp
  next
    case (written b a n)
    then show ?thesis
      using t [of "perform_write w q tok ord a b (tick n s)" "[(the_call w q tok ord a b, _)]"]
        perform_write_frame(5) [of w q tok ord a b "tick n s"] by fastforce
  qed
qed

lemma length_filter_le_imp: "(\<And>x. P x \<Longrightarrow> Q x) \<Longrightarrow> length (filter P xs) \<le> length (filter Q xs)"
  by (induction xs) auto

lemma write_calls:
  "\<exists>new ord tok. calls (snd (write_to_dest_bindings w q s)) = rev new @ calls s
     \<and> length new \<le> length (dest_rows w q) \<and> (tok = None \<longleftrightarrow> wr_suppress q)
     \<and> (\<forall>(c, ok) \<in> set new. \<exists>row \<in> set (dest_rows w q). \<exists>b a.
          reaches w q row b a \<and> c = the_call w q tok ord a b)"
proof (cases "dest_rows w q = []")
  case True
  then show ?thesis
    by (intro exI [of _ "[]"] exI [of _ undefined] exI [of _ "if wr_suppress q then None else Some 0"])
      (simp add: write_to_dest_bindings_def)
next
  case False
  obtain tok ord s2 where b: "begin_write q s = (tok, ord, s2)" by (metis prod_cases3)
  have "write_to_dest_bindings w q s = process_rows w q tok ord (dest_rows w q) s2"
    using False b by (simp add: write_to_dest_bindings_def)
  moreover have s2: "calls s2 = calls s" "tok = None \<longleftrightarrow> wr_suppress q"
    using b by (simp_all add: begin_write_def split_beta split: if_splits) auto
  moreover obtain new where "calls (snd (process_rows w q tok ord (dest_rows w q) s2)) = rev new @ calls s2"
      "length new \<le> length (dest_rows w q)"
      "\<forall>(c, ok) \<in> set new. \<exists>row \<in> set (dest_rows w q). \<exists>b a.
         reaches w q row b a \<and> c = the_call w q tok ord a b"
    using process_rows_calls [of w q tok ord "dest_rows w q" s2] by blast
  ultimately show ?thesis
    by (intro exI [of _ new] exI [of _ ord] exI [of _ tok]) simp
qed

text \<open>What every call of a write has in common, over the rows of the database.\<close>

definition call_of :: "world \<Rightarrow> write_request \<Rightarrow> write_call \<Rightarrow> bool" where
  "call_of w q c \<longleftrightarrow>
     wc_logical c = wr_value q \<and> wc_suppress c = wr_suppress q \<and> (wc_token c = None \<longleftrightarrow> wr_suppress q)
     \<and> wr_skip q \<noteq> Some (b_id (wc_binding c)) \<and> b_adapter_type (wc_binding c) \<noteq> ''MESSAGE''
     \<and> wc_value c = transformed w (wc_binding c) (wr_value q)
     \<and> (\<exists>row \<in> set (w_rows w). br_datapoint row = wr_dp q \<and> br_direction row \<in> {''DEST'', ''BOTH''}
          \<and> br_enabled row = 1 \<and> row_to_binding (w_iso_ok w) row = Inr (wc_binding c)
          \<and> (wr_only q = None \<or> wr_only q = Some (br_id row)))
     \<and> (\<exists>a. target_instance (w_instances w) (wr_only q \<noteq> None) (wc_binding c) = Some a
          \<and> wc_instance c = instance_id a)"

lemma write_call_of:
  obtains new where "calls (snd (write_to_dest_bindings w q s)) = rev new @ calls s"
    "length new \<le> length (dest_rows w q)" "\<forall>(c, ok) \<in> set new. call_of w q c"
proof -
  obtain new ord tok where n: "calls (snd (write_to_dest_bindings w q s)) = rev new @ calls s"
      "length new \<le> length (dest_rows w q)" "tok = None \<longleftrightarrow> wr_suppress q"
      "\<forall>(c, ok) \<in> set new. \<exists>row \<in> set (dest_rows w q). \<exists>b a.
          reaches w q row b a \<and> c = the_call w q tok ord a b"
    using write_calls [of w q s] by blast
  have one: "call_of w q (the_call w q tok ord a b)"
    if "row \<in> set (dest_rows w q)" "reaches w q row b a" for row b a
    using that n(3) unfolding call_of_def reaches_def dest_rows_def the_call_def
    by (auto split: option.splits)
  have "\<forall>(c, ok) \<in> set new. call_of w q c" using n(4) one by fastforce
  with n(1,2) that show thesis by blast
qed

text \<open>
  C13. A value event reaches only enabled destination bindings of its datapoint, each at most once,
  never the binding it came from and never a message observer; nothing is written for a value that
  is bad, absent, of the wrong type or a mere confirmation; and no such write may trigger actions.
\<close>

theorem value_event_targets:
  "\<exists>new. calls (snd (handle_value_event w e s)) = rev new @ calls s
    \<and> length new \<le> length (filter (\<lambda>r. br_datapoint r = ev_datapoint e) (w_rows w))
    \<and> (\<forall>(c, ok) \<in> set new.
        wc_logical c = ev_value e \<and> wc_suppress c \<and> wc_token c = None
        \<and> ev_binding e \<noteq> Some (b_id (wc_binding c)) \<and> b_adapter_type (wc_binding c) \<noteq> ''MESSAGE''
        \<and> (\<exists>row \<in> set (w_rows w). br_datapoint row = ev_datapoint e
             \<and> br_direction row \<in> {''DEST'', ''BOTH''} \<and> br_enabled row = 1
             \<and> row_to_binding (w_iso_ok w) row = Inr (wc_binding c))
        \<and> ev_quality e = ''good'' \<and> ev_value e \<noteq> PNone \<and> \<not> ev_suppress_write e
        \<and> (\<exists>d dt. registry_get (router_registry s) (ev_datapoint e) = Some d
             \<and> type_get (w_types w) (dp_data_type d) = Inr dt \<and> type_matches dt (ev_value e)))"
proof (cases "\<exists>d dt. ev_quality e = ''good'' \<and> ev_value e \<noteq> PNone \<and> \<not> ev_suppress_write e
    \<and> registry_get (router_registry s) (ev_datapoint e) = Some d
    \<and> type_get (w_types w) (dp_data_type d) = Inr dt \<and> type_matches dt (ev_value e)")
  case False
  then have "calls (snd (handle_value_event w e s)) = calls s"
    by (auto simp: handle_value_event_def Let_def split: option.splits sum.splits)
  then show ?thesis by (intro exI [of _ "[]"]) simp
next
  case True
  then obtain d dt where t: "ev_quality e = ''good''" "ev_value e \<noteq> PNone" "\<not> ev_suppress_write e"
      "registry_get (router_registry s) (ev_datapoint e) = Some d"
      "type_get (w_types w) (dp_data_type d) = Inr dt" "type_matches dt (ev_value e)"
    by blast
  let ?q = "\<lparr>wr_dp = ev_datapoint e, wr_value = ev_value e, wr_skip = ev_binding e,
             wr_suppress = True, wr_only = None\<rparr>"
  let ?s = "s\<lparr>router_registry := clear_diagnostic (ev_datapoint e) ''type_mismatch'' (router_registry s)\<rparr>"
  have h: "handle_value_event w e s = write_to_dest_bindings w ?q ?s"
    using t by (simp add: handle_value_event_def)
  obtain new where n: "calls (snd (write_to_dest_bindings w ?q ?s)) = rev new @ calls ?s"
    "length new \<le> length (dest_rows w ?q)" "\<forall>(c, ok) \<in> set new. call_of w ?q c"
    by (rule write_call_of)
  have "length (dest_rows w ?q) \<le> length (filter (\<lambda>r. br_datapoint r = ev_datapoint e) (w_rows w))"
    unfolding dest_rows_def by (rule length_filter_le_imp) simp
  moreover have "\<forall>(c, ok) \<in> set new.
        wc_logical c = ev_value e \<and> wc_suppress c \<and> wc_token c = None
        \<and> ev_binding e \<noteq> Some (b_id (wc_binding c)) \<and> b_adapter_type (wc_binding c) \<noteq> ''MESSAGE''
        \<and> (\<exists>row \<in> set (w_rows w). br_datapoint row = ev_datapoint e
             \<and> br_direction row \<in> {''DEST'', ''BOTH''} \<and> br_enabled row = 1
             \<and> row_to_binding (w_iso_ok w) row = Inr (wc_binding c))"
    using n(3) unfolding call_of_def by (simp split: prod.splits) blast
  ultimately show ?thesis
    using n(1,2) t unfolding h by (intro exI [of _ new]) auto
qed

text \<open>
  C14. A set message changes nothing for an unknown or a system datapoint, nor for one whose bindings
  cannot be written; where it does something, it either writes destination bindings of that datapoint,
  none of them skipped, or, without any binding but observers and only if the datapoint opted in,
  publishes one value event that the bus does not reject.
\<close>

theorem set_message_effect:
  assumes "handle w u raw s = (x, s')"
  shows "s' = s
    \<or> (\<exists>d v. registry_get (router_registry s) u = Some d \<and> \<not> is_system_datapoint u
        \<and> payload_value w (dp_data_type d) raw = Inr (Some v)
        \<and> (if has_writable_bindings w u
           then router_events s' = router_events s \<and> router_registry s' = router_registry s
             \<and> (\<exists>new. calls s' = rev new @ calls s \<and> (\<forall>(c, ok) \<in> set new. call_of w
                  \<lparr>wr_dp = u, wr_value = v, wr_skip = None, wr_suppress = False, wr_only = None\<rparr> c))
           else semantic_rows w u = [] \<and> dp_external_write_enabled d \<and> calls s' = calls s
             \<and> router_events s' = router_events s @ [ValueEvent (mqtt_set_event w u v)]
             \<and> \<not> rejected (ValueEvent (mqtt_set_event w u v))))"
proof (cases "s' = s")
  case False
  obtain d where d: "registry_get (router_registry s) u = Some d" "\<not> is_system_datapoint u"
      "\<not> (semantic_rows w u \<noteq> [] \<and> \<not> has_writable_bindings w u)"
    using assms False by (auto simp: handle_def split: option.splits if_splits)
  obtain v where v: "payload_value w (dp_data_type d) raw = Inr (Some v)"
    using assms False d by (auto simp: handle_def split: sum.splits option.splits)
  show ?thesis
  proof (cases "has_writable_bindings w u")
    case True
    let ?q = "\<lparr>wr_dp = u, wr_value = v, wr_skip = None, wr_suppress = False, wr_only = None\<rparr>"
    have "handle w u raw s = write_to_dest_bindings w ?q s"
      using d v True by (simp add: handle_def)
    then have s': "s' = snd (write_to_dest_bindings w ?q s)" using assms by (metis snd_conv)
    obtain new where "calls s' = rev new @ calls s" "\<forall>(c, ok) \<in> set new. call_of w ?q c"
      unfolding s' by (rule write_call_of)
    then show ?thesis using d v True s' by auto
  next
    case False
    have "\<not> rejected (ValueEvent (mqtt_set_event w u v))"
      using d(2) by (simp add: rejected_def mqtt_set_event_def is_system_datapoint_def)
    then show ?thesis
      using assms d v False \<open>s' \<noteq> s\<close> by (auto simp: handle_def emit_event_def split: if_splits)
  qed
qed simp

section \<open>What the caches hold\<close>

text \<open>The latest successful call for a binding.\<close>

definition latest_ok :: "(write_call \<times> bool) list \<Rightarrow> uuid \<Rightarrow> write_call option" where
  "latest_ok cs u = map_option fst (find (\<lambda>(c, ok). ok \<and> b_id (wc_binding c) = u) cs)"

lemma latest_ok_Cons [simp]:
  "latest_ok ((c, ok) # cs) u = (if ok \<and> b_id (wc_binding c) = u then Some c else latest_ok cs u)"
  by (simp add: latest_ok_def)

text \<open>
  A binding has a remembered value only if it was sent one, and the value remembered is that of the
  latest successful call; failed calls leave no trace.
\<close>

definition cache_inv :: "(string \<Rightarrow> string) \<Rightarrow> router \<Rightarrow> bool" where
  "cache_inv sha s \<longleftrightarrow>
     (\<forall>u. map_of (last_sent s) u \<noteq> None \<longrightarrow> latest_ok (calls s) u \<noteq> None)
     \<and> (\<forall>u x. map_of (last_written s) u = Some x \<longrightarrow> map_of (last_sent s) u \<noteq> None
          \<and> (\<exists>c. latest_ok (calls s) u = Some c \<and> x = to_cached_value sha (wc_logical c)))"

lemma cache_inv_cong:
  assumes "cache_inv sha s" and "calls s' = calls s" and "last_sent s' = last_sent s"
    and "last_written s' = last_written s"
  shows "cache_inv sha s'"
  using assms by (simp add: cache_inv_def)

lemma cache_inv_perform:
  assumes "cache_inv (w_sha256 w) s"
  shows "cache_inv (w_sha256 w) (perform_write w q tok ord a b s)"
proof -
  let ?c = "the_call w q tok ord a b"
  have c: "b_id (wc_binding ?c) = b_id b" "wc_logical ?c = wr_value q" by (simp_all add: the_call_def)
  show ?thesis
  proof (cases "w_write_ok w (calls s) ?c")
    case True
    then have "perform_write w q tok ord a b s =
      tick 1 (s\<lparr>calls := (?c, True) # calls s,
                last_sent := assoc_set (b_id b) (monotonic w s) (last_sent s),
                last_written :=
                  (if needs_value_cache b
                   then assoc_set (b_id b) (to_cached_value (w_sha256 w) (wr_value q)) (last_written s)
                   else assoc_del (b_id b) (last_written s))\<rparr>)"
      by (simp add: perform_write_eq)
    with assms c show ?thesis
      by (auto simp: cache_inv_def map_of_assoc_set map_of_assoc_del split: if_splits)
  next
    case False
    then have "perform_write w q tok ord a b s = s\<lparr>calls := (?c, False) # calls s\<rparr>"
      by (simp add: perform_write_eq)
    with assms show ?thesis by (simp add: cache_inv_def)
  qed
qed

lemma cache_inv_row:
  "cache_inv (w_sha256 w) s \<Longrightarrow> cache_inv (w_sha256 w) (snd (process_row w q tok ord row s))"
  by (cases rule: process_row_cases [of w q tok ord row s])
    (auto intro!: cache_inv_perform elim: cache_inv_cong)

lemma cache_inv_rows:
  "cache_inv (w_sha256 w) s \<Longrightarrow> cache_inv (w_sha256 w) (snd (process_rows w q tok ord rows s))"
proof (induction rows arbitrary: s)
  case (Cons row rows)
  from cache_inv_row [OF Cons.prems, of q tok ord row] Cons.IH show ?case
    by (cases "process_row w q tok ord row s") (auto split: option.splits)
qed simp

lemma cache_inv_write:
  assumes "cache_inv (w_sha256 w) s"
  shows "cache_inv (w_sha256 w) (snd (write_to_dest_bindings w q s))"
proof -
  obtain tok ord s1 where b: "begin_write q s = (tok, ord, s1)" by (metis prod_cases3)
  have "calls s1 = calls s" "last_sent s1 = last_sent s" "last_written s1 = last_written s"
    using b by (simp_all add: begin_write_def split_beta split: if_splits) auto
  then have "cache_inv (w_sha256 w) s1" by (rule cache_inv_cong [OF assms])
  then show ?thesis
    using assms b by (simp add: write_to_dest_bindings_def cache_inv_rows)
qed

lemma cache_inv_write_binding:
  assumes "cache_inv (w_sha256 w) s"
  shows "cache_inv (w_sha256 w) (snd (write_binding w u b v s))"
  unfolding write_binding_def
  by (rule cache_inv_write) (use assms in \<open>auto simp: cache_inv_def map_of_assoc_del\<close>)

lemma cache_inv_resend_value:
  "cache_inv (w_sha256 w) s \<Longrightarrow> cache_inv (w_sha256 w) (snd (resend_system_value w u b s))"
  using cache_inv_write_binding [of w s u b]
  by (auto simp: resend_system_value_def split: option.splits prod.splits) (metis snd_conv)+

lemma cache_inv_resend:
  "cache_inv (w_sha256 w) s \<Longrightarrow> cache_inv (w_sha256 w) (snd (resend_rows w rs s))"
proof (induction rs arbitrary: s)
  case (Cons r rs)
  let ?y = "case (parse_uuid (br_datapoint r), parse_uuid (br_id r)) of
              (Some u, Some b) \<Rightarrow> resend_system_value w u b s | _ \<Rightarrow> (Inl ValueError, s)"
  have "cache_inv (w_sha256 w) (snd ?y)"
    using Cons.prems cache_inv_resend_value by (simp split: option.splits)
  with Cons.IH [of "snd ?y"] show ?case by (simp add: split_beta)
qed simp

lemma cache_inv_handle:
  assumes "cache_inv (w_sha256 w) s"
  shows "cache_inv (w_sha256 w) (snd (handle w u raw s))"
proof -
  have "cache_inv (w_sha256 w) (emit_event e s)" for e
    by (rule cache_inv_cong [OF assms]) (simp_all add: emit_event_def)
  with assms cache_inv_write [OF assms] show ?thesis
    by (simp add: handle_def split: option.splits sum.splits)
qed

lemma cache_inv_value_event:
  assumes "cache_inv (w_sha256 w) s"
  shows "cache_inv (w_sha256 w) (snd (handle_value_event w e s))"
proof -
  have r: "cache_inv (w_sha256 w) (s\<lparr>router_registry := x\<rparr>)" for x
    by (rule cache_inv_cong [OF assms]) simp_all
  show ?thesis
    using assms r cache_inv_write [OF r]
    by (simp add: handle_value_event_def Let_def split: option.splits sum.splits)
qed

lemma cache_inv_connected:
  "cache_inv sha s \<Longrightarrow> cache_inv sha (s\<lparr>connected_instances := x\<rparr>)"
  by (rule cache_inv_cong) simp_all

lemma cache_inv_status:
  "cache_inv (w_sha256 w) s \<Longrightarrow> cache_inv (w_sha256 w) (handle_adapter_status w e s)"
  by (simp add: handle_adapter_status_def resend_system_bindings_def cache_inv_resend cache_inv_connected
      split: option.splits)

lemma cache_inv_started:
  "cache_inv (w_sha256 w) s \<Longrightarrow> cache_inv (w_sha256 w) (handle_instance_started w e s)"
  by (simp add: handle_instance_started_def resend_system_bindings_def cache_inv_resend
      cache_inv_connected Let_def)

text \<open>
  The handlers of the router in any order; between them the world changes in every way (rows,
  instances, clock, outcomes, registry), but the digest stays the same function.
\<close>

inductive router_step :: "(string \<Rightarrow> string) \<Rightarrow> router \<Rightarrow> router \<Rightarrow> bool" for sha where
  rs_set: "w_sha256 w = sha \<Longrightarrow> router_step sha s (snd (handle w u raw s))"
| rs_value: "w_sha256 w = sha \<Longrightarrow> router_step sha s (snd (handle_value_event w e s))"
| rs_binding: "w_sha256 w = sha \<Longrightarrow> router_step sha s (snd (write_binding w u b v s))"
| rs_status: "w_sha256 w = sha \<Longrightarrow> router_step sha s (handle_adapter_status w st s)"
| rs_started: "w_sha256 w = sha \<Longrightarrow> router_step sha s (handle_instance_started w sta s)"
| rs_registry: "router_step sha s (s\<lparr>router_registry := r\<rparr>)"

definition initial_router :: "registry \<Rightarrow> router" where
  "initial_router r =
     \<lparr>last_sent = [], last_written = [], order_tracker = new_tracker, connected_instances = [],
      token_count = 0, clock_reads = 0, calls = [], router_events = [], router_registry = r\<rparr>"

inductive router_reach :: "(string \<Rightarrow> string) \<Rightarrow> router \<Rightarrow> bool" for sha where
  rr_init: "router_reach sha (initial_router r)"
| rr_step: "router_reach sha s \<Longrightarrow> router_step sha s s' \<Longrightarrow> router_reach sha s'"

lemma router_step_cache_inv:
  "router_step sha s s' \<Longrightarrow> cache_inv sha s \<Longrightarrow> cache_inv sha s'"
  by (induction rule: router_step.induct)
    (auto intro: cache_inv_handle cache_inv_value_event cache_inv_write_binding cache_inv_status
      cache_inv_started cache_inv_cong)

lemma router_reach_cache_inv: "router_reach sha s \<Longrightarrow> cache_inv sha s"
proof (induction rule: router_reach.induct)
  case (rr_init r)
  then show ?case by (simp add: cache_inv_def initial_router_def)
next
  case (rr_step s s')
  then show ?case by (blast intro: router_step_cache_inv)
qed

lemma cached_equals_itself: "py_eq v v \<Longrightarrow> cached_value_equals sha v (to_cached_value sha v)"
  by (cases "(sha, v)" rule: to_cached_value.cases) (simp_all add: Let_def)

lemma to_cached_not_none: "v \<noteq> PNone \<Longrightarrow> to_cached_value sha v \<noteq> Whole PNone"
  by (cases "(sha, v)" rule: to_cached_value.cases) (simp_all add: Let_def)

text \<open>
  C12. In every state the router can reach, the value remembered for a binding is that of its latest
  successful write; so a binding that sends on change only is not called again with the value it got
  last, however often it arrives, while a failed write is never taken for one.
\<close>

theorem send_on_change_no_repeat:
  assumes "router_reach (w_sha256 w) s" and "row_to_binding (w_iso_ok w) row = Inr b"
    and "b_on_change b" and "map_of (last_written s) (b_id b) \<noteq> None"
  shows "(\<exists>c. latest_ok (calls s) (b_id b) = Some c
      \<and> map_of (last_written s) (b_id b) = Some (to_cached_value (w_sha256 w) (wc_logical c))
      \<and> (wr_value q = wc_logical c \<and> wr_value q \<noteq> PNone \<and> py_eq (wr_value q) (wr_value q)
          \<longrightarrow> calls (snd (process_row w q tok ord row s)) = calls s))"
proof -
  note inv = router_reach_cache_inv [OF assms(1)]
  obtain x where x: "map_of (last_written s) (b_id b) = Some x" using assms(4) by auto
  then obtain c where c: "latest_ok (calls s) (b_id b) = Some c"
      "x = to_cached_value (w_sha256 w) (wc_logical c)"
    using inv unfolding cache_inv_def by blast
  have "calls (snd (process_row w q tok ord row s)) = calls s"
    if v: "wr_value q = wc_logical c" "wr_value q \<noteq> PNone" "py_eq (wr_value q) (wr_value q)"
  proof (cases rule: process_row_cases [of w q tok ord row s])
    case (written b' a n)
    then have b': "b' = b" using assms(2) by (simp add: reaches_def)
    have "previous (tick n s) (b_id b) = Some x"
      using x c(2) v to_cached_not_none [of "wc_logical c" "w_sha256 w"]
      by (auto simp: previous_def split: cached.splits pyval.splits)
    moreover have "cached_value_equals (w_sha256 w) (wr_value q) x"
      using c(2) v cached_equals_itself [of "wr_value q" "w_sha256 w"] by simp
    ultimately have "value_holds_back w b (wr_value q) (tick n s) = Inr True"
      using assms(3) by (simp add: value_holds_back_def)
    with written(3) b' show ?thesis by simp
  qed simp_all
  with x c show ?thesis by blast
qed

section \<open>System values\<close>

lemma write_binding_frame:
  "connected_instances (snd (write_binding w u b v s)) = connected_instances s"
  "router_registry (snd (write_binding w u b v s)) = router_registry s"
  by (simp_all add: write_binding_def)

lemma resend_value_cases:
  "snd (resend_system_value w u b s) = s
   \<or> (\<exists>st. is_system_datapoint u \<and> get_value (router_registry s) u = Some st \<and> vs_quality st = ''good''
        \<and> vs_value st \<noteq> PNone \<and> snd (resend_system_value w u b s) = snd (write_binding w u b (vs_value st) s))"
  by (auto simp: resend_system_value_def split: option.splits prod.splits)

lemma resend_value_frame:
  "connected_instances (snd (resend_system_value w u b s)) = connected_instances s"
  "router_registry (snd (resend_system_value w u b s)) = router_registry s"
  using resend_value_cases [of w u b s] write_binding_frame by metis+

text \<open>The request that feeds a system value to one binding.\<close>

definition resend_call :: "world \<Rightarrow> registry \<Rightarrow> write_call \<Rightarrow> bool" where
  "resend_call w r c \<longleftrightarrow>
     (\<exists>u b st. is_system_datapoint u \<and> get_value r u = Some st \<and> vs_quality st = ''good''
        \<and> call_of w \<lparr>wr_dp = u, wr_value = vs_value st, wr_skip = None, wr_suppress = True,
                     wr_only = Some b\<rparr> c)"

lemma resend_value_calls:
  obtains new where "calls (snd (resend_system_value w u b s)) = rev new @ calls s"
    "\<forall>(c, ok) \<in> set new. resend_call w (router_registry s) c"
proof (cases "snd (resend_system_value w u b s) = s")
  case True
  then show thesis using that [of "[]"] by simp
next
  case False
  then obtain st where st: "is_system_datapoint u" "get_value (router_registry s) u = Some st"
      "vs_quality st = ''good''"
      "snd (resend_system_value w u b s) = snd (write_binding w u b (vs_value st) s)"
    using resend_value_cases [of w u b s] by blast
  let ?q = "\<lparr>wr_dp = u, wr_value = vs_value st, wr_skip = None, wr_suppress = True, wr_only = Some b\<rparr>"
  let ?s = "s\<lparr>last_written := assoc_del b (last_written s), last_sent := assoc_del b (last_sent s)\<rparr>"
  obtain new where n: "calls (snd (write_to_dest_bindings w ?q ?s)) = rev new @ calls ?s"
      "\<forall>(c, ok) \<in> set new. call_of w ?q c"
    by (rule write_call_of)
  have "\<forall>(c, ok) \<in> set new. resend_call w (router_registry s) c"
    using n(2) st(1-3) unfolding resend_call_def by blast
  with n(1) that show thesis by (simp add: st(4) write_binding_def)
qed

lemma resend_rows_calls:
  "\<exists>new. calls (snd (resend_rows w rs s)) = rev new @ calls s
     \<and> (\<forall>(c, ok) \<in> set new. resend_call w (router_registry s) c)
     \<and> connected_instances (snd (resend_rows w rs s)) = connected_instances s
     \<and> router_registry (snd (resend_rows w rs s)) = router_registry s"
proof (induction rs arbitrary: s)
  case Nil
  then show ?case by simp
next
  case (Cons r rs)
  let ?y = "case (parse_uuid (br_datapoint r), parse_uuid (br_id r)) of
              (Some u, Some b) \<Rightarrow> resend_system_value w u b s | _ \<Rightarrow> (Inl ValueError, s)"
  obtain new1 where n1: "calls (snd ?y) = rev new1 @ calls s"
      "\<forall>(c, ok) \<in> set new1. resend_call w (router_registry s) c"
      "connected_instances (snd ?y) = connected_instances s" "router_registry (snd ?y) = router_registry s"
  proof (cases "parse_uuid (br_datapoint r) = None \<or> parse_uuid (br_id r) = None")
    case True
    then show thesis using that [of "[]"] by (auto split: option.splits)
  next
    case False
    then obtain u b where ub: "parse_uuid (br_datapoint r) = Some u" "parse_uuid (br_id r) = Some b" by auto
    obtain new where "calls (snd (resend_system_value w u b s)) = rev new @ calls s"
        "\<forall>(c, ok) \<in> set new. resend_call w (router_registry s) c"
      by (rule resend_value_calls)
    then show thesis using that [of new] ub resend_value_frame by simp
  qed
  obtain new2 where n2: "calls (snd (resend_rows w rs (snd ?y))) = rev new2 @ calls (snd ?y)"
      "\<forall>(c, ok) \<in> set new2. resend_call w (router_registry (snd ?y)) c"
      "connected_instances (snd (resend_rows w rs (snd ?y))) = connected_instances (snd ?y)"
      "router_registry (snd (resend_rows w rs (snd ?y))) = router_registry (snd ?y)"
    using Cons.IH [of "snd ?y"] by blast
  have "snd (resend_rows w (r # rs) s) = snd (resend_rows w rs (snd ?y))" by (simp add: split_beta)
  moreover have "\<forall>(c, ok) \<in> set (new1 @ new2). resend_call w (router_registry s) c"
    using n1(2,4) n2(2) by auto
  ultimately show ?case
    using n1 n2 by (intro exI [of _ "new1 @ new2"]) simp
qed

text \<open>
  A status of an adapter writes nothing but current, good values of system datapoints, each to the one
  binding it is meant for and without triggering actions; the values go out once for each connection:
  the same status again changes nothing.
\<close>

theorem adapter_status_resends_system_values:
  "(\<exists>new. calls (handle_adapter_status w e s) = rev new @ calls s
      \<and> (\<forall>(c, ok) \<in> set new. resend_call w (router_registry s) c))
   \<and> handle_adapter_status w e (handle_adapter_status w e s) = handle_adapter_status w e s"
proof (cases "st_instance e")
  case None
  then show ?thesis by (intro conjI exI [of _ "[]"]) (simp_all add: handle_adapter_status_def)
next
  case key: (Some key)
  show ?thesis
  proof (cases "st_connected e \<and> key \<notin> set (connected_instances s)
      \<and> get_instance_by_id (w_instances w) key \<noteq> None")
    case False
    then show ?thesis
      using key
      by (intro conjI exI [of _ "[]"]) (auto simp: handle_adapter_status_def resend_system_bindings_def)
  next
    case True
    let ?s = "s\<lparr>connected_instances := key # connected_instances s\<rparr>"
    obtain a where a: "get_instance_by_id (w_instances w) key = Some a" using True by blast
    have h: "handle_adapter_status w e s = snd (resend_rows w (system_rows w key) ?s)"
      using key True a by (simp add: handle_adapter_status_def resend_system_bindings_def)
    obtain new where n: "calls (snd (resend_rows w (system_rows w key) ?s)) = rev new @ calls ?s"
        "\<forall>(c, ok) \<in> set new. resend_call w (router_registry ?s) c"
        "connected_instances (snd (resend_rows w (system_rows w key) ?s)) = connected_instances ?s"
      using resend_rows_calls [of w "system_rows w key" ?s] by blast
    have "key \<in> set (connected_instances (handle_adapter_status w e s))"
      unfolding h using n(3) by simp
    then have "handle_adapter_status w e (handle_adapter_status w e s) = handle_adapter_status w e s"
      using key True by (simp add: handle_adapter_status_def [of w e "handle_adapter_status w e s"]
          del: split_paired_Ex)
    with n(1,2) show ?thesis unfolding h by auto
  qed
qed

section \<open>Payloads\<close>

text \<open>
  What is published for a datapoint can be sent back to it: a set message with the published JSON
  payload stands for exactly the published value (for values without floats), and the payload of any
  such value can be built.
\<close>

theorem set_payload_roundtrip:
  assumes "plain v"
  shows "\<exists>payload. build_payload v unit q ts = Inr payload
    \<and> unwrap_mqtt_set_payload payload = (v, True)"
  using build_payload_plain [OF assms, of unit q ts] by (auto simp: unwrap_mqtt_set_payload_def)

theorem set_payload_roundtrip_witness:
  "\<exists>payload. build_payload (PList [PInt 1, PStr ''a'']) None ''good''
     \<lparr>ts_year = 2026, ts_month = 1, ts_day = 2, ts_hour = 3, ts_minute = 4, ts_second = 5, ts_micro = 6\<rparr>
     = Inr payload \<and> unwrap_mqtt_set_payload payload = (PList [PInt 1, PStr ''a''], True)"
  by (rule set_payload_roundtrip) simp

section \<open>Numbers beyond the range of a float\<close>


section \<open>An example\<close>

text \<open>One datapoint of type \<open>INTEGER\<close>, a destination binding that sends on change, one instance.\<close>

definition u_point :: uuid where
  "u_point = ''11111111-1111-1111-1111-111111111111''"

definition u_binding :: uuid where
  "u_binding = ''22222222-2222-2222-2222-222222222222''"

definition u_instance :: uuid where
  "u_instance = ''33333333-3333-3333-3333-333333333333''"

lemma parse_examples:
  "parse_uuid u_point = Some u_point" "parse_uuid u_binding = Some u_binding"
  "parse_uuid u_instance = Some u_instance"
proof -
  show "parse_uuid u_point = Some u_point"
    by (rule parse_uuid_text [of _ "''11111111111111111111111111111111''"])
      (simp_all add: u_point_def group_uuid_def is_low_hex_def code_def)
  show "parse_uuid u_binding = Some u_binding"
    by (rule parse_uuid_text [of _ "''22222222222222222222222222222222''"])
      (simp_all add: u_binding_def group_uuid_def is_low_hex_def code_def)
  show "parse_uuid u_instance = Some u_instance"
    by (rule parse_uuid_text [of _ "''33333333333333333333333333333333''"])
      (simp_all add: u_instance_def group_uuid_def is_low_hex_def code_def)
qed

definition x_binding :: binding where
  "x_binding = \<lparr>b_id = u_binding, b_datapoint = u_point, b_adapter_type = ''KNX'',
     b_instance = Some u_instance, b_direction = ''DEST'', b_config = [], b_enabled = True,
     b_throttle_ms = None, b_on_change = True, b_min_delta = None, b_min_delta_pct = None,
     b_formula = None, b_value_map = None\<rparr>"

definition x_row :: binding_row where
  "x_row = \<lparr>br_id = u_binding, br_datapoint = u_point, br_adapter_type = ''KNX'',
     br_instance = Some u_instance, br_direction = ''DEST'', br_config = ''{}'', br_enabled = 1,
     br_throttle_ms = PNone, br_on_change = PInt 1, br_min_delta = PNone, br_min_delta_pct = PNone,
     br_formula = None, br_value_map = None, br_created_at = ''t'', br_updated_at = ''t''\<rparr>"

lemma json_loads_empty_object: "json_loads ''{}'' = Inr (PDict [])"
  using json_loads_dumps [of "PDict []" "''{}''"] by simp

lemma x_row_binding: "row_to_binding (\<lambda>_. True) x_row = Inr x_binding"
proof -
  have "u_instance \<noteq> []" by (simp add: u_instance_def)
  then show ?thesis
    by (simp add: row_to_binding_def x_row_def x_binding_def truthy_text_def parse_examples of_opt_def
        json_loads_empty_object opt_number_def map_field_def dict_field_def)
qed

definition x_adapter :: "binding adapter" where
  "x_adapter = new_adapter ''KNX'' u_instance (Some ''EG'')"

definition x_point :: datapoint where
  "x_point = \<lparr>dp_id = u_point, dp_name = ''Level'', dp_data_type = ''INTEGER'', dp_unit = None,
     dp_tags = [], dp_mqtt_topic = ''t'', dp_mqtt_alias = None, dp_persist_value = True,
     dp_record_history = True, dp_control_class = ''room_local'', dp_external_write_enabled = False,
     dp_created_at = ''c'', dp_updated_at = ''u''\<rparr>"

definition x_registry :: registry where
  "x_registry = \<lparr>points = [(u_point, x_point)], vals = [], db_points = [], db_last = [],
     db_dp_roles = [], mqtt_queue = [], bus_out = []\<rparr>"

definition x_stamp :: timestamp where
  "x_stamp = \<lparr>ts_year = 2026, ts_month = 1, ts_day = 2, ts_hour = 3, ts_minute = 4, ts_second = 5,
     ts_micro = 6\<rparr>"

definition x_host :: host where
  "x_host = \<lparr>host_now = (2026, 1, 2, 3, 4, 5), host_local = (\<lambda>_. Inl ValueError),
     host_iso_time = (\<lambda>_. Inl ValueError), host_iso_date = (\<lambda>_. Inl ValueError),
     host_iso_datetime = (\<lambda>_. Inl ValueError)\<rparr>"

definition x_type :: type_def where
  "x_type = \<lparr>type_name = ''INTEGER'', python_type = TInt, mqtt_serializer = (\<lambda>v. Inl ValueError),
     mqtt_deserializer = (\<lambda>h s. Inl ValueError)\<rparr>"

definition x_world :: world where
  "x_world = \<lparr>w_host = x_host, w_types = [(''UNKNOWN'', x_type), (''INTEGER'', x_type)],
     w_monotonic = (\<lambda>n. Fin (of_nat n)), w_write_ok = (\<lambda>_ _. True), w_sha256 = (\<lambda>s. s),
     w_formula = (\<lambda>_ v. v), w_iso_ok = (\<lambda>_. True), w_now = x_stamp, w_now_text = ''n'',
     w_rows = [x_row], w_instances = [(u_instance, x_adapter)]\<rparr>"

definition x_event :: value_event where
  "x_event = \<lparr>ev_datapoint = u_point, ev_value = PInt 7, ev_quality = ''good'', ev_source = ''api'',
     ev_ts = x_stamp, ev_binding = None, ev_logic_depth = 0, ev_suppress_write = False,
     ev_suppress_actions = False, ev_initialization = False\<rparr>"

definition x_router :: router where
  "x_router = initial_router x_registry"

lemma x_world_simps [simp]:
  "w_types x_world = [(''UNKNOWN'', x_type), (''INTEGER'', x_type)]" "w_write_ok x_world = (\<lambda>_ _. True)"
  "w_sha256 x_world = (\<lambda>s. s)" "w_iso_ok x_world = (\<lambda>_. True)" "w_rows x_world = [x_row]"
  "w_instances x_world = [(u_instance, x_adapter)]"
  by (simp_all add: x_world_def)

lemma x_binding_fields:
  "b_id x_binding = u_binding" "b_on_change x_binding" "b_formula x_binding = None"
  "b_value_map x_binding = None"
  by (simp_all add: x_binding_def)

lemma x_reaches:
  assumes "wr_skip q = None" "wr_only q = None"
  shows "reaches x_world q x_row x_binding x_adapter"
  using assms by (simp add: reaches_def x_row_binding)
    (simp add: x_binding_def target_instance_def get_instance_by_id_def)

definition x_request :: write_request where
  "x_request = \<lparr>wr_dp = u_point, wr_value = PInt 7, wr_skip = None, wr_suppress = True, wr_only = None\<rparr>"

lemma x_process:
  assumes "map_of (last_written s) u_binding = None" and "wr_skip q = None" and "wr_only q = None"
  shows "process_row x_world q tok ord x_row s =
    (None, perform_write x_world q tok ord x_adapter x_binding s)"
proof -
  have "throttled x_world x_binding s = (Inr False, s)" by (simp add: throttled_def x_binding_def)
  moreover have "value_holds_back x_world x_binding (wr_value q) s = Inr False"
    using assms(1) by (simp add: value_holds_back_def previous_def x_binding_def)
  ultimately show ?thesis
    using x_reaches [OF assms(2,3)] assms(2,3) by (simp add: process_row_def reaches_def)
qed

lemma x_written:
  assumes "wr_dp q = u_point" and "wr_skip q = None" and "wr_only q = None"
    and "last_written s = []" and "calls s = []"
  obtains s1 tok ord where "write_to_dest_bindings x_world q s
      = (None, perform_write x_world q tok ord x_adapter x_binding s1)" "calls s1 = []"
proof -
  obtain tok ord s1 where b: "begin_write q s = (tok, ord, s1)" by (metis prod_cases3)
  have s1: "calls s1 = []" "last_written s1 = []"
    using b assms(4,5) by (auto simp: begin_write_def split_beta split: if_splits)
  have "dest_rows x_world q = [x_row]" using assms(1,3) by (simp add: dest_rows_def x_row_def)
  then have "write_to_dest_bindings x_world q s = (None, perform_write x_world q tok ord x_adapter x_binding s1)"
    using b s1 assms(2,3) by (simp add: write_to_dest_bindings_def x_process)
  with s1 that show thesis by blast
qed

lemma x_handled:
  "\<exists>s1 tok ord. handle_value_event x_world x_event x_router
      = (None, perform_write x_world x_request tok ord x_adapter x_binding s1) \<and> calls s1 = []"
proof -
  let ?s = "x_router\<lparr>router_registry := clear_diagnostic u_point ''type_mismatch'' x_registry\<rparr>"
  have t: "type_get (w_types x_world) ''INTEGER'' = Inr x_type" by (simp add: type_get_def)
  have "handle_value_event x_world x_event x_router = write_to_dest_bindings x_world x_request ?s"
    using t by (simp add: handle_value_event_def x_event_def x_router_def initial_router_def registry_get_def
        x_registry_def x_point_def type_matches_def x_type_def x_request_def)
  moreover obtain s1 tok ord where "write_to_dest_bindings x_world x_request ?s
      = (None, perform_write x_world x_request tok ord x_adapter x_binding s1)" "calls s1 = []"
    by (rule x_written [of x_request ?s])
      (simp_all add: x_request_def x_router_def initial_router_def)
  ultimately show ?thesis by auto
qed

theorem value_event_targets_witness:
  "\<exists>c. calls (snd (handle_value_event x_world x_event x_router)) = [(c, True)] \<and> wc_logical c = PInt 7"
proof -
  obtain s1 tok ord where h: "handle_value_event x_world x_event x_router
      = (None, perform_write x_world x_request tok ord x_adapter x_binding s1)" "calls s1 = []"
    using x_handled by blast
  then have one: "\<exists>c. calls (snd (handle_value_event x_world x_event x_router)) = [(c, True)]"
    by (simp add: perform_write_eq Let_def)
  then obtain c where c: "calls (snd (handle_value_event x_world x_event x_router)) = [(c, True)]" by blast
  moreover have "calls x_router = []" by (simp add: x_router_def initial_router_def)
  ultimately have "wc_logical c = ev_value x_event"
    using value_event_targets [of x_world x_event x_router] by auto
  with c show ?thesis by (simp add: x_event_def)
qed

lemma x_call:
  "calls (perform_write x_world x_request tok ord x_adapter x_binding s1)
     = (the_call x_world x_request tok ord x_adapter x_binding, True) # calls s1"
  "map_of (last_written (perform_write x_world x_request tok ord x_adapter x_binding s1)) u_binding
     = Some (Whole (PInt 7))"
proof -
  have "to_cached_value (\<lambda>s. s) (PInt 7) = Whole (PInt 7)" by code_simp
  then show
    "calls (perform_write x_world x_request tok ord x_adapter x_binding s1)
       = (the_call x_world x_request tok ord x_adapter x_binding, True) # calls s1"
    "map_of (last_written (perform_write x_world x_request tok ord x_adapter x_binding s1)) u_binding
       = Some (Whole (PInt 7))"
    by (simp_all add: perform_write_eq Let_def needs_value_cache_def x_binding_def x_request_def tick_def
        map_of_assoc_set)
qed

theorem send_on_change_no_repeat_witness:
  "\<forall>ord. let s = snd (handle_value_event x_world x_event x_router)
     in length (calls s) = 1 \<and> calls (snd (process_row x_world x_request None ord x_row s)) = calls s"
proof (intro allI)
  fix ord
  let ?s = "snd (handle_value_event x_world x_event x_router)"
  obtain s1 tok ord1 where h: "handle_value_event x_world x_event x_router
      = (None, perform_write x_world x_request tok ord1 x_adapter x_binding s1)" "calls s1 = []"
    using x_handled by blast
  then have s: "?s = perform_write x_world x_request tok ord1 x_adapter x_binding s1" by simp
  have "b_id (wc_binding (the_call x_world x_request tok ord1 x_adapter x_binding)) = u_binding"
    by (simp add: the_call_def x_binding_fields)
  then have c: "latest_ok (calls ?s) u_binding = Some (the_call x_world x_request tok ord1 x_adapter x_binding)"
    by (simp add: s x_call)
  have r: "router_reach (w_sha256 x_world) ?s"
    unfolding x_router_def by (rule rr_step [OF rr_init]) (rule rs_value, simp)
  have "calls (snd (process_row x_world x_request None ord x_row ?s)) = calls ?s"
    using send_on_change_no_repeat [OF r, of x_row x_binding x_request None ord] c
    by (simp add: x_row_binding x_binding_fields s x_call the_call_def) (simp add: x_request_def feq_def)
  with h(2) show "let s = ?s in length (calls s) = 1
      \<and> calls (snd (process_row x_world x_request None ord x_row s)) = calls s"
    unfolding Let_def by (simp add: s x_call)
qed

theorem set_message_effect_witness:
  "\<exists>c. calls (snd (handle x_world u_point ''7'' x_router)) = [(c, True)] \<and> wc_value c = PInt 7"
proof -
  let ?q = "\<lparr>wr_dp = u_point, wr_value = PInt 7, wr_skip = None, wr_suppress = False, wr_only = None\<rparr>"
  have rows: "has_writable_bindings x_world u_point"
    by (simp add: has_writable_bindings_def semantic_rows_def x_row_def)
  have sys: "\<not> is_system_datapoint u_point" by code_simp
  have "json_loads ''7'' = Inr (PInt 7)" by code_simp
  then have pay: "payload_value x_world ''INTEGER'' ''7'' = Inr (Some (PInt 7))"
    by (simp add: payload_value_def type_get_def unwrap_mqtt_set_payload_def x_type_def
        deserialize_typed_mqtt_set_value_def)
  have reg: "registry_get (router_registry x_router) u_point = Some x_point" "dp_data_type x_point = ''INTEGER''"
    by (simp_all add: registry_get_def x_router_def initial_router_def x_registry_def x_point_def)
  have h: "handle x_world u_point ''7'' x_router = write_to_dest_bindings x_world ?q x_router"
    using rows sys pay reg by (simp add: handle_def)
  have r: "calls x_router = []" "last_written x_router = []"
    by (simp_all add: x_router_def initial_router_def)
  obtain s1 tok ord where w: "write_to_dest_bindings x_world ?q x_router
      = (None, perform_write x_world ?q tok ord x_adapter x_binding s1)" "calls s1 = []"
    by (rule x_written [of ?q x_router]) (use r in simp_all)
  define s' where "s' = snd (handle x_world u_point ''7'' x_router)"
  have s': "handle x_world u_point ''7'' x_router = (None, s')" "\<exists>c. calls s' = [(c, True)]"
    using w by (simp_all add: s'_def h perform_write_eq Let_def)
  then obtain c where c: "calls s' = [(c, True)]" by blast
  then have "s' \<noteq> x_router" using r by auto
  with set_message_effect [OF s'(1)] reg pay rows
  have "\<exists>new. calls s' = rev new @ calls x_router \<and> (\<forall>(c, ok) \<in> set new. call_of x_world ?q c)"
    by auto
  with c r have "call_of x_world ?q c" by auto
  then have "wc_value c = transformed x_world (wc_binding c) (PInt 7)" "wc_binding c = x_binding"
    unfolding call_of_def by (auto simp: x_row_binding)
  then have "wc_value c = PInt 7"
    by (simp add: transformed_def x_binding_fields apply_value_map_def)
  with c show ?thesis by (auto simp: s'_def)
qed

definition x_status :: status_event where
  "x_status = \<lparr>st_adapter_type = ''KNX'', st_connected = True, st_detail = [], st_instance = Some u_instance,
     st_instance_name = ''EG'', st_severity = ''info'', st_code = None, st_params = []\<rparr>"

theorem adapter_status_resends_system_values_witness:
  "let s = handle_adapter_status x_world x_status x_router
   in connected_instances s = [u_instance] \<and> handle_adapter_status x_world x_status s = s"
proof -
  have "get_instance_by_id (w_instances x_world) u_instance = Some x_adapter"
    by (simp add: get_instance_by_id_def)
  moreover have "\<not> is_system_datapoint u_point" by code_simp
  then have "system_rows x_world u_instance = []"
    by (simp add: system_rows_def x_row_def is_system_datapoint_def)
  ultimately have "connected_instances (handle_adapter_status x_world x_status x_router) = [u_instance]"
    by (simp add: handle_adapter_status_def x_status_def x_router_def initial_router_def
        resend_system_bindings_def)
  then show ?thesis
    using adapter_status_resends_system_values [of x_world x_status x_router] by (simp add: Let_def)
qed

definition x_delta_binding :: binding where
  "x_delta_binding = x_binding\<lparr>b_on_change := False, b_min_delta := Some (Fin 1)\<rparr>"

definition x_delta_row :: binding_row where
  "x_delta_row = x_row\<lparr>br_on_change := PInt 0, br_min_delta := PFloat (Fin 1)\<rparr>"


end
