(* ===== verification/Logic_Graph.thy ===== *)
theory Logic_Graph
  imports Py_Dict Json Event_Bus
begin

text \<open>
  The graphs of the logic engine (\<open>obs/logic/models.py\<close>), the analysis of their topology
  (\<open>obs/logic/graph_analysis.py\<close>: the order of execution, the cycles and what they block, the
  warnings) and the checks before a graph is stored (\<open>obs/logic/validation.py\<close>,
  \<open>obs/logic/booleans.py\<close>).  A Python set is iterated in an order of its own: the search for cycles
  takes the enumeration of its candidates as an argument.
\<close>

section \<open>Graphs\<close>

record logic_node =
  ln_id :: string
  ln_type :: string
  ln_position :: "pyfloat \<times> pyfloat"
  ln_data :: "(string \<times> pyval) list"

record logic_edge =
  le_id :: string
  le_source :: string
  le_target :: string
  le_source_handle :: "string option"
  le_target_handle :: "string option"

record flow =
  fl_nodes :: "logic_node list"
  fl_edges :: "logic_edge list"

definition timer_node_types :: "string set" where
  "timer_node_types = {''timer_delay'', ''timer_pulse''}"

definition tick_boundary_node_types :: "string set" where
  "tick_boundary_node_types = {''memory''} \<union> timer_node_types"

section \<open>Adjacency and degrees\<close>

text \<open>\<open>{n.id: f(n) for n in nodes}\<close>: a later node of the same id replaces an earlier one in its place.\<close>

definition by_id :: "(logic_node \<Rightarrow> 'a) \<Rightarrow> logic_node list \<Rightarrow> (string \<times> 'a) list" where
  "by_id f ns = fold (\<lambda>n. assoc_set (ln_id n) (f n)) ns []"

definition edge_is_tick_boundary :: "flow \<Rightarrow> string \<Rightarrow> bool" where
  "edge_is_tick_boundary fl target =
     (case map_of (by_id ln_type (fl_nodes fl)) target of
        None \<Rightarrow> False | Some ty \<Rightarrow> ty \<in> tick_boundary_node_types)"

type_synonym adjacency = "(string \<times> string list) list"

definition neighbours :: "adjacency \<Rightarrow> string \<Rightarrow> string list" where
  "neighbours adj u = (case map_of adj u of None \<Rightarrow> [] | Some vs \<Rightarrow> vs)"

definition degree :: "(string \<times> int) list \<Rightarrow> string \<Rightarrow> int" where
  "degree deg u = (case map_of deg u of None \<Rightarrow> 0 | Some d \<Rightarrow> d)"

text \<open>One edge: ignored when an end is missing or when it enters a tick boundary.\<close>

definition add_edge ::
  "flow \<Rightarrow> logic_edge \<Rightarrow> adjacency \<times> (string \<times> int) list \<Rightarrow> adjacency \<times> (string \<times> int) list" where
  "add_edge fl e = (\<lambda>(adj, deg).
     if map_of adj (le_source e) = None \<or> map_of deg (le_target e) = None then (adj, deg)
     else if edge_is_tick_boundary fl (le_target e) then (adj, deg)
     else (assoc_set (le_source e) (neighbours adj (le_source e) @ [le_target e]) adj,
           assoc_set (le_target e) (degree deg (le_target e) + 1) deg))"

definition build_graph :: "flow \<Rightarrow> adjacency \<times> (string \<times> int) list" where
  "build_graph fl =
     fold (add_edge fl) (fl_edges fl) (by_id (\<lambda>_. []) (fl_nodes fl), by_id (\<lambda>_. 0) (fl_nodes fl))"

section \<open>The order of execution\<close>

text \<open>The neighbours of the node just taken: each loses one degree and is queued at zero.\<close>

fun relax :: "string list \<Rightarrow> (string \<times> int) list \<Rightarrow> string list \<Rightarrow> (string \<times> int) list \<times> string list" where
  "relax [] deg queue = (deg, queue)"
| "relax (w # ws) deg queue =
     (let deg' = assoc_set w (degree deg w - 1) deg
      in relax ws deg' (if degree deg' w = 0 then queue @ [w] else queue))"

definition positive :: "(string \<times> int) list \<Rightarrow> nat" where
  "positive deg = card {u. 0 < degree deg u}"

lemma finite_positive: "finite {u. 0 < degree deg u}"
proof (rule finite_subset)
  show "{u. 0 < degree deg u} \<subseteq> fst ` set deg"
    by (auto simp: degree_def image_iff split: option.splits dest!: map_of_SomeD) force
qed simp

lemma degree_assoc_set: "degree (assoc_set w k deg) u = (if u = w then k else degree deg u)"
  by (simp add: degree_def map_of_assoc_set)

text \<open>A node is queued only when it stops being positive, so the loop ends.\<close>

lemma relax_measure: "relax ws deg queue = (deg', queue') \<Longrightarrow>
  length queue' + positive deg' \<le> length queue + positive deg"
proof (induction ws deg queue rule: relax.induct)
  case (2 w ws deg queue)
  let ?deg = "assoc_set w (degree deg w - 1) deg"
  let ?q = "if degree ?deg w = 0 then queue @ [w] else queue"
  have "length ?q + positive ?deg \<le> length queue + positive deg"
  proof (cases "degree ?deg w = 0")
    case True
    then have "{u. 0 < degree ?deg u} = {u. 0 < degree deg u} - {w}" "w \<in> {u. 0 < degree deg u}"
      by (auto simp: degree_assoc_set split: if_splits)
    then have "positive ?deg < positive deg"
      unfolding positive_def by (metis card_Diff1_less finite_positive)
    with True show ?thesis by simp
  next
    case False
    have "{u. 0 < degree ?deg u} \<subseteq> {u. 0 < degree deg u}"
      by (auto simp: degree_assoc_set split: if_splits)
    then have "positive ?deg \<le> positive deg"
      unfolding positive_def by (rule card_mono [OF finite_positive])
    with False show ?thesis by simp
  qed
  with 2 show ?case by (fastforce simp: Let_def)
qed simp

function kahn :: "adjacency \<Rightarrow> string list \<Rightarrow> (string \<times> int) list \<Rightarrow> string list" where
  "kahn adj [] deg = []"
| "kahn adj (u # queue) deg =
     (case relax (neighbours adj u) deg queue of (deg', queue') \<Rightarrow> u # kahn adj queue' deg')"
  by pat_completeness auto
termination
  by (relation "measure (\<lambda>(adj, queue, deg). length queue + positive deg)")
    (simp, force dest!: sym [THEN relax_measure])

section \<open>Cycles\<close>

text \<open>The state of the search for strongly connected components; the top of the stack comes first.\<close>

record tarjan =
  tj_index :: nat
  tj_stack :: "string list"
  tj_indices :: "(string \<times> nat) list"
  tj_lowlinks :: "(string \<times> nat) list"
  tj_on_stack :: "string set"
  tj_cyclic :: "string set"

definition tarjan_start :: tarjan where
  "tarjan_start = \<lparr>tj_index = 0, tj_stack = [], tj_indices = [], tj_lowlinks = [], tj_on_stack = {},
     tj_cyclic = {}\<rparr>"

definition number :: "(string \<times> nat) list \<Rightarrow> string \<Rightarrow> nat" where
  "number m u = (case map_of m u of None \<Rightarrow> 0 | Some k \<Rightarrow> k)"

definition enter :: "string \<Rightarrow> tarjan \<Rightarrow> tarjan" where
  "enter v s = s\<lparr>tj_indices := assoc_set v (tj_index s) (tj_indices s),
                 tj_lowlinks := assoc_set v (tj_index s) (tj_lowlinks s),
                 tj_index := tj_index s + 1,
                 tj_stack := v # tj_stack s,
                 tj_on_stack := insert v (tj_on_stack s)\<rparr>"

definition lower_link :: "string \<Rightarrow> nat \<Rightarrow> tarjan \<Rightarrow> tarjan" where
  "lower_link v k s =
     s\<lparr>tj_lowlinks := assoc_set v (min (number (tj_lowlinks s) v) k) (tj_lowlinks s)\<rparr>"

fun pop_until :: "string \<Rightarrow> string list \<Rightarrow> string list \<times> string list" where
  "pop_until v [] = ([], [])"
| "pop_until v (m # ms) =
     (if m = v then ([m], ms) else (case pop_until v ms of (c, rest) \<Rightarrow> (m # c, rest)))"

definition close_component :: "adjacency \<Rightarrow> string \<Rightarrow> tarjan \<Rightarrow> tarjan" where
  "close_component adj v s =
     (if number (tj_lowlinks s) v \<noteq> number (tj_indices s) v then s
      else
        (case pop_until v (tj_stack s) of
           (component, rest) \<Rightarrow>
             s\<lparr>tj_stack := rest, tj_on_stack := tj_on_stack s - set component,
               tj_cyclic :=
                 (if 1 < length component
                     \<or> (length component = 1 \<and> hd component \<in> set (neighbours adj (hd component)))
                  then tj_cyclic s \<union> set component else tj_cyclic s)\<rparr>))"

text \<open>
  \<open>strongconnect\<close> and its loop over the neighbours.  The fuel bounds the depth of the recursion;
  \<^const>\<open>None\<close> stands for running out of it.
\<close>

function strongconnect :: "nat \<Rightarrow> adjacency \<Rightarrow> string list \<Rightarrow> string \<Rightarrow> tarjan \<Rightarrow> tarjan option"
  and visit :: "nat \<Rightarrow> adjacency \<Rightarrow> string list \<Rightarrow> string \<Rightarrow> string list \<Rightarrow> tarjan \<Rightarrow> tarjan option"
where
  "strongconnect 0 adj cands v s = None"
| "strongconnect (Suc n) adj cands v s =
     map_option (close_component adj v) (visit n adj cands v (neighbours adj v) (enter v s))"
| "visit n adj cands v [] s = Some s"
| "visit n adj cands v (w # ws) s =
     (if w \<notin> set cands then visit n adj cands v ws s
      else if map_of (tj_indices s) w = None then
        (case strongconnect n adj cands w s of
           None \<Rightarrow> None
         | Some s1 \<Rightarrow> visit n adj cands v ws (lower_link v (number (tj_lowlinks s1) w) s1))
      else if w \<in> tj_on_stack s then
        visit n adj cands v ws (lower_link v (number (tj_indices s) w) s)
      else visit n adj cands v ws s)"
  by pat_completeness auto
termination
  by (relation "measures [\<lambda>x. case x of Inl (n, _) \<Rightarrow> n | Inr (n, _) \<Rightarrow> n,
                          \<lambda>x. case x of Inl _ \<Rightarrow> 0 | Inr (_, _, _, _, ws, _) \<Rightarrow> Suc (length ws)]")
    auto

fun search_from :: "nat \<Rightarrow> adjacency \<Rightarrow> string list \<Rightarrow> string list \<Rightarrow> tarjan \<Rightarrow> tarjan option" where
  "search_from n adj cands [] s = Some s"
| "search_from n adj cands (v # vs) s =
     (if map_of (tj_indices s) v \<noteq> None then search_from n adj cands vs s
      else (case strongconnect n adj cands v s of
              None \<Rightarrow> None | Some s1 \<Rightarrow> search_from n adj cands vs s1))"

definition find_cyclic_node_ids :: "adjacency \<Rightarrow> string list \<Rightarrow> string set option" where
  "find_cyclic_node_ids adj cands =
     map_option tj_cyclic (search_from (Suc (length cands)) adj cands cands tarjan_start)"

section \<open>The analysis\<close>

record topology =
  tp_order :: "logic_node list"
  tp_cyclic :: "string set"
  tp_blocked :: "string set"

definition skipped_node_ids :: "topology \<Rightarrow> string set" where
  "skipped_node_ids t = tp_cyclic t \<union> tp_blocked t"

text \<open>\<open>enum\<close> is the order in which the unresolved ids, a Python set, are iterated.\<close>

definition analyze_topology :: "(string set \<Rightarrow> string list) \<Rightarrow> flow \<Rightarrow> topology option" where
  "analyze_topology enum fl =
     (let nodes = by_id (\<lambda>n. n) (fl_nodes fl);
          (adj, deg) = build_graph fl;
          order = kahn adj (map fst (filter (\<lambda>(u, d). d = 0) deg)) deg;
          unresolved = set (map fst nodes) - set order
      in map_option (\<lambda>cyclic.
           \<lparr>tp_order = map (\<lambda>u. the (map_of nodes u)) (filter (\<lambda>u. map_of nodes u \<noteq> None) order),
            tp_cyclic = cyclic, tp_blocked = unresolved - cyclic\<rparr>)
         (find_cyclic_node_ids adj (enum unresolved)))"

text \<open>A warning: node, code and message.\<close>

type_synonym warning = "string \<times> string \<times> string"

definition node_warning :: "topology \<Rightarrow> string list \<Rightarrow> logic_node \<Rightarrow> warning list" where
  "node_warning t ordered_cyclic n =
     (let names = join_with '', '' (take 5 ordered_cyclic)
      in if ln_id n \<in> tp_cyclic t then
           [(ln_id n, ''graph_cycle'',
             ''Graph cycle detected; node cannot be executed without a memory, delay or pulse node. Cycle nodes: '' @ names)]
         else if ln_id n \<in> tp_blocked t then
           [(ln_id n, ''graph_cycle_blocked'',
             ''Graph cycle detected upstream; node cannot be executed. Cycle nodes: '' @ names)]
         else [])"

definition topology_warnings :: "(string set \<Rightarrow> string list) \<Rightarrow> flow \<Rightarrow> warning list option" where
  "topology_warnings enum fl =
     map_option (\<lambda>t.
         let ordered_cyclic = map ln_id (filter (\<lambda>n. ln_id n \<in> tp_cyclic t) (fl_nodes fl))
         in concat (map (node_warning t ordered_cyclic) (fl_nodes fl)))
       (analyze_topology enum fl)"

section \<open>Boolean values of logic inputs\<close>

definition false_words :: "string set" where
  "false_words = {''0'', ''false'', ''no'', ''off'', []}"

fun logic_to_bool :: "pyval \<Rightarrow> bool" where
  "logic_to_bool PNone = False"
| "logic_to_bool (PStr s) = (py_lower (py_strip s) \<notin> false_words)"
| "logic_to_bool v = py_truthy v"

section \<open>Checks before a graph is stored\<close>

definition duration_field :: "string \<Rightarrow> (string \<times> int) option" where
  "duration_field ty =
     (if ty = ''timer_delay'' then Some (''delay_s'', 0)
      else if ty = ''timer_pulse'' then Some (''duration_s'', 0)
      else if ty = ''api_client'' then Some (''timeout_s'', 1)
      else None)"

definition data_get :: "(string \<times> pyval) list \<Rightarrow> string \<Rightarrow> pyval" where
  "data_get d k = (case map_of d k of None \<Rightarrow> PNone | Some v \<Rightarrow> v)"

text \<open>\<open>True\<close>: the node passes.  Every rejection is a \<open>ValueError\<close>.\<close>

definition duration_ok :: "logic_node \<Rightarrow> bool" where
  "duration_ok n =
     (case duration_field (ln_type n) of
        None \<Rightarrow> True
      | Some (field, minimum) \<Rightarrow>
          (case data_get (ln_data n) field of
             PNone \<Rightarrow> True
           | v \<Rightarrow>
               (case py_float v of
                  Inl OverflowError \<Rightarrow> False
                | Inl e \<Rightarrow> v = PStr []
                | Inr (Fin x) \<Rightarrow> of_int minimum \<le> x
                | Inr _ \<Rightarrow> False)))"

definition validate_timer_durations :: "flow \<Rightarrow> (pyerr, unit) result" where
  "validate_timer_durations fl = (if list_all duration_ok (fl_nodes fl) then Inr () else Inl ValueError)"

fun step_target :: "pyval \<Rightarrow> pyval list" where
  "step_target (PDict d) = [data_get d ''datapoint_id'']"
| "step_target _ = []"

definition sequence_steps :: "pyval \<Rightarrow> pyval list" where
  "sequence_steps v =
     (case (case v of PStr s \<Rightarrow> (case json_loads s of Inl _ \<Rightarrow> PNone | Inr w \<Rightarrow> w) | _ \<Rightarrow> v) of
        PList steps \<Rightarrow> steps
      | _ \<Rightarrow> [])"

definition written_datapoint_ids :: "logic_node \<Rightarrow> pyval list" where
  "written_datapoint_ids n =
     (if ln_type n = ''datapoint_write'' then [data_get (ln_data n) ''datapoint_id'']
      else if ln_type n \<noteq> ''value_sequence'' then []
      else concat (map step_target (sequence_steps (data_get (ln_data n) ''steps''))))"

text \<open>\<open>is_system_datapoint\<close> takes \<open>None\<close>, an id or a text; any other value is read through \<open>str\<close>.\<close>

fun ref_of_value :: "pyval \<Rightarrow> dp_ref" where
  "ref_of_value PNone = NoRef"
| "ref_of_value v = RefText (py_str v)"

definition validate_write_targets :: "flow \<Rightarrow> (pyerr, unit) result" where
  "validate_write_targets fl =
     (if list_ex (\<lambda>n. list_ex (\<lambda>v. is_system_ref (ref_of_value v)) (written_datapoint_ids n)) (fl_nodes fl)
      then Inl ValueError else Inr ())"

end
