(* ===== verification/Cycle_Search.thy ===== *)
theory Cycle_Search
  imports Logic_Graph
begin

text \<open>
  The search for cycles is exact: \<open>_find_cyclic_node_ids\<close> returns the candidates that lie on a cycle
  of candidates, whatever the order in which they are visited, and the fuel given is enough.  The
  nodes on the path of the recursion are kept as a ghost set (grey); the invariant of the search says
  what the stack, the indices and the closed components mean in terms of reachability.
\<close>

section \<open>Vocabulary\<close>

definition vis :: "tarjan \<Rightarrow> string set" where
  "vis s = {u. map_of (tj_indices s) u \<noteq> None}"

abbreviation ix :: "tarjan \<Rightarrow> string \<Rightarrow> nat" where
  "ix s u \<equiv> number (tj_indices s) u"

abbreviation low :: "tarjan \<Rightarrow> string \<Rightarrow> nat" where
  "low s u \<equiv> number (tj_lowlinks s) u"

lemma number_assoc_set: "number (assoc_set v k m) u = (if u = v then k else number m u)"
  by (simp add: number_def map_of_assoc_set)

definition edges_in :: "adjacency \<Rightarrow> string set \<Rightarrow> (string \<times> string) set" where
  "edges_in adj cs = {(u, w). u \<in> cs \<and> w \<in> cs \<and> w \<in> set (neighbours adj u)}"

text \<open>The invariant of the search, with the grey nodes.\<close>

definition tj_inv :: "(string \<times> string) set \<Rightarrow> string set \<Rightarrow> string set \<Rightarrow> tarjan \<Rightarrow> bool" where
  "tj_inv r cs grey s \<longleftrightarrow>
     vis s \<subseteq> cs \<and> set (tj_stack s) \<subseteq> vis s \<and> distinct (tj_stack s)
     \<and> tj_on_stack s = set (tj_stack s)
     \<and> sorted_wrt (\<lambda>x y. ix s y < ix s x) (tj_stack s)
     \<and> (\<forall>u \<in> vis s. ix s u < tj_index s)
     \<and> grey \<subseteq> set (tj_stack s)
     \<and> (\<forall>x \<in> grey. \<forall>y \<in> set (tj_stack s). ix s x \<le> ix s y \<longrightarrow> (x, y) \<in> r\<^sup>*)
     \<and> (\<forall>y \<in> set (tj_stack s). \<exists>x \<in> grey. ix s x \<le> ix s y \<and> (y, x) \<in> r\<^sup>*)
     \<and> (\<forall>x \<in> vis s - set (tj_stack s). \<forall>y. (x, y) \<in> r \<longrightarrow> y \<in> vis s - set (tj_stack s))
     \<and> (\<forall>x \<in> vis s - grey. \<forall>y. (x, y) \<in> r \<longrightarrow> y \<in> vis s)
     \<and> tj_cyclic s = {x \<in> vis s - set (tj_stack s). (x, x) \<in> r\<^sup>+}"

lemma tj_invD:
  assumes "tj_inv r cs grey s"
  shows "vis s \<subseteq> cs" "set (tj_stack s) \<subseteq> vis s" "distinct (tj_stack s)"
    "tj_on_stack s = set (tj_stack s)" "sorted_wrt (\<lambda>x y. ix s y < ix s x) (tj_stack s)"
    "\<And>u. u \<in> vis s \<Longrightarrow> ix s u < tj_index s" "grey \<subseteq> set (tj_stack s)"
    "\<And>x y. x \<in> grey \<Longrightarrow> y \<in> set (tj_stack s) \<Longrightarrow> ix s x \<le> ix s y \<Longrightarrow> (x, y) \<in> r\<^sup>*"
    "\<And>y. y \<in> set (tj_stack s) \<Longrightarrow> \<exists>x \<in> grey. ix s x \<le> ix s y \<and> (y, x) \<in> r\<^sup>*"
    "\<And>x y. x \<in> vis s \<Longrightarrow> x \<notin> set (tj_stack s) \<Longrightarrow> (x, y) \<in> r \<Longrightarrow> y \<in> vis s \<and> y \<notin> set (tj_stack s)"
    "\<And>x y. x \<in> vis s \<Longrightarrow> x \<notin> grey \<Longrightarrow> (x, y) \<in> r \<Longrightarrow> y \<in> vis s"
    "tj_cyclic s = {x \<in> vis s - set (tj_stack s). (x, x) \<in> r\<^sup>+}"
  using assms unfolding tj_inv_def by (elim conjE; blast)+

lemma tj_invI:
  assumes "vis s \<subseteq> cs" "set (tj_stack s) \<subseteq> vis s" "distinct (tj_stack s)"
    "tj_on_stack s = set (tj_stack s)" "sorted_wrt (\<lambda>x y. ix s y < ix s x) (tj_stack s)"
    "\<And>u. u \<in> vis s \<Longrightarrow> ix s u < tj_index s" "grey \<subseteq> set (tj_stack s)"
    "\<And>x y. x \<in> grey \<Longrightarrow> y \<in> set (tj_stack s) \<Longrightarrow> ix s x \<le> ix s y \<Longrightarrow> (x, y) \<in> r\<^sup>*"
    "\<And>y. y \<in> set (tj_stack s) \<Longrightarrow> \<exists>x \<in> grey. ix s x \<le> ix s y \<and> (y, x) \<in> r\<^sup>*"
    "\<And>x y. x \<in> vis s \<Longrightarrow> x \<notin> set (tj_stack s) \<Longrightarrow> (x, y) \<in> r \<Longrightarrow> y \<in> vis s \<and> y \<notin> set (tj_stack s)"
    "\<And>x y. x \<in> vis s \<Longrightarrow> x \<notin> grey \<Longrightarrow> (x, y) \<in> r \<Longrightarrow> y \<in> vis s"
    "tj_cyclic s = {x \<in> vis s - set (tj_stack s). (x, x) \<in> r\<^sup>+}"
  shows "tj_inv r cs grey s"
  unfolding tj_inv_def
proof (intro conjI assms(1-5,7,12))
  show "\<forall>u \<in> vis s. ix s u < tj_index s" using assms(6) by blast
  show "\<forall>x \<in> grey. \<forall>y \<in> set (tj_stack s). ix s x \<le> ix s y \<longrightarrow> (x, y) \<in> r\<^sup>*"
    using assms(8) by simp
  show "\<forall>y \<in> set (tj_stack s). \<exists>x \<in> grey. ix s x \<le> ix s y \<and> (y, x) \<in> r\<^sup>*"
    using assms(9) by simp
  show "\<forall>x \<in> vis s - set (tj_stack s). \<forall>y. (x, y) \<in> r \<longrightarrow> y \<in> vis s - set (tj_stack s)"
    using assms(10) by blast
  show "\<forall>x \<in> vis s - grey. \<forall>y. (x, y) \<in> r \<longrightarrow> y \<in> vis s"
    using assms(11) by blast
qed

text \<open>What any part of the search leaves as it was.\<close>

definition frame :: "tarjan \<Rightarrow> tarjan \<Rightarrow> bool" where
  "frame s s' \<longleftrightarrow> vis s \<subseteq> vis s' \<and> (\<forall>u \<in> vis s. ix s' u = ix s u) \<and> tj_index s \<le> tj_index s'
     \<and> (\<forall>u \<in> vis s' - vis s. tj_index s \<le> ix s' u)"

lemma frame_refl: "frame s s"
  by (simp add: frame_def)

lemma frame_trans: "frame s t \<Longrightarrow> frame t u \<Longrightarrow> frame s u"
  unfolding frame_def by (metis DiffD1 DiffD2 DiffI le_trans subsetD subset_trans)

definition same_low :: "string set \<Rightarrow> tarjan \<Rightarrow> tarjan \<Rightarrow> bool" where
  "same_low us s s' \<longleftrightarrow> (\<forall>u \<in> us. low s' u = low s u)"

text \<open>What a finished call of \<open>strongconnect\<close> guarantees.\<close>

definition sc_post ::
  "(string \<times> string) set \<Rightarrow> string set \<Rightarrow> string set \<Rightarrow> string \<Rightarrow> tarjan \<Rightarrow> tarjan \<Rightarrow> bool" where
  "sc_post r cs grey v s s' \<longleftrightarrow>
     tj_inv r cs grey s' \<and> frame s s' \<and> same_low (vis s) s s' \<and> v \<in> vis s'
     \<and> low s' v \<le> ix s' v
     \<and> (\<exists>new. tj_stack s' = new @ tj_stack s \<and> set new \<inter> vis s = {}
          \<and> (\<forall>x \<in> set new. \<forall>y \<in> set (tj_stack s). (x, y) \<in> r \<longrightarrow> low s' v \<le> ix s' y))
     \<and> (v \<notin> set (tj_stack s') \<and> low s' v = ix s' v
        \<or> (\<exists>z \<in> set (tj_stack s'). low s' v = ix s' z \<and> (v, z) \<in> r\<^sup>*))"

text \<open>The invariant of the loop over the neighbours of \<open>v\<close>, those in \<open>d\<close> being done.\<close>

definition loop_inv ::
  "(string \<times> string) set \<Rightarrow> string set \<Rightarrow> string set \<Rightarrow> string \<Rightarrow> string list \<Rightarrow> string set \<Rightarrow> tarjan \<Rightarrow> bool" where
  "loop_inv r cs grey v st d s \<longleftrightarrow>
     tj_inv r cs grey s \<and> v \<in> grey \<and> grey \<subseteq> insert v (set st)
     \<and> (\<exists>new. tj_stack s = new @ v # st
          \<and> (\<forall>x \<in> set new. \<forall>y \<in> insert v (set st). (x, y) \<in> r \<longrightarrow> low s v \<le> ix s y))
     \<and> (\<exists>z \<in> set (tj_stack s). low s v = ix s z \<and> (v, z) \<in> r\<^sup>*)
     \<and> low s v \<le> ix s v
     \<and> (\<forall>u \<in> d. u \<in> cs \<longrightarrow> u \<in> vis s \<and> (u \<in> set (tj_stack s) \<longrightarrow> low s v \<le> ix s u))"

lemma loop_invE:
  assumes "loop_inv r cs grey v st d s"
  obtains new z where "tj_inv r cs grey s" "v \<in> grey" "grey \<subseteq> insert v (set st)"
    "tj_stack s = new @ v # st"
    "\<And>x y. x \<in> set new \<Longrightarrow> y \<in> insert v (set st) \<Longrightarrow> (x, y) \<in> r \<Longrightarrow> low s v \<le> ix s y"
    "z \<in> set (tj_stack s)" "low s v = ix s z" "(v, z) \<in> r\<^sup>*" "low s v \<le> ix s v"
    "\<And>u. u \<in> d \<Longrightarrow> u \<in> cs \<Longrightarrow> u \<in> vis s \<and> (u \<in> set (tj_stack s) \<longrightarrow> low s v \<le> ix s u)"
proof -
  obtain new where n: "tj_stack s = new @ v # st"
      "\<forall>x \<in> set new. \<forall>y \<in> insert v (set st). (x, y) \<in> r \<longrightarrow> low s v \<le> ix s y"
    using assms unfolding loop_inv_def by (elim conjE exE)
  obtain z where z: "z \<in> set (tj_stack s)" "low s v = ix s z" "(v, z) \<in> r\<^sup>*"
    using assms unfolding loop_inv_def by (elim conjE bexE)
  have i: "tj_inv r cs grey s" "v \<in> grey" "grey \<subseteq> insert v (set st)" "low s v \<le> ix s v"
    and d: "\<forall>u \<in> d. u \<in> cs \<longrightarrow> u \<in> vis s \<and> (u \<in> set (tj_stack s) \<longrightarrow> low s v \<le> ix s u)"
    using assms unfolding loop_inv_def by simp_all
  show thesis
    by (rule that [OF i(1-3) n(1) _ z i(4)]) (use n(2) d in blast)+
qed

section \<open>Entering a node\<close>

lemma enter_fields:
  "tj_stack (enter v s) = v # tj_stack s" "tj_index (enter v s) = Suc (tj_index s)"
  "vis (enter v s) = insert v (vis s)" "tj_cyclic (enter v s) = tj_cyclic s"
  "tj_on_stack (enter v s) = insert v (tj_on_stack s)"
  "ix (enter v s) u = (if u = v then tj_index s else ix s u)"
  "low (enter v s) u = (if u = v then tj_index s else low s u)"
  by (auto simp: enter_def number_assoc_set map_of_assoc_set vis_def)

lemma enter_frame: "v \<notin> vis s \<Longrightarrow> frame s (enter v s)"
  unfolding frame_def by (auto simp: enter_fields)

lemma enter_inv:
  assumes inv: "tj_inv r cs grey s" and v: "v \<in> cs" "v \<notin> vis s" and reach: "\<forall>x \<in> grey. (x, v) \<in> r\<^sup>*"
  shows "loop_inv r cs (insert v grey) v (tj_stack s) {} (enter v s)"
proof -
  note i = tj_invD [OF inv]
  have old: "u \<noteq> v" "ix s u < tj_index s" if "u \<in> vis s" for u
    using that v(2) i(6) by auto
  have st: "u \<noteq> v" "ix s u < tj_index s" if "u \<in> set (tj_stack s)" for u
    using that old i(2) by blast+
  have "tj_inv r cs (insert v grey) (enter v s)"
    unfolding tj_inv_def
  proof (intro conjI)
    show "vis (enter v s) \<subseteq> cs" using i(1) v by (simp add: enter_fields)
    show "set (tj_stack (enter v s)) \<subseteq> vis (enter v s)" using i(2) by (auto simp: enter_fields)
    show "distinct (tj_stack (enter v s))" using i(3) st by (auto simp: enter_fields)
    show "tj_on_stack (enter v s) = set (tj_stack (enter v s))" using i(4) by (simp add: enter_fields)
    have "sorted_wrt (\<lambda>x y. ix (enter v s) y < ix (enter v s) x) (tj_stack s)"
      by (rule sorted_wrt_mono_rel [OF _ i(5)]) (use st in \<open>simp add: enter_fields\<close>)
    then show "sorted_wrt (\<lambda>x y. ix (enter v s) y < ix (enter v s) x) (tj_stack (enter v s))"
      using st by (auto simp: enter_fields)
    show "\<forall>u \<in> vis (enter v s). ix (enter v s) u < tj_index (enter v s)"
      using old by (auto simp: enter_fields intro: less_SucI)
    show "insert v grey \<subseteq> set (tj_stack (enter v s))" using i(7) by (auto simp: enter_fields)
    show "\<forall>x \<in> insert v grey. \<forall>y \<in> set (tj_stack (enter v s)).
        ix (enter v s) x \<le> ix (enter v s) y \<longrightarrow> (x, y) \<in> r\<^sup>*"
    proof (intro ballI impI)
      fix x y
      assume x: "x \<in> insert v grey" and y: "y \<in> set (tj_stack (enter v s))"
        and le: "ix (enter v s) x \<le> ix (enter v s) y"
      show "(x, y) \<in> r\<^sup>*"
      proof (cases "y = v")
        case True
        then show ?thesis using x reach by auto
      next
        case False
        then have y': "y \<in> set (tj_stack s)" using y by (simp add: enter_fields)
        then have "x \<noteq> v" using le st(2) [OF y'] False by (auto simp: enter_fields)
        then show ?thesis using x y' le False i(8) by (simp add: enter_fields)
      qed
    qed
    show "\<forall>y \<in> set (tj_stack (enter v s)). \<exists>x \<in> insert v grey.
        ix (enter v s) x \<le> ix (enter v s) y \<and> (y, x) \<in> r\<^sup>*"
    proof
      fix y
      assume "y \<in> set (tj_stack (enter v s))"
      then consider "y = v" | "y \<in> set (tj_stack s)" by (auto simp: enter_fields)
      then show "\<exists>x \<in> insert v grey. ix (enter v s) x \<le> ix (enter v s) y \<and> (y, x) \<in> r\<^sup>*"
      proof cases
        case 2
        then obtain x where "x \<in> grey" "ix s x \<le> ix s y" "(y, x) \<in> r\<^sup>*" using i(9) by blast
        moreover have "x \<noteq> v" "y \<noteq> v" using calculation 2 st(1) i(7) by blast+
        ultimately show ?thesis by (intro bexI [of _ x]) (simp_all add: enter_fields)
      qed auto
    qed
    show "\<forall>x \<in> vis (enter v s) - set (tj_stack (enter v s)). \<forall>y. (x, y) \<in> r \<longrightarrow>
        y \<in> vis (enter v s) - set (tj_stack (enter v s))"
    proof (intro ballI allI impI)
      fix x y
      assume "x \<in> vis (enter v s) - set (tj_stack (enter v s))" "(x, y) \<in> r"
      then have "y \<in> vis s \<and> y \<notin> set (tj_stack s)" using i(10) [of x y] by (simp add: enter_fields)
      then show "y \<in> vis (enter v s) - set (tj_stack (enter v s))"
        using old(1) by (auto simp: enter_fields)
    qed
    show "\<forall>x \<in> vis (enter v s) - insert v grey. \<forall>y. (x, y) \<in> r \<longrightarrow> y \<in> vis (enter v s)"
      using i(11) by (simp add: enter_fields) blast
    show "tj_cyclic (enter v s) = {x \<in> vis (enter v s) - set (tj_stack (enter v s)). (x, x) \<in> r\<^sup>+}"
      using i(12) v(2) by (auto simp: enter_fields)
  qed
  then show ?thesis
    using i(7) unfolding loop_inv_def by (auto simp: enter_fields)
qed

section \<open>Leaving a node\<close>

lemma pop_until_split: "v \<notin> set new \<Longrightarrow> pop_until v (new @ v # st) = (new @ [v], st)"
  by (induction new) auto

text \<open>Around the current node the stack splits by index.\<close>

lemma stack_split:
  assumes "tj_inv r cs grey s" and "tj_stack s = new @ v # st"
  shows "\<And>x. x \<in> set new \<Longrightarrow> ix s v < ix s x" "\<And>x. x \<in> set st \<Longrightarrow> ix s x < ix s v"
    "v \<notin> set new" "v \<notin> set st" "set new \<inter> set st = {}"
  using tj_invD(3,5) [OF assms(1)] by (auto simp: assms(2) sorted_wrt_append)

text \<open>A node that keeps a link below itself stays on the stack, on behalf of a grey node.\<close>

lemma stay_inv:
  assumes inv0: "tj_inv r cs grey s" and loop: "loop_inv r cs (insert v grey) v (tj_stack s) d s1"
    and fr: "frame s s1" and d: "\<And>y. (v, y) \<in> r \<Longrightarrow> y \<in> d \<and> y \<in> cs"
    and link: "low s1 v \<noteq> ix s1 v"
  shows "tj_inv r cs grey s1"
proof -
  note i0 = tj_invD [OF inv0]
  from loop show ?thesis
  proof (cases rule: loop_invE)
    case (1 new z)
    note i = tj_invD [OF 1(1)] and sp = stack_split [OF 1(1,4)]
    have grey: "grey \<subseteq> set (tj_stack s1)" using i(7) by blast
    have below: "z \<in> set (tj_stack s)"
      using 1(4,6,7,9) link sp(1) [of z] by auto
    have "\<exists>x \<in> grey. ix s1 x \<le> ix s1 y \<and> (y, x) \<in> r\<^sup>*" if y: "y \<in> set (tj_stack s1)" for y
    proof -
      obtain x where x: "x \<in> insert v grey" "ix s1 x \<le> ix s1 y" "(y, x) \<in> r\<^sup>*"
        using i(9) [OF y] by blast
      show ?thesis
      proof (cases "x \<in> grey")
        case False
        then have xv: "x = v" using x(1) by blast
        obtain x' where x': "x' \<in> grey" "ix s x' \<le> ix s z" "(z, x') \<in> r\<^sup>*" using i0(9) [OF below] by blast
        have same: "ix s1 x' = ix s x'" "ix s1 z = ix s z"
          using fr x'(1) below i0(2,7) unfolding frame_def by blast+
        have "ix s1 x' \<le> ix s1 y" using x'(2) same 1(7,9) x(2) xv by simp
        moreover have "(y, x') \<in> r\<^sup>*" using x(3) xv 1(8) x'(3) by (meson rtrancl_trans)
        ultimately show ?thesis using x'(1) by blast
      qed (use x in blast)
    qed
    moreover have "y \<in> vis s1" if "x \<in> vis s1" "x \<notin> grey" "(x, y) \<in> r" for x y
      using i(11) [of x y] that 1(10) [of y] d [of y] by (cases "x = v") auto
    ultimately show ?thesis
      by (intro tj_invI i(1-6,10,12) grey i(8)) auto
  qed
qed

text \<open>Removing a closed component.\<close>

lemma close_inv:
  assumes inv0: "tj_inv r cs grey s" and v: "v \<notin> vis s"
    and loop: "loop_inv r cs (insert v grey) v (tj_stack s) d s1"
    and fr: "frame s s1" and r: "r = edges_in adj cs" and d: "d = set (neighbours adj v)" and vc: "v \<in> cs"
    and link: "low s1 v = ix s1 v"
  shows "tj_inv r cs grey (close_component adj v s1) \<and> tj_stack (close_component adj v s1) = tj_stack s
    \<and> vis (close_component adj v s1) = vis s1"
  using loop
proof (cases rule: loop_invE)
  case (1 new z)
  note i0 = tj_invD [OF inv0] and i = tj_invD [OF 1(1)] and sp = stack_split [OF 1(1,4)]
  let ?s = "close_component adj v s1"
  let ?comp = "new @ [v]"
  have same: "ix s1 u = ix s u" if "u \<in> vis s" for u using fr that unfolding frame_def by blast
  have vis0: "vis s \<subseteq> vis s1" using fr unfolding frame_def by blast
  have gv: "v \<notin> grey" using i0(2,7) v by blast
  have f: "tj_stack ?s = tj_stack s" "vis ?s = vis s1" "tj_index ?s = tj_index s1"
      "tj_on_stack ?s = tj_on_stack s1 - set ?comp" "ix ?s = ix s1"
    using link 1(4) pop_until_split [OF sp(3), of "tj_stack s"]
    by (simp_all add: close_component_def vis_def split_beta)
  have cyc: "tj_cyclic ?s = (if new \<noteq> [] \<or> (v, v) \<in> r then tj_cyclic s1 \<union> set ?comp else tj_cyclic s1)"
    using link 1(4) pop_until_split [OF sp(3), of "tj_stack s"] vc
    by (cases new) (auto simp: close_component_def r edges_in_def)
  have succ_comp: "y \<in> vis s1 \<and> y \<notin> set (tj_stack s)" if x: "x \<in> set ?comp" and e: "(x, y) \<in> r" for x y
  proof
    show yv: "y \<in> vis s1"
    proof (cases "x = v")
      case True
      then have "y \<in> d \<and> y \<in> cs" using e r d unfolding edges_in_def by simp
      then show ?thesis using 1(10) by blast
    next
      case False
      then have "x \<in> set new" using x by simp
      then have "x \<in> vis s1" "x \<notin> insert v grey" using 1(3,4) i(2) sp(3,5) by auto
      then show ?thesis using i(11) e by blast
    qed
    show "y \<notin> set (tj_stack s)"
    proof
      assume y: "y \<in> set (tj_stack s)"
      have "low s1 v \<le> ix s1 y"
      proof (cases "x = v")
        case True
        then have "y \<in> d \<and> y \<in> cs" using e r d unfolding edges_in_def by simp
        then show ?thesis using 1(4,10) y by auto
      next
        case False
        then show ?thesis using 1(5) [of x y] x e y by auto
      qed
      then show False using sp(2) [OF y] link by simp
    qed
  qed
  text \<open>The closed nodes together with the component are closed under the edges.\<close>
  define p where "p = vis s1 - set (tj_stack s)"
  have p_split: "p = (vis s1 - set (tj_stack s1)) \<union> set ?comp"
    using 1(4) i(2) sp(4,5) v i0(2) unfolding p_def by auto
  have p_succ: "y \<in> p" if "x \<in> p" "(x, y) \<in> r" for x y
  proof (cases "x \<in> set ?comp")
    case True
    then show ?thesis using succ_comp that(2) unfolding p_def by blast
  next
    case False
    then have "x \<in> vis s1" "x \<notin> set (tj_stack s1)" using that(1) p_split by auto
    then show ?thesis using i(10) that(2) p_split by blast
  qed
  have p_star: "y \<in> p" if "(x, y) \<in> r\<^sup>*" "x \<in> p" for x y
    using that by (induction rule: rtrancl_induct) (auto intro: p_succ)
  have comp_back: "(x, v) \<in> r\<^sup>* \<and> (v, x) \<in> r\<^sup>*" if x: "x \<in> set ?comp" for x
  proof
    have xs: "x \<in> set (tj_stack s1)" using x 1(4) by auto
    obtain g where g: "g \<in> insert v grey" "(x, g) \<in> r\<^sup>*" using i(9) [OF xs] by blast
    have "x \<in> p" using x p_split by blast
    then have "g \<in> p" using p_star g(2) by blast
    then have "g = v" using g(1) i0(7) unfolding p_def by blast
    then show "(x, v) \<in> r\<^sup>*" using g(2) by simp
    have "ix s1 v \<le> ix s1 x" using x sp(1) [of x] by auto
    then show "(v, x) \<in> r\<^sup>*" using i(8) [of v x] xs by blast
  qed
  have comp_cyc: "(x, x) \<in> r\<^sup>+ \<longleftrightarrow> new \<noteq> [] \<or> (v, v) \<in> r" if x: "x \<in> set ?comp" for x
  proof (cases "new = []")
    case True
    then have xv: "x = v" using x by simp
    show ?thesis
    proof
      assume "(x, x) \<in> r\<^sup>+"
      then obtain w where w: "(v, w) \<in> r" "(w, v) \<in> r\<^sup>*" using xv by (meson tranclD)
      have "w \<in> p" using p_succ w(1) p_split by auto
      moreover have "w \<notin> vis s1 - set (tj_stack s1)"
      proof
        assume "w \<in> vis s1 - set (tj_stack s1)"
        with w(2) have "v \<in> vis s1 - set (tj_stack s1)"
          by (induction rule: rtrancl_induct) (use i(10) in blast)+
        then show False using 1(4) by simp
      qed
      ultimately have "w = v" using p_split True by auto
      with w(1) show "new \<noteq> [] \<or> (v, v) \<in> r" by simp
    qed (use xv True in blast)
  next
    case False
    then obtain y where y: "y \<in> set new" by (meson list.set_sel(1))
    then have "y \<noteq> v" using sp(3) by blast
    then have "(v, y) \<in> r\<^sup>+" "(y, v) \<in> r\<^sup>+"
      using comp_back [of y] y by (auto simp: rtrancl_eq_or_trancl)
    then have "(v, v) \<in> r\<^sup>+" by (rule trancl_trans)
    then have "(x, x) \<in> r\<^sup>+"
      using comp_back [OF x] by (meson rtrancl_trancl_trancl trancl_rtrancl_trancl)
    with False show ?thesis by simp
  qed
  have cyc2: "tj_cyclic ?s = {x \<in> p. (x, x) \<in> r\<^sup>+}"
    using i(12) comp_cyc p_split unfolding cyc by auto
  have up: "\<exists>x \<in> grey. ix s1 x \<le> ix s1 y \<and> (y, x) \<in> r\<^sup>*" if y: "y \<in> set (tj_stack s)" for y
  proof -
    obtain x where "x \<in> grey" "ix s x \<le> ix s y" "(y, x) \<in> r\<^sup>*" using i0(9) [OF y] by blast
    moreover have "ix s1 x = ix s x" "ix s1 y = ix s y" using same y i0(2,7) calculation(1) by blast+
    ultimately show ?thesis by (intro bexI [of _ x]) simp_all
  qed
  have black: "y \<in> vis s1" if "x \<in> vis s1" "x \<notin> grey" "(x, y) \<in> r" for x y
    using i(11) [of x y] succ_comp [of v y] that by (cases "x = v") auto
  have reach: "(x, y) \<in> r\<^sup>*" if "x \<in> grey" "y \<in> set (tj_stack s)" "ix s1 x \<le> ix s1 y" for x y
    using i(8) [of x y] that 1(4) by auto
  have sorted: "sorted_wrt (\<lambda>x y. ix s1 y < ix s1 x) (tj_stack s)"
    using i(5) by (simp add: 1(4) sorted_wrt_append)
  have sub: "set (tj_stack s) \<subseteq> vis s1" using i0(2) vis0 by blast
  have onst: "tj_on_stack s1 - set ?comp = set (tj_stack s)"
    using i(4) 1(4) sp(4,5) by auto
  have closed: "y \<in> vis s1 \<and> y \<notin> set (tj_stack s)"
    if "x \<in> vis s1" "x \<notin> set (tj_stack s)" "(x, y) \<in> r" for x y
    using p_succ [of x y] that unfolding p_def by blast
  have "tj_inv r cs grey ?s"
  proof (rule tj_invI, unfold f)
    show "tj_on_stack s1 - set ?comp = set (tj_stack s)" by (rule onst)
    show "sorted_wrt (\<lambda>x y. ix s1 y < ix s1 x) (tj_stack s)" by (rule sorted)
    show "tj_cyclic ?s = {x \<in> vis s1 - set (tj_stack s). (x, x) \<in> r\<^sup>+}" using cyc2 by (simp only: p_def)
  qed (rule i(1) sub i0(3) i(6) i0(7) reach up conjunct1 [OF closed] conjunct2 [OF closed] closed black;
      assumption)+
  with f show ?thesis by blast
qed

lemma close_post:
  assumes inv0: "tj_inv r cs grey s" and v: "v \<in> cs" "v \<notin> vis s"
    and loop: "loop_inv r cs (insert v grey) v (tj_stack s) (set (neighbours adj v)) s1"
    and fr: "frame s s1" and sl: "same_low (vis s) s s1" and r: "r = edges_in adj cs"
  shows "sc_post r cs grey v s (close_component adj v s1)"
  using loop
proof (cases rule: loop_invE)
  case (1 new z)
  note i0 = tj_invD [OF inv0] and i = tj_invD [OF 1(1)] and sp = stack_split [OF 1(1,4)]
  let ?s = "close_component adj v s1"
  have f: "low ?s = low s1" "ix ?s = ix s1" "tj_index ?s = tj_index s1" "vis ?s = vis s1"
    by (simp_all add: close_component_def vis_def split_beta)
  have vv: "v \<in> vis s1" using 1(4) i(2) by auto
  have fr': "frame s ?s" "same_low (vis s) s ?s"
    using fr sl unfolding frame_def same_low_def by (simp_all add: f)
  show ?thesis
  proof (cases "low s1 v = ix s1 v")
    case True
    note c = close_inv [OF inv0 v(2) loop fr r refl v(1) True]
    have "v \<notin> set (tj_stack ?s)" using c i0(2) v(2) by auto
    with c fr' vv True show ?thesis unfolding sc_post_def by (simp add: f)
  next
    case False
    have "tj_inv r cs grey s1"
      by (rule stay_inv [OF inv0 loop fr _ False]) (auto simp: r edges_in_def)
    moreover have s1: "?s = s1" using False by (simp add: close_component_def)
    have "\<exists>m. tj_stack s1 = m @ tj_stack s \<and> set m \<inter> vis s = {}
        \<and> (\<forall>x \<in> set m. \<forall>y \<in> set (tj_stack s). (x, y) \<in> r \<longrightarrow> low s1 v \<le> ix s1 y)"
    proof (intro exI [of _ "new @ [v]"] conjI ballI impI)
      show "tj_stack s1 = (new @ [v]) @ tj_stack s" using 1(4) by simp
      have "x \<notin> vis s" if "x \<in> set new" for x
      proof
        assume "x \<in> vis s"
        then have "ix s1 x < tj_index s" using i0(6) fr unfolding frame_def by simp
        moreover have "tj_index s \<le> ix s1 v" using fr v(2) vv unfolding frame_def by blast
        ultimately show False using sp(1) [OF that] by simp
      qed
      then show "set (new @ [v]) \<inter> vis s = {}" using v(2) by auto
      show "low s1 v \<le> ix s1 y" if x: "x \<in> set (new @ [v])" "y \<in> set (tj_stack s)" "(x, y) \<in> r" for x y
      proof (cases "x = v")
        case True
        then have "y \<in> set (neighbours adj v)" "y \<in> cs" using x(3) by (auto simp: r edges_in_def)
        then show ?thesis using 1(4) 1(10) [of y] x(2) by auto
      next
        case False
        then show ?thesis using 1(5) [of x y] x by auto
      qed
    qed
    ultimately show ?thesis
      using fr' vv 1(6-9) unfolding sc_post_def s1 by blast
  qed
qed

section \<open>The loop over the neighbours\<close>

lemma lower_fields:
  "tj_stack (lower_link v k s) = tj_stack s" "tj_index (lower_link v k s) = tj_index s"
  "vis (lower_link v k s) = vis s" "tj_cyclic (lower_link v k s) = tj_cyclic s"
  "tj_on_stack (lower_link v k s) = tj_on_stack s" "ix (lower_link v k s) = ix s"
  "low (lower_link v k s) u = (if u = v then min (low s v) k else low s u)"
  by (simp_all add: lower_link_def vis_def number_assoc_set)

lemma lower_inv: "tj_inv r cs grey (lower_link v k s) = tj_inv r cs grey s"
  unfolding tj_inv_def lower_fields ..

lemma lower_frame: "frame s (lower_link v k s)"
  unfolding frame_def lower_fields by simp

lemma loop_invI:
  assumes "tj_inv r cs grey s" "v \<in> grey" "grey \<subseteq> insert v (set st)" "tj_stack s = new @ v # st"
    "\<And>x y. x \<in> set new \<Longrightarrow> y \<in> insert v (set st) \<Longrightarrow> (x, y) \<in> r \<Longrightarrow> low s v \<le> ix s y"
    "z \<in> set (tj_stack s)" "low s v = ix s z" "(v, z) \<in> r\<^sup>*" "low s v \<le> ix s v"
    "\<And>u. u \<in> d \<Longrightarrow> u \<in> cs \<Longrightarrow> u \<in> vis s \<and> (u \<in> set (tj_stack s) \<longrightarrow> low s v \<le> ix s u)"
  shows "loop_inv r cs grey v st d s"
proof -
  have "\<forall>x \<in> set new. \<forall>y \<in> insert v (set st). (x, y) \<in> r \<longrightarrow> low s v \<le> ix s y"
    using assms(5) by blast
  moreover have "\<forall>u \<in> d. u \<in> cs \<longrightarrow> u \<in> vis s \<and> (u \<in> set (tj_stack s) \<longrightarrow> low s v \<le> ix s u)"
    using assms(10) by blast
  ultimately show ?thesis
    unfolding loop_inv_def by (intro conjI assms(1-3,9) exI [of _ new] bexI [of _ z] assms(4,6-8))
qed

text \<open>A neighbour that is no candidate, or is closed already.\<close>

lemma skip_neighbour:
  assumes "loop_inv r cs grey v st d s" and "w \<in> cs \<longrightarrow> w \<in> vis s \<and> w \<notin> set (tj_stack s)"
  shows "loop_inv r cs grey v st (insert w d) s"
  using assms unfolding loop_inv_def by blast

text \<open>A neighbour on the stack.\<close>

lemma back_edge:
  assumes loop: "loop_inv r cs grey v st d s" and w: "w \<in> vis s" "w \<in> set (tj_stack s)" "(v, w) \<in> r"
  shows "loop_inv r cs grey v st (insert w d) (lower_link v (ix s w) s)"
  using loop
proof (cases rule: loop_invE)
  case (1 new z)
  let ?s = "lower_link v (ix s w) s"
  have le: "low ?s v \<le> low s v" "low ?s v \<le> ix s w" by (simp_all add: lower_fields)
  define z' where "z' = (if low s v \<le> ix s w then z else w)"
  have "z' \<in> set (tj_stack s)" "low ?s v = ix s z'" "(v, z') \<in> r\<^sup>*"
    using 1(6-8) w unfolding z'_def by (auto simp: lower_fields)
  then show ?thesis
    using 1 le w
    by (intro loop_invI [of _ _ _ _ _ _ new z']) (auto simp: lower_inv lower_fields intro: order_trans)
qed

text \<open>A neighbour that was visited on its behalf.\<close>

lemma tree_edge:
  assumes loop: "loop_inv r cs grey v st d s" and w: "(v, w) \<in> r" "w \<in> cs" "w \<notin> vis s"
    and post: "sc_post r cs grey w s s1"
  shows "loop_inv r cs grey v st (insert w d) (lower_link v (low s1 w) s1)"
  using loop
proof (cases rule: loop_invE)
  case (1 new z)
  let ?s = "lower_link v (low s1 w) s1"
  note i = tj_invD [OF 1(1)]
  obtain m where m: "tj_stack s1 = m @ tj_stack s" "set m \<inter> vis s = {}"
      "\<And>x y. x \<in> set m \<Longrightarrow> y \<in> set (tj_stack s) \<Longrightarrow> (x, y) \<in> r \<Longrightarrow> low s1 w \<le> ix s1 y"
    using post unfolding sc_post_def by blast
  have inv1: "tj_inv r cs grey s1" and fr: "frame s s1" and sl: "same_low (vis s) s s1"
      and wv: "w \<in> vis s1" "low s1 w \<le> ix s1 w"
    using post unfolding sc_post_def by blast+
  have vv: "v \<in> vis s" "v \<in> set (tj_stack s)" using 1(4) i(2) by auto
  have lv: "low s1 v = low s v" using sl vv unfolding same_low_def by simp
  have same: "ix s1 u = ix s u" if "u \<in> vis s" for u using fr that unfolding frame_def by blast
  have st: "u \<in> vis s" if "u \<in> insert v (set st)" for u using that 1(4) i(2) by auto
  have le: "low ?s v \<le> low s v" "low ?s v \<le> low s1 w" by (simp_all add: lower_fields lv)
  have above: "ix s v < ix s1 w"
    using fr w(3) wv(1) i(6) [OF vv(1)] unfolding frame_def by (metis DiffI less_le_trans)
  obtain z' where z': "z' \<in> set (tj_stack s1)" "low ?s v = ix s1 z'" "(v, z') \<in> r\<^sup>*"
  proof (cases "low s v \<le> low s1 w")
    case True
    have "ix s1 z = ix s z" using same 1(6) i(2) by blast
    with True 1(6-8) m(1) lv show thesis by (intro that [of z]) (auto simp: lower_fields)
  next
    case False
    then have "low s1 w \<noteq> ix s1 w" using above 1(9) by linarith
    then obtain y where "y \<in> set (tj_stack s1)" "low s1 w = ix s1 y" "(w, y) \<in> r\<^sup>*"
      using post unfolding sc_post_def by blast
    with False w(1) lv show thesis
      by (intro that [of y]) (auto simp: lower_fields intro: converse_rtrancl_into_rtrancl)
  qed
  show ?thesis
  proof (rule loop_invI [of _ _ _ _ _ _ "m @ new" z'])
    show "tj_stack ?s = (m @ new) @ v # st" using m(1) 1(4) by (simp add: lower_fields)
    show "low ?s v \<le> ix ?s y" if "x \<in> set (m @ new)" "y \<in> insert v (set st)" "(x, y) \<in> r" for x y
    proof (cases "x \<in> set m")
      case True
      then have "low s1 w \<le> ix s1 y" using m(3) [of x y] that 1(4) by auto
      then show ?thesis using le by (simp add: lower_fields)
    next
      case False
      then have "low s v \<le> ix s y" using 1(5) [of x y] that by auto
      then show ?thesis using le same [OF st [OF that(2)]] by (simp add: lower_fields)
    qed
    show "low ?s v \<le> ix ?s v" using le 1(9) same [OF vv(1)] by (simp add: lower_fields)
    show "u \<in> vis ?s \<and> (u \<in> set (tj_stack ?s) \<longrightarrow> low ?s v \<le> ix ?s u)" if u: "u \<in> insert w d" "u \<in> cs" for u
    proof (cases "u = w")
      case True
      then show ?thesis using wv by (auto simp: lower_fields min_le_iff_disj)
    next
      case False
      then have d: "u \<in> vis s" "u \<in> set (tj_stack s) \<longrightarrow> low s v \<le> ix s u" using 1(10) [of u] u by auto
      moreover have "u \<in> vis s1" using d(1) fr unfolding frame_def by blast
      moreover have "u \<notin> set m" using d(1) m(2) by blast
      ultimately show ?thesis using le same [OF d(1)] m(1) by (auto simp: lower_fields)
    qed
  qed (use 1 inv1 z' in \<open>simp_all add: lower_inv lower_fields\<close>)
qed

section \<open>Correctness of the search\<close>

text \<open>What a call needs: fuel for every candidate that is not visited yet.\<close>

definition sc_pre :: "(string \<times> string) set \<Rightarrow> string set \<Rightarrow> string set \<Rightarrow> string \<Rightarrow> nat \<Rightarrow> tarjan \<Rightarrow> bool" where
  "sc_pre r cs grey v n s \<longleftrightarrow>
     tj_inv r cs grey s \<and> v \<in> cs \<and> v \<notin> vis s \<and> (\<forall>x \<in> grey. (x, v) \<in> r\<^sup>*) \<and> card (cs - vis s) \<le> n"

lemma visit_correct:
  assumes fin: "finite cs" and r: "r = edges_in adj cs" and cands: "set cands = cs"
    and sc: "\<And>w grey s. sc_pre r cs grey w n s \<Longrightarrow>
      \<exists>s'. strongconnect n adj cands w s = Some s' \<and> sc_post r cs grey w s s'"
    and loop: "loop_inv r cs grey v st d s" and fuel: "card (cs - vis s) \<le> n"
    and ws: "set ws \<subseteq> set (neighbours adj v)" and v: "v \<in> cs"
  shows "\<exists>s'. visit n adj cands v ws s = Some s' \<and> loop_inv r cs grey v st (d \<union> set ws) s'
    \<and> frame s s' \<and> same_low (vis s - {v}) s s'"
  using loop fuel ws
proof (induction ws arbitrary: s d)
  case Nil
  then show ?case by (simp add: frame_refl same_low_def)
next
  case (Cons w ws)
  have e: "(v, w) \<in> r" if "w \<in> cs" using Cons.prems(3) that v by (auto simp: r edges_in_def)
  have stk: "tj_on_stack s = set (tj_stack s)" "v \<in> vis s"
    using Cons.prems(1) unfolding loop_inv_def by (auto dest: tj_invD(2,4))
  have d: "d \<union> set (w # ws) = insert w d \<union> set ws" by auto
  have go: ?case
    if step: "visit n adj cands v (w # ws) s = visit n adj cands v ws s1"
      and l1: "loop_inv r cs grey v st (insert w d) s1" and f1: "frame s s1" "same_low (vis s - {v}) s s1"
    for s1
  proof -
    have "cs - vis s1 \<subseteq> cs - vis s" using f1(1) unfolding frame_def by blast
    then have "card (cs - vis s1) \<le> n"
      using Cons.prems(2) card_mono [of "cs - vis s" "cs - vis s1"] fin by simp
    from Cons.IH [OF l1 this] Cons.prems(3) obtain s' where s': "visit n adj cands v ws s1 = Some s'"
        "loop_inv r cs grey v st (insert w d \<union> set ws) s'" "frame s1 s'" "same_low (vis s1 - {v}) s1 s'"
      by auto
    have "same_low (vis s - {v}) s s'"
      using f1 s'(4) unfolding same_low_def frame_def by (metis DiffD1 DiffD2 DiffI subsetD)
    with s' frame_trans [OF f1(1) s'(3)] show ?thesis unfolding step d by blast
  qed
  show ?case
  proof (cases "w \<in> cs")
    case False
    then show ?thesis
      using skip_neighbour [OF Cons.prems(1), of w] by (intro go [of s]) (auto simp: cands frame_refl same_low_def)
  next
    case w: True
    show ?thesis
    proof (cases "w \<in> vis s")
      case new: False
      have pre: "sc_pre r cs grey w n s"
      proof -
        from Cons.prems(1) have "\<forall>x \<in> grey. (x, v) \<in> r\<^sup>*"
        proof (cases rule: loop_invE)
          case (1 m z)
          note i = tj_invD [OF 1(1)] and sp = stack_split [OF 1(1,4)]
          show ?thesis
          proof
            fix x
            assume x: "x \<in> grey"
            then have "ix s x \<le> ix s v" using 1(3) sp(2) [of x] by auto
            then show "(x, v) \<in> r\<^sup>*" using i(8) [OF x] 1(4) by simp
          qed
        qed
        then show ?thesis
          using Cons.prems(1,2) w new e [OF w] unfolding sc_pre_def loop_inv_def
          by (blast intro: rtrancl_into_rtrancl)
      qed
      then obtain s1 where s1: "strongconnect n adj cands w s = Some s1" "sc_post r cs grey w s s1"
        using sc by blast
      let ?s = "lower_link v (low s1 w) s1"
      have "map_of (tj_indices s) w = None" using new by (simp add: vis_def)
      then have step: "visit n adj cands v (w # ws) s = visit n adj cands v ws ?s"
        using w s1(1) by (simp add: cands)
      have "frame s ?s" "same_low (vis s - {v}) s ?s"
        using s1(2) lower_frame frame_trans unfolding sc_post_def same_low_def
        by (blast, simp add: lower_fields)
      with step tree_edge [OF Cons.prems(1) e [OF w] w new s1(2)] show ?thesis by (rule go)
    next
      case old: True
      then obtain k where ne: "map_of (tj_indices s) w = Some k" by (auto simp: vis_def)
      show ?thesis
      proof (cases "w \<in> set (tj_stack s)")
        case True
        have "frame s (lower_link v (ix s w) s)" "same_low (vis s - {v}) s (lower_link v (ix s w) s)"
          using lower_frame by (auto simp: same_low_def lower_fields)
        moreover have "visit n adj cands v (w # ws) s = visit n adj cands v ws (lower_link v (ix s w) s)"
          using w ne True stk by (simp add: cands)
        ultimately show ?thesis
          using back_edge [OF Cons.prems(1) old True e [OF w]] by (intro go)
      next
        case False
        have "visit n adj cands v (w # ws) s = visit n adj cands v ws s"
          using w ne False stk by (simp add: cands)
        then show ?thesis
          using skip_neighbour [OF Cons.prems(1), of w] old False
          by (intro go [of s]) (auto simp: frame_refl same_low_def)
      qed
    qed
  qed
qed

lemma strongconnect_correct:
  assumes fin: "finite cs" and r: "r = edges_in adj cs" and cands: "set cands = cs"
    and pre: "sc_pre r cs grey v n s"
  shows "\<exists>s'. strongconnect n adj cands v s = Some s' \<and> sc_post r cs grey v s s'"
  using pre
proof (induction n arbitrary: grey v s)
  case 0
  then have "v \<in> cs - vis s" "card (cs - vis s) = 0" unfolding sc_pre_def by auto
  then have "cs - vis s = {}" using fin by (meson card_0_eq finite_Diff)
  with \<open>v \<in> cs - vis s\<close> show ?case by blast
next
  case (Suc n)
  then have p: "tj_inv r cs grey s" "v \<in> cs" "v \<notin> vis s" "\<forall>x \<in> grey. (x, v) \<in> r\<^sup>*"
      "card (cs - vis s) \<le> Suc n"
    unfolding sc_pre_def by blast+
  let ?s = "enter v s"
  have "cs - vis ?s = (cs - vis s) - {v}" by (auto simp: enter_fields)
  then have fuel: "card (cs - vis ?s) \<le> n" using p fin by (simp add: card_Diff_singleton)
  obtain s1 where s1: "visit n adj cands v (neighbours adj v) ?s = Some s1"
      "loop_inv r cs (insert v grey) v (tj_stack s) (set (neighbours adj v)) s1"
      "frame ?s s1" "same_low (vis ?s - {v}) ?s s1"
    using visit_correct [OF fin r cands Suc.IH enter_inv [OF p(1-4)] fuel subset_refl p(2)] by auto
  have fr: "frame s s1" using frame_trans [OF enter_frame [OF p(3)] s1(3)] .
  have "same_low (vis s) s s1"
    using s1(4) p(3) by (auto simp: same_low_def enter_fields)
  from close_post [OF p(1-3) s1(2) fr this r] s1(1) show ?case by simp
qed

lemma search_from_correct:
  assumes fin: "finite cs" and r: "r = edges_in adj cs" and cands: "set cands = cs" and n: "card cs \<le> n"
    and inv: "tj_inv r cs {} s" and vs: "set vs \<subseteq> cs"
  shows "\<exists>s'. search_from n adj cands vs s = Some s' \<and> tj_inv r cs {} s' \<and> vis s \<union> set vs \<subseteq> vis s'"
  using inv vs
proof (induction vs arbitrary: s)
  case (Cons v vs)
  show ?case
  proof (cases "v \<in> vis s")
    case True
    then show ?thesis using Cons by (fastforce simp: vis_def)
  next
    case False
    have "card (cs - vis s) \<le> n" using n card_mono [of cs "cs - vis s"] fin by simp
    then have "sc_pre r cs {} v n s" using Cons.prems False unfolding sc_pre_def by simp
    then obtain s1 where s1: "strongconnect n adj cands v s = Some s1" "sc_post r cs {} v s s1"
      using strongconnect_correct [OF fin r cands] by blast
    then have i1: "tj_inv r cs {} s1" "vis s \<subseteq> vis s1" "v \<in> vis s1"
      unfolding sc_post_def frame_def by blast+
    obtain s' where "search_from n adj cands vs s1 = Some s'" "tj_inv r cs {} s'"
        "vis s1 \<union> set vs \<subseteq> vis s'"
      using Cons.IH [OF i1(1)] Cons.prems(2) by auto
    moreover have "map_of (tj_indices s) v = None" using False by (simp add: vis_def)
    ultimately show ?thesis using s1(1) i1 by auto
  qed
qed simp

theorem find_cyclic_exact:
  "find_cyclic_node_ids adj cands = Some {u. (u, u) \<in> (edges_in adj (set cands))\<^sup>+}"
proof -
  let ?cs = "set cands" and ?r = "edges_in adj (set cands)"
  have start: "tj_inv ?r ?cs {} tarjan_start"
    by (simp add: tj_inv_def tarjan_start_def vis_def)
  have "card ?cs \<le> Suc (length cands)" using card_length [of cands] by simp
  then obtain s where s: "search_from (Suc (length cands)) adj cands cands tarjan_start = Some s"
      "tj_inv ?r ?cs {} s" "?cs \<subseteq> vis s"
    using search_from_correct [OF _ refl refl _ start, of "Suc (length cands)" cands] by auto
  note i = tj_invD [OF s(2)]
  have "tj_stack s = []" using i(9) by (metis empty_iff list.set_sel(1))
  then have "tj_cyclic s = {u \<in> ?cs. (u, u) \<in> ?r\<^sup>+}" using i(1,12) s(3) by auto
  moreover have "u \<in> ?cs" if cyc: "(u, u) \<in> ?r\<^sup>+" for u
  proof -
    obtain w where "(u, w) \<in> ?r" using tranclD [OF cyc] by blast
    then show ?thesis by (simp add: edges_in_def)
  qed
  ultimately show ?thesis using s(1) by (auto simp: find_cyclic_node_ids_def)
qed

end
