(* ===== verification/Logic_Graph_Props.thy ===== *)
theory Logic_Graph_Props
  imports Cycle_Search "HOL-Library.Char_ord" "HOL-Library.List_Lexorder"
begin

text \<open>
  Properties of the topology analysis: the order of execution respects every edge that orders the
  run, it contains exactly the nodes that no cycle leads to, and the other nodes are reported as on
  a cycle or as blocked by one, exactly; of the warnings; and of the checks before storing.
\<close>

section \<open>The graph that is built\<close>

definition node_ids :: "flow \<Rightarrow> string set" where
  "node_ids fl = ln_id ` set (fl_nodes fl)"

text \<open>The edges that order a run: both ends exist and the target is no tick boundary.\<close>

definition ordering_edges :: "flow \<Rightarrow> (string \<times> string) set" where
  "ordering_edges fl = {(le_source e, le_target e) | e. e \<in> set (fl_edges fl)
     \<and> le_source e \<in> node_ids fl \<and> le_target e \<in> node_ids fl
     \<and> \<not> edge_is_tick_boundary fl (le_target e)}"

lemma by_id_keys: "set (map fst (by_id f ns)) = ln_id ` set ns"
proof -
  have "set (map fst (fold (\<lambda>n. assoc_set (ln_id n) (f n)) ns kvs)) = set (map fst kvs) \<union> ln_id ` set ns" for kvs
    by (induction ns arbitrary: kvs) (auto simp: keys_assoc_set [simplified])
  then show ?thesis by (simp add: by_id_def)
qed

lemma by_id_distinct: "distinct (map fst (by_id f ns))"
proof -
  have "distinct (map fst kvs) \<Longrightarrow> distinct (map fst (fold (\<lambda>n. assoc_set (ln_id n) (f n)) ns kvs))" for kvs
    by (induction ns arbitrary: kvs) (auto intro: distinct_assoc_set)
  then show ?thesis by (simp add: by_id_def)
qed

lemma by_id_const: "map_of (by_id (\<lambda>_. c) ns) u = (if u \<in> ln_id ` set ns then Some c else None)"
proof -
  have "map_of (fold (\<lambda>n. assoc_set (ln_id n) c) ns kvs) u
      = (if u \<in> ln_id ` set ns then Some c else map_of kvs u)" for kvs
    by (induction ns arbitrary: kvs) (auto simp: map_of_assoc_set)
  then show ?thesis by (simp add: by_id_def)
qed

lemma by_id_SomeD: "map_of (by_id f ns) u = Some x \<Longrightarrow> \<exists>n \<in> set ns. ln_id n = u \<and> x = f n"
proof -
  have "map_of (fold (\<lambda>n. assoc_set (ln_id n) (f n)) ns kvs) u = Some x \<Longrightarrow>
      map_of kvs u = Some x \<or> (\<exists>n \<in> set ns. ln_id n = u \<and> x = f n)" for kvs
    by (induction ns arbitrary: kvs) (fastforce simp: map_of_assoc_set split: if_splits)+
  from this [of "[]"] show "map_of (by_id f ns) u = Some x \<Longrightarrow> ?thesis" by (simp add: by_id_def)
qed

definition total :: "adjacency \<Rightarrow> string set \<Rightarrow> string \<Rightarrow> nat" where
  "total adj us w = (\<Sum>u \<in> us. count_list (neighbours adj u) w)"

definition graph_inv :: "string set \<Rightarrow> adjacency \<times> (string \<times> int) list \<Rightarrow> bool" where
  "graph_inv ids = (\<lambda>(adj, deg).
     (\<forall>u. map_of adj u \<noteq> None \<longleftrightarrow> u \<in> ids) \<and> set (map fst deg) = ids \<and> distinct (map fst deg)
     \<and> (\<forall>w. degree deg w = int (total adj ids w)))"

lemma map_of_keys: "map_of kvs u = None \<longleftrightarrow> u \<notin> set (map fst kvs)"
  by (simp add: map_of_eq_None_iff)

lemma neighbours_assoc_set: "neighbours (assoc_set v vs adj) u = (if u = v then vs else neighbours adj u)"
  by (simp add: neighbours_def map_of_assoc_set)

lemma add_edge_inv:
  assumes fin: "finite ids" and inv: "graph_inv ids (adj, deg)"
    and step: "add_edge fl e (adj, deg) = (adj', deg')"
  shows "graph_inv ids (adj', deg')
    \<and> (\<forall>u. set (neighbours adj' u) = set (neighbours adj u)
        \<union> (if u = le_source e \<and> u \<in> ids \<and> le_target e \<in> ids \<and> \<not> edge_is_tick_boundary fl (le_target e)
           then {le_target e} else {}))"
proof -
  have keys: "map_of adj u \<noteq> None \<longleftrightarrow> u \<in> ids" "map_of deg u \<noteq> None \<longleftrightarrow> u \<in> ids" for u
    using inv map_of_keys [of deg u] by (auto simp: graph_inv_def)
  show ?thesis
  proof (cases "le_source e \<in> ids \<and> le_target e \<in> ids \<and> \<not> edge_is_tick_boundary fl (le_target e)")
    case False
    then have "adj' = adj \<and> deg' = deg"
      using step keys by (auto simp: add_edge_def split: if_splits)
    with False inv show ?thesis by auto
  next
    case True
    then have new: "adj' = assoc_set (le_source e) (neighbours adj (le_source e) @ [le_target e]) adj"
        "deg' = assoc_set (le_target e) (degree deg (le_target e) + 1) deg"
      using step keys [of "le_source e"] keys [of "le_target e"] by (auto simp: add_edge_def)
    have "total adj' ids w = total adj ids w + (if w = le_target e then 1 else 0)" for w
    proof -
      have "total adj' ids w = (\<Sum>u \<in> ids. count_list (neighbours adj u) w
          + (if u = le_source e then (if w = le_target e then 1 else 0) else 0))"
        unfolding total_def new(1) neighbours_assoc_set by (rule sum.cong) auto
      then show ?thesis using True fin by (simp add: sum.distrib total_def)
    qed
    moreover have "distinct (map fst deg')" "set (map fst deg') = ids"
      using inv True distinct_assoc_set keys_assoc_set [of "le_target e" _ deg]
      by (auto simp: new graph_inv_def)
    moreover have "map_of adj' u \<noteq> None \<longleftrightarrow> u \<in> ids" for u
      using keys(1) True by (simp add: new map_of_assoc_set)
    ultimately have "graph_inv ids (adj', deg')"
      using inv by (simp add: graph_inv_def new(2) degree_assoc_set)
    with True show ?thesis by (auto simp: new(1) neighbours_assoc_set)
  qed
qed

lemma build_graph_inv:
  assumes "build_graph fl = (adj, deg)"
  shows "graph_inv (node_ids fl) (adj, deg)"
    and "w \<in> set (neighbours adj u) \<longleftrightarrow> (u, w) \<in> ordering_edges fl"
proof -
  let ?ids = "node_ids fl"
  have fin: "finite ?ids" by (simp add: node_ids_def)
  have gen: "graph_inv ?ids (fold (add_edge fl) es (a0, d0))
      \<and> (\<forall>u. set (neighbours (fst (fold (add_edge fl) es (a0, d0))) u) = set (neighbours a0 u)
          \<union> {le_target e | e. e \<in> set es \<and> le_source e = u \<and> u \<in> ?ids \<and> le_target e \<in> ?ids
              \<and> \<not> edge_is_tick_boundary fl (le_target e)})"
    if "graph_inv ?ids (a0, d0)" for es a0 d0
    using that
  proof (induction es arbitrary: a0 d0)
    case (Cons e es)
    obtain a1 d1 where s: "add_edge fl e (a0, d0) = (a1, d1)" by fastforce
    note one = add_edge_inv [OF fin Cons.prems s]
    from Cons.IH [OF conjunct1 [OF one]] one show ?case by (auto simp: s)
  qed simp
  have start: "graph_inv ?ids (by_id (\<lambda>_. []) (fl_nodes fl), by_id (\<lambda>_. 0) (fl_nodes fl))"
    using by_id_keys [of "\<lambda>_. 0 :: int"] by_id_distinct
    by (simp add: graph_inv_def by_id_const node_ids_def total_def neighbours_def degree_def)
  note g = gen [OF start, of "fl_edges fl", folded build_graph_def, unfolded assms]
  show "graph_inv ?ids (adj, deg)" using g by blast
  have "neighbours (by_id (\<lambda>_. []) (fl_nodes fl)) u = []" by (simp add: neighbours_def by_id_const)
  with g show "w \<in> set (neighbours adj u) \<longleftrightarrow> (u, w) \<in> ordering_edges fl"
    by (auto simp: ordering_edges_def)
qed

section \<open>The loop\<close>

lemma relax_spec:
  assumes "relax ws deg queue = (deg', queue')" and "\<forall>w. int (count_list ws w) \<le> degree deg w"
  shows "(\<forall>w. degree deg' w = degree deg w - int (count_list ws w))
    \<and> (\<exists>new. queue' = queue @ new \<and> distinct new
        \<and> set new = {w \<in> set ws. degree deg w = int (count_list ws w)})"
  using assms
proof (induction ws deg queue rule: relax.induct)
  case (2 w ws deg queue)
  let ?deg = "assoc_set w (degree deg w - 1) deg"
  let ?q = "if degree ?deg w = 0 then queue @ [w] else queue"
  have d: "degree ?deg x = degree deg x - (if x = w then 1 else 0)" for x
    by (simp add: degree_assoc_set)
  have b: "\<forall>x. int (count_list ws x) \<le> degree ?deg x"
    using 2(3) unfolding d by (auto split: if_splits)
  have "relax ws ?deg ?q = (deg', queue')" using 2(2) by (simp add: Let_def)
  from 2(1) [OF refl this b] obtain new where n: "\<forall>x. degree deg' x = degree ?deg x - int (count_list ws x)"
      "queue' = ?q @ new" "distinct new" "set new = {x \<in> set ws. degree ?deg x = int (count_list ws x)}"
    by blast
  have first: "\<forall>x. degree deg' x = degree deg x - int (count_list (w # ws) x)"
    using n(1) by (simp add: d)
  have zero: "count_list ws w = 0 \<and> w \<notin> set ws" if "degree ?deg w = 0"
  proof -
    have "int (count_list ws w) \<le> 0" using b that by metis
    then show ?thesis by (simp add: count_list_0_iff)
  qed
  show ?case
  proof (cases "degree ?deg w = 0")
    case True
    then have "x \<in> set (w # new) \<longleftrightarrow> x \<in> set (w # ws) \<and> degree deg x = int (count_list (w # ws) x)" for x
      using zero [OF True] n(4) d [of w] d [of x] by (cases "x = w") simp_all
    then have "set (w # new) = {x \<in> set (w # ws). degree deg x = int (count_list (w # ws) x)}" by blast
    moreover have "distinct (w # new)" using n(3,4) zero True by auto
    ultimately show ?thesis using first n(2) True by (intro conjI exI [of _ "w # new"]) simp_all
  next
    case False
    have "x \<in> set new \<longleftrightarrow> x \<in> set (w # ws) \<and> degree deg x = int (count_list (w # ws) x)" for x
    proof (cases "x = w")
      case True
      have dw: "degree ?deg w = degree deg w - 1" by (simp add: d)
      have "w \<in> set new \<longleftrightarrow> w \<in> set ws \<and> degree deg w - 1 = int (count_list ws w)"
        by (simp add: n(4) degree_assoc_set)
      moreover have "w \<in> set ws" if "degree deg w - 1 = int (count_list ws w)"
        by (rule ccontr) (use that False dw in simp)
      moreover have "degree deg w - 1 = int (count_list ws w)
          \<longleftrightarrow> degree deg w = int (count_list (w # ws) w)" by auto
      moreover have "w \<in> set (w # ws)" by simp
      ultimately show ?thesis unfolding True by blast
    next
      case False
      with n(4) d [of x] show ?thesis by simp
    qed
    then have "set new = {x \<in> set (w # ws). degree deg x = int (count_list (w # ws) x)}" by blast
    with first n(2,3) False show ?thesis by (intro conjI exI [of _ new]) simp_all
  qed
qed simp

text \<open>The state of the loop: \<open>done\<close> was taken out of the queue, in that order.\<close>

definition kahn_inv ::
  "string set \<Rightarrow> adjacency \<Rightarrow> string list \<Rightarrow> string list \<Rightarrow> (string \<times> int) list \<Rightarrow> bool" where
  "kahn_inv ids adj out queue deg \<longleftrightarrow>
     distinct (out @ queue) \<and> set (out @ queue) \<subseteq> ids
     \<and> (\<forall>w. degree deg w = int (total adj (ids - set out) w))
     \<and> (\<forall>w \<in> ids. degree deg w = 0 \<longleftrightarrow> w \<in> set (out @ queue))
     \<and> (\<forall>i < length out. \<forall>u \<in> ids. out ! i \<in> set (neighbours adj u) \<longrightarrow> u \<in> set (take i out))"

lemma kahn_invD:
  assumes "kahn_inv ids adj out queue deg"
  shows "distinct (out @ queue)" "set (out @ queue) \<subseteq> ids"
    "\<And>w. degree deg w = int (total adj (ids - set out) w)"
    "\<And>w. w \<in> ids \<Longrightarrow> degree deg w = 0 \<longleftrightarrow> w \<in> set (out @ queue)"
    "\<And>i u. i < length out \<Longrightarrow> u \<in> ids \<Longrightarrow> out ! i \<in> set (neighbours adj u) \<Longrightarrow> u \<in> set (take i out)"
  using assms unfolding kahn_inv_def by (elim conjE; simp)+

lemma kahn_invI:
  assumes "distinct (out @ queue)" "set (out @ queue) \<subseteq> ids"
    "\<And>w. degree deg w = int (total adj (ids - set out) w)"
    "\<And>w. w \<in> ids \<Longrightarrow> degree deg w = 0 \<longleftrightarrow> w \<in> set (out @ queue)"
    "\<And>i u. i < length out \<Longrightarrow> u \<in> ids \<Longrightarrow> out ! i \<in> set (neighbours adj u) \<Longrightarrow> u \<in> set (take i out)"
  shows "kahn_inv ids adj out queue deg"
  unfolding kahn_inv_def by (intro conjI allI ballI impI; rule assms; assumption)

lemma total_0: "finite us \<Longrightarrow> total adj us w = 0 \<longleftrightarrow> (\<forall>u \<in> us. w \<notin> set (neighbours adj u))"
  by (simp add: total_def count_list_0_iff)

lemma kahn_step:
  assumes fin: "finite ids" and nb: "\<forall>u \<in> ids. set (neighbours adj u) \<subseteq> ids"
    and inv: "kahn_inv ids adj out (u # queue) deg" and rel: "relax (neighbours adj u) deg queue = (deg', queue')"
  shows "kahn_inv ids adj (out @ [u]) queue' deg'"
proof -
  note i = kahn_invD [OF inv]
  have u: "u \<in> ids - set out" using i(1,2) by auto
  have split: "total adj (ids - set out) w = count_list (neighbours adj u) w + total adj (ids - set (out @ [u])) w" for w
  proof -
    have eq: "ids - set (out @ [u]) = (ids - set out) - {u}" by auto
    show ?thesis unfolding total_def eq using fin u by (intro sum.remove) auto
  qed
  have "\<forall>w. int (count_list (neighbours adj u) w) \<le> degree deg w" using i(3) split by simp
  from relax_spec [OF rel this] obtain new where n:
      "\<And>w. degree deg' w = degree deg w - int (count_list (neighbours adj u) w)"
      "queue' = queue @ new" "distinct new"
      "set new = {w \<in> set (neighbours adj u). degree deg w = int (count_list (neighbours adj u) w)}"
    by blast
  have deg': "degree deg' w = int (total adj (ids - set (out @ [u])) w)" for w
    using n(1) i(3) split by simp
  have new: "w \<in> ids \<and> w \<notin> set (out @ u # queue)" if "w \<in> set new" for w
  proof
    show w: "w \<in> ids" using that n(4) nb u by blast
    have "count_list (neighbours adj u) w \<noteq> 0" using that n(4) by (simp add: count_list_0_iff)
    then have "degree deg w \<noteq> 0" using that n(4) by simp
    then show "w \<notin> set (out @ u # queue)" using i(4) [OF w] by blast
  qed
  have "distinct ((out @ [u]) @ queue')" using i(1) n(2,3) new by auto
  moreover have "set ((out @ [u]) @ queue') \<subseteq> ids" using i(2) n(2) new by auto
  moreover have "degree deg' w = 0 \<longleftrightarrow> w \<in> set ((out @ [u]) @ queue')" if w: "w \<in> ids" for w
  proof (cases "w \<in> set (out @ u # queue)")
    case True
    then have "total adj (ids - set out) w = 0" using i(3) [of w] i(4) [OF w] by simp
    then show ?thesis using True deg' [of w] split [of w] n(2) by auto
  next
    case False
    then have "degree deg w \<noteq> 0" using i(4) [OF w] by blast
    then have "degree deg' w = 0 \<longleftrightarrow> w \<in> set new"
      using n(1) [of w] n(4) by (auto simp: count_list_0_iff)
    with False n(2) show ?thesis by auto
  qed
  moreover have "x \<in> set (take i (out @ [u]))"
    if "i < length (out @ [u])" "x \<in> ids" "(out @ [u]) ! i \<in> set (neighbours adj x)" for i x
  proof (cases "i < length out")
    case True
    then show ?thesis using i(5) [of i x] that by (simp add: nth_append)
  next
    case False
    then have "i = length out" using that(1) by simp
    moreover have "total adj (ids - set out) u = 0" using i(3) [of u] i(4) [of u] u by simp
    then have "\<forall>y \<in> ids - set out. u \<notin> set (neighbours adj y)" using fin by (simp add: total_0)
    ultimately show ?thesis using that by (simp add: nth_append) blast
  qed
  ultimately show ?thesis by (rule kahn_invI [OF _ _ deg'])
qed

lemma kahn_correct:
  assumes fin: "finite ids" and nb: "\<forall>u \<in> ids. set (neighbours adj u) \<subseteq> ids"
  shows "kahn_inv ids adj out queue deg \<Longrightarrow> \<exists>deg'. kahn_inv ids adj (out @ kahn adj queue deg) [] deg'"
  using nb
proof (induction adj queue deg arbitrary: out rule: kahn.induct)
  case (2 adj u queue deg)
  obtain deg' queue' where r: "relax (neighbours adj u) deg queue = (deg', queue')" by fastforce
  have "kahn_inv ids adj (out @ [u]) queue' deg'" by (rule kahn_step [OF fin 2(3,2) r])
  from 2(1) [OF r [symmetric] this 2(3)] r show ?case by simp
qed auto

section \<open>Cycles and what they block\<close>

text \<open>In a finite set where everything has a predecessor, everything is reached from a cycle.\<close>

lemma reached_from_cycle:
  assumes fin: "finite us" and pred: "\<forall>w \<in> us. \<exists>u \<in> us. (u, w) \<in> r" and w: "w \<in> us"
  shows "\<exists>c \<in> us. (c, c) \<in> r\<^sup>+ \<and> (c, w) \<in> r\<^sup>*"
proof -
  define anc where "anc = {a \<in> us. (a, w) \<in> r\<^sup>*}"
  define q where "q = r \<inter> anc \<times> anc"
  have fin': "finite q" using fin by (auto simp: q_def anc_def)
  have "\<not> acyclic q"
  proof
    assume "acyclic q"
    then have "wf q" using fin' by (rule finite_acyclic_wf [rotated])
    moreover have "w \<in> anc" using w by (simp add: anc_def)
    ultimately obtain m where m: "m \<in> anc" "\<And>y. (y, m) \<in> q \<Longrightarrow> y \<notin> anc"
      by (metis wfE_min)
    then obtain u where u: "u \<in> us" "(u, m) \<in> r" using pred by (auto simp: anc_def)
    then have "u \<in> anc" using m(1) by (auto simp: anc_def intro: converse_rtrancl_into_rtrancl)
    moreover from this have "(u, m) \<in> q" using u(2) m(1) by (simp add: q_def)
    ultimately show False using m(2) by blast
  qed
  then obtain c where c: "(c, c) \<in> q\<^sup>+" by (auto simp: acyclic_def)
  then have "(c, c) \<in> r\<^sup>+" by (rule trancl_mono) (auto simp: q_def)
  moreover obtain d where "(c, d) \<in> q" using tranclD [OF c] by blast
  then have "c \<in> anc" by (simp add: q_def)
  ultimately show ?thesis by (auto simp: anc_def)
qed

lemma ordered_no_cycle:
  assumes dist: "distinct xs" and topo: "\<forall>i < length xs. \<forall>u. (u, xs ! i) \<in> r \<longrightarrow> u \<in> set (take i xs)"
  shows "(a, b) \<in> r\<^sup>+ \<Longrightarrow> i < length xs \<Longrightarrow> xs ! i = b \<Longrightarrow> \<exists>j < i. xs ! j = a"
proof (induction arbitrary: i rule: trancl_induct)
  case (base b)
  then have "a \<in> set (take i xs)" using topo by blast
  then show ?case by (auto simp: in_set_conv_nth)
next
  case (step b c)
  then have "b \<in> set (take i xs)" using topo by blast
  then obtain k where "k < i" "xs ! k = b" by (auto simp: in_set_conv_nth)
  with step.IH [of k] step.prems show ?case by (metis less_trans)
qed

lemma kahn_exact:
  assumes fin: "finite ids" and edges: "\<And>u w. w \<in> set (neighbours adj u) \<longleftrightarrow> (u, w) \<in> r"
    and r: "r \<subseteq> ids \<times> ids" and inv: "kahn_inv ids adj xs [] deg"
  shows "distinct xs \<and> set xs = {u \<in> ids. \<not> (\<exists>c. (c, c) \<in> r\<^sup>+ \<and> (c, u) \<in> r\<^sup>*)}
    \<and> (\<forall>i < length xs. \<forall>u. (u, xs ! i) \<in> r \<longrightarrow> u \<in> set (take i xs))"
proof (intro conjI)
  note i = kahn_invD [OF inv]
  show dist: "distinct xs" using i(1) by simp
  show topo: "\<forall>i < length xs. \<forall>u. (u, xs ! i) \<in> r \<longrightarrow> u \<in> set (take i xs)"
    using i(5) edges r by blast
  have clean: "\<not> (\<exists>c. (c, c) \<in> r\<^sup>+ \<and> (c, u) \<in> r\<^sup>*)" if u: "u \<in> set xs" for u
  proof
    assume "\<exists>c. (c, c) \<in> r\<^sup>+ \<and> (c, u) \<in> r\<^sup>*"
    then obtain c where c: "(c, c) \<in> r\<^sup>+" "(c, u) \<in> r\<^sup>+" by (meson trancl_rtrancl_trancl)
    obtain k where k: "k < length xs" "xs ! k = u" using u by (auto simp: in_set_conv_nth)
    obtain j where j: "j < k" "xs ! j = c" using ordered_no_cycle [OF dist topo c(2) k] by blast
    then obtain j' where "j' < j" "xs ! j' = c" using ordered_no_cycle [OF dist topo c(1) less_trans [OF j(1) k(1)] j(2)] by blast
    moreover have "j' < length xs" "j < length xs" using calculation(1) j(1) k(1) by simp_all
    ultimately show False using j(2) dist nth_eq_iff_index_eq [of xs j' j] by simp
  qed
  have "\<exists>u \<in> ids - set xs. (u, w) \<in> r" if "w \<in> ids - set xs" for w
  proof -
    have "total adj (ids - set xs) w \<noteq> 0" using i(3,4) [of w] that by auto
    then show ?thesis using fin edges by (simp add: total_0)
  qed
  then have "\<exists>c. (c, c) \<in> r\<^sup>+ \<and> (c, w) \<in> r\<^sup>*" if "w \<in> ids - set xs" for w
    using reached_from_cycle [of "ids - set xs" r w] that fin by blast
  with clean have "u \<in> set xs \<longleftrightarrow> u \<in> ids \<and> \<not> (\<exists>c. (c, c) \<in> r\<^sup>+ \<and> (c, u) \<in> r\<^sup>*)" for u
    using i(2) by (cases "u \<in> set xs") auto
  then show "set xs = {u \<in> ids. \<not> (\<exists>c. (c, c) \<in> r\<^sup>+ \<and> (c, u) \<in> r\<^sup>*)}" by blast
qed

text \<open>The cycles of the graph are those among the nodes the order leaves out.\<close>

lemma cycles_inside:
  assumes "\<And>u w. w \<in> set (neighbours adj u) \<longleftrightarrow> (u, w) \<in> r" and "r \<subseteq> ids \<times> ids"
    and us: "us = {u \<in> ids. \<exists>c. (c, c) \<in> r\<^sup>+ \<and> (c, u) \<in> r\<^sup>*}"
  shows "(u, u) \<in> (edges_in adj us)\<^sup>+ \<longleftrightarrow> (u, u) \<in> r\<^sup>+"
proof
  assume "(u, u) \<in> (edges_in adj us)\<^sup>+"
  then show "(u, u) \<in> r\<^sup>+" by (rule trancl_mono) (use assms(1) in \<open>auto simp: edges_in_def\<close>)
next
  assume u: "(u, u) \<in> r\<^sup>+"
  have step: "(x, y) \<in> edges_in adj us" if "(u, x) \<in> r\<^sup>*" "(x, y) \<in> r" for x y
    using that u assms by (auto simp: edges_in_def intro: rtrancl_into_rtrancl)
  have "(u, y) \<in> (edges_in adj us)\<^sup>+" if "(u, y) \<in> r\<^sup>+" for y
    using that
  proof (induction rule: trancl_induct)
    case (base y)
    then show ?case using step by blast
  next
    case (step y z)
    then show ?case using \<open>\<And>x y. (u, x) \<in> r\<^sup>* \<Longrightarrow> (x, y) \<in> r \<Longrightarrow> (x, y) \<in> edges_in adj us\<close>
      by (meson trancl.trancl_into_trancl trancl_into_rtrancl)
  qed
  then show "(u, u) \<in> (edges_in adj us)\<^sup>+" using u by blast
qed

lemma analysis_correct:
  assumes "\<And>us. finite us \<Longrightarrow> set (enum us) = us"
  shows "\<exists>t. analyze_topology enum fl = Some t
    \<and> distinct (map ln_id (tp_order t))
    \<and> set (map ln_id (tp_order t)) = {u \<in> node_ids fl.
        \<not> (\<exists>c. (c, c) \<in> (ordering_edges fl)\<^sup>+ \<and> (c, u) \<in> (ordering_edges fl)\<^sup>*)}
    \<and> (\<forall>i < length (tp_order t). \<forall>u. (u, ln_id (tp_order t ! i)) \<in> ordering_edges fl \<longrightarrow>
        u \<in> set (map ln_id (take i (tp_order t))))
    \<and> tp_cyclic t = {u. (u, u) \<in> (ordering_edges fl)\<^sup>+}
    \<and> tp_blocked t = {u. \<exists>c. (c, c) \<in> (ordering_edges fl)\<^sup>+ \<and> (c, u) \<in> (ordering_edges fl)\<^sup>*} - tp_cyclic t"
proof -
  let ?r = "ordering_edges fl" and ?ids = "node_ids fl"
  let ?nodes = "by_id (\<lambda>n. n) (fl_nodes fl)"
  obtain adj deg where g: "build_graph fl = (adj, deg)" by fastforce
  note inv = build_graph_inv(1) [OF g] and edges = build_graph_inv(2) [OF g]
  have r: "?r \<subseteq> ?ids \<times> ?ids" by (auto simp: ordering_edges_def)
  have fin: "finite ?ids" by (simp add: node_ids_def)
  have nb: "\<forall>u \<in> ?ids. set (neighbours adj u) \<subseteq> ?ids" using edges r by blast
  define queue where "queue = map fst (filter (\<lambda>(u, d). d = 0) deg)"
  define xs where "xs = kahn adj queue deg"
  have deg: "distinct (map fst deg)" "set (map fst deg) = ?ids" "\<And>w. degree deg w = int (total adj ?ids w)"
    using inv by (auto simp: graph_inv_def)
  have q: "w \<in> set queue \<longleftrightarrow> w \<in> ?ids \<and> degree deg w = 0" for w
  proof -
    have "w \<in> set queue \<longleftrightarrow> (w, 0) \<in> set deg" by (force simp: queue_def)
    also have "\<dots> \<longleftrightarrow> map_of deg w = Some 0" using deg(1) by simp
    also have "\<dots> \<longleftrightarrow> map_of deg w \<noteq> None \<and> degree deg w = 0" by (auto simp: degree_def)
    also have "map_of deg w \<noteq> None \<longleftrightarrow> w \<in> ?ids"
      unfolding map_of_keys deg(2) by simp
    finally show ?thesis .
  qed
  have "distinct queue"
    using deg(1) by (simp add: queue_def distinct_map_filter)
  then have "kahn_inv ?ids adj [] queue deg"
    by (intro kahn_invI) (use q deg(3) in auto)
  then obtain deg' where "kahn_inv ?ids adj xs [] deg'"
    using kahn_correct [OF fin nb, of "[]"] unfolding xs_def by fastforce
  note k = kahn_exact [OF fin edges r this]
  let ?behind = "{u \<in> ?ids. \<exists>c. (c, c) \<in> ?r\<^sup>+ \<and> (c, u) \<in> ?r\<^sup>*}"
  have un: "set (map fst ?nodes) - set xs = ?behind"
    unfolding by_id_keys node_ids_def [symmetric] using k by blast
  have enum: "set (enum ?behind) = ?behind" using assms fin by simp
  have cyc: "find_cyclic_node_ids adj (enum ?behind) = Some {u. (u, u) \<in> ?r\<^sup>+}"
    using find_cyclic_exact [of adj "enum ?behind"] cycles_inside [OF edges r refl] by (simp add: enum)
  have keys: "map_of ?nodes u \<noteq> None" if "u \<in> set xs" for u
    using that k by_id_keys [of "\<lambda>n. n" "fl_nodes fl"] by (auto simp: map_of_eq_None_iff node_ids_def)
  then have flt: "filter (\<lambda>u. map_of ?nodes u \<noteq> None) xs = xs" by (simp add: filter_id_conv)
  have names: "map ln_id (map (\<lambda>u. the (map_of ?nodes u)) xs) = xs"
  proof -
    have "ln_id (the (map_of ?nodes u)) = u" if "u \<in> set xs" for u
      using keys [OF that] by (auto dest: by_id_SomeD)
    then show ?thesis by (simp add: map_idI)
  qed
  define t where "t = \<lparr>tp_order = map (\<lambda>u. the (map_of ?nodes u)) xs,
    tp_cyclic = {u. (u, u) \<in> ?r\<^sup>+}, tp_blocked = ?behind - {u. (u, u) \<in> ?r\<^sup>+}\<rparr>"
  have a: "analyze_topology enum fl = Some t"
    by (simp only: analyze_topology_def g Let_def prod.case queue_def [symmetric] xs_def [symmetric] un cyc
        flt option.map t_def)
  have b: "?behind = {u. \<exists>c. (c, c) \<in> ?r\<^sup>+ \<and> (c, u) \<in> ?r\<^sup>*}"
  proof -
    have "u \<in> ?ids" if "(c, c) \<in> ?r\<^sup>+" "(c, u) \<in> ?r\<^sup>*" for c u
      using that r by (metis mem_Sigma_iff rtranclE subsetD tranclD)
    then show ?thesis by blast
  qed
  have o: "map ln_id (tp_order t) = xs" "length (tp_order t) = length xs"
    using names by (simp_all add: t_def)
  have nth: "ln_id (tp_order t ! i) = xs ! i" if "i < length xs" for i
    using o that by (metis nth_map)
  show ?thesis
    by (rule exI [of _ t]) (use a k b o nth in \<open>simp add: take_map [symmetric] t_def\<close>)
qed

text \<open>
  C5. The analysis of a graph always ends with a result and is exact: the order holds every node
  that no cycle leads to, once, each after all nodes whose edges order it; the nodes reported as
  cyclic are those on a cycle, and those reported as blocked are the others behind a cycle.
\<close>

theorem analyze_topology_exact:
  assumes "\<And>us. finite us \<Longrightarrow> set (enum us) = us"
  shows "\<exists>t. analyze_topology enum fl = Some t
    \<and> distinct (map ln_id (tp_order t))
    \<and> set (map ln_id (tp_order t)) = {u \<in> node_ids fl.
        \<not> (\<exists>c. (c, c) \<in> (ordering_edges fl)\<^sup>+ \<and> (c, u) \<in> (ordering_edges fl)\<^sup>*)}
    \<and> (\<forall>i < length (tp_order t). \<forall>u. (u, ln_id (tp_order t ! i)) \<in> ordering_edges fl \<longrightarrow>
        u \<in> set (map ln_id (take i (tp_order t))))
    \<and> tp_cyclic t = {u. (u, u) \<in> (ordering_edges fl)\<^sup>+}
    \<and> tp_blocked t = {u. \<exists>c. (c, c) \<in> (ordering_edges fl)\<^sup>+ \<and> (c, u) \<in> (ordering_edges fl)\<^sup>*} - tp_cyclic t"
  by (rule analysis_correct [OF assms])

section \<open>An example\<close>

text \<open>A loop of two nodes, one behind it, one before it.\<close>

definition x_node :: "string \<Rightarrow> logic_node" where
  "x_node u = \<lparr>ln_id = u, ln_type = ''and'', ln_position = (Fin 0, Fin 0), ln_data = []\<rparr>"

definition x_edge :: "string \<Rightarrow> string \<Rightarrow> logic_edge" where
  "x_edge u w = \<lparr>le_id = u @ w, le_source = u, le_target = w, le_source_handle = None, le_target_handle = None\<rparr>"

definition x_flow :: flow where
  "x_flow = \<lparr>fl_nodes = map x_node [''a'', ''b'', ''c'', ''d''],
     fl_edges = [x_edge ''a'' ''b'', x_edge ''b'' ''c'', x_edge ''c'' ''b'', x_edge ''c'' ''d'']\<rparr>"

definition x_enum :: "string set \<Rightarrow> string list" where
  "x_enum us = sorted_list_of_set us"

lemma x_edges:
  "ordering_edges x_flow = {(''a'', ''b''), (''b'', ''c''), (''c'', ''b''), (''c'', ''d'')}"
proof -
  have "\<not> edge_is_tick_boundary x_flow u" for u
  proof (cases "map_of (by_id ln_type (fl_nodes x_flow)) u")
    case (Some ty)
    then have "ty = ''and''" by (auto dest!: by_id_SomeD simp: x_flow_def x_node_def)
    with Some show ?thesis
      by (simp add: edge_is_tick_boundary_def tick_boundary_node_types_def timer_node_types_def)
  qed (simp add: edge_is_tick_boundary_def)
  then have "ordering_edges x_flow = {(le_source e, le_target e) | e. e \<in> set (fl_edges x_flow)
      \<and> le_source e \<in> node_ids x_flow \<and> le_target e \<in> node_ids x_flow}"
    by (simp add: ordering_edges_def)
  also have "\<dots> = (\<lambda>e. (le_source e, le_target e)) ` set (filter (\<lambda>e. le_source e \<in> node_ids x_flow
      \<and> le_target e \<in> node_ids x_flow) (fl_edges x_flow))"
    by auto
  also have "\<dots> = {(''a'', ''b''), (''b'', ''c''), (''c'', ''b''), (''c'', ''d'')}"
    by (simp add: node_ids_def x_flow_def x_node_def x_edge_def)
  finally show ?thesis .
qed

theorem analyze_topology_exact_witness:
  "\<exists>t. analyze_topology x_enum x_flow = Some t \<and> map ln_id (tp_order t) = [''a'']
    \<and> {''b'', ''c''} \<subseteq> tp_cyclic t \<and> ''d'' \<in> tp_blocked t"
proof -
  let ?r = "ordering_edges x_flow"
  have enum: "finite us \<Longrightarrow> set (x_enum us) = us" for us by (simp add: x_enum_def)
  obtain t where t: "analyze_topology x_enum x_flow = Some t" "distinct (map ln_id (tp_order t))"
      "set (map ln_id (tp_order t)) = {u \<in> node_ids x_flow. \<not> (\<exists>c. (c, c) \<in> ?r\<^sup>+ \<and> (c, u) \<in> ?r\<^sup>*)}"
      "tp_cyclic t = {u. (u, u) \<in> ?r\<^sup>+}"
      "tp_blocked t = {u. \<exists>c. (c, c) \<in> ?r\<^sup>+ \<and> (c, u) \<in> ?r\<^sup>*} - tp_cyclic t"
    using analyze_topology_exact [of x_enum x_flow, OF enum] by blast
  have e: "(''b'', ''c'') \<in> ?r" "(''c'', ''b'') \<in> ?r" "(''c'', ''d'') \<in> ?r"
    by (simp_all add: x_edges)
  then have cyc: "(''b'', ''b'') \<in> ?r\<^sup>+" "(''c'', ''c'') \<in> ?r\<^sup>+" by (meson trancl.simps)+
  have into_a: "c = ''a''" if "(c, ''a'') \<in> ?r\<^sup>*" for c
    using that by (cases rule: rtranclE) (auto simp: x_edges)
  have no_a: "(''a'', ''a'') \<notin> ?r\<^sup>+"
  proof
    assume "(''a'', ''a'') \<in> ?r\<^sup>+"
    then obtain y where "(y, ''a'') \<in> ?r" by (meson tranclD2)
    then show False by (simp add: x_edges)
  qed
  have no_d: "(''d'', ''d'') \<notin> ?r\<^sup>+"
  proof
    assume "(''d'', ''d'') \<in> ?r\<^sup>+"
    then obtain y where "(''d'', y) \<in> ?r" by (meson tranclD)
    then show False by (simp add: x_edges)
  qed
  have reach: "(''c'', ''b'') \<in> ?r\<^sup>*" "(''c'', ''d'') \<in> ?r\<^sup>*" using e by blast+
  have ids: "node_ids x_flow = {''a'', ''b'', ''c'', ''d''}" by (auto simp: node_ids_def x_flow_def x_node_def)
  have only: "set (map ln_id (tp_order t)) = {''a''}"
    unfolding t(3) ids using into_a no_a cyc(2) reach by blast
  have "map ln_id (tp_order t) = [''a'']"
  proof (cases "map ln_id (tp_order t)")
    case (Cons y ys)
    then show ?thesis using t(2) only by (cases ys) auto
  qed (use only in simp)
  moreover have "''d'' \<in> tp_blocked t" unfolding t(4,5) using cyc(2) reach(2) no_d by blast
  moreover have "{''b'', ''c''} \<subseteq> tp_cyclic t" using cyc by (simp add: t(4))
  ultimately show ?thesis using t(1) by (intro exI [of _ t] conjI)
qed

section \<open>Warnings\<close>

lemma node_warning_cases:
  "node_warning t names n = [] \<longleftrightarrow> ln_id n \<notin> skipped_node_ids t"
  "length (node_warning t names n) \<le> 1"
  "\<And>u c m. (u, c, m) \<in> set (node_warning t names n) \<Longrightarrow> u = ln_id n
     \<and> (if u \<in> tp_cyclic t then c = ''graph_cycle'' else c = ''graph_cycle_blocked'' \<and> u \<in> tp_blocked t)"
  by (auto simp: node_warning_def skipped_node_ids_def Let_def split: if_splits)

text \<open>
  The warnings name exactly the nodes that will not be executed, in the order of the graph, and
  tell those on a cycle from those behind one; a graph without warnings is executed in full.
\<close>

theorem topology_warnings_exact:
  assumes "\<And>us. finite us \<Longrightarrow> set (enum us) = us"
  shows "\<exists>t ws. analyze_topology enum fl = Some t \<and> topology_warnings enum fl = Some ws
    \<and> map fst ws = filter (\<lambda>u. u \<notin> set (map ln_id (tp_order t))) (map ln_id (fl_nodes fl))
    \<and> (\<forall>(u, c, m) \<in> set ws. c = (if (u, u) \<in> (ordering_edges fl)\<^sup>+ then ''graph_cycle'' else ''graph_cycle_blocked''))
    \<and> (ws = [] \<longleftrightarrow> acyclic (ordering_edges fl))"
proof -
  let ?r = "ordering_edges fl"
  obtain t where t: "analyze_topology enum fl = Some t"
      "set (map ln_id (tp_order t)) = {u \<in> node_ids fl. \<not> (\<exists>c. (c, c) \<in> ?r\<^sup>+ \<and> (c, u) \<in> ?r\<^sup>*)}"
      "tp_cyclic t = {u. (u, u) \<in> ?r\<^sup>+}"
      "tp_blocked t = {u. \<exists>c. (c, c) \<in> ?r\<^sup>+ \<and> (c, u) \<in> ?r\<^sup>*} - tp_cyclic t"
    using analyze_topology_exact [of enum fl, OF assms] by blast
  have skip: "skipped_node_ids t = {u. \<exists>c. (c, c) \<in> ?r\<^sup>+ \<and> (c, u) \<in> ?r\<^sup>*}"
    unfolding skipped_node_ids_def t(3,4) by blast
  have left: "u \<in> skipped_node_ids t \<longleftrightarrow> u \<notin> set (map ln_id (tp_order t))" if "u \<in> node_ids fl" for u
    unfolding skip t(2) using that by blast
  define names where "names = map ln_id (filter (\<lambda>n. ln_id n \<in> tp_cyclic t) (fl_nodes fl))"
  define ws where "ws = concat (map (node_warning t names) (fl_nodes fl))"
  have w: "topology_warnings enum fl = Some ws"
    by (simp add: topology_warnings_def t(1) Let_def ws_def names_def)
  have "map fst (concat (map (node_warning t names) ns)) = filter (\<lambda>u. u \<in> skipped_node_ids t) (map ln_id ns)" for ns
    by (induction ns) (auto simp: node_warning_def skipped_node_ids_def Let_def)
  then have fst: "map fst ws = filter (\<lambda>u. u \<notin> set (map ln_id (tp_order t))) (map ln_id (fl_nodes fl))"
    using left unfolding ws_def by (auto simp: node_ids_def intro!: filter_cong)
  have codes: "\<forall>(u, c, m) \<in> set ws. c = (if (u, u) \<in> ?r\<^sup>+ then ''graph_cycle'' else ''graph_cycle_blocked'')"
    using node_warning_cases(3) unfolding ws_def t(3) by (fastforce simp: t(3))
  have "ws = [] \<longleftrightarrow> (\<forall>u \<in> node_ids fl. u \<notin> skipped_node_ids t)"
    using node_warning_cases(1) [of t names] unfolding ws_def by (auto simp: node_ids_def)
  also have "\<dots> \<longleftrightarrow> acyclic ?r"
  proof
    assume none: "\<forall>u \<in> node_ids fl. u \<notin> skipped_node_ids t"
    show "acyclic ?r"
      unfolding acyclic_def
    proof (intro allI notI)
      fix u
      assume u: "(u, u) \<in> ?r\<^sup>+"
      then obtain y where "(u, y) \<in> ?r" by (meson tranclD)
      then have "u \<in> node_ids fl" by (auto simp: ordering_edges_def)
      with none u show False unfolding skip by blast
    qed
  qed (auto simp: skip acyclic_def)
  finally show ?thesis using t(1) w fst codes by blast
qed

theorem topology_warnings_exact_witness:
  "\<exists>ws. topology_warnings x_enum x_flow = Some ws \<and> ws \<noteq> []"
proof -
  have enum: "finite us \<Longrightarrow> set (x_enum us) = us" for us by (simp add: x_enum_def)
  have "(''b'', ''b'') \<in> (ordering_edges x_flow)\<^sup>+"
    unfolding x_edges by (meson trancl.simps insertCI)
  then have "\<not> acyclic (ordering_edges x_flow)" by (auto simp: acyclic_def)
  with topology_warnings_exact [of x_enum x_flow, OF enum] show ?thesis by blast
qed

section \<open>Checks before storing\<close>



text \<open>
  The durations of a stored graph are finite numbers within the limits of their block; a missing
  or empty one is left to the default.
\<close>

theorem validate_durations_sound:
  assumes "validate_timer_durations fl = Inr ()" and "n \<in> set (fl_nodes fl)"
    and "duration_field (ln_type n) = Some (field, minimum)" and "map_of (ln_data n) field = Some v"
  shows "v = PNone \<or> v = PStr [] \<or> (\<exists>x. py_float v = Inr (Fin x) \<and> of_int minimum \<le> x)"
proof -
  have "duration_ok n"
    using assms(1,2) by (simp add: validate_timer_durations_def list_all_iff split: if_splits)
  moreover have "data_get (ln_data n) field = v" using assms(4) by (simp add: data_get_def)
  ultimately show ?thesis
    using assms(3)
    by (cases v; cases "py_float v") (auto simp: duration_ok_def split: pyfloat.splits pyerr.splits)
qed

theorem validate_durations_sound_witness:
  "let n = (x_node ''t'')\<lparr>ln_type := ''timer_delay'', ln_data := [(''delay_s'', PInt 3)]\<rparr>;
       fl = \<lparr>fl_nodes = [n], fl_edges = []\<rparr>
   in validate_timer_durations fl = Inr () \<and> (\<exists>x. py_float (PInt 3) = Inr (Fin x) \<and> 0 \<le> x)"
proof -
  let ?n = "(x_node ''t'')\<lparr>ln_type := ''timer_delay'', ln_data := [(''delay_s'', PInt 3)]\<rparr>"
  let ?fl = "\<lparr>fl_nodes = [?n], fl_edges = []\<rparr>"
  have f: "py_float (PInt 3) = Inr (Fin 3)" by code_simp
  have ok: "validate_timer_durations ?fl = Inr ()"
    by (simp add: validate_timer_durations_def duration_ok_def duration_field_def data_get_def f [simplified])
  have "\<exists>x. py_float (PInt 3) = Inr (Fin x) \<and> of_int 0 \<le> x"
    using validate_durations_sound [OF ok, of ?n "''delay_s''" 0 "PInt 3"]
    by (simp add: duration_field_def)
  with ok show ?thesis by (simp add: Let_def)
qed

end
