(* ===== verification/Hems_Config.thy ===== *)
theory Hems_Config
  imports Logic_Graph "HOL-Library.Char_ord" "HOL-Library.List_Lexorder"
begin

text \<open>
  The settings of the surplus control block (\<open>obs/logic/hems_surplus.py\<close>): numbers and ids as the
  block reads them, the list of consumers, the measurement modes and the output ports.
\<close>

section \<open>Python arithmetic on floats\<close>

text \<open>\<open>max(a, b)\<close> and \<open>min(a, b)\<close>: the first unless the second is strictly beyond it.\<close>

definition py_max :: "pyfloat \<Rightarrow> pyfloat \<Rightarrow> pyfloat" where
  "py_max a b = (if flt a b then b else a)"

definition py_min :: "pyfloat \<Rightarrow> pyfloat \<Rightarrow> pyfloat" where
  "py_min a b = (if flt b a then b else a)"

text \<open>A quotient whose divisor is never zero where it is used.\<close>

definition quot :: "pyfloat \<Rightarrow> pyfloat \<Rightarrow> pyfloat" where
  "quot a b = (case fdiv a b of Inr x \<Rightarrow> x | Inl _ \<Rightarrow> NaN)"

definition finite_float :: "pyfloat \<Rightarrow> bool" where
  "finite_float x = (case x of Fin _ \<Rightarrow> True | _ \<Rightarrow> False)"

text \<open>\<open>sum\<close> of floats: CPython carries the rounding errors along and adds them at the end.\<close>

fun sum_floats :: "pyfloat \<Rightarrow> pyfloat \<Rightarrow> pyfloat list \<Rightarrow> pyfloat" where
  "sum_floats f c [] = (if c \<noteq> Fin 0 \<and> finite_float c then fadd f c else f)"
| "sum_floats f c (x # xs) =
     (let t = fadd f x;
          e = (if fle (fabs x) (fabs f) then fadd (fsub f t) x else fadd (fsub x t) f)
      in sum_floats t (fadd c e) xs)"

definition py_sum :: "pyfloat list \<Rightarrow> pyfloat" where
  "py_sum xs = sum_floats (Fin 0) (Fin 0) xs"

section \<open>Constants\<close>

definition modes :: "string list" where
  "modes = [''bidirectional'', ''split'', ''feed_in_only'']"

definition consumer_modes :: "string list" where
  "consumer_modes = [''percent'', ''onoff'', ''trigger'']"

definition enable_faults :: "string list" where
  "enable_faults = [''lock'', ''default'']"

definition min_interval_s :: pyfloat where "min_interval_s = Fin 5"
definition max_interval_s :: pyfloat where "max_interval_s = Fin 3600"
definition default_interval_s :: pyfloat where "default_interval_s = Fin 30"
definition default_target_w :: pyfloat where "default_target_w = Fin 0"
definition default_on_delay_s :: pyfloat where "default_on_delay_s = Fin 60"
definition default_off_delay_s :: pyfloat where "default_off_delay_s = Fin 180"
definition cycle_slack_s :: pyfloat where "cycle_slack_s = Fin (1 / 2)"
definition eps :: pyfloat where "eps = float_lit 1 (- 9)"
definition trigger_reserve_cycles :: nat where "trigger_reserve_cycles = 1"
definition max_plausible_w :: pyfloat where "max_plausible_w = Fin 1000000000"
definition min_shed_pct :: pyfloat where "min_shed_pct = Fin 10"
definition stale_wake_margin_s :: pyfloat where "stale_wake_margin_s = float_lit 5 (- 2)"

definition control_keys :: "string list" where
  "control_keys = [''grid_mode'', ''interval_s'', ''target_w'', ''on_delay_s'', ''off_delay_s'',
     ''max_age_s'', ''invalid_behavior'', ''only_on_change'', ''consumers'']"

definition reserved_id_endings :: "string list" where
  "reserved_id_endings = [''_status'', ''_power'', ''_max'', ''_reset'']"

section \<open>Reading settings\<close>

text \<open>An enum setting as text, \<^const>\<open>None\<close> for anything that equals no text.\<close>

fun enum_text :: "pyval \<Rightarrow> string option" where
  "enum_text (PStr s) = Some (py_lower (py_strip s))"
| "enum_text _ = None"

definition one_of :: "string list \<Rightarrow> string \<Rightarrow> pyval \<Rightarrow> string" where
  "one_of allowed fallback v =
     (case enum_text v of Some s \<Rightarrow> if s \<in> set allowed then s else fallback | None \<Rightarrow> fallback)"

fun num :: "pyval \<Rightarrow> pyfloat option" where
  "num PNone = None"
| "num (PBool _) = None"
| "num v = (case py_float v of Inr (Fin x) \<Rightarrow> Some (Fin x) | _ \<Rightarrow> None)"

definition cfg_num :: "pyval \<Rightarrow> pyfloat \<Rightarrow> pyfloat option \<Rightarrow> pyfloat option \<Rightarrow> pyfloat" where
  "cfg_num v d minimum maximum =
     (let r = (case num v of None \<Rightarrow> d | Some x \<Rightarrow> x);
          lo = (case minimum of None \<Rightarrow> r | Some m \<Rightarrow> py_max m r)
      in case maximum of None \<Rightarrow> lo | Some m \<Rightarrow> py_min m lo)"

definition opt_num :: "pyval \<Rightarrow> pyfloat option \<Rightarrow> pyfloat option" where
  "opt_num v minimum =
     (if v = PNone \<or> v = PStr [] then None
      else (case num v of
              None \<Rightarrow> None
            | Some x \<Rightarrow> Some (case minimum of None \<Rightarrow> x | Some m \<Rightarrow> py_max m x)))"

text \<open>\<open>String(number)\<close> of JavaScript for a positive number.\<close>

definition js_positive :: "rat \<Rightarrow> string" where
  "js_positive q =
     (let (m, e) = shortest_from 17 1 q;
          full = show_nat (nat m); ds = strip_zeros full;
          x = e + int (length full) - 1
      in if x < - 6 \<or> 21 \<le> x then
           hd ds # (if tl ds = [] then [] else CHR ''.'' # tl ds) @ ''e''
             @ (if x < 0 then ''-'' else ''+'') @ show_nat (nat \<bar>x\<bar>)
         else if x < 0 then ''0.'' @ replicate (nat (- x - 1)) (CHR ''0'') @ ds
         else if length ds \<le> nat x + 1 then ds @ replicate (nat x + 1 - length ds) (CHR ''0'')
         else take (nat x + 1) ds @ ''.'' @ drop (nat x + 1) ds)"

definition js_number :: "rat \<Rightarrow> string" where
  "js_number q = (if q < 0 then ''-'' @ js_positive (- q) else js_positive q)"

definition js_float :: "(pyerr, pyfloat) result \<Rightarrow> string" where
  "js_float r = (case r of Inr (Fin q) \<Rightarrow> if q = 0 then [] else js_number q | _ \<Rightarrow> [])"

fun raw_id :: "pyval \<Rightarrow> string" where
  "raw_id (PBool b) = (if b then ''true'' else [])"
| "raw_id (PInt i) =
     (if \<bar>i\<bar> < 2 ^ 53 then (if i = 0 then [] else show_int i) else js_float (int_to_float i))"
| "raw_id (PFloat x) = js_float (Inr x)"
| "raw_id (PStr s) = s"
| "raw_id _ = []"

definition id_safe :: "string \<Rightarrow> string" where
  "id_safe s = filter (\<lambda>c. is_dec c \<or> (65 \<le> code c \<and> code c \<le> 90) \<or> (97 \<le> code c \<and> code c \<le> 122)
     \<or> c = CHR ''_'') s"

definition ends_with :: "string \<Rightarrow> string \<Rightarrow> bool" where
  "ends_with suffix s \<longleftrightarrow> length suffix \<le> length s \<and> drop (length s - length suffix) s = suffix"

text \<open>\<open>while cid in seen: cid = f"{cid}_"\<close>\<close>

function unique_id :: "string list \<Rightarrow> string \<Rightarrow> string" where
  "unique_id seen cid = (if cid \<in> set seen then unique_id seen (cid @ ''_'') else cid)"
  by pat_completeness auto
termination
proof (relation "measure (\<lambda>(seen, cid). card {s \<in> set seen. length cid \<le> length s})")
  fix seen :: "string list" and cid :: string
  assume "cid \<in> set seen"
  then have "cid \<in> {s \<in> set seen. length cid \<le> length s}"
      "cid \<notin> {s \<in> set seen. length (cid @ ''_'') \<le> length s}"
    by simp_all
  moreover have "{s \<in> set seen. length (cid @ ''_'') \<le> length s} \<subseteq> {s \<in> set seen. length cid \<le> length s}"
    by auto
  ultimately have "{s \<in> set seen. length (cid @ ''_'') \<le> length s} \<subset> {s \<in> set seen. length cid \<le> length s}"
    by blast
  then have "card {s \<in> set seen. length (cid @ ''_'') \<le> length s}
      < card {s \<in> set seen. length cid \<le> length s}"
    by (intro psubset_card_mono) simp_all
  then show "((seen, cid @ ''_''), seen, cid) \<in> measure (\<lambda>(seen, cid). card {s \<in> set seen. length cid \<le> length s})"
    by simp
qed simp

declare unique_id.simps [simp del]

section \<open>Consumers\<close>

record consumer =
  cn_id :: string
  cn_name :: string
  cn_active :: bool
  cn_mode :: string
  cn_power_source :: string
  cn_power_w :: pyfloat
  cn_min_runtime_s :: pyfloat
  cn_min_off_s :: pyfloat
  cn_on_delay_s :: "pyfloat option"
  cn_off_delay_s :: "pyfloat option"
  cn_min_power_w :: pyfloat
  cn_min_setpoint :: pyfloat
  cn_max_setpoint :: pyfloat
  cn_step :: pyfloat
  cn_below_min :: string
  cn_on_threshold_w :: "pyfloat option"
  cn_off_threshold_w :: "pyfloat option"
  cn_min_surplus_w :: pyfloat
  cn_pulse_s :: pyfloat
  cn_lockout_s :: pyfloat
  cn_rearm :: string
  cn_reserve_w :: pyfloat
  cn_enable_default :: bool
  cn_enable_fault :: string

definition consumer_id :: "string list \<Rightarrow> nat \<Rightarrow> pyval \<Rightarrow> string" where
  "consumer_id seen index v =
     (let base = (case id_safe (raw_id v) of [] \<Rightarrow> ''n'' @ show_nat (index + 1) | s \<Rightarrow> s);
          cid = (if list_ex (\<lambda>e. ends_with e base) reserved_id_endings then base @ ''_'' else base)
      in unique_id seen cid)"

definition default_true :: "pyval \<Rightarrow> bool" where
  "default_true v \<longleftrightarrow> v = PNone \<or> logic_to_bool v"

definition load_consumer :: "string \<Rightarrow> nat \<Rightarrow> (string \<times> pyval) list \<Rightarrow> consumer" where
  "load_consumer cid index item =
     (let g = data_get item;
          zero = Some (Fin 0); hundred = Some (Fin 100);
          name = py_strip (if py_truthy (g ''name'') then py_str (g ''name'') else [])
      in \<lparr>cn_id = cid,
          cn_name = (if name = [] then ''#'' @ show_nat (index + 1) else name),
          cn_active = default_true (g ''active''),
          cn_mode = one_of consumer_modes ''percent'' (g ''mode''),
          cn_power_source = (if enum_text (g ''power_source'') = Some ''input'' then ''input'' else ''fixed''),
          cn_power_w = cfg_num (g ''power_w'') (Fin 1000) zero None,
          cn_min_runtime_s = cfg_num (g ''min_runtime_s'') (Fin 0) zero None,
          cn_min_off_s = cfg_num (g ''min_off_s'') (Fin 0) zero None,
          cn_on_delay_s = opt_num (g ''on_delay_s'') zero,
          cn_off_delay_s = opt_num (g ''off_delay_s'') zero,
          cn_min_power_w = cfg_num (g ''min_power_w'') (Fin 0) zero None,
          cn_min_setpoint = cfg_num (g ''min_setpoint'') (Fin 0) zero hundred,
          cn_max_setpoint = cfg_num (g ''max_setpoint'') (Fin 100) zero hundred,
          cn_step = cfg_num (g ''step'') (Fin 1) (Some (float_lit 1 (- 1))) hundred,
          cn_below_min = (if enum_text (g ''below_min'') = Some ''hold_min'' then ''hold_min'' else ''off''),
          cn_on_threshold_w = opt_num (g ''on_threshold_w'') zero,
          cn_off_threshold_w = opt_num (g ''off_threshold_w'') zero,
          cn_min_surplus_w = cfg_num (g ''min_surplus_w'') (Fin 1000) zero None,
          cn_pulse_s = cfg_num (g ''pulse_s'') (Fin 1) (Some (float_lit 1 (- 1))) (Some (Fin 3600)),
          cn_lockout_s = cfg_num (g ''lockout_s'') (Fin 3600) zero None,
          cn_rearm = one_of [''after_lockout'', ''after_drop'', ''reset_input''] ''after_drop'' (g ''rearm''),
          cn_reserve_w = cfg_num (g ''reserve_w'') (Fin 0) zero None,
          cn_enable_default = default_true (g ''enable_default''),
          cn_enable_fault = one_of enable_faults ''lock'' (g ''enable_fault'')\<rparr>)"

fun load_items :: "string list \<Rightarrow> nat \<Rightarrow> pyval list \<Rightarrow> consumer list" where
  "load_items seen index [] = []"
| "load_items seen index (PDict item # items) =
     (let cid = consumer_id seen index (data_get item ''id'')
      in load_consumer cid index item # load_items (cid # seen) (index + 1) items)"
| "load_items seen index (v # items) = load_items seen (index + 1) items"

definition load_consumers :: "pyval \<Rightarrow> consumer list" where
  "load_consumers raw =
     (case (case raw of
              PStr s \<Rightarrow> (case json_loads (if s = [] then ''[]'' else s) of Inl _ \<Rightarrow> PList [] | Inr v \<Rightarrow> v)
            | _ \<Rightarrow> raw) of
        PList items \<Rightarrow> load_items [] 0 items
      | _ \<Rightarrow> [])"

section \<open>The block\<close>

type_synonym settings = "(string \<times> pyval) list"

definition only_on_change :: "settings \<Rightarrow> bool" where
  "only_on_change d = default_true (data_get d ''only_on_change'')"

definition grid_mode :: "settings \<Rightarrow> string" where
  "grid_mode d = one_of modes ''bidirectional'' (data_get d ''grid_mode'')"

definition interval_s :: "settings \<Rightarrow> pyfloat" where
  "interval_s d = cfg_num (data_get d ''interval_s'') default_interval_s (Some min_interval_s) (Some max_interval_s)"

definition grid_input_names :: "string \<Rightarrow> string list" where
  "grid_input_names mode =
     (if mode = ''split'' then [''grid_import'', ''grid_export'']
      else if mode = ''feed_in_only'' then [''feed_in''] else [''grid''])"

definition diagnostic_outputs :: "string list" where
  "diagnostic_outputs = [''grid_power'', ''surplus'', ''budget'', ''allocated'', ''remaining'', ''status'', ''warning'']"

definition port :: "string \<Rightarrow> string" where
  "port cid = ''c_'' @ cid"

definition status_port :: "string \<Rightarrow> string" where
  "status_port cid = port cid @ ''_status''"

definition level_output_handles :: "settings \<Rightarrow> string set" where
  "level_output_handles d =
     (let cs = load_consumers (data_get d ''consumers'')
      in set diagnostic_outputs \<union> status_port ` cn_id ` set cs
         \<union> (\<lambda>c. port (cn_id c)) ` {c \<in> set cs. cn_mode c \<noteq> ''trigger''})"

definition trigger_output_handles :: "settings \<Rightarrow> string set" where
  "trigger_output_handles d =
     (\<lambda>c. port (cn_id c)) ` {c \<in> set (load_consumers (data_get d ''consumers'')). cn_mode c = ''trigger''}"

definition hold_s :: "settings \<Rightarrow> pyfloat" where
  "hold_s d =
     (let a = cfg_num (data_get d ''max_age_s'') (Fin 0) (Some (Fin 0)) None
      in if flt (Fin 0) a then a else fmul (Fin 2) (interval_s d))"

end
