(* ===== verification/Hems_Surplus.thy ===== *)
theory Hems_Surplus
  imports Hems_Config
begin

text \<open>
  The control engine of the surplus block (\<open>obs/logic/hems_surplus.py\<close>): one call of \<open>evaluate\<close> is
  \<open>hems_evaluate\<close>, from the settings, the inputs, the state and the clock to the outputs to send and
  the new state.  Every value of the model is accepted (the readers of the settings turn what is no
  number into a default), so no exception leaves a tick and the restoring of the state on one has
  nothing to do; log messages are left out.
\<close>

section \<open>State\<close>

record consumer_state =
  cs_on :: bool
  cs_since :: "pyfloat option"
  cs_on_pending :: "pyfloat option"
  cs_off_pending :: "pyfloat option"
  cs_setpoint :: pyfloat
  cs_armed :: bool
  cs_dropped :: bool
  cs_trigger_pending :: "pyfloat option"
  cs_pulse_until :: "pyfloat option"
  cs_lockout_until :: "pyfloat option"
  cs_reserve_cycles :: nat
  cs_reset_prev :: bool
  cs_blocked :: bool
  cs_release_fault :: bool
  cs_mode :: string
  cs_pulse_ended :: "pyfloat option"
  cs_raised_at :: "pyfloat option"

type_synonym consumer_states = "(string \<times> consumer_state) list"
type_synonym outputs = "(string \<times> pyval) list"
type_synonym inputs = "(string \<times> pyval) list"

record hems_state =
  hs_consumers :: consumer_states
  hs_last_out :: outputs
  hs_held :: "(string \<times> pyval \<times> pyfloat) list"
  hs_last_seen :: "(string \<times> pyfloat) list"
  hs_age_logged :: bool
  hs_status :: "string option"
  hs_last_cycle :: "pyfloat option"
  hs_safe_cycle :: "pyfloat option"
  hs_zero_since :: "pyfloat option"
  hs_zero_shed_id :: "string option"
  hs_zero_shed_w :: pyfloat
  hs_config :: "string option"
  hs_next_wake :: "pyfloat option"

definition initial_hems :: hems_state where
  "initial_hems = \<lparr>hs_consumers = [], hs_last_out = [], hs_held = [], hs_last_seen = [],
     hs_age_logged = False, hs_status = None, hs_last_cycle = None, hs_safe_cycle = None,
     hs_zero_since = None, hs_zero_shed_id = None, hs_zero_shed_w = Fin 0, hs_config = None,
     hs_next_wake = None\<rparr>"

definition new_consumer_state :: consumer_state where
  "new_consumer_state = \<lparr>cs_on = False, cs_since = None, cs_on_pending = None, cs_off_pending = None,
     cs_setpoint = Fin 0, cs_armed = True, cs_dropped = False, cs_trigger_pending = None,
     cs_pulse_until = None, cs_lockout_until = None, cs_reserve_cycles = 0, cs_reset_prev = False,
     cs_blocked = False, cs_release_fault = False, cs_mode = [], cs_pulse_ended = None,
     cs_raised_at = None\<rparr>"

text \<open>The state of a listed consumer is always there; the default is never used.\<close>

definition state_of :: "consumer_states \<Rightarrow> consumer \<Rightarrow> consumer_state" where
  "state_of sts c = (case map_of sts (cn_id c) of None \<Rightarrow> new_consumer_state | Some s \<Rightarrow> s)"

definition put_state :: "consumer \<Rightarrow> consumer_state \<Rightarrow> consumer_states \<Rightarrow> consumer_states" where
  "put_state c s sts = assoc_set (cn_id c) s sts"

section \<open>Sending an output\<close>

fun same_type :: "pyval \<Rightarrow> pyval \<Rightarrow> bool" where
  "same_type PNone w = (w = PNone)"
| "same_type (PBool _) w = is_bool w"
| "same_type (PInt _) w = (is_int w \<and> \<not> is_bool w)"
| "same_type (PFloat _) w = is_float w"
| "same_type (PStr _) w = is_str w"
| "same_type (PBytes _) w = (case w of PBytes _ \<Rightarrow> True | _ \<Rightarrow> False)"
| "same_type (PDate _ _ _) w = (case w of PDate _ _ _ \<Rightarrow> True | _ \<Rightarrow> False)"
| "same_type (PTime _ _ _) w = (case w of PTime _ _ _ \<Rightarrow> True | _ \<Rightarrow> False)"
| "same_type (PDateTime _ _ _ _ _ _) w = (case w of PDateTime _ _ _ _ _ _ \<Rightarrow> True | _ \<Rightarrow> False)"
| "same_type (PList _) w = (case w of PList _ \<Rightarrow> True | _ \<Rightarrow> False)"
| "same_type (PDict _) w = (case w of PDict _ \<Rightarrow> True | _ \<Rightarrow> False)"

text \<open>\<open>emit(key, value, event=...)\<close> of a tick with the values sent last.\<close>

type_synonym emitter = "bool \<Rightarrow> string \<Rightarrow> pyval \<Rightarrow> outputs \<Rightarrow> outputs"

definition emit_out :: "bool \<Rightarrow> outputs \<Rightarrow> emitter" where
  "emit_out changes_only last_out event key v out =
     (let known = (case map_of out key of Some p \<Rightarrow> Some p | None \<Rightarrow> map_of last_out key)
      in if (changes_only \<or> event)
            \<and> (case known of None \<Rightarrow> False | Some p \<Rightarrow> py_eq p v \<and> same_type p v)
         then out else assoc_set key v out)"

section \<open>One consumer\<close>

definition set_on :: "pyfloat \<Rightarrow> pyfloat \<Rightarrow> consumer_state \<Rightarrow> consumer_state" where
  "set_on now setpoint s =
     s\<lparr>cs_on := True, cs_since := Some now, cs_on_pending := None, cs_off_pending := None,
       cs_setpoint := setpoint\<rparr>"

definition set_off :: "pyfloat \<Rightarrow> consumer_state \<Rightarrow> consumer_state" where
  "set_off now s =
     s\<lparr>cs_since := (if cs_on s then Some now else cs_since s), cs_on := False, cs_on_pending := None,
       cs_off_pending := None, cs_setpoint := Fin 0\<rparr>"

definition delay :: "pyfloat option \<Rightarrow> pyfloat \<Rightarrow> pyfloat" where
  "delay own global = (case own of None \<Rightarrow> global | Some d \<Rightarrow> d)"

text \<open>The time since a moment; a moment that is missing does not occur where it is asked.\<close>

definition elapsed :: "pyfloat \<Rightarrow> pyfloat option \<Rightarrow> pyfloat" where
  "elapsed now t = (case t of None \<Rightarrow> PosInf | Some x \<Rightarrow> fsub now x)"

definition floor_float :: "pyfloat \<Rightarrow> pyfloat" where
  "floor_float x = (case x of Fin q \<Rightarrow> Fin (of_int \<lfloor>q\<rfloor>) | _ \<Rightarrow> x)"

definition ceil_float :: "pyfloat \<Rightarrow> pyfloat" where
  "ceil_float x = (case x of Fin q \<Rightarrow> Fin (of_int \<lceil>q\<rceil>) | _ \<Rightarrow> x)"

definition quantize_down :: "pyfloat \<Rightarrow> pyfloat \<Rightarrow> pyfloat" where
  "quantize_down v step =
     (if \<not> finite_float (quot v step) then v else fmul (floor_float (fadd (quot v step) eps)) step)"

definition quantize_up :: "pyfloat \<Rightarrow> pyfloat \<Rightarrow> pyfloat" where
  "quantize_up v step =
     (if \<not> finite_float (quot v step) then v else fmul (ceil_float (fsub (quot v step) eps)) step)"

definition pct_out :: "pyfloat \<Rightarrow> pyval" where
  "pct_out v =
     (case round_digits v 2 of
        Fin q \<Rightarrow> if q = of_int \<lfloor>q\<rfloor> then PInt \<lfloor>q\<rfloor> else PFloat (Fin q)
      | x \<Rightarrow> PFloat x)"

definition input_num :: "inputs \<Rightarrow> string \<Rightarrow> pyfloat option" where
  "input_num ins key = num (data_get ins key)"

definition consumer_power :: "consumer \<Rightarrow> consumer_state \<Rightarrow> inputs \<Rightarrow> pyfloat \<Rightarrow> pyfloat" where
  "consumer_power c s ins rated =
     (if cn_mode c = ''trigger'' \<or> \<not> cn_active c \<or> \<not> cs_on s then Fin 0
      else (case input_num ins (port (cn_id c) @ ''_power'') of
              Some m \<Rightarrow> py_max (Fin 0) m
            | None \<Rightarrow>
                if cn_mode c = ''percent'' then quot (fmul rated (cs_setpoint s)) (Fin 100) else rated))"

definition rated_power :: "consumer \<Rightarrow> inputs \<Rightarrow> pyfloat option" where
  "rated_power c ins =
     (if cn_mode c = ''trigger'' then Some (Fin 0)
      else if cn_power_source c = ''input'' then
        (case input_num ins (port (cn_id c) @ ''_max_power'') of
           Some v \<Rightarrow> if flt (Fin 0) v then Some v else None
         | None \<Rightarrow> None)
      else Some (cn_power_w c))"

definition release_value :: "pyval \<Rightarrow> bool option" where
  "release_value v =
     (case v of
        PBool b \<Rightarrow> Some b
      | _ \<Rightarrow>
          (case enum_text v of
             Some word \<Rightarrow>
               if word \<in> {''true'', ''yes'', ''on''} then Some True
               else if word \<noteq> [] \<and> word \<in> false_words then Some False
               else map_option (\<lambda>x. x \<noteq> Fin 0) (num v)
           | None \<Rightarrow> map_option (\<lambda>x. x \<noteq> Fin 0) (num v)))"

section \<open>Inputs that stop arriving\<close>

definition held_value :: "string \<Rightarrow> pyval \<Rightarrow> pyfloat \<Rightarrow> pyfloat \<Rightarrow> hems_state \<Rightarrow> pyval \<times> hems_state" where
  "held_value name raw now hold s =
     (if raw \<noteq> PNone then (raw, s\<lparr>hs_held := assoc_set name (raw, now) (hs_held s)\<rparr>)
      else (case map_of (hs_held s) name of
              Some (v, t) \<Rightarrow> (if fle (fsub now t) hold then v else PNone, s)
            | None \<Rightarrow> (PNone, s)))"

fun hold_inputs :: "string list \<Rightarrow> pyfloat \<Rightarrow> pyfloat \<Rightarrow> inputs \<Rightarrow> hems_state \<Rightarrow> inputs \<times> hems_state" where
  "hold_inputs [] now hold ins s = (ins, s)"
| "hold_inputs (k # ks) now hold ins s =
     (case held_value k (data_get ins k) now hold s of
        (v, s1) \<Rightarrow> hold_inputs ks now hold (assoc_set k v ins) s1)"

definition enable_port :: "consumer \<Rightarrow> string" where
  "enable_port c = port (cn_id c) @ ''_enable''"

definition released :: "consumer \<Rightarrow> inputs \<Rightarrow> pyfloat \<Rightarrow> pyfloat \<Rightarrow> hems_state \<Rightarrow> (bool \<times> bool) \<times> hems_state" where
  "released c ins now hold s =
     (if map_of ins (enable_port c) = None
      then ((cn_enable_default c, False), s\<lparr>hs_held := assoc_del (enable_port c) (hs_held s)\<rparr>)
      else (case held_value (enable_port c) (data_get ins (enable_port c)) now hold s of
              (v, s1) \<Rightarrow>
                (case release_value v of
                   Some b \<Rightarrow> ((b, False), s1)
                 | None \<Rightarrow> ((cn_enable_fault c = ''default'' \<and> cn_enable_default c, True), s1))))"

section \<open>The meter\<close>

datatype meter = Problem string | Reading pyfloat "pyfloat option"

fun read_names :: "string list \<Rightarrow> inputs \<Rightarrow> pyfloat \<Rightarrow> pyfloat \<Rightarrow> hems_state \<Rightarrow> (string \<times> pyfloat option) list \<times> hems_state" where
  "read_names [] ins now hold s = ([], s)"
| "read_names (k # ks) ins now hold s =
     (case held_value k (data_get ins k) now hold s of
        (v, s1) \<Rightarrow> (case read_names ks ins now hold s1 of (rs, s2) \<Rightarrow> ((k, num v) # rs, s2)))"

definition note_telegrams :: "string list \<Rightarrow> inputs \<Rightarrow> pyfloat \<Rightarrow> hems_state \<Rightarrow> hems_state" where
  "note_telegrams judged ins now s =
     s\<lparr>hs_last_seen := fold (\<lambda>k m. if logic_to_bool (data_get ins (k @ ''_changed'')) then assoc_set k now m else m)
         judged (hs_last_seen s)\<rparr>"

definition silent_names :: "string list \<Rightarrow> pyfloat \<Rightarrow> pyfloat \<Rightarrow> hems_state \<Rightarrow> string list" where
  "silent_names judged now max_age s =
     filter (\<lambda>k. case map_of (hs_last_seen s) k of None \<Rightarrow> True | Some t \<Rightarrow> flt max_age (fsub now t)) judged"

definition implausible :: "pyfloat option \<Rightarrow> bool" where
  "implausible v = (case v of None \<Rightarrow> True | Some x \<Rightarrow> flt max_plausible_w (fabs x))"

definition value_in :: "(string \<times> pyfloat option) list \<Rightarrow> string \<Rightarrow> pyfloat" where
  "value_in rs k = (case map_of rs k of Some (Some x) \<Rightarrow> x | _ \<Rightarrow> Fin 0)"

definition judge_meter :: "string \<Rightarrow> string list \<Rightarrow> string list \<Rightarrow> (string \<times> pyfloat option) list \<Rightarrow> meter" where
  "judge_meter mode judged silent rs =
     (if list_ex (\<lambda>(k, v). implausible v) rs then Problem ''invalid_input''
      else if list_ex (\<lambda>k. value_in rs k \<noteq> Fin 0) silent
              \<or> (judged \<noteq> [] \<and> length silent = length judged
                 \<and> \<not> (mode = ''feed_in_only'' \<and> value_in rs ''feed_in'' = Fin 0))
      then Problem ''stale_input''
      else if mode = ''split'' then
        (if flt (value_in rs ''grid_import'') (Fin 0) \<or> flt (value_in rs ''grid_export'') (Fin 0)
         then Problem ''invalid_input''
         else Reading (fsub (value_in rs ''grid_import'') (value_in rs ''grid_export'')) None)
      else if mode = ''feed_in_only'' then
        (if flt (value_in rs ''feed_in'') (Fin 0) then Problem ''invalid_input''
         else Reading (fneg (value_in rs ''feed_in'')) (Some (value_in rs ''feed_in'')))
      else Reading (value_in rs ''grid'') None)"

definition read_meter ::
  "string \<Rightarrow> inputs \<Rightarrow> pyfloat \<Rightarrow> pyfloat \<Rightarrow> pyfloat \<Rightarrow> hems_state \<Rightarrow> meter \<times> hems_state" where
  "read_meter mode ins now max_age hold s =
     (let names = grid_input_names mode;
          judged = (if flt (Fin 0) max_age then filter (\<lambda>k. map_of ins (k @ ''_changed'') \<noteq> None) names else []);
          s1 = (if flt (Fin 0) max_age \<and> judged = [] \<and> \<not> hs_age_logged s then s\<lparr>hs_age_logged := True\<rparr>
                else if judged \<noteq> [] then s\<lparr>hs_age_logged := False\<rparr> else s);
          s2 = note_telegrams judged ins now s1
      in case read_names names ins now hold s2 of
           (rs, s3) \<Rightarrow> (judge_meter mode judged (silent_names judged now max_age s3) rs, s3))"

section \<open>Serving one consumer\<close>

text \<open>A consumer that is off: the minimum off time, then the on-delay.\<close>

definition step_off_consumer ::
  "consumer \<Rightarrow> consumer_state \<Rightarrow> bool \<Rightarrow> pyfloat \<Rightarrow> pyfloat \<Rightarrow> pyfloat \<Rightarrow> consumer_state \<times> string" where
  "step_off_consumer c s eligible setpoint now on_delay =
     (if cs_since s \<noteq> None \<and> flt (elapsed now (cs_since s)) (cn_min_off_s c)
      then (s\<lparr>cs_on_pending := None\<rparr>, ''locked'')
      else if \<not> eligible then (s\<lparr>cs_on_pending := None\<rparr>, ''off'')
      else
        (let s1 = (if cs_on_pending s = None then s\<lparr>cs_on_pending := Some now\<rparr> else s)
         in if fle (delay (cn_on_delay_s c) on_delay) (elapsed now (cs_on_pending s1))
            then (set_on now setpoint s1, ''active'') else (s1, ''on_delay'')))"

definition step_percent ::
  "consumer \<Rightarrow> consumer_state \<Rightarrow> pyfloat \<Rightarrow> pyfloat \<Rightarrow> pyfloat \<Rightarrow> pyfloat \<Rightarrow> pyfloat \<Rightarrow> bool
     \<Rightarrow> consumer_state \<times> pyfloat \<times> string" where
  "step_percent c s rating available now on_delay off_delay holding =
     (let step = cn_step c;
          positive = flt (Fin 0) rating;
          floor_pct = (if positive then fmul (quot (cn_min_power_w c) rating) (Fin 100) else Fin 100);
          min_pct = py_min (Fin 100) (quantize_up (py_max (py_max (cn_min_setpoint c) step) floor_pct) step);
          cap_pct = quantize_down (cn_max_setpoint c) step;
          wanted = (if positive
                    then py_min cap_pct (quantize_down (fmul (quot (py_max (Fin 0) available) rating) (Fin 100)) step)
                    else Fin 0);
          eligible = (positive \<and> fle min_pct (fadd cap_pct eps) \<and> fle (fsub min_pct eps) wanted);
          share = (\<lambda>pct. quot (fmul rating pct) (Fin 100))
      in if cs_on s then
           (if eligible then
              (s\<lparr>cs_off_pending := None, cs_setpoint := wanted\<rparr>, share wanted,
               if fle (fsub cap_pct eps) wanted then ''active'' else ''reduced'')
            else
              (let hold_pct = (if flt (Fin 0) cap_pct then py_min min_pct cap_pct else Fin 0)
               in if flt (elapsed now (cs_since s)) (cn_min_runtime_s c) then
                    (s\<lparr>cs_setpoint := hold_pct\<rparr>, share hold_pct, ''min_runtime'')
                  else
                    (let s1 = (if cs_off_pending s = None then s\<lparr>cs_off_pending := Some now\<rparr> else s)
                     in if cn_below_min c = ''hold_min'' \<and> \<not> holding
                           \<and> flt (elapsed now (cs_off_pending s1)) (delay (cn_off_delay_s c) off_delay)
                        then (s1\<lparr>cs_setpoint := hold_pct\<rparr>, share hold_pct, ''off_delay'')
                        else (set_off now s, Fin 0, ''off''))))
         else
           (case step_off_consumer c s eligible wanted now on_delay of
              (s1, label) \<Rightarrow>
                (s1, if cs_on s1 then share (cs_setpoint s1) else Fin 0,
                 if label = ''active'' \<and> flt wanted (fsub cap_pct eps) then ''reduced'' else label)))"

definition step_onoff ::
  "consumer \<Rightarrow> consumer_state \<Rightarrow> pyfloat \<Rightarrow> pyfloat \<Rightarrow> pyfloat \<Rightarrow> pyfloat \<Rightarrow> pyfloat \<Rightarrow> bool
     \<Rightarrow> consumer_state \<times> pyfloat \<times> string" where
  "step_onoff c s rating available now on_delay off_delay holding =
     (let on_threshold = delay (cn_on_threshold_w c) rating;
          off_threshold = (if holding then rating
                           else py_min (delay (cn_off_threshold_w c) rating) on_threshold)
      in if cs_on s then
           (if fle (fsub off_threshold eps) available then (s\<lparr>cs_off_pending := None\<rparr>, rating, ''active'')
            else if flt (elapsed now (cs_since s)) (cn_min_runtime_s c) then (s, rating, ''min_runtime'')
            else
              (let s1 = (if cs_off_pending s = None then s\<lparr>cs_off_pending := Some now\<rparr> else s)
               in if \<not> holding \<and> flt (elapsed now (cs_off_pending s1)) (delay (cn_off_delay_s c) off_delay)
                  then (s1, rating, ''off_delay'')
                  else (set_off now s1, Fin 0, ''off'')))
         else
           (case step_off_consumer c s (fle (fsub on_threshold eps) available) (Fin 100) now on_delay of
              (s1, label) \<Rightarrow> (s1, if cs_on s1 then rating else Fin 0, label)))"

text \<open>Whether a disarmed trigger is armed again.\<close>

definition rearm_trigger :: "consumer \<Rightarrow> bool \<Rightarrow> bool \<Rightarrow> consumer_state \<Rightarrow> consumer_state" where
  "rearm_trigger c enough locked s =
     (if cs_armed s then s
      else
        (let s1 = (if enough then s else s\<lparr>cs_dropped := True\<rparr>)
         in if \<not> locked \<and> (cn_rearm c = ''after_lockout'' \<or> (cn_rearm c = ''after_drop'' \<and> cs_dropped s1))
            then s1\<lparr>cs_armed := True, cs_lockout_until := None\<rparr> else s1))"

definition step_trigger ::
  "consumer \<Rightarrow> consumer_state \<Rightarrow> pyfloat \<Rightarrow> pyfloat \<Rightarrow> pyfloat \<Rightarrow> consumer_state \<times> pyfloat \<times> string" where
  "step_trigger c s0 available now on_delay =
     (let reserved = (if 0 < cs_reserve_cycles s0 then cn_reserve_w c else Fin 0);
          enough = fle (fsub (cn_min_surplus_w c) eps) available;
          locked = (case cs_lockout_until s0 of None \<Rightarrow> False | Some t \<Rightarrow> flt now t);
          s = rearm_trigger c enough locked (s0\<lparr>cs_reserve_cycles := cs_reserve_cycles s0 - 1\<rparr>)
      in if cs_pulse_until s \<noteq> None then (s, reserved, ''fired'')
         else if \<not> cs_armed s \<or> locked then (s\<lparr>cs_trigger_pending := None\<rparr>, reserved, ''locked'')
         else if \<not> enough then (s\<lparr>cs_trigger_pending := None\<rparr>, reserved, ''off'')
         else
           (let s1 = (if cs_trigger_pending s = None then s\<lparr>cs_trigger_pending := Some now\<rparr> else s)
            in if flt (elapsed now (cs_trigger_pending s1)) (delay (cn_on_delay_s c) on_delay)
                  \<or> cs_pulse_ended s1 = Some now
               then (s1, reserved, ''on_delay'')
               else
                 (s1\<lparr>cs_armed := False, cs_dropped := False, cs_trigger_pending := None,
                     cs_pulse_until := Some (fadd now (cn_pulse_s c)),
                     cs_lockout_until := Some (fadd now (cn_lockout_s c)),
                     cs_reserve_cycles := trigger_reserve_cycles\<rparr>,
                  cn_reserve_w c, ''fired'')))"

end
