(* ===== verification/Hems_Tick.thy ===== *)
theory Hems_Tick
  imports Hems_Surplus
begin

text \<open>
  A tick of the surplus block (\<open>obs/logic/hems_surplus.py\<close>): the distribution of the budget over the
  consumers, the safe state, the control cycle and \<open>evaluate\<close> around them.
\<close>

section \<open>Distribution\<close>

definition reset_consumer ::
  "emitter \<Rightarrow> consumer \<Rightarrow> pyfloat \<Rightarrow> string \<Rightarrow> consumer_state \<Rightarrow> outputs \<Rightarrow> consumer_state \<times> outputs" where
  "reset_consumer em c now label s out =
     ((set_off now s)\<lparr>cs_trigger_pending := None, cs_pulse_until := None, cs_reserve_cycles := 0\<rparr>,
      em False (status_port (cn_id c)) (PStr label)
        (if cn_mode c = ''trigger'' then em True (port (cn_id c)) (PBool False) out
         else em False (port (cn_id c)) (if cn_mode c = ''percent'' then PInt 0 else PBool False) out))"

definition safe_label :: "consumer \<Rightarrow> consumer_state \<Rightarrow> string" where
  "safe_label c s = (if cs_blocked s \<and> cn_active c then ''blocked'' else ''safe'')"

fun apply_safe_state ::
  "emitter \<Rightarrow> pyfloat \<Rightarrow> consumer list \<Rightarrow> consumer_states \<times> outputs \<Rightarrow> consumer_states \<times> outputs" where
  "apply_safe_state em now [] x = x"
| "apply_safe_state em now (c # cs) (sts, out) =
     (let s = state_of sts c
      in case reset_consumer em c now (safe_label c s) s out of
           (s1, out1) \<Rightarrow> apply_safe_state em now cs (put_state c s1 sts, out1))"

type_synonym ratings = "(string \<times> pyfloat option) list"

definition rating_of :: "ratings \<Rightarrow> consumer \<Rightarrow> pyfloat option" where
  "rating_of rated c = (case map_of rated (cn_id c) of None \<Rightarrow> None | Some p \<Rightarrow> p)"

definition rating_or_zero :: "ratings \<Rightarrow> consumer \<Rightarrow> pyfloat" where
  "rating_or_zero rated c = (case rating_of rated c of None \<Rightarrow> Fin 0 | Some p \<Rightarrow> p)"

text \<open>One reduction step of the lowest-priority running consumer; \<open>cs\<close> from the lowest priority up.\<close>

fun shed_step_from :: "consumer_states \<Rightarrow> ratings \<Rightarrow> consumer list \<Rightarrow> string option \<times> pyfloat" where
  "shed_step_from sts rated [] = (None, Fin 0)"
| "shed_step_from sts rated (c # cs) =
     (if \<not> cs_on (state_of sts c) \<or> \<not> cn_active c \<or> cn_mode c = ''trigger'' then shed_step_from sts rated cs
      else
        (let p = rating_or_zero rated c;
             step_w = (if cn_mode c = ''percent''
                       then quot (fmul p (py_max (cn_step c) min_shed_pct)) (Fin 100) else p)
         in if flt (Fin 0) step_w then (Some (cn_id c), step_w) else shed_step_from sts rated cs))"

definition shed_step :: "consumer list \<Rightarrow> consumer_states \<Rightarrow> ratings \<Rightarrow> string option \<times> pyfloat" where
  "shed_step cs sts rated = shed_step_from sts rated (rev cs)"

type_synonym caps = "(string \<times> pyfloat) list"

definition cap_of :: "caps \<Rightarrow> string \<Rightarrow> pyfloat" where
  "cap_of caps u = (case map_of caps u of None \<Rightarrow> Fin 0 | Some p \<Rightarrow> p)"

text \<open>What one consumer is offered.\<close>

definition offer_of :: "caps option \<Rightarrow> consumer \<Rightarrow> consumer_state \<Rightarrow> pyfloat \<Rightarrow> pyfloat" where
  "offer_of caps c s available =
     (case caps of
        None \<Rightarrow> available
      | Some m \<Rightarrow> if cs_on s then py_min available (cap_of m (cn_id c)) else NegInf)"

record delays =
  dl_on :: pyfloat
  dl_off :: pyfloat

definition serve ::
  "consumer \<Rightarrow> consumer_state \<Rightarrow> pyfloat \<Rightarrow> pyfloat \<Rightarrow> pyfloat \<Rightarrow> delays \<Rightarrow> bool \<Rightarrow> consumer_state \<times> pyfloat \<times> string" where
  "serve c s p offer now dl holding =
     (if cn_mode c = ''percent'' then step_percent c s p offer now (dl_on dl) (dl_off dl) holding
      else if cn_mode c = ''onoff'' then step_onoff c s p offer now (dl_on dl) (dl_off dl) holding
      else step_trigger c s offer now (dl_on dl))"

definition served_value :: "consumer \<Rightarrow> consumer_state \<Rightarrow> pyval" where
  "served_value c s =
     (if cn_mode c = ''percent'' then (if cs_on s then pct_out (cs_setpoint s) else PInt 0)
      else if cn_mode c = ''onoff'' then PBool (cs_on s)
      else PBool (cs_pulse_until s \<noteq> None))"

definition note_raise :: "pyfloat \<Rightarrow> consumer_state \<Rightarrow> consumer_state \<Rightarrow> consumer_state" where
  "note_raise now old s =
     (if cs_on s \<and> (\<not> cs_on old \<or> flt (cs_setpoint old) (cs_setpoint s))
      then s\<lparr>cs_raised_at := Some now\<rparr> else s)"

definition settled :: "consumer \<Rightarrow> pyfloat \<Rightarrow> delays \<Rightarrow> consumer_state \<Rightarrow> bool" where
  "settled c now dl s \<longleftrightarrow>
     cs_raised_at s = None \<or> fle (delay (cn_off_delay_s c) (dl_off dl)) (elapsed now (cs_raised_at s))"

record allotment =
  al_states :: consumer_states
  al_out :: outputs
  al_available :: pyfloat
  al_allocated :: pyfloat

definition allocate_one ::
  "emitter \<Rightarrow> ratings \<Rightarrow> pyfloat \<Rightarrow> delays \<Rightarrow> caps option \<Rightarrow> inputs \<Rightarrow> bool \<Rightarrow> consumer \<Rightarrow> allotment \<Rightarrow> allotment" where
  "allocate_one em rated now dl caps ins shedding c x =
     (let s = state_of (al_states x) c;
          leave = (\<lambda>(s1, out1). x\<lparr>al_states := put_state c s1 (al_states x), al_out := out1\<rparr>)
      in if \<not> cn_active c then leave (reset_consumer em c now ''inactive'' s (al_out x))
         else if cs_blocked s then leave (reset_consumer em c now ''blocked'' s (al_out x))
         else
           (case rating_of rated c of
              None \<Rightarrow>
                leave (set_off now s,
                  em False (status_port (cn_id c)) (PStr ''invalid_input'')
                    (em False (port (cn_id c)) (if cn_mode c = ''percent'' then PInt 0 else PBool False) (al_out x)))
            | Some p \<Rightarrow>
                (case serve c s p (offer_of caps c s (al_available x)) now dl shedding of
                   (s1, consumed, label) \<Rightarrow>
                     (let trigger = (cn_mode c \<noteq> ''percent'' \<and> cn_mode c \<noteq> ''onoff'');
                          out1 = em False (status_port (cn_id c)) (PStr label)
                                   (em trigger (port (cn_id c)) (served_value c s1) (al_out x));
                          s2 = note_raise now s s1;
                          consumed1 = (if trigger \<and> caps \<noteq> None then Fin 0 else consumed);
                          consumed2 =
                            (case input_num ins (port (cn_id c) @ ''_power'') of
                               Some drawn \<Rightarrow>
                                 if caps = None \<and> cn_mode c \<noteq> ''trigger'' \<and> cs_on s2 \<and> settled c now dl s2
                                 then py_min consumed1 (py_max (Fin 0) drawn) else consumed1
                             | None \<Rightarrow> consumed1)
                      in \<lparr>al_states = put_state c s2 (al_states x), al_out = out1,
                          al_available = fsub (al_available x) consumed2,
                          al_allocated = fadd (al_allocated x) consumed2\<rparr>))))"

definition allocate ::
  "emitter \<Rightarrow> consumer list \<Rightarrow> ratings \<Rightarrow> pyfloat \<Rightarrow> pyfloat \<Rightarrow> delays \<Rightarrow> caps option \<Rightarrow> inputs \<Rightarrow> bool
     \<Rightarrow> consumer_states \<Rightarrow> outputs \<Rightarrow> allotment" where
  "allocate em cs rated budget now dl caps ins shedding sts out =
     fold (allocate_one em rated now dl caps ins shedding) cs
       \<lparr>al_states = sts, al_out = out, al_available = budget, al_allocated = Fin 0\<rparr>"

section \<open>What is sampled on every tick\<close>

definition end_pulse :: "emitter \<Rightarrow> pyfloat \<Rightarrow> consumer \<Rightarrow> consumer_state \<times> outputs \<Rightarrow> consumer_state \<times> outputs" where
  "end_pulse em now c x =
     (case cs_pulse_until (fst x) of
        None \<Rightarrow> x
      | Some t \<Rightarrow>
          if fle t now then
            ((fst x)\<lparr>cs_pulse_until := None, cs_pulse_ended := Some now\<rparr>,
             em False (port (cn_id c)) (PBool False) (snd x))
          else x)"

definition read_reset :: "inputs \<Rightarrow> consumer \<Rightarrow> consumer_state \<Rightarrow> consumer_state" where
  "read_reset ins c s =
     (if cn_mode c \<noteq> ''trigger'' then s
      else
        (let now_reset = logic_to_bool (data_get ins (port (cn_id c) @ ''_reset''));
             s1 = (if now_reset \<and> \<not> cs_reset_prev s
                   then s\<lparr>cs_armed := True, cs_dropped := True, cs_lockout_until := None, cs_trigger_pending := None\<rparr>
                   else s)
         in s1\<lparr>cs_reset_prev := now_reset\<rparr>))"

fun sample_signals ::
  "emitter \<Rightarrow> inputs \<Rightarrow> pyfloat \<Rightarrow> consumer list \<Rightarrow> consumer_states \<times> outputs \<Rightarrow> consumer_states \<times> outputs" where
  "sample_signals em ins now [] x = x"
| "sample_signals em ins now (c # cs) (sts, out) =
     (case end_pulse em now c (state_of sts c, out) of
        (s1, out1) \<Rightarrow> sample_signals em ins now cs (put_state c (read_reset ins c s1) sts, out1))"

definition set_release :: "consumer \<Rightarrow> bool \<Rightarrow> bool \<Rightarrow> consumer_state \<Rightarrow> consumer_state" where
  "set_release c rel fault s =
     s\<lparr>cs_release_fault := (fault \<and> cn_active c), cs_blocked := \<not> rel\<rparr>"

fun update_releases ::
  "consumer list \<Rightarrow> inputs \<Rightarrow> pyfloat \<Rightarrow> pyfloat \<Rightarrow> hems_state \<Rightarrow> consumer list \<times> consumer list \<times> hems_state" where
  "update_releases [] ins now hold s = ([], [], s)"
| "update_releases (c # cs) ins now hold s =
     (case released c ins now hold s of
        ((rel, fault), s1) \<Rightarrow>
          (let st = state_of (hs_consumers s1) c;
               s2 = s1\<lparr>hs_consumers := put_state c (set_release c rel fault st) (hs_consumers s1)\<rparr>;
               changed = (cn_active c \<and> rel = cs_blocked st)
           in case update_releases cs ins now hold s2 of
                (bl, re, s3) \<Rightarrow>
                  (if changed \<and> \<not> rel then c # bl else bl, if changed \<and> rel then c # re else re, s3)))"

fun lock_consumers ::
  "emitter \<Rightarrow> pyfloat \<Rightarrow> consumer list \<Rightarrow> consumer_states \<times> outputs \<Rightarrow> consumer_states \<times> outputs" where
  "lock_consumers em now [] x = x"
| "lock_consumers em now (c # cs) (sts, out) =
     (case reset_consumer em c now ''blocked'' (state_of sts c) out of
        (s1, out1) \<Rightarrow> lock_consumers em now cs (put_state c s1 sts, out1))"

text \<open>An interlock input: unwired it permits, wired without a known value it does not.\<close>

definition interlock :: "string \<Rightarrow> inputs \<Rightarrow> pyfloat \<Rightarrow> pyfloat \<Rightarrow> hems_state \<Rightarrow> bool \<times> hems_state" where
  "interlock name ins now hold s =
     (case map_of ins name of
        None \<Rightarrow> (True, s)
      | Some raw \<Rightarrow> (case held_value name raw now hold s of (v, s1) \<Rightarrow> (logic_to_bool v, s1)))"

section \<open>The safe state\<close>

text \<open>Values kept while the measurement is missing: only outputs sent before, never a locked consumer.\<close>

fun hold_outputs ::
  "emitter \<Rightarrow> outputs \<Rightarrow> consumer list \<Rightarrow> consumer_states \<times> outputs \<Rightarrow> consumer_states \<times> outputs" where
  "hold_outputs em last_out [] x = x"
| "hold_outputs em last_out (c # cs) (sts, out) =
     (let s = (state_of sts c)\<lparr>cs_on_pending := None, cs_off_pending := None, cs_trigger_pending := None\<rparr>;
          out1 = (if cn_mode c = ''trigger'' then out
                  else em False (port (cn_id c)) (data_get last_out (port (cn_id c))) out)
      in hold_outputs em last_out cs
           (put_state c s sts, em False (status_port (cn_id c)) (PStr ''safe_hold'') out1))"

definition round2 :: "pyfloat \<Rightarrow> pyval" where
  "round2 x = PFloat (fadd (round_digits x 2) (Fin 0))"

fun emit_all :: "emitter \<Rightarrow> (string \<times> pyval) list \<Rightarrow> outputs \<Rightarrow> outputs" where
  "emit_all em [] out = out"
| "emit_all em ((k, v) # kvs) out = emit_all em kvs (em False k v out)"

definition safe_tick ::
  "settings \<Rightarrow> pyfloat \<Rightarrow> consumer list \<Rightarrow> string \<Rightarrow> meter \<Rightarrow> emitter \<Rightarrow> hems_state \<Rightarrow> outputs \<Rightarrow> hems_state \<times> outputs" where
  "safe_tick d now cs status m em0 s out =
     (let s1 = s\<lparr>hs_last_cycle := None, hs_zero_since := None, hs_zero_shed_w := Fin 0\<rparr>;
          repeat = (case hs_safe_cycle s1 of
                      None \<Rightarrow> True
                    | Some t \<Rightarrow> fle (fsub (interval_s d) cycle_slack_s) (fsub now t));
          s2 = (if repeat then s1\<lparr>hs_safe_cycle := Some now\<rparr> else s1);
          em = (if repeat then em0 else (\<lambda>_. em0 True));
          hold = (status \<in> {''invalid_input'', ''stale_input''}
                  \<and> enum_text (data_get d ''invalid_behavior'') = Some ''hold'');
          kept = (if hold then filter (\<lambda>c. cn_active c \<and> \<not> cs_blocked (state_of (hs_consumers s2) c)
                      \<and> map_of (hs_last_out s2) (port (cn_id c)) \<noteq> None) cs else []);
          x1 = hold_outputs em (hs_last_out s2) kept (hs_consumers s2, out);
          x2 = apply_safe_state em now (filter (\<lambda>c. c \<notin> set kept) cs) x1;
          grid = (case m of Reading g _ \<Rightarrow> round2 g | Problem _ \<Rightarrow> PNone);
          out3 = emit_all em
                   [(''grid_power'', grid), (''surplus'', PFloat (Fin 0)), (''budget'', PFloat (Fin 0)),
                    (''allocated'', PFloat (Fin 0)), (''remaining'', PFloat (Fin 0)),
                    (''status'', PStr status),
                    (''warning'', PBool (case m of Problem _ \<Rightarrow> True | _ \<Rightarrow> False))] (snd x2)
      in (s2\<lparr>hs_consumers := fst x2\<rparr>, out3))"

section \<open>The control cycle\<close>

text \<open>The text the settings are compared by: keys sorted, what JSON cannot hold as \<open>str\<close>.\<close>

fun canonical :: "pyval \<Rightarrow> pyval" where
  "canonical (PBytes b) = PStr (py_str (PBytes b))"
| "canonical (PDate y m d) = PStr (py_str (PDate y m d))"
| "canonical (PTime h m s) = PStr (py_str (PTime h m s))"
| "canonical (PDateTime y mo d h m s) = PStr (py_str (PDateTime y mo d h m s))"
| "canonical (PList xs) = PList (map canonical xs)"
| "canonical (PDict kvs) = PDict (sort_key fst (map (\<lambda>(k, v). (k, canonical v)) kvs))"
| "canonical v = v"

definition opt_float :: "pyfloat option \<Rightarrow> pyval" where
  "opt_float x = (case x of None \<Rightarrow> PNone | Some f \<Rightarrow> PFloat f)"

definition consumer_dict :: "consumer \<Rightarrow> pyval" where
  "consumer_dict c = PDict
     [(''id'', PStr (cn_id c)), (''active'', PBool (cn_active c)), (''mode'', PStr (cn_mode c)),
      (''power_source'', PStr (cn_power_source c)), (''power_w'', PFloat (cn_power_w c)),
      (''min_runtime_s'', PFloat (cn_min_runtime_s c)), (''min_off_s'', PFloat (cn_min_off_s c)),
      (''on_delay_s'', opt_float (cn_on_delay_s c)), (''off_delay_s'', opt_float (cn_off_delay_s c)),
      (''min_power_w'', PFloat (cn_min_power_w c)), (''min_setpoint'', PFloat (cn_min_setpoint c)),
      (''max_setpoint'', PFloat (cn_max_setpoint c)), (''step'', PFloat (cn_step c)),
      (''below_min'', PStr (cn_below_min c)), (''on_threshold_w'', opt_float (cn_on_threshold_w c)),
      (''off_threshold_w'', opt_float (cn_off_threshold_w c)),
      (''min_surplus_w'', PFloat (cn_min_surplus_w c)), (''pulse_s'', PFloat (cn_pulse_s c)),
      (''lockout_s'', PFloat (cn_lockout_s c)), (''rearm'', PStr (cn_rearm c)),
      (''reserve_w'', PFloat (cn_reserve_w c)), (''enable_default'', PBool (cn_enable_default c)),
      (''enable_fault'', PStr (cn_enable_fault c))]"

definition fingerprint :: "settings \<Rightarrow> consumer list \<Rightarrow> string" where
  "fingerprint d cs =
     (let control = map (\<lambda>k. (k, if k = ''consumers'' then PList (map consumer_dict cs) else data_get d k)) control_keys
      in case json_dumps (canonical (PDict control)) of Inr t \<Rightarrow> t | Inl _ \<Rightarrow> [])"

record zero_plan =
  zp_state :: hems_state
  zp_commanded :: pyfloat
  zp_caps :: caps

text \<open>Feed-in-only at 0 W: hold what is commanded and shed one step at a time.\<close>

definition plan_zero ::
  "consumer list \<Rightarrow> ratings \<Rightarrow> pyfloat \<Rightarrow> pyfloat \<Rightarrow> pyfloat \<Rightarrow> bool \<Rightarrow> hems_state \<Rightarrow> zero_plan" where
  "plan_zero cs rated target_w now off_delay locked_running s =
     (let sts = hs_consumers s;
          caps = map (\<lambda>c. (cn_id c, consumer_power c (state_of sts c) [] (rating_or_zero rated c))) cs;
          commanded = py_sum (map snd caps);
          target = (\<lambda>u. find (\<lambda>c. Some (cn_id c) = u) cs);
          void = (hs_zero_shed_w s \<noteq> Fin 0 \<and> hs_zero_shed_id s \<noteq> None
                  \<and> (case target (hs_zero_shed_id s) of
                       None \<Rightarrow> True | Some c \<Rightarrow> \<not> cn_active c \<or> \<not> cs_on (state_of sts c)));
          s1 = (if void then s\<lparr>hs_zero_shed_w := Fin 0\<rparr> else s);
          s2 =
            (case hs_zero_since s of
               None \<Rightarrow> s1\<lparr>hs_zero_since := Some now, hs_zero_shed_id := None,
                          hs_zero_shed_w := py_min (py_max (Fin 0) target_w) commanded\<rparr>
             | Some since \<Rightarrow>
                 if locked_running then
                   (if hs_zero_shed_id s1 \<noteq> None then s1\<lparr>hs_zero_shed_w := Fin 0\<rparr> else s1)
                 else if hs_zero_shed_w s1 = Fin 0 then
                   (case shed_step cs sts rated of
                      (u, w) \<Rightarrow>
                        (let w1 = (case u of None \<Rightarrow> Fin 0 | Some v \<Rightarrow> py_min w (cap_of caps v))
                         in case target u of
                              None \<Rightarrow> s1
                            | Some c \<Rightarrow>
                                if fle (delay (cn_off_delay_s c) off_delay) (fsub now since)
                                then s1\<lparr>hs_zero_shed_id := u, hs_zero_shed_w := w1\<rparr> else s1))
                 else s1)
      in \<lparr>zp_state = s2, zp_commanded = commanded, zp_caps = caps\<rparr>)"

definition cycle_delays :: "settings \<Rightarrow> delays" where
  "cycle_delays d =
     \<lparr>dl_on = cfg_num (data_get d ''on_delay_s'') default_on_delay_s (Some (Fin 0)) None,
      dl_off = cfg_num (data_get d ''off_delay_s'') default_off_delay_s (Some (Fin 0)) None\<rparr>"

definition cycle_target :: "settings \<Rightarrow> inputs \<Rightarrow> pyfloat" where
  "cycle_target d ins =
     (case input_num ins ''target'' of
        Some t \<Rightarrow> t | None \<Rightarrow> cfg_num (data_get d ''target_w'') default_target_w None None)"

definition report ::
  "emitter \<Rightarrow> pyfloat \<Rightarrow> pyfloat \<Rightarrow> pyfloat \<Rightarrow> pyfloat \<Rightarrow> pyfloat \<Rightarrow> outputs \<Rightarrow> outputs" where
  "report em grid target budget allocated remaining out =
     emit_all em
       [(''grid_power'', round2 grid),
        (''surplus'', round2 (py_max (Fin 0) (fsub (fneg grid) target))),
        (''budget'', round2 budget), (''allocated'', round2 allocated),
        (''remaining'', round2 (py_max (Fin 0) remaining)), (''status'', PStr ''ok''),
        (''warning'', PBool False)] out"

definition run_cycle ::
  "settings \<Rightarrow> inputs \<Rightarrow> pyfloat \<Rightarrow> consumer list \<Rightarrow> pyfloat \<Rightarrow> pyfloat option \<Rightarrow> bool \<Rightarrow> emitter \<Rightarrow> hems_state \<Rightarrow> outputs
     \<Rightarrow> hems_state \<times> outputs" where
  "run_cycle d ins now cs grid feed_in locked_running em s out =
     (let dl = cycle_delays d;
          target = cycle_target d ins;
          rated = map (\<lambda>c. (cn_id c, rated_power c ins)) cs
      in case feed_in of
           Some f \<Rightarrow>
             if fle f (Fin 0) then
               (let p = plan_zero cs rated target now (dl_off dl) locked_running s;
                    s1 = zp_state p;
                    budget = fsub (zp_commanded p) (hs_zero_shed_w s1);
                    shedding = (hs_zero_shed_w s1 \<noteq> Fin 0 \<and> hs_zero_shed_id s1 \<noteq> None);
                    x = allocate em cs rated budget now dl (Some (zp_caps p)) ins shedding (hs_consumers s1) out;
                    commanded = py_sum (map (\<lambda>c. consumer_power c (state_of (al_states x) c) [] (rating_or_zero rated c)) cs);
                    s2 = s1\<lparr>hs_consumers := al_states x\<rparr>;
                    s3 = (if hs_zero_shed_w s2 \<noteq> Fin 0
                             \<and> fle commanded (fadd (fsub (zp_commanded p) (hs_zero_shed_w s2)) eps)
                          then s2\<lparr>hs_zero_shed_w := Fin 0\<rparr> else s2)
                in (s3, report em grid target budget (al_allocated x) (Fin 0) (al_out x)))
             else
               (let s1 = s\<lparr>hs_zero_since := None, hs_zero_shed_w := Fin 0\<rparr>;
                    used = py_sum (map (\<lambda>c. consumer_power c (state_of (hs_consumers s1) c) ins (rating_or_zero rated c)) cs);
                    budget = fsub (fsub used grid) target;
                    x = allocate em cs rated budget now dl None ins False (hs_consumers s1) out
                in (s1\<lparr>hs_consumers := al_states x\<rparr>,
                    report em grid target budget (al_allocated x) (al_available x) (al_out x)))
         | None \<Rightarrow>
             (let s1 = s\<lparr>hs_zero_since := None, hs_zero_shed_w := Fin 0\<rparr>;
                  used = py_sum (map (\<lambda>c. consumer_power c (state_of (hs_consumers s1) c) ins (rating_or_zero rated c)) cs);
                  budget = fsub (fsub used grid) target;
                  x = allocate em cs rated budget now dl None ins False (hs_consumers s1) out
              in (s1\<lparr>hs_consumers := al_states x\<rparr>,
                  report em grid target budget (al_allocated x) (al_available x) (al_out x))))"

fun mark_off :: "emitter \<Rightarrow> consumer list \<Rightarrow> outputs \<Rightarrow> outputs" where
  "mark_off em [] out = out"
| "mark_off em (c # cs) out = mark_off em cs (em False (status_port (cn_id c)) (PStr ''off'') out)"

definition healthy_tick ::
  "settings \<Rightarrow> inputs \<Rightarrow> pyfloat \<Rightarrow> consumer list \<Rightarrow> pyfloat \<Rightarrow> pyfloat option \<Rightarrow> bool \<Rightarrow> consumer list \<Rightarrow> emitter
     \<Rightarrow> hems_state \<Rightarrow> outputs \<Rightarrow> hems_state \<times> outputs" where
  "healthy_tick d ins now cs grid feed_in locked_running newly_released em s out =
     (let s1 = s\<lparr>hs_safe_cycle := None\<rparr>;
          print = fingerprint d cs;
          s2 = (if hs_config s1 \<noteq> Some print then s1\<lparr>hs_config := Some print, hs_last_cycle := None\<rparr> else s1)
      in if (case hs_last_cycle s2 of
               None \<Rightarrow> False | Some t \<Rightarrow> flt (fsub now t) (fsub (interval_s d) cycle_slack_s))
         then (s2, mark_off em newly_released out)
         else run_cycle d ins now cs grid feed_in locked_running em (s2\<lparr>hs_last_cycle := Some now\<rparr>) out)"

definition held_keys :: "inputs \<Rightarrow> string list" where
  "held_keys ins = filter (\<lambda>k. k = ''target'' \<or> (take 2 k = ''c_'' \<and> ends_with ''_power'' k)) (map fst ins)"

definition max_age_s :: "settings \<Rightarrow> pyfloat" where
  "max_age_s d = cfg_num (data_get d ''max_age_s'') (Fin 0) (Some (Fin 0)) None"

definition status_of :: "meter \<Rightarrow> bool \<Rightarrow> bool \<Rightarrow> string" where
  "status_of m enabled plant_ok =
     (if \<not> enabled then ''disabled'' else if \<not> plant_ok then ''plant_not_ok''
      else case m of Problem p \<Rightarrow> p | Reading _ _ \<Rightarrow> ''ok'')"

definition tick :: "settings \<Rightarrow> inputs \<Rightarrow> pyfloat \<Rightarrow> consumer list \<Rightarrow> hems_state \<Rightarrow> hems_state \<times> outputs" where
  "tick d ins0 now cs s0 =
     (let em = emit_out (only_on_change d) (hs_last_out s0);
          hold = hold_s d
      in case sample_signals em ins0 now cs (hs_consumers s0, []) of (sts1, out1) \<Rightarrow>
         (case hold_inputs (held_keys ins0) now hold ins0 (s0\<lparr>hs_consumers := sts1\<rparr>) of (ins, s1) \<Rightarrow>
         (case read_meter (grid_mode d) ins now (max_age_s d) hold s1 of (m, s2) \<Rightarrow>
         (case update_releases cs ins now hold s2 of (newly_blocked, newly_released, s3) \<Rightarrow>
           (let locked_running = list_ex (\<lambda>c. cs_on (state_of (hs_consumers s3) c)) newly_blocked
            in case lock_consumers em now newly_blocked (hs_consumers s3, out1) of (sts4, out4) \<Rightarrow>
               (case interlock ''enable'' ins now hold (s3\<lparr>hs_consumers := sts4\<rparr>) of (enabled, s5) \<Rightarrow>
               (case interlock ''plant_ok'' ins now hold s5 of (plant_ok, s6) \<Rightarrow>
                 (let status = status_of m enabled plant_ok;
                      s7 = s6\<lparr>hs_status := Some status\<rparr>
                  in case m of
                       Reading grid feed_in \<Rightarrow>
                         if status = ''ok''
                         then healthy_tick d ins now cs grid feed_in locked_running newly_released em s7 out4
                         else safe_tick d now cs status m em s7 out4
                     | Problem _ \<Rightarrow> safe_tick d now cs status m em s7 out4))))))))"

section \<open>Evaluation\<close>

text \<open>
  Consumers no longer configured: an output last sent as on is answered with off once.  (The order
  of the removed ones, a Python set, only orders the outputs.)
\<close>

definition off_like :: "pyval \<Rightarrow> pyval" where
  "off_like v = (if is_bool v then PBool False else PInt 0)"

fun forget_removed :: "string list \<Rightarrow> hems_state \<Rightarrow> outputs \<Rightarrow> hems_state \<times> outputs" where
  "forget_removed [] s out = (s, out)"
| "forget_removed (u # us) s out =
     (let s1 = s\<lparr>hs_consumers := assoc_del u (hs_consumers s),
                 hs_held := assoc_del (port u @ ''_enable'') (assoc_del (port u @ ''_max_power'')
                   (assoc_del (port u @ ''_power'') (hs_held s))),
                 hs_last_out := assoc_del (status_port u) (hs_last_out s)\<rparr>
      in case map_of (hs_last_out s1) (port u) of
           None \<Rightarrow> forget_removed us s1 out
         | Some v \<Rightarrow>
             forget_removed us (s1\<lparr>hs_last_out := assoc_set (port u) (off_like v) (hs_last_out s1)\<rparr>)
               (if py_truthy v then assoc_set (port u) (off_like v) out else out))"

text \<open>The state a consumer starts the tick with: a changed control type starts from scratch.\<close>

definition prepare_consumer :: "pyfloat \<Rightarrow> consumer \<Rightarrow> hems_state \<Rightarrow> hems_state" where
  "prepare_consumer now c s =
     (case map_of (hs_consumers s) (cn_id c) of
        None \<Rightarrow> s\<lparr>hs_consumers := put_state c (new_consumer_state\<lparr>cs_mode := cn_mode c\<rparr>) (hs_consumers s)\<rparr>
      | Some st \<Rightarrow>
          if cs_mode st \<noteq> cn_mode c then
            s\<lparr>hs_consumers := put_state c (new_consumer_state\<lparr>
                 cs_since := (if cs_on st then Some now else cs_since st),
                 cs_blocked := cs_blocked st, cs_release_fault := cs_release_fault st,
                 cs_mode := cn_mode c\<rparr>) (hs_consumers s),
              hs_last_out := assoc_del (status_port (cn_id c)) (assoc_del (port (cn_id c)) (hs_last_out s))\<rparr>
          else s)"

definition next_wake :: "settings \<Rightarrow> consumer list \<Rightarrow> pyfloat \<Rightarrow> hems_state \<Rightarrow> pyfloat option" where
  "next_wake d cs now s =
     (let pulses = List.map_filter (\<lambda>c. cs_pulse_until (state_of (hs_consumers s) c)) cs;
          cycle = (case hs_last_cycle s of None \<Rightarrow> [] | Some t \<Rightarrow> [fadd t (interval_s d)]);
          hold = hold_s d;
          releases = List.map_filter (\<lambda>c.
            case map_of (hs_held s) (enable_port c) of
              None \<Rightarrow> None
            | Some (v, t) \<Rightarrow>
                if \<not> cn_active c \<or> flt (fadd t hold) now then None
                else if (cn_enable_fault c = ''default'' \<and> cn_enable_default c)
                        = cs_blocked (state_of (hs_consumers s) c)
                then Some (fadd (fadd t hold) stale_wake_margin_s) else None) cs;
          age = max_age_s d;
          upcoming = (if flt (Fin 0) age
            then filter (\<lambda>t. fle now t) (List.map_filter (\<lambda>k. map_option (\<lambda>t. fadd t age) (map_of (hs_last_seen s) k))
                   (grid_input_names (grid_mode d))) else []);
          stale = (case upcoming of [] \<Rightarrow> [] | t # ts \<Rightarrow> [fadd (foldl py_min t ts) stale_wake_margin_s])
      in case pulses @ cycle @ releases @ stale of [] \<Rightarrow> None | t # ts \<Rightarrow> Some (foldl py_min t ts))"

definition merge_outputs :: "outputs \<Rightarrow> outputs \<Rightarrow> outputs" where
  "merge_outputs kvs out = fold (\<lambda>(k, v). assoc_set k v) kvs out"

definition hems_evaluate :: "settings \<Rightarrow> inputs \<Rightarrow> pyfloat \<Rightarrow> hems_state \<Rightarrow> outputs \<times> hems_state" where
  "hems_evaluate d ins now s =
     (let cs = load_consumers (data_get d ''consumers'');
          gone = filter (\<lambda>u. u \<notin> cn_id ` set cs) (map fst (hs_consumers s))
      in case forget_removed gone s [] of
           (s1, removed) \<Rightarrow>
             (case tick d ins now cs (fold (prepare_consumer now) cs s1) of
                (s2, ticked) \<Rightarrow>
                  (let out = merge_outputs ticked removed;
                       s3 = s2\<lparr>hs_last_out := merge_outputs
                                (filter (\<lambda>(k, v). map_of removed k = None) out) (hs_last_out s2)\<rparr>
                   in (out, s3\<lparr>hs_next_wake := next_wake d cs now s3\<rparr>))))"

end
