(* ===== verification/Hems_Step.thy ===== *)
theory Hems_Step
  imports Hems_Tick
begin

text \<open>
  What one tick of the surplus block does to a single consumer: every loop over the consumers is an
  update of each consumer's own state, so a tick is, for each of them, a short sequence of changes.
\<close>

section \<open>Consumers and their ids\<close>

lemma unique_id_fresh: "unique_id seen cid \<notin> set seen"
  by (induction seen cid rule: unique_id.induct) (subst unique_id.simps, simp)

lemma load_items_ids:
  "set seen \<inter> cn_id ` set (load_items seen index items) = {}
   \<and> distinct (map cn_id (load_items seen index items))"
proof (induction seen index items rule: load_items.induct)
  case (2 seen index item items)
  let ?cid = "consumer_id seen index (data_get item ''id'')"
  have id: "cn_id (load_consumer ?cid index item) = ?cid"
    by (simp add: load_consumer_def Let_def)
  have fresh: "?cid \<notin> set seen"
    by (simp add: consumer_id_def Let_def unique_id_fresh)
  from 2 [OF refl] show ?case
    by (auto simp: Let_def id fresh)
qed auto

lemma load_consumers_distinct: "distinct (map cn_id (load_consumers raw))"
  using load_items_ids [of "[]" 0] by (simp add: load_consumers_def split: pyval.split)

section \<open>States of consumers\<close>

lemma state_of_put: "state_of (put_state c s sts) c' = (if cn_id c = cn_id c' then s else state_of sts c')"
  by (auto simp: state_of_def put_state_def map_of_assoc_set)

text \<open>Every consumer of a list updated in turn.\<close>

primrec update_all ::
  "(consumer \<Rightarrow> consumer_state \<Rightarrow> consumer_state) \<Rightarrow> consumer list \<Rightarrow> consumer_states \<Rightarrow> consumer_states" where
  "update_all f [] sts = sts"
| "update_all f (c # cs) sts = update_all f cs (put_state c (f c (state_of sts c)) sts)"

lemma update_all_other:
  "cn_id c \<notin> cn_id ` set cs \<Longrightarrow> state_of (update_all f cs sts) c = state_of sts c"
  by (induction cs arbitrary: sts) (auto simp: state_of_put)

lemma update_all_state:
  assumes "distinct (map cn_id cs)" and "c \<in> set cs"
  shows "state_of (update_all f cs sts) c = f c (state_of sts c)"
  using assms by (induction cs arbitrary: sts) (auto simp: state_of_put update_all_other)

definition reset_state :: "pyfloat \<Rightarrow> consumer_state \<Rightarrow> consumer_state" where
  "reset_state now s =
     (set_off now s)\<lparr>cs_trigger_pending := None, cs_pulse_until := None, cs_reserve_cycles := 0\<rparr>"

definition clear_pending :: "consumer_state \<Rightarrow> consumer_state" where
  "clear_pending s = s\<lparr>cs_on_pending := None, cs_off_pending := None, cs_trigger_pending := None\<rparr>"

definition end_pulse_state :: "pyfloat \<Rightarrow> consumer_state \<Rightarrow> consumer_state" where
  "end_pulse_state now s =
     (case cs_pulse_until s of
        None \<Rightarrow> s
      | Some t \<Rightarrow> if fle t now then s\<lparr>cs_pulse_until := None, cs_pulse_ended := Some now\<rparr> else s)"

definition signal_state :: "inputs \<Rightarrow> pyfloat \<Rightarrow> consumer \<Rightarrow> consumer_state \<Rightarrow> consumer_state" where
  "signal_state ins now c s = read_reset ins c (end_pulse_state now s)"

lemma reset_consumer_state: "fst (reset_consumer em c now label s out) = reset_state now s"
  by (simp add: reset_consumer_def reset_state_def)

lemma end_pulse_fst: "fst (end_pulse em now c x) = end_pulse_state now (fst x)"
  by (simp add: end_pulse_def end_pulse_state_def split: option.split)

lemma apply_safe_state_states:
  "fst (apply_safe_state em now cs x) = update_all (\<lambda>_. reset_state now) cs (fst x)"
proof (induction em now cs x rule: apply_safe_state.induct)
  case (2 em now c cs sts out)
  then show ?case
    by (simp add: Let_def split: prod.split) (metis fst_conv reset_consumer_state)
qed simp

lemma lock_consumers_states:
  "fst (lock_consumers em now cs x) = update_all (\<lambda>_. reset_state now) cs (fst x)"
proof (induction em now cs x rule: lock_consumers.induct)
  case (2 em now c cs sts out)
  then show ?case
    by (simp add: Let_def split: prod.split) (metis fst_conv reset_consumer_state)
qed simp

lemma sample_signals_states:
  "fst (sample_signals em ins now cs x) = update_all (signal_state ins now) cs (fst x)"
proof (induction em ins now cs x rule: sample_signals.induct)
  case (2 em ins now c cs sts out)
  have "fst (end_pulse em now c (state_of sts c, out)) = end_pulse_state now (state_of sts c)"
    by (simp add: end_pulse_fst)
  with 2 show ?case
    by (cases "end_pulse em now c (state_of sts c, out)") (simp add: signal_state_def)
qed simp

lemma hold_outputs_states:
  "fst (hold_outputs em last_out cs x) = update_all (\<lambda>_. clear_pending) cs (fst x)"
proof (induction em last_out cs x rule: hold_outputs.induct)
  case (2 em last_out c cs sts out)
  then show ?case
    by (simp add: Let_def clear_pending_def)
qed simp

section \<open>Fields that the readers of inputs leave alone\<close>

lemma held_value_fields:
  "hs_consumers (snd (held_value k raw now hold s)) = hs_consumers s"
  "hs_last_out (snd (held_value k raw now hold s)) = hs_last_out s"
  "hs_status (snd (held_value k raw now hold s)) = hs_status s"
  by (auto simp: held_value_def split: option.split prod.split)

lemma hold_inputs_fields:
  "hs_consumers (snd (hold_inputs ks now hold ins s)) = hs_consumers s
   \<and> hs_last_out (snd (hold_inputs ks now hold ins s)) = hs_last_out s"
proof (induction ks arbitrary: ins s)
  case (Cons k ks)
  let ?h = "held_value k (data_get ins k) now hold s"
  have eq: "hold_inputs (k # ks) now hold ins s = hold_inputs ks now hold (assoc_set k (fst ?h) ins) (snd ?h)"
    by (simp add: case_prod_beta)
  show ?case
    unfolding eq using Cons.IH [of "assoc_set k (fst ?h) ins" "snd ?h"]
    by (simp add: held_value_fields)
qed simp

lemma read_names_fields:
  "hs_consumers (snd (read_names ks ins now hold s)) = hs_consumers s
   \<and> hs_last_out (snd (read_names ks ins now hold s)) = hs_last_out s"
proof (induction ks arbitrary: s)
  case (Cons k ks)
  let ?h = "held_value k (data_get ins k) now hold s"
  have eq: "snd (read_names (k # ks) ins now hold s) = snd (read_names ks ins now hold (snd ?h))"
    by (simp add: case_prod_beta)
  show ?case
    unfolding eq using Cons.IH [of "snd ?h"] by (simp add: held_value_fields)
qed simp

lemma read_meter_fields:
  "hs_consumers (snd (read_meter mode ins now age hold s)) = hs_consumers s"
  "hs_last_out (snd (read_meter mode ins now age hold s)) = hs_last_out s"
  by (simp_all add: read_meter_def Let_def case_prod_beta read_names_fields note_telegrams_def)

lemma released_fields:
  "hs_consumers (snd (released c ins now hold s)) = hs_consumers s"
  "hs_last_out (snd (released c ins now hold s)) = hs_last_out s"
  using held_value_fields [of "enable_port c" "data_get ins (enable_port c)" now hold s]
  by (auto simp: released_def split: option.split prod.split)

lemma interlock_fields:
  "hs_consumers (snd (interlock k ins now hold s)) = hs_consumers s"
  "hs_last_out (snd (interlock k ins now hold s)) = hs_last_out s"
  by (simp_all add: interlock_def case_prod_beta held_value_fields split: option.split)

lemma hold_inputs_cong:
  "hs_held s = hs_held s' \<Longrightarrow> fst (hold_inputs ks now hold ins s) = fst (hold_inputs ks now hold ins s')"
proof (induction ks arbitrary: ins s s')
  case (Cons k ks)
  let ?h = "held_value k (data_get ins k) now hold s"
  let ?h' = "held_value k (data_get ins k) now hold s'"
  have "fst ?h = fst ?h'" and "hs_held (snd ?h) = hs_held (snd ?h')"
    using Cons.prems by (auto simp: held_value_def split: option.split prod.split)
  then show ?case
    using Cons.IH [of "snd ?h" "snd ?h'" "assoc_set k (fst ?h) ins"] by (simp add: case_prod_beta)
qed simp

section \<open>The releases\<close>

lemma set_release_fields:
  "cs_on (set_release c rel fault s) = cs_on s" "cs_since (set_release c rel fault s) = cs_since s"
  "cs_on_pending (set_release c rel fault s) = cs_on_pending s"
  "cs_off_pending (set_release c rel fault s) = cs_off_pending s"
  "cs_setpoint (set_release c rel fault s) = cs_setpoint s"
  "cs_blocked (set_release c rel fault s) = (\<not> rel)" "cs_mode (set_release c rel fault s) = cs_mode s"
  "cs_pulse_until (set_release c rel fault s) = cs_pulse_until s"
  by (simp_all add: set_release_def)

lemma update_releases_out:
  "hs_last_out (snd (snd (update_releases cs ins now hold s))) = hs_last_out s"
proof (induction cs arbitrary: s)
  case (Cons c cs)
  then show ?case
    by (simp add: Let_def case_prod_beta released_fields)
qed simp

lemma update_releases_other:
  "cn_id c \<notin> cn_id ` set cs \<Longrightarrow>
     state_of (hs_consumers (snd (snd (update_releases cs ins now hold s)))) c = state_of (hs_consumers s) c"
proof (induction cs arbitrary: s)
  case (Cons c0 cs)
  then show ?case
    by (simp add: Let_def case_prod_beta released_fields state_of_put eq_commute [of "cn_id c" "cn_id c0"])
qed simp

lemma update_releases_lists:
  "set (fst (update_releases cs ins now hold s)) \<union> set (fst (snd (update_releases cs ins now hold s))) \<subseteq> set cs"
proof (induction cs arbitrary: s)
  case (Cons c cs)
  then show ?case
    by (simp add: Let_def case_prod_beta) (meson subset_trans subset_insertI)
qed simp

lemma update_releases_distinct:
  "distinct (map cn_id cs) \<Longrightarrow> distinct (map cn_id (fst (update_releases cs ins now hold s)))"
proof (induction cs arbitrary: s)
  case (Cons c cs)
  then have "cn_id c \<notin> cn_id ` set (fst (update_releases cs ins now hold t))" for t
    using update_releases_lists [of cs ins now hold t] by auto
  with Cons show ?case
    by (simp add: Let_def case_prod_beta)
qed simp

lemma update_releases_state:
  assumes "distinct (map cn_id cs)" and "c \<in> set cs"
  shows "\<exists>rel fault.
      state_of (hs_consumers (snd (snd (update_releases cs ins now hold s)))) c
        = set_release c rel fault (state_of (hs_consumers s) c)
      \<and> (c \<in> set (fst (update_releases cs ins now hold s))
          \<longleftrightarrow> cn_active c \<and> \<not> rel \<and> \<not> cs_blocked (state_of (hs_consumers s) c))"
  using assms
proof (induction cs arbitrary: s)
  case (Cons c0 cs)
  let ?r = "released c0 ins now hold s"
  let ?st = "state_of (hs_consumers s) c0"
  let ?s2 = "(snd ?r)\<lparr>hs_consumers := put_state c0 (set_release c0 (fst (fst ?r)) (snd (fst ?r)) ?st) (hs_consumers s)\<rparr>"
  let ?u = "update_releases cs ins now hold ?s2"
  have u: "snd (snd (update_releases (c0 # cs) ins now hold s)) = snd (snd ?u)"
    "fst (update_releases (c0 # cs) ins now hold s)
      = (if cn_active c0 \<and> fst (fst ?r) = cs_blocked ?st \<and> \<not> fst (fst ?r) then c0 # fst ?u else fst ?u)"
    by (simp_all add: Let_def case_prod_beta released_fields)
  show ?case
  proof (cases "c = c0")
    case True
    have "cn_id c0 \<notin> cn_id ` set cs"
      using Cons.prems by auto
    then have notin: "c0 \<notin> set (fst ?u)"
        and same: "state_of (hs_consumers (snd (snd ?u))) c0 = state_of (hs_consumers ?s2) c0"
      using update_releases_lists [of cs ins now hold ?s2] update_releases_other [of c0 cs ins now hold ?s2]
      by auto
    show ?thesis
      unfolding u True same
      by (rule exI [of _ "fst (fst ?r)"], rule exI [of _ "snd (fst ?r)"]) (use notin in \<open>auto simp: state_of_put\<close>)
  next
    case False
    then have "c \<in> set cs" and "cn_id c0 \<noteq> cn_id c"
      using Cons.prems by auto
    then have "state_of (hs_consumers ?s2) c = state_of (hs_consumers s) c"
      by (simp add: state_of_put)
    moreover have "c \<in> set (if p then c0 # xs else xs) \<longleftrightarrow> c \<in> set xs" for p xs
      using False by simp
    ultimately show ?thesis
      unfolding u using Cons.IH [of ?s2] Cons.prems \<open>c \<in> set cs\<close> by (simp only: list.map distinct.simps)
  qed
qed simp

section \<open>The distribution\<close>

text \<open>What a distribution does to a consumer, by the power it is offered.\<close>

definition serve_state ::
  "pyfloat option \<Rightarrow> pyfloat \<Rightarrow> delays \<Rightarrow> bool \<Rightarrow> pyfloat \<Rightarrow> consumer \<Rightarrow> consumer_state \<Rightarrow> consumer_state" where
  "serve_state rating now dl shedding offer c s =
     (if \<not> cn_active c \<or> cs_blocked s then reset_state now s
      else (case rating of
              None \<Rightarrow> set_off now s
            | Some p \<Rightarrow> note_raise now s (fst (serve c s p offer now dl shedding))))"

lemma allocate_one_states:
  "al_states (allocate_one em rated now dl caps ins shedding c x)
     = put_state c (serve_state (rating_of rated c) now dl shedding
         (offer_of caps c (state_of (al_states x) c) (al_available x)) c (state_of (al_states x) c)) (al_states x)"
  by (simp add: allocate_one_def serve_state_def Let_def case_prod_beta reset_consumer_state split: option.split)

lemma allocate_fold_state:
  assumes "distinct (map cn_id cs)" and "c \<in> set cs"
  shows "\<exists>offer. state_of (al_states (fold (allocate_one em rated now dl caps ins shedding) cs x)) c
      = serve_state (rating_of rated c) now dl shedding offer c (state_of (al_states x) c)"
  using assms
proof (induction cs arbitrary: x)
  case (Cons c0 cs)
  have other: "cn_id c' \<notin> cn_id ` set cs \<Longrightarrow>
      state_of (al_states (fold (allocate_one em rated now dl caps ins shedding) cs y)) c' = state_of (al_states y) c'"
    for c' y
    by (induction cs arbitrary: y) (auto simp: allocate_one_states state_of_put)
  show ?case
  proof (cases "c = c0")
    case True
    then show ?thesis
      using Cons.prems other [of c0 "allocate_one em rated now dl caps ins shedding c0 x"]
      by (auto simp: allocate_one_states state_of_put)
  next
    case False
    then have "c \<in> set cs" and "cn_id c0 \<noteq> cn_id c"
      using Cons.prems by auto
    then show ?thesis
      using Cons.IH [of "allocate_one em rated now dl caps ins shedding c0 x"] Cons.prems
      by (simp add: allocate_one_states state_of_put)
  qed
qed simp

lemma allocate_state:
  assumes "distinct (map cn_id cs)" and "c \<in> set cs"
  shows "\<exists>offer. state_of (al_states (allocate em cs rated budget now dl caps ins shedding sts out)) c
      = serve_state (rating_of rated c) now dl shedding offer c (state_of sts c)"
  using allocate_fold_state [OF assms, of em rated now dl caps ins shedding
      "\<lparr>al_states = sts, al_out = out, al_available = budget, al_allocated = Fin 0\<rparr>"]
  by (simp add: allocate_def)

section \<open>The control cycle\<close>

lemma ids_inj:
  "distinct (map cn_id cs) \<Longrightarrow> c \<in> set cs \<Longrightarrow> c' \<in> set cs \<Longrightarrow> cn_id c = cn_id c' \<Longrightarrow> c = c'"
  by (auto simp: distinct_map dest: inj_onD)

lemma rating_of_listed:
  "distinct (map cn_id cs) \<Longrightarrow> c \<in> set cs \<Longrightarrow> rating_of (map (\<lambda>c. (cn_id c, f c)) cs) c = f c"
proof (induction cs)
  case (Cons a cs)
  then show ?case
    using ids_inj [OF Cons.prems(1,2), of a] by (cases "c = a") (auto simp: rating_of_def)
qed simp

lemma plan_zero_fields:
  "hs_consumers (zp_state (plan_zero cs rated target now off_delay locked s)) = hs_consumers s"
  "hs_status (zp_state (plan_zero cs rated target now off_delay locked s)) = hs_status s"
  "hs_last_out (zp_state (plan_zero cs rated target now off_delay locked s)) = hs_last_out s"
  by (simp_all add: plan_zero_def Let_def split: option.split prod.split)

lemma run_cycle_state:
  assumes "distinct (map cn_id cs)" and "c \<in> set cs"
  shows "\<exists>shedding offer.
      state_of (hs_consumers (fst (run_cycle d ins now cs grid feed_in locked em s out))) c
        = serve_state (rated_power c ins) now (cycle_delays d) shedding offer c (state_of (hs_consumers s) c)"
proof -
  let ?rated = "map (\<lambda>c. (cn_id c, rated_power c ins)) cs"
  have same: "rating_of ?rated c = rated_power c ins"
    by (rule rating_of_listed [OF assms])
  have served: "\<exists>shedding offer.
      state_of (al_states (allocate em cs ?rated budget now (cycle_delays d) caps ins sh (hs_consumers s) out)) c
        = serve_state (rated_power c ins) now (cycle_delays d) shedding offer c (state_of (hs_consumers s) c)"
    for budget caps sh
    using allocate_state [OF assms, of em ?rated budget now "cycle_delays d" caps ins sh "hs_consumers s" out]
    unfolding same by blast
  show ?thesis
  proof (cases "\<exists>f. feed_in = Some f \<and> fle f (Fin 0)")
    case True
    then show ?thesis
      by (auto simp: run_cycle_def Let_def plan_zero_fields if_distrib [of hs_consumers] intro: served)
  next
    case False
    then show ?thesis
      by (cases feed_in) (auto simp: run_cycle_def Let_def intro: served)
  qed
qed

lemma run_cycle_fields:
  "hs_status (fst (run_cycle d ins now cs grid feed_in locked em s out)) = hs_status s"
  "hs_last_out (fst (run_cycle d ins now cs grid feed_in locked em s out)) = hs_last_out s"
  by (cases feed_in; simp add: run_cycle_def Let_def plan_zero_fields)+

lemma healthy_tick_state:
  assumes "distinct (map cn_id cs)" and "c \<in> set cs"
  shows "state_of (hs_consumers (fst (healthy_tick d ins now cs grid feed_in locked re em s out))) c
           = state_of (hs_consumers s) c
      \<or> (\<exists>shedding offer.
          state_of (hs_consumers (fst (healthy_tick d ins now cs grid feed_in locked re em s out))) c
            = serve_state (rated_power c ins) now (cycle_delays d) shedding offer c (state_of (hs_consumers s) c))"
proof -
  define print where "print = fingerprint d cs"
  define s2 where "s2 = (if hs_config s \<noteq> Some print
      then s\<lparr>hs_safe_cycle := None, hs_config := Some print, hs_last_cycle := None\<rparr>
      else s\<lparr>hs_safe_cycle := None\<rparr>)"
  have "hs_consumers s2 = hs_consumers s"
    by (simp add: s2_def)
  moreover have "fst (healthy_tick d ins now cs grid feed_in locked re em s out) = s2
      \<or> healthy_tick d ins now cs grid feed_in locked re em s out
          = run_cycle d ins now cs grid feed_in locked em (s2\<lparr>hs_last_cycle := Some now\<rparr>) out"
    by (auto simp: healthy_tick_def s2_def print_def Let_def)
  moreover obtain shedding offer where
    "state_of (hs_consumers (fst (run_cycle d ins now cs grid feed_in locked em (s2\<lparr>hs_last_cycle := Some now\<rparr>) out))) c
      = serve_state (rated_power c ins) now (cycle_delays d) shedding offer c
          (state_of (hs_consumers (s2\<lparr>hs_last_cycle := Some now\<rparr>)) c)"
    using run_cycle_state [OF assms] by blast
  ultimately show ?thesis
    by (elim disjE) (simp_all, blast)
qed

lemma healthy_tick_fields:
  "hs_status (fst (healthy_tick d ins now cs grid feed_in locked re em s out)) = hs_status s"
  "hs_last_out (fst (healthy_tick d ins now cs grid feed_in locked re em s out)) = hs_last_out s"
  by (simp_all add: healthy_tick_def Let_def run_cycle_fields)

section \<open>The safe state\<close>

definition holds_values :: "settings \<Rightarrow> string \<Rightarrow> bool" where
  "holds_values d status \<longleftrightarrow>
     status \<in> {''invalid_input'', ''stale_input''} \<and> enum_text (data_get d ''invalid_behavior'') = Some ''hold''"

lemma safe_tick_fields:
  "hs_status (fst (safe_tick d now cs status m em s out)) = hs_status s"
  "hs_last_out (fst (safe_tick d now cs status m em s out)) = hs_last_out s"
  by (simp_all add: safe_tick_def Let_def)

lemma distinct_map_filter_ids: "distinct (map cn_id cs) \<Longrightarrow> distinct (map cn_id (filter P cs))"
  by (induction cs) auto

lemma ids_filter_other:
  "distinct (map cn_id cs) \<Longrightarrow> c \<in> set cs \<Longrightarrow> \<not> P c \<Longrightarrow> cn_id c \<notin> cn_id ` set (filter P cs)"
  by (auto dest: ids_inj)

lemma safe_tick_state:
  assumes d: "distinct (map cn_id cs)" and c: "c \<in> set cs"
  shows "state_of (hs_consumers (fst (safe_tick d now cs status m em s out))) c
           = reset_state now (state_of (hs_consumers s) c)
      \<or> (holds_values d status \<and> cn_active c \<and> \<not> cs_blocked (state_of (hs_consumers s) c)
         \<and> state_of (hs_consumers (fst (safe_tick d now cs status m em s out))) c
             = clear_pending (state_of (hs_consumers s) c))"
proof -
  define P where "P c' \<longleftrightarrow> holds_values d status \<and> cn_active c'
      \<and> \<not> cs_blocked (state_of (hs_consumers s) c') \<and> map_of (hs_last_out s) (port (cn_id c')) \<noteq> None" for c'
  have kept: "(if holds_values d status
      then filter (\<lambda>c. cn_active c \<and> \<not> cs_blocked (state_of (hs_consumers s) c)
             \<and> map_of (hs_last_out s) (port (cn_id c)) \<noteq> None) cs else []) = filter P cs"
    by (auto simp: P_def intro!: filter_cong)
  have states: "hs_consumers (fst (safe_tick d now cs status m em s out))
      = update_all (\<lambda>_. reset_state now) (filter (\<lambda>c. c \<notin> set (filter P cs)) cs)
          (update_all (\<lambda>_. clear_pending) (filter P cs) (hs_consumers s))"
    unfolding safe_tick_def Let_def holds_values_def [symmetric]
    by (simp add: apply_safe_state_states hold_outputs_states kept [symmetric] del: set_filter)
  show ?thesis
  proof (cases "P c")
    case True
    have "cn_id c \<notin> cn_id ` set (filter (\<lambda>c. c \<notin> set (filter P cs)) cs)"
      using True c by (intro ids_filter_other [OF d c]) simp
    then have "state_of (hs_consumers (fst (safe_tick d now cs status m em s out))) c
        = clear_pending (state_of (hs_consumers s) c)"
      unfolding states using True c d
      by (subst update_all_other) (simp_all add: update_all_state distinct_map_filter_ids)
    with True show ?thesis
      by (simp add: P_def)
  next
    case False
    then have "state_of (hs_consumers (fst (safe_tick d now cs status m em s out))) c
        = reset_state now (state_of (update_all (\<lambda>_. clear_pending) (filter P cs) (hs_consumers s)) c)"
      unfolding states using c by (intro update_all_state distinct_map_filter_ids d) simp
    moreover have "state_of (update_all (\<lambda>_. clear_pending) (filter P cs) (hs_consumers s)) c
        = state_of (hs_consumers s) c"
      by (intro update_all_other ids_filter_other d c False)
    ultimately show ?thesis
      by simp
  qed
qed

section \<open>A tick, consumer by consumer\<close>

text \<open>The inputs as the distribution sees them, values that stopped arriving held.\<close>

definition tick_inputs :: "settings \<Rightarrow> inputs \<Rightarrow> pyfloat \<Rightarrow> hems_state \<Rightarrow> inputs" where
  "tick_inputs d ins now s = fst (hold_inputs (held_keys ins) now (hold_s d) ins s)"

text \<open>A consumer after its signals and its release are read; one that just lost it is reset.\<close>

definition sampled :: "inputs \<Rightarrow> pyfloat \<Rightarrow> consumer \<Rightarrow> bool \<Rightarrow> bool \<Rightarrow> consumer_state \<Rightarrow> consumer_state" where
  "sampled ins now c rel fault s =
     (let s1 = set_release c rel fault (signal_state ins now c s)
      in if cn_active c \<and> \<not> rel \<and> \<not> cs_blocked s then reset_state now s1 else s1)"

inductive consumer_tick ::
  "settings \<Rightarrow> inputs \<Rightarrow> pyfloat \<Rightarrow> pyfloat option \<Rightarrow> string \<Rightarrow> consumer \<Rightarrow> consumer_state \<Rightarrow> consumer_state \<Rightarrow> bool"
  for d ins now rating status c s where
  halt: "status \<noteq> ''ok'' \<Longrightarrow>
     consumer_tick d ins now rating status c s (reset_state now (sampled ins now c rel fault s))"
| hold: "status \<noteq> ''ok'' \<Longrightarrow> holds_values d status \<Longrightarrow> cn_active c \<Longrightarrow> rel \<Longrightarrow>
     consumer_tick d ins now rating status c s (clear_pending (sampled ins now c rel fault s))"
| skip: "status = ''ok'' \<Longrightarrow> consumer_tick d ins now rating status c s (sampled ins now c rel fault s)"
| cycle: "status = ''ok'' \<Longrightarrow>
     consumer_tick d ins now rating status c s
       (serve_state rating now (cycle_delays d) shedding offer c (sampled ins now c rel fault s))"

lemma signal_state_blocked: "cs_blocked (signal_state ins now c s) = cs_blocked s"
  by (simp add: signal_state_def read_reset_def end_pulse_state_def Let_def split: option.split)

lemma sampled_blocked: "cs_blocked (sampled ins now c rel fault s) = (\<not> rel)"
  by (simp add: sampled_def Let_def reset_state_def set_off_def set_release_def)

lemma judge_meter_problem: "judge_meter mode judged silent rs = Problem p \<Longrightarrow> p \<in> {''invalid_input'', ''stale_input''}"
  by (auto simp: judge_meter_def split: if_splits)

lemma read_meter_problem:
  "fst (read_meter mode ins now age hold s) = Problem p \<Longrightarrow> p \<in> {''invalid_input'', ''stale_input''}"
  by (auto simp: read_meter_def Let_def case_prod_beta dest: judge_meter_problem)

text \<open>The state before the interlocks are read.\<close>

lemma before_interlocks:
  assumes d: "distinct (map cn_id cs)" and c: "c \<in> set cs"
    and u: "u = update_releases cs ins now hold (s\<lparr>hs_consumers := update_all (signal_state ins0 now) cs (hs_consumers s0)\<rparr>)"
  shows "\<exists>rel fault.
      state_of (fst (lock_consumers em now (fst u) (hs_consumers (snd (snd u)), out))) c
        = sampled ins0 now c rel fault (state_of (hs_consumers s0) c)"
proof -
  let ?s1 = "s\<lparr>hs_consumers := update_all (signal_state ins0 now) cs (hs_consumers s0)\<rparr>"
  let ?st = "state_of (hs_consumers s0) c"
  have s1: "state_of (hs_consumers ?s1) c = signal_state ins0 now c ?st"
    using update_all_state [OF d c] by simp
  obtain rel fault where st: "state_of (hs_consumers (snd (snd u))) c
        = set_release c rel fault (signal_state ins0 now c ?st)"
      and lock: "c \<in> set (fst u) \<longleftrightarrow> cn_active c \<and> \<not> rel \<and> \<not> cs_blocked ?st"
    using update_releases_state [OF d c, of ins now hold ?s1] unfolding u s1
    by (auto simp: signal_state_blocked)
  have du: "distinct (map cn_id (fst u))" and sub: "set (fst u) \<subseteq> set cs"
    using update_releases_distinct [OF d, of ins now hold ?s1]
      update_releases_lists [of cs ins now hold ?s1] unfolding u by auto
  have "state_of (fst (lock_consumers em now (fst u) (hs_consumers (snd (snd u)), out))) c
      = sampled ins0 now c rel fault ?st"
  proof (cases "c \<in> set (fst u)")
    case True
    with lock show ?thesis
      by (simp add: lock_consumers_states update_all_state [OF du] st sampled_def)
  next
    case False
    then have "cn_id c \<notin> cn_id ` set (fst u)"
      using sub c by (auto dest: ids_inj [OF d])
    with False lock show ?thesis
      by (auto simp: lock_consumers_states update_all_other st sampled_def)
  qed
  then show ?thesis
    by blast
qed

lemma tick_consumer:
  assumes d: "distinct (map cn_id cs)" and c: "c \<in> set cs"
  shows "\<exists>status. hs_status (fst (tick d ins0 now cs s0)) = Some status
      \<and> consumer_tick d ins0 now (rated_power c (tick_inputs d ins0 now s0)) status c
          (state_of (hs_consumers s0) c) (state_of (hs_consumers (fst (tick d ins0 now cs s0))) c)"
proof -
  define em where "em = emit_out (only_on_change d) (hs_last_out s0)"
  define a where "a = sample_signals em ins0 now cs (hs_consumers s0, [])"
  define h where "h = hold_inputs (held_keys ins0) now (hold_s d) ins0 (s0\<lparr>hs_consumers := fst a\<rparr>)"
  define r where "r = read_meter (grid_mode d) (fst h) now (max_age_s d) (hold_s d) (snd h)"
  define u where "u = update_releases cs (fst h) now (hold_s d) (snd r)"
  define l where "l = lock_consumers em now (fst u) (hs_consumers (snd (snd u)), snd a)"
  define e where "e = interlock ''enable'' (fst h) now (hold_s d) ((snd (snd u))\<lparr>hs_consumers := fst l\<rparr>)"
  define p where "p = interlock ''plant_ok'' (fst h) now (hold_s d) (snd e)"
  define status where "status = status_of (fst r) (fst e) (fst p)"
  define s7 where "s7 = (snd p)\<lparr>hs_status := Some status\<rparr>"
  have ins: "fst h = tick_inputs d ins0 now s0"
    unfolding h_def tick_inputs_def by (rule hold_inputs_cong) simp
  have "hs_consumers (snd r) = update_all (signal_state ins0 now) cs (hs_consumers s0)"
    by (simp add: r_def h_def a_def read_meter_fields hold_inputs_fields sample_signals_states)
  then have "snd r = (snd r)\<lparr>hs_consumers := update_all (signal_state ins0 now) cs (hs_consumers s0)\<rparr>"
    by simp
  then have u': "u = update_releases cs (fst h) now (hold_s d)
      ((snd r)\<lparr>hs_consumers := update_all (signal_state ins0 now) cs (hs_consumers s0)\<rparr>)"
    unfolding u_def by simp
  obtain rel fault where st: "state_of (fst l) c = sampled ins0 now c rel fault (state_of (hs_consumers s0) c)"
    using before_interlocks [OF d c u'] unfolding l_def by blast
  have s7: "hs_consumers s7 = fst l" "hs_status s7 = Some status"
    by (simp_all add: s7_def p_def e_def interlock_fields)
  have t: "tick d ins0 now cs s0 = (case fst r of
        Reading grid feed_in \<Rightarrow>
          if status = ''ok''
          then healthy_tick d (fst h) now cs grid feed_in
            (list_ex (\<lambda>c. cs_on (state_of (hs_consumers (snd (snd u))) c)) (fst u)) (fst (snd u)) em s7 (snd l)
          else safe_tick d now cs status (fst r) em s7 (snd l)
      | Problem _ \<Rightarrow> safe_tick d now cs status (fst r) em s7 (snd l))"
    unfolding tick_def Let_def case_prod_beta s7_def status_def p_def e_def l_def u_def r_def h_def a_def em_def
    by (rule refl)
  show ?thesis
  proof (cases "\<exists>grid feed_in. fst r = Reading grid feed_in \<and> status = ''ok''")
    case True
    then obtain grid feed_in where "tick d ins0 now cs s0 = healthy_tick d (fst h) now cs grid feed_in
        (list_ex (\<lambda>c. cs_on (state_of (hs_consumers (snd (snd u))) c)) (fst u)) (fst (snd u)) em s7 (snd l)"
      and ok: "status = ''ok''"
      using t by auto
    note tick = this(1)
    show ?thesis
      using healthy_tick_state [OF d c, of d "fst h" now grid feed_in
          "list_ex (\<lambda>c. cs_on (state_of (hs_consumers (snd (snd u))) c)) (fst u)" "fst (snd u)" em s7 "snd l"]
      unfolding tick healthy_tick_fields s7 st ins
      by (auto simp: ok intro: consumer_tick.skip consumer_tick.cycle)
  next
    case False
    then have tick: "tick d ins0 now cs s0 = safe_tick d now cs status (fst r) em s7 (snd l)"
      using t by (auto split: meter.split)
    have no: "status \<noteq> ''ok''"
    proof (cases "fst r")
      case (Problem q)
      then have "q \<noteq> ''ok''"
        unfolding r_def by (auto dest: read_meter_problem)
      with Problem show ?thesis
        by (simp add: status_def status_of_def)
    next
      case (Reading grid feed_in)
      with False show ?thesis
        by simp
    qed
    show ?thesis
      using safe_tick_state [OF d c, of d now status "fst r" em s7 "snd l"]
      unfolding tick safe_tick_fields s7 st
      by (auto simp: sampled_blocked intro: consumer_tick.halt [OF no] consumer_tick.hold [OF no])
  qed
qed

section \<open>An evaluation, consumer by consumer\<close>

lemma forget_removed_states:
  "cn_id c \<notin> set us \<Longrightarrow> map_of (hs_consumers (fst (forget_removed us s out))) (cn_id c) = map_of (hs_consumers s) (cn_id c)"
proof (induction us s out rule: forget_removed.induct)
  case (2 u us s out)
  then show ?case
    by (auto simp: Let_def map_of_assoc_del split: option.split)
qed simp

lemma prepare_other:
  "cn_id c \<notin> cn_id ` set cs \<Longrightarrow>
     map_of (hs_consumers (fold (prepare_consumer now) cs s)) (cn_id c) = map_of (hs_consumers s) (cn_id c)"
proof (induction cs arbitrary: s)
  case (Cons c0 cs)
  then show ?case
    by (auto simp: prepare_consumer_def put_state_def map_of_assoc_set split: option.split)
qed simp

lemma prepare_held: "hs_held (fold (prepare_consumer now) cs s) = hs_held s"
proof (induction cs arbitrary: s)
  case (Cons c cs)
  then show ?case
    by (simp add: prepare_consumer_def split: option.split)
qed simp

definition prepared :: "pyfloat \<Rightarrow> consumer \<Rightarrow> consumer_state option \<Rightarrow> consumer_state" where
  "prepared now c old =
     (case old of
        None \<Rightarrow> new_consumer_state\<lparr>cs_mode := cn_mode c\<rparr>
      | Some st \<Rightarrow>
          if cs_mode st \<noteq> cn_mode c then
            new_consumer_state\<lparr>cs_since := (if cs_on st then Some now else cs_since st),
              cs_blocked := cs_blocked st, cs_release_fault := cs_release_fault st, cs_mode := cn_mode c\<rparr>
          else st)"

lemma prepare_consumer_state:
  "map_of (hs_consumers (prepare_consumer now c s)) (cn_id c) = Some (prepared now c (map_of (hs_consumers s) (cn_id c)))"
  by (simp add: prepare_consumer_def prepared_def put_state_def map_of_assoc_set split: option.split)

lemma prepare_state:
  assumes "distinct (map cn_id cs)" and "c \<in> set cs"
  shows "map_of (hs_consumers (fold (prepare_consumer now) cs s)) (cn_id c)
      = Some (prepared now c (map_of (hs_consumers s) (cn_id c)))"
  using assms
proof (induction cs arbitrary: s)
  case (Cons c0 cs)
  show ?case
  proof (cases "c = c0")
    case True
    with Cons.prems show ?thesis
      using prepare_other [of c0 cs now "prepare_consumer now c0 s"]
      by (simp add: prepare_consumer_state)
  next
    case False
    then have "c \<in> set cs" and "cn_id c \<notin> cn_id ` set [c0]"
      using Cons.prems ids_inj [OF Cons.prems, of c0] by auto
    then show ?thesis
      using Cons.IH [of "prepare_consumer now c0 s"] Cons.prems prepare_other [of c "[c0]" now s] by simp
  qed
qed simp

text \<open>The consumers of the settings, and the state an evaluation leaves.\<close>

definition consumers_of :: "settings \<Rightarrow> consumer list" where
  "consumers_of d = load_consumers (data_get d ''consumers'')"

definition inputs_seen :: "settings \<Rightarrow> inputs \<Rightarrow> pyfloat \<Rightarrow> hems_state \<Rightarrow> inputs" where
  "inputs_seen d ins now s =
     tick_inputs d ins now
       (fst (forget_removed (filter (\<lambda>u. u \<notin> cn_id ` set (consumers_of d)) (map fst (hs_consumers s))) s []))"

lemma consumers_of_distinct: "distinct (map cn_id (consumers_of d))"
  by (simp add: consumers_of_def load_consumers_distinct)

lemma hems_evaluate_consumer:
  assumes c: "c \<in> set (consumers_of d)"
  shows "\<exists>status. hs_status (snd (hems_evaluate d ins now s)) = Some status
      \<and> consumer_tick d ins now (rated_power c (inputs_seen d ins now s)) status c
          (prepared now c (map_of (hs_consumers s) (cn_id c)))
          (state_of (hs_consumers (snd (hems_evaluate d ins now s))) c)"
proof -
  define gone where "gone = filter (\<lambda>u. u \<notin> cn_id ` set (consumers_of d)) (map fst (hs_consumers s))"
  define f where "f = forget_removed gone s []"
  define s0 where "s0 = fold (prepare_consumer now) (consumers_of d) (fst f)"
  have e: "hs_status (snd (hems_evaluate d ins now s)) = hs_status (fst (tick d ins now (consumers_of d) s0))"
    "hs_consumers (snd (hems_evaluate d ins now s)) = hs_consumers (fst (tick d ins now (consumers_of d) s0))"
    unfolding s0_def f_def gone_def hems_evaluate_def consumers_of_def Let_def case_prod_beta by simp_all
  have "cn_id c \<notin> set gone"
    using c by (simp add: gone_def)
  then have "map_of (hs_consumers s0) (cn_id c) = Some (prepared now c (map_of (hs_consumers s) (cn_id c)))"
    unfolding s0_def f_def by (simp add: prepare_state [OF consumers_of_distinct c] forget_removed_states)
  then have start: "state_of (hs_consumers s0) c = prepared now c (map_of (hs_consumers s) (cn_id c))"
    by (simp add: state_of_def)
  have "tick_inputs d ins now s0 = inputs_seen d ins now s"
    unfolding tick_inputs_def inputs_seen_def gone_def [symmetric] f_def [symmetric] s0_def
    by (rule hold_inputs_cong) (simp add: prepare_held)
  with tick_consumer [OF consumers_of_distinct c, of d ins now s0] show ?thesis
    unfolding e start by simp
qed

end
