(* ===== verification/Hems_Props.thy ===== *)
theory Hems_Props
  imports Hems_Step
begin

text \<open>
  What the surplus block promises for each consumer: a switching contract (minimum run and rest
  times, the on-delay, and the reasons that override them) which every evaluation refines, an
  invariant of the consumer states, and the conditions under which a trigger fires.
\<close>

section \<open>The switching contract\<close>

datatype phase =
  Standby "pyfloat option" "pyfloat option"
| Running "pyfloat option"

definition phase_of :: "consumer_state \<Rightarrow> phase" where
  "phase_of s = (if cs_on s then Running (cs_since s) else Standby (cs_since s) (cs_on_pending s))"

definition ran :: "consumer \<Rightarrow> pyfloat \<Rightarrow> pyfloat option \<Rightarrow> bool" where
  "ran c now since \<longleftrightarrow> \<not> flt (elapsed now since) (cn_min_runtime_s c)"

definition rested :: "consumer \<Rightarrow> pyfloat \<Rightarrow> pyfloat option \<Rightarrow> bool" where
  "rested c now since \<longleftrightarrow> \<not> (since \<noteq> None \<and> flt (elapsed now since) (cn_min_off_s c))"

definition waited :: "consumer \<Rightarrow> settings \<Rightarrow> pyfloat \<Rightarrow> pyfloat option \<Rightarrow> bool" where
  "waited c d now w \<longleftrightarrow>
     fle (delay (cn_on_delay_s c) (dl_on (cycle_delays d)))
       (elapsed now (Some (case w of None \<Rightarrow> now | Some t \<Rightarrow> t)))"

text \<open>\<open>permitted\<close>: the consumer may be switched on; \<open>stopped\<close>: it may not even stay on.\<close>

inductive phase_step :: "consumer \<Rightarrow> settings \<Rightarrow> pyfloat \<Rightarrow> bool \<Rightarrow> bool \<Rightarrow> phase \<Rightarrow> phase \<Rightarrow> bool"
  for c d now permitted stopped where
  stand: "phase_step c d now permitted stopped (Standby t w) (Standby t w)"
| calm: "phase_step c d now permitted stopped (Standby t w) (Standby t None)"
| start_waiting: "permitted \<Longrightarrow> rested c now t \<Longrightarrow>
    phase_step c d now permitted stopped (Standby t None) (Standby t (Some now))"
| switch_on: "permitted \<Longrightarrow> rested c now t \<Longrightarrow> waited c d now w \<Longrightarrow>
    phase_step c d now permitted stopped (Standby t w) (Running (Some now))"
| keep_on: "\<not> stopped \<Longrightarrow> phase_step c d now permitted stopped (Running t) (Running t)"
| switch_off: "ran c now t \<Longrightarrow> phase_step c d now permitted stopped (Running t) (Standby (Some now) None)"
| force_off: "\<not> permitted \<Longrightarrow> phase_step c d now permitted stopped (Running t) (Standby (Some now) None)"

definition may_run :: "string \<Rightarrow> consumer \<Rightarrow> consumer_state \<Rightarrow> pyfloat option \<Rightarrow> bool" where
  "may_run status c s rating \<longleftrightarrow> status = ''ok'' \<and> cn_active c \<and> \<not> cs_blocked s \<and> rating \<noteq> None"

definition must_stop :: "settings \<Rightarrow> string \<Rightarrow> consumer \<Rightarrow> consumer_state \<Rightarrow> bool" where
  "must_stop d status c s \<longleftrightarrow>
     \<not> cn_active c \<or> cs_blocked s \<or> (status \<noteq> ''ok'' \<and> \<not> holds_values d status)"

text \<open>The states of a consumer between evaluations.\<close>

definition consumer_ok :: "consumer \<Rightarrow> consumer_state \<Rightarrow> bool" where
  "consumer_ok c s \<longleftrightarrow>
     cs_mode s = cn_mode c
   \<and> (cs_on s \<longrightarrow> cs_since s \<noteq> None \<and> cn_mode c \<noteq> ''trigger'')
   \<and> (\<not> cs_on s \<longrightarrow> cs_setpoint s = Fin 0)
   \<and> (cs_blocked s \<or> \<not> cn_active c \<longrightarrow> \<not> cs_on s \<and> cs_pulse_until s = None)"

lemma consumer_okD:
  assumes "consumer_ok c s"
  shows "cs_mode s = cn_mode c" and "cs_on s \<Longrightarrow> cs_since s \<noteq> None" and "cs_on s \<Longrightarrow> cn_mode c \<noteq> ''trigger''"
    and "\<not> cs_on s \<Longrightarrow> cs_setpoint s = Fin 0" and "cs_blocked s \<Longrightarrow> \<not> cs_on s"
    and "\<not> cn_active c \<Longrightarrow> \<not> cs_on s" and "cs_blocked s \<Longrightarrow> cs_pulse_until s = None"
    and "\<not> cn_active c \<Longrightarrow> cs_pulse_until s = None"
  using assms by (auto simp: consumer_ok_def)

lemma new_consumer_ok: "consumer_ok c (new_consumer_state\<lparr>cs_mode := cn_mode c\<rparr>)"
  by (simp add: consumer_ok_def new_consumer_state_def)

subsection \<open>The parts of a tick\<close>

lemma phase_reset:
  "phase_of (reset_state now s) = (if cs_on s then Standby (Some now) None else Standby (cs_since s) None)"
  by (simp add: phase_of_def reset_state_def set_off_def)

lemma phase_signal: "phase_of (signal_state ins now c s) = phase_of s"
  by (simp add: phase_of_def signal_state_def read_reset_def end_pulse_state_def Let_def split: option.split)

lemma phase_release: "phase_of (set_release c rel fault s) = phase_of s"
  by (simp add: phase_of_def set_release_def)

lemma phase_clear:
  "phase_of (clear_pending s) = (if cs_on s then Running (cs_since s) else Standby (cs_since s) None)"
  by (simp add: phase_of_def clear_pending_def)

lemma phase_raise: "phase_of (note_raise now s s') = phase_of s'"
  by (simp add: phase_of_def note_raise_def)

lemma phase_off_step:
  assumes "permitted" and "\<not> cs_on s"
  shows "phase_step c d now permitted stopped (phase_of s)
      (phase_of (fst (step_off_consumer c s eligible setpoint now (dl_on (cycle_delays d)))))"
proof (cases "cs_since s \<noteq> None \<and> flt (elapsed now (cs_since s)) (cn_min_off_s c) \<or> \<not> eligible")
  case True
  then show ?thesis
    using assms by (auto simp: step_off_consumer_def phase_of_def intro: phase_step.calm)
next
  case False
  then have rest: "rested c now (cs_since s)"
    by (simp add: rested_def)
  show ?thesis
    using assms False rest
    by (cases "cs_on_pending s")
      (auto simp: step_off_consumer_def phase_of_def Let_def set_on_def waited_def
        intro: phase_step.start_waiting phase_step.switch_on phase_step.stand)
qed

lemma phase_percent_step:
  assumes p: "permitted" and n: "\<not> stopped"
  shows "phase_step c d now permitted stopped (phase_of s)
      (phase_of (fst (step_percent c s p available now (dl_on (cycle_delays d)) off holding)))"
proof (cases "cs_on s")
  case True
  then show ?thesis
    using n unfolding step_percent_def Let_def
    by (auto simp: phase_of_def set_off_def ran_def intro: phase_step.keep_on phase_step.switch_off)
next
  case False
  then show ?thesis
    using phase_off_step [OF p False, of c d now stopped] unfolding step_percent_def Let_def
    by (simp add: case_prod_beta)
qed

lemma phase_onoff_step:
  assumes p: "permitted" and n: "\<not> stopped"
  shows "phase_step c d now permitted stopped (phase_of s)
      (phase_of (fst (step_onoff c s p available now (dl_on (cycle_delays d)) off holding)))"
proof (cases "cs_on s")
  case True
  then show ?thesis
    using n unfolding step_onoff_def Let_def
    by (auto simp: phase_of_def set_off_def ran_def intro: phase_step.keep_on phase_step.switch_off)
next
  case False
  then show ?thesis
    using phase_off_step [OF p False, of c d now stopped] unfolding step_onoff_def Let_def
    by (simp add: case_prod_beta)
qed

lemma trigger_level_fields:
  "cs_on (fst (step_trigger c s available now on_delay)) = cs_on s"
  "cs_since (fst (step_trigger c s available now on_delay)) = cs_since s"
  "cs_on_pending (fst (step_trigger c s available now on_delay)) = cs_on_pending s"
  "cs_setpoint (fst (step_trigger c s available now on_delay)) = cs_setpoint s"
  "cs_blocked (fst (step_trigger c s available now on_delay)) = cs_blocked s"
  "cs_mode (fst (step_trigger c s available now on_delay)) = cs_mode s"
  by (simp_all add: step_trigger_def rearm_trigger_def Let_def)

lemma phase_serve_step:
  assumes p: "permitted" and n: "\<not> stopped"
  shows "phase_step c d now permitted stopped (phase_of s)
      (phase_of (fst (serve c s p offer now (cycle_delays d) holding)))"
proof -
  have "phase_of (fst (step_trigger c s offer now on_delay)) = phase_of s" for on_delay
    by (simp add: phase_of_def trigger_level_fields)
  moreover have "phase_step c d now permitted stopped (phase_of s) (phase_of s)"
    using n by (auto simp: phase_of_def intro: phase_step.stand phase_step.keep_on)
  ultimately show ?thesis
    using phase_percent_step [OF assms] phase_onoff_step [OF assms] by (simp add: serve_def)
qed

subsection \<open>A whole tick\<close>

definition stop_phase :: "pyfloat \<Rightarrow> phase \<Rightarrow> phase" where
  "stop_phase now ph = (case ph of Running t \<Rightarrow> Standby (Some now) None | Standby t w \<Rightarrow> Standby t None)"

lemma stop_phase_twice: "stop_phase now (stop_phase now ph) = stop_phase now ph"
  by (simp add: stop_phase_def split: phase.split)

lemma phase_reset_phase: "phase_of (reset_state now s) = stop_phase now (phase_of s)"
  unfolding phase_reset by (simp add: phase_of_def stop_phase_def)

lemma phase_clear_phase:
  "phase_of (clear_pending s)
     = (case phase_of s of Running t \<Rightarrow> Running t | Standby t w \<Rightarrow> Standby t None)"
  unfolding phase_clear by (simp add: phase_of_def)

lemma phase_sampled:
  "phase_of (sampled ins now c rel fault s)
    = (if cn_active c \<and> \<not> rel \<and> \<not> cs_blocked s then stop_phase now (phase_of s) else phase_of s)"
  by (simp add: sampled_def Let_def phase_reset_phase phase_release phase_signal)

lemma serve_blocked: "cs_blocked (fst (serve c s p offer now dl holding)) = cs_blocked s"
  by (simp add: serve_def trigger_level_fields step_percent_def step_onoff_def step_off_consumer_def
      set_on_def set_off_def Let_def case_prod_beta)

lemma serve_state_blocked: "cs_blocked (serve_state rating now dl shedding offer c s) = cs_blocked s"
  by (simp add: serve_state_def reset_state_def set_off_def note_raise_def serve_blocked split: option.split)

lemma phase_forced:
  "\<not> permitted \<Longrightarrow> phase_step c d now permitted stopped (phase_of s) (phase_of (reset_state now s))"
  by (cases "phase_of s") (auto simp: phase_reset_phase stop_phase_def intro: phase_step.calm phase_step.force_off)

lemma consumer_tick_refines:
  assumes t: "consumer_tick d ins now rating status c s s'" and ok: "consumer_ok c s"
  shows "phase_step c d now (may_run status c s' rating) (must_stop d status c s') (phase_of s) (phase_of s')"
  using t
proof cases
  case (halt rel fault)
  have "phase_of s' = phase_of (reset_state now s)"
    by (simp add: halt phase_reset_phase phase_sampled stop_phase_twice)
  with halt show ?thesis
    by (simp add: phase_forced may_run_def)
next
  case (hold rel fault)
  have "phase_of s' = phase_of (clear_pending s)"
    using hold by (simp add: phase_clear_phase phase_sampled)
  moreover have "\<not> must_stop d status c s'"
    using hold by (simp add: must_stop_def clear_pending_def sampled_blocked)
  ultimately show ?thesis
    by (cases "phase_of s") (auto simp: phase_clear_phase intro: phase_step.calm phase_step.keep_on)
next
  case (skip rel fault)
  show ?thesis
  proof (cases "cn_active c \<and> \<not> rel \<and> \<not> cs_blocked s")
    case True
    then have "phase_of s' = phase_of (reset_state now s)" and "cs_blocked s'"
      by (simp_all add: skip phase_sampled phase_reset_phase sampled_blocked)
    then show ?thesis
      by (simp add: phase_forced may_run_def)
  next
    case False
    then have same: "phase_of s' = phase_of s" and b: "cs_blocked s' = (\<not> rel)"
      using skip by (auto simp: phase_sampled sampled_blocked)
    show ?thesis
    proof (cases "cs_on s")
      case True
      then have "\<not> must_stop d status c s'"
        using False b skip consumer_okD(5,6) [OF ok] by (auto simp: must_stop_def)
      then show ?thesis
        unfolding same using True by (simp add: phase_of_def phase_step.keep_on)
    next
      case False
      then show ?thesis
        unfolding same by (simp add: phase_of_def phase_step.stand)
    qed
  qed
next
  case (cycle shedding offer rel fault)
  let ?s1 = "sampled ins now c rel fault s"
  have b: "cs_blocked s' = (\<not> rel)"
    by (simp add: cycle serve_state_blocked sampled_blocked)
  show ?thesis
  proof (cases "cn_active c \<and> rel")
    case False
    then have "phase_of s' = phase_of (reset_state now s)"
      by (auto simp: cycle serve_state_def sampled_blocked phase_reset_phase phase_sampled stop_phase_twice)
    moreover have "\<not> may_run status c s' rating"
      using False b by (auto simp: may_run_def)
    ultimately show ?thesis
      by (simp add: phase_forced)
  next
    case True
    then have same: "phase_of ?s1 = phase_of s"
      by (simp add: phase_sampled)
    show ?thesis
    proof (cases rating)
      case None
      then have "phase_of s' = phase_of (set_off now ?s1)"
        using True by (simp add: cycle serve_state_def sampled_blocked)
      also have "\<dots> = phase_of (reset_state now ?s1)"
        unfolding phase_of_def by (simp add: reset_state_def)
      finally show ?thesis
        unfolding same [symmetric] using None by (simp add: phase_forced may_run_def)
    next
      case (Some p)
      have m: "may_run status c s' rating" "\<not> must_stop d status c s'"
        using True Some b cycle by (simp_all add: may_run_def must_stop_def)
      show ?thesis
        using phase_serve_step [OF m(1,2), of c d now ?s1 p offer shedding] True Some
        unfolding same by (simp add: cycle serve_state_def sampled_blocked phase_raise)
    qed
  qed
qed

section \<open>The invariant of the consumers\<close>

lemma reset_ok: "cs_mode s = cn_mode c \<Longrightarrow> (\<not> cs_on s \<longrightarrow> cs_setpoint s = Fin 0) \<Longrightarrow> consumer_ok c (reset_state now s)"
  by (simp add: consumer_ok_def reset_state_def set_off_def)

text \<open>The fields of a consumer that the sampling of its signals leaves alone.\<close>

lemma signal_level_fields:
  "cs_on (signal_state ins now c s) = cs_on s" "cs_since (signal_state ins now c s) = cs_since s"
  "cs_setpoint (signal_state ins now c s) = cs_setpoint s" "cs_mode (signal_state ins now c s) = cs_mode s"
  "cs_pulse_until s = None \<Longrightarrow> cs_pulse_until (signal_state ins now c s) = None"
  by (simp_all add: signal_state_def read_reset_def end_pulse_state_def Let_def split: option.split)

lemma sampled_ok: "consumer_ok c s \<Longrightarrow> consumer_ok c (sampled ins now c rel fault s)"
  unfolding sampled_def Let_def
  by (cases "cn_active c \<and> \<not> rel \<and> \<not> cs_blocked s")
    (auto simp: consumer_ok_def reset_state_def set_off_def set_release_fields signal_level_fields)

lemma step_off_ok:
  assumes "consumer_ok c s" "cn_mode c \<noteq> ''trigger''" "cn_active c" "\<not> cs_blocked s"
  shows "consumer_ok c (fst (step_off_consumer c s eligible setpoint now on_delay))"
  using assms by (auto simp: consumer_ok_def step_off_consumer_def Let_def set_on_def)

lemma serve_ok:
  assumes ok: "consumer_ok c s" and act: "cn_active c" "\<not> cs_blocked s"
  shows "consumer_ok c (fst (serve c s p offer now dl holding))"
proof -
  consider (percent) "cn_mode c = ''percent''" | (onoff) "cn_mode c = ''onoff''"
    | (trigger) "cn_mode c \<noteq> ''percent''" "cn_mode c \<noteq> ''onoff''"
    by blast
  then show ?thesis
  proof cases
    case percent
    show ?thesis
    proof (cases "cs_on s")
      case True
      then show ?thesis
        using ok act percent unfolding serve_def step_percent_def Let_def
        by (simp add: consumer_ok_def set_off_def)
    next
      case False
      then show ?thesis
        using step_off_ok [OF ok _ act] percent unfolding serve_def step_percent_def Let_def
        by (simp add: case_prod_beta)
    qed
  next
    case onoff
    show ?thesis
    proof (cases "cs_on s")
      case True
      then show ?thesis
        using ok act onoff unfolding serve_def step_onoff_def Let_def
        by (simp add: consumer_ok_def set_off_def)
    next
      case False
      then show ?thesis
        using step_off_ok [OF ok _ act] onoff unfolding serve_def step_onoff_def Let_def
        by (simp add: case_prod_beta)
    qed
  next
    case trigger
    then show ?thesis
      using ok act unfolding serve_def by (simp add: consumer_ok_def trigger_level_fields)
  qed
qed

lemma consumer_tick_ok:
  assumes "consumer_tick d ins now rating status c s s'" and ok: "consumer_ok c s"
  shows "consumer_ok c s'"
  using assms(1)
proof cases
  case (halt rel fault)
  then show ?thesis
    using sampled_ok [OF ok, of ins now rel fault] by (simp add: reset_ok consumer_okD)
next
  case (hold rel fault)
  then show ?thesis
    using sampled_ok [OF ok, of ins now rel fault] by (simp add: consumer_ok_def clear_pending_def)
next
  case (skip rel fault)
  then show ?thesis
    by (simp add: sampled_ok [OF ok])
next
  case (cycle shedding offer rel fault)
  let ?s = "sampled ins now c rel fault s"
  have s: "consumer_ok c ?s"
    by (rule sampled_ok [OF ok])
  show ?thesis
  proof (cases "cn_active c \<and> \<not> cs_blocked ?s \<and> rating \<noteq> None")
    case True
    then obtain p where p: "rating = Some p"
      by auto
    have "consumer_ok c (note_raise now ?s (fst (serve c ?s p offer now (cycle_delays d) shedding)))"
      using serve_ok [OF s, of p offer now "cycle_delays d" shedding] True
      by (simp add: note_raise_def consumer_ok_def serve_blocked)
    then show ?thesis
      using True by (simp add: cycle serve_state_def p)
  next
    case False
    then show ?thesis
      using s by (auto simp: cycle serve_state_def reset_ok consumer_okD split: option.split)
        (simp_all add: consumer_ok_def set_off_def)
  qed
qed

inductive hems_runs :: "settings \<Rightarrow> hems_state \<Rightarrow> bool" for d where
  start: "hems_runs d initial_hems"
| evaluated: "hems_runs d s \<Longrightarrow> hems_runs d (snd (hems_evaluate d ins now s))"

lemma prepared_ok:
  assumes "\<forall>st. old = Some st \<longrightarrow> consumer_ok c st"
  shows "consumer_ok c (prepared now c old)"
  using assms by (cases old) (auto simp: prepared_def new_consumer_ok consumer_okD)

lemma prepared_phase:
  assumes "\<forall>st. map_of sts (cn_id c) = Some st \<longrightarrow> consumer_ok c st"
  shows "phase_of (prepared now c (map_of sts (cn_id c))) = phase_of (state_of sts c)"
  using assms by (auto simp: prepared_def state_of_def phase_of_def new_consumer_state_def consumer_okD split: option.split)

lemma hems_runs_ok:
  assumes "hems_runs d s" and c: "c \<in> set (consumers_of d)"
  shows "\<forall>st. map_of (hs_consumers s) (cn_id c) = Some st \<longrightarrow> consumer_ok c st"
  using assms(1)
proof induction
  case start
  then show ?case
    by (simp add: initial_hems_def)
next
  case (evaluated s ins now)
  from hems_evaluate_consumer [OF c, of ins now s] prepared_ok [OF evaluated.IH, of now]
  have "consumer_ok c (state_of (hs_consumers (snd (hems_evaluate d ins now s))) c)"
    using consumer_tick_ok by blast
  then show ?case
    by (auto simp: state_of_def)
qed

section \<open>Triggers\<close>

definition reset_edge :: "inputs \<Rightarrow> consumer \<Rightarrow> consumer_state \<Rightarrow> bool" where
  "reset_edge ins c s \<longleftrightarrow> logic_to_bool (data_get ins (port (cn_id c) @ ''_reset'')) \<and> \<not> cs_reset_prev s"

definition locked_out :: "pyfloat \<Rightarrow> consumer_state \<Rightarrow> bool" where
  "locked_out now s \<longleftrightarrow> (\<exists>t. cs_lockout_until s = Some t \<and> flt now t)"

lemma sampled_trigger:
  assumes "cn_mode c = ''trigger''" and "cs_pulse_until s = None"
  shows "cs_pulse_until (sampled ins now c rel fault s) = None"
    and "cs_armed (sampled ins now c rel fault s) \<longleftrightarrow> cs_armed s \<or> reset_edge ins c s"
    and "cs_lockout_until (sampled ins now c rel fault s) = (if reset_edge ins c s then None else cs_lockout_until s)"
  using assms
  by (auto simp: sampled_def Let_def reset_state_def set_off_def set_release_def signal_state_def
      end_pulse_state_def read_reset_def reset_edge_def)

lemma step_trigger_fires:
  assumes "cs_pulse_until s = None" and "cs_pulse_until (fst (step_trigger c s available now on_delay)) = Some t"
  shows "t = fadd now (cn_pulse_s c)"
    and "\<not> cs_armed (fst (step_trigger c s available now on_delay))"
    and "cs_lockout_until (fst (step_trigger c s available now on_delay)) = Some (fadd now (cn_lockout_s c))"
    and "\<not> locked_out now s"
    and "cs_armed s \<or> cn_rearm c \<in> {''after_lockout'', ''after_drop''}"
  using assms
  by (auto simp: step_trigger_def rearm_trigger_def Let_def locked_out_def split: if_splits option.splits)

lemma step_trigger_locked:
  assumes "cs_pulse_until s = None" and "locked_out now s"
  shows "cs_pulse_until (fst (step_trigger c s available now on_delay)) = None"
    and "cs_lockout_until (fst (step_trigger c s available now on_delay)) = cs_lockout_until s"
  using assms by (auto simp: step_trigger_def rearm_trigger_def Let_def locked_out_def)

lemma serve_state_trigger:
  assumes "cn_mode c = ''trigger''"
  shows "serve_state rating now dl shedding offer c s
      = (if \<not> cn_active c \<or> cs_blocked s then reset_state now s
         else case rating of None \<Rightarrow> set_off now s
            | Some p \<Rightarrow> note_raise now s (fst (step_trigger c s offer now (dl_on dl))))"
  using assms by (simp add: serve_state_def serve_def split: option.split)

lemma note_raise_trigger:
  "cs_pulse_until (note_raise now s s') = cs_pulse_until s'" "cs_armed (note_raise now s s') = cs_armed s'"
  "cs_lockout_until (note_raise now s s') = cs_lockout_until s'"
  by (simp_all add: note_raise_def)

lemma reset_trigger:
  "cs_pulse_until (reset_state now s) = None" "cs_lockout_until (reset_state now s) = cs_lockout_until s"
  by (simp_all add: reset_state_def set_off_def)

lemma set_off_trigger:
  "cs_pulse_until (set_off now s) = cs_pulse_until s" "cs_lockout_until (set_off now s) = cs_lockout_until s"
  by (simp_all add: set_off_def)

lemma clear_trigger:
  "cs_pulse_until (clear_pending s) = cs_pulse_until s" "cs_lockout_until (clear_pending s) = cs_lockout_until s"
  by (simp_all add: clear_pending_def)

lemma consumer_tick_trigger:
  assumes t: "consumer_tick d ins now rating status c s s'" and m: "cn_mode c = ''trigger''"
    and p: "cs_pulse_until s = None" and s': "cs_pulse_until s' = Some e"
  shows "may_run status c s' rating \<and> e = fadd now (cn_pulse_s c) \<and> \<not> cs_armed s'
    \<and> cs_lockout_until s' = Some (fadd now (cn_lockout_s c))
    \<and> (reset_edge ins c s
       \<or> (\<not> locked_out now s \<and> (cs_armed s \<or> cn_rearm c \<in> {''after_lockout'', ''after_drop''})))"
  using t
proof cases
  case (cycle shedding offer rel fault)
  let ?s1 = "sampled ins now c rel fault s"
  have p1: "cs_pulse_until ?s1 = None"
    by (rule sampled_trigger [OF m p])
  have run: "cn_active c \<and> rel \<and> rating \<noteq> None"
    using cycle s' p1 by (auto simp: serve_state_trigger [OF m] reset_trigger set_off_trigger sampled_blocked
        split: if_splits option.splits)
  then have eq: "s' = note_raise now ?s1 (fst (step_trigger c ?s1 offer now (dl_on (cycle_delays d))))"
    using cycle by (auto simp: serve_state_trigger [OF m] sampled_blocked)
  have fired: "cs_pulse_until (fst (step_trigger c ?s1 offer now (dl_on (cycle_delays d)))) = Some e"
    using s' unfolding eq by (simp add: note_raise_trigger)
  have "cs_blocked s' = (\<not> rel)"
    by (simp add: cycle serve_state_blocked sampled_blocked)
  with run have "may_run status c s' rating"
    using cycle by (simp add: may_run_def)
  moreover have "reset_edge ins c s \<or> (\<not> locked_out now s \<and> (cs_armed s \<or> cn_rearm c \<in> {''after_lockout'', ''after_drop''}))"
    using step_trigger_fires(4,5) [OF p1 fired] by (auto simp: sampled_trigger [OF m p] locked_out_def)
  ultimately show ?thesis
    using step_trigger_fires(1-3) [OF p1 fired] unfolding eq by (simp add: note_raise_trigger)
qed (use s' in \<open>simp_all add: reset_trigger clear_trigger sampled_trigger [OF m p]\<close>)

lemma consumer_tick_locked:
  assumes t: "consumer_tick d ins now rating status c s s'" and m: "cn_mode c = ''trigger''"
    and p: "cs_pulse_until s = None" and l: "locked_out now s" and e: "\<not> reset_edge ins c s"
  shows "cs_pulse_until s' = None \<and> cs_lockout_until s' = cs_lockout_until s"
  using t
proof cases
  case (cycle shedding offer rel fault)
  let ?s1 = "sampled ins now c rel fault s"
  have s1: "cs_pulse_until ?s1 = None" "cs_lockout_until ?s1 = cs_lockout_until s"
    using e by (simp_all add: sampled_trigger [OF m p])
  then have "locked_out now ?s1"
    using l by (simp add: locked_out_def)
  with s1 show ?thesis
    by (simp add: cycle serve_state_trigger [OF m] reset_trigger set_off_trigger note_raise_trigger
        step_trigger_locked split: option.split)
qed (use e in \<open>simp_all add: reset_trigger clear_trigger sampled_trigger [OF m p]\<close>)

lemma prepared_trigger:
  assumes "\<forall>st. map_of sts (cn_id c) = Some st \<longrightarrow> consumer_ok c st"
  shows "cs_pulse_until (prepared now c (map_of sts (cn_id c))) = cs_pulse_until (state_of sts c)"
    and "cs_armed (prepared now c (map_of sts (cn_id c))) = cs_armed (state_of sts c)"
    and "cs_lockout_until (prepared now c (map_of sts (cn_id c))) = cs_lockout_until (state_of sts c)"
    and "cs_reset_prev (prepared now c (map_of sts (cn_id c))) = cs_reset_prev (state_of sts c)"
  using assms by (auto simp: prepared_def state_of_def new_consumer_state_def consumer_okD split: option.split)

section \<open>Ports\<close>

lemma ends_with_append: "ends_with suffix (a @ suffix)"
  by (simp add: ends_with_def)

lemma ends_with_app: "ends_with e s \<longleftrightarrow> (\<exists>a. s = a @ e)"
proof
  assume "ends_with e s"
  then show "\<exists>a. s = a @ e"
    unfolding ends_with_def by (metis append_take_drop_id)
qed (auto simp: ends_with_def)

text \<open>What follows a consumer's own port in the names of its inputs and outputs.\<close>

definition output_endings :: "string list" where
  "output_endings = [[], ''_status'']"

definition input_endings :: "string list" where
  "input_endings = [''_power'', ''_max_power'', ''_enable'', ''_reset'']"

definition id_ok :: "string \<Rightarrow> bool" where
  "id_ok u \<longleftrightarrow> u \<noteq> [] \<and> \<not> list_ex (\<lambda>e. ends_with e u) reserved_id_endings"

lemma ends_with_last: "ends_with e (u @ ''_'') \<Longrightarrow> e \<noteq> [] \<Longrightarrow> last e = CHR ''_''"
  by (auto simp: ends_with_app) (metis last_appendR last_snoc)

lemma underscore_id_ok: "id_ok (u @ ''_'')"
  by (auto simp: id_ok_def reserved_id_endings_def dest!: ends_with_last)

lemma unique_id_shape: "unique_id seen u = u \<or> (\<exists>v. unique_id seen u = v @ ''_'')"
proof (induction seen u rule: unique_id.induct)
  case (1 seen cid)
  then show ?case
    by (subst (1 2) unique_id.simps) auto
qed

lemma consumer_id_ok: "id_ok (consumer_id seen index v)"
proof -
  define base where "base = (case id_safe (raw_id v) of [] \<Rightarrow> ''n'' @ show_nat (index + 1) | s \<Rightarrow> s)"
  define cid where "cid = (if list_ex (\<lambda>e. ends_with e base) reserved_id_endings then base @ ''_'' else base)"
  have "base \<noteq> []"
    by (auto simp: base_def split: list.split)
  then have "id_ok cid"
    using underscore_id_ok by (auto simp: cid_def id_ok_def)
  moreover have "consumer_id seen index v = unique_id seen cid"
    by (simp add: consumer_id_def cid_def base_def Let_def)
  ultimately show ?thesis
    using unique_id_shape [of seen cid] underscore_id_ok by auto
qed

lemma load_items_ok: "c \<in> set (load_items seen index items) \<Longrightarrow> id_ok (cn_id c)"
  by (induction seen index items rule: load_items.induct)
    (auto simp: Let_def load_consumer_def consumer_id_ok)

lemma consumers_of_ok: "c \<in> set (consumers_of d) \<Longrightarrow> id_ok (cn_id c)"
  by (auto simp: consumers_of_def load_consumers_def dest: load_items_ok split: pyval.splits)

text \<open>No two endings name the same port of different consumers.\<close>

lemma port_names_distinct:
  assumes "id_ok u" "id_ok v" and "port u @ e = port v @ e'"
    and "(e \<in> set output_endings \<and> e' \<in> set output_endings) \<or> (e \<in> set input_endings \<and> e' \<in> set input_endings)"
  shows "u = v \<and> e = e'"
proof -
  have eq: "u @ e = v @ e'"
    using assms(3) by (simp add: port_def)
  have rev: "rev e @ rev u = rev e' @ rev v"
    using eq by (metis rev_append)
  have no: "\<not> ends_with s u \<and> \<not> ends_with s v" if "s \<in> set reserved_id_endings" for s
    using assms(1,2) that by (auto simp: id_ok_def list_ex_iff)
  have "u \<noteq> v @ ''_status''" "v \<noteq> u @ ''_status''" "u \<noteq> v @ ''_max''" "v \<noteq> u @ ''_max''"
    using no [of "''_status''"] no [of "''_max''"] by (auto simp: reserved_id_endings_def ends_with_app)
  then show ?thesis
    using assms(4) eq rev by (auto simp: output_endings_def input_endings_def)
qed

section \<open>The properties\<close>

lemma hems_evaluate_from_runs:
  assumes r: "hems_runs d s" and c: "c \<in> set (consumers_of d)"
  obtains status st where "hs_status (snd (hems_evaluate d ins now s)) = Some status"
    and "consumer_tick d ins now (rated_power c (inputs_seen d ins now s)) status c st
          (state_of (hs_consumers (snd (hems_evaluate d ins now s))) c)"
    and "st = prepared now c (map_of (hs_consumers s) (cn_id c))" and "consumer_ok c st"
    and "phase_of st = phase_of (state_of (hs_consumers s) c)"
    and "reset_edge ins c st = reset_edge ins c (state_of (hs_consumers s) c)"
    and "locked_out now st = locked_out now (state_of (hs_consumers s) c)"
    and "cs_armed st = cs_armed (state_of (hs_consumers s) c)"
    and "cs_pulse_until st = cs_pulse_until (state_of (hs_consumers s) c)"
    and "cs_lockout_until st = cs_lockout_until (state_of (hs_consumers s) c)"
  using hems_evaluate_consumer [OF c, of ins now s] prepared_ok [OF hems_runs_ok [OF r c], of now]
    prepared_phase [OF hems_runs_ok [OF r c], of now] prepared_trigger [OF hems_runs_ok [OF r c], of now]
  by (auto simp: reset_edge_def locked_out_def)

text \<open>
  C7. The switching contract.  Every evaluation takes a consumer through one step of the abstract
  machine: it is switched on only while it is permitted (status ok, active, released, power known),
  rested for its minimum off time and after waiting out the on-delay; it is switched off by choice
  only after its minimum run time; anything else that stops it is a lost permission; and it never
  stays on inactive, locked, or in the safe state.
\<close>

theorem hems_switching_contract:
  assumes "hems_runs d s" and "c \<in> set (consumers_of d)"
  shows "\<exists>status. hs_status (snd (hems_evaluate d ins now s)) = Some status
    \<and> phase_step c d now
        (may_run status c (state_of (hs_consumers (snd (hems_evaluate d ins now s))) c)
           (rated_power c (inputs_seen d ins now s)))
        (must_stop d status c (state_of (hs_consumers (snd (hems_evaluate d ins now s))) c))
        (phase_of (state_of (hs_consumers s) c))
        (phase_of (state_of (hs_consumers (snd (hems_evaluate d ins now s))) c))"
proof -
  obtain status st where "hs_status (snd (hems_evaluate d ins now s)) = Some status"
      and "consumer_tick d ins now (rated_power c (inputs_seen d ins now s)) status c st
            (state_of (hs_consumers (snd (hems_evaluate d ins now s))) c)"
      and "consumer_ok c st" and "phase_of st = phase_of (state_of (hs_consumers s) c)"
    using hems_evaluate_from_runs [OF assms, of ins now] by metis
  then show ?thesis
    using consumer_tick_refines by metis
qed

definition example_settings :: settings where
  "example_settings = [(''consumers'', PList [PDict [(''mode'', PStr ''trigger'')]])]"

lemma example_consumer: "hd (consumers_of example_settings) \<in> set (consumers_of example_settings)"
  by (rule hd_in_set) (simp add: consumers_of_def example_settings_def data_get_def load_consumers_def Let_def)

lemma example_mode: "cn_mode (hd (consumers_of example_settings)) = ''trigger''"
proof -
  have "py_lower (py_strip ''trigger'') = ''trigger''"
    by code_simp
  then show ?thesis
    by (simp add: consumers_of_def example_settings_def data_get_def load_consumers_def load_consumer_def
        Let_def one_of_def consumer_modes_def)
qed

theorem hems_switching_contract_witness:
  "hems_runs example_settings initial_hems
   \<and> (\<exists>status. hs_status (snd (hems_evaluate example_settings [(''grid'', PInt (- 5000))] (Fin 0) initial_hems)) = Some status
    \<and> phase_step (hd (consumers_of example_settings)) example_settings (Fin 0)
        (may_run status (hd (consumers_of example_settings))
           (state_of (hs_consumers (snd (hems_evaluate example_settings [(''grid'', PInt (- 5000))] (Fin 0) initial_hems)))
             (hd (consumers_of example_settings)))
           (rated_power (hd (consumers_of example_settings))
             (inputs_seen example_settings [(''grid'', PInt (- 5000))] (Fin 0) initial_hems)))
        (must_stop example_settings status (hd (consumers_of example_settings))
           (state_of (hs_consumers (snd (hems_evaluate example_settings [(''grid'', PInt (- 5000))] (Fin 0) initial_hems)))
             (hd (consumers_of example_settings))))
        (phase_of (state_of (hs_consumers initial_hems) (hd (consumers_of example_settings))))
        (phase_of (state_of (hs_consumers (snd (hems_evaluate example_settings [(''grid'', PInt (- 5000))] (Fin 0) initial_hems)))
          (hd (consumers_of example_settings)))))"
  using hems_switching_contract [OF hems_runs.start example_consumer] hems_runs.start by blast

text \<open>
  C8. The invariant of the consumers.  In every state the block reaches, a consumer that is inactive
  or locked by its release input is off with its setpoint at 0 and no pulse running; a running one is
  no trigger and has the time it was switched on; and unless values are held for a missing
  measurement, every consumer is off while the block is not in status ok.
\<close>

theorem hems_consumer_invariant:
  assumes "hems_runs d s" and "c \<in> set (consumers_of d)"
  shows "(if cs_on (state_of (hs_consumers s) c)
          then cn_active c \<and> \<not> cs_blocked (state_of (hs_consumers s) c) \<and> cn_mode c \<noteq> ''trigger''
             \<and> cs_since (state_of (hs_consumers s) c) \<noteq> None
             \<and> (hs_status s = Some ''ok'' \<or> (\<exists>p. hs_status s = Some p \<and> holds_values d p))
          else cs_setpoint (state_of (hs_consumers s) c) = Fin 0)
    \<and> (cs_pulse_until (state_of (hs_consumers s) c) = None
       \<or> (cn_active c \<and> \<not> cs_blocked (state_of (hs_consumers s) c)))"
  using assms(1)
proof cases
  case start
  then show ?thesis
    by (simp add: initial_hems_def state_of_def new_consumer_state_def)
next
  case (evaluated s0 ins now)
  obtain status st where status: "hs_status s = Some status"
      and t: "consumer_tick d ins now (rated_power c (inputs_seen d ins now s0)) status c st (state_of (hs_consumers s) c)"
      and ok: "consumer_ok c st"
    using hems_evaluate_from_runs [OF evaluated(2) assms(2), of ins now] unfolding evaluated(1) by metis
  have "status = ''ok'' \<or> holds_values d status \<or> \<not> cs_on (state_of (hs_consumers s) c)"
    using t by cases (simp_all add: reset_state_def set_off_def)
  then show ?thesis
    using consumer_tick_ok [OF t ok] status by (auto simp: consumer_ok_def)
qed

theorem hems_consumer_invariant_witness:
  "(if cs_on (state_of (hs_consumers (snd (hems_evaluate example_settings [] (Fin 0) initial_hems))) (hd (consumers_of example_settings)))
    then cn_active (hd (consumers_of example_settings))
       \<and> \<not> cs_blocked (state_of (hs_consumers (snd (hems_evaluate example_settings [] (Fin 0) initial_hems))) (hd (consumers_of example_settings)))
       \<and> cn_mode (hd (consumers_of example_settings)) \<noteq> ''trigger''
       \<and> cs_since (state_of (hs_consumers (snd (hems_evaluate example_settings [] (Fin 0) initial_hems))) (hd (consumers_of example_settings))) \<noteq> None
       \<and> (hs_status (snd (hems_evaluate example_settings [] (Fin 0) initial_hems)) = Some ''ok''
          \<or> (\<exists>p. hs_status (snd (hems_evaluate example_settings [] (Fin 0) initial_hems)) = Some p \<and> holds_values example_settings p))
    else cs_setpoint (state_of (hs_consumers (snd (hems_evaluate example_settings [] (Fin 0) initial_hems))) (hd (consumers_of example_settings))) = Fin 0)
   \<and> (cs_pulse_until (state_of (hs_consumers (snd (hems_evaluate example_settings [] (Fin 0) initial_hems))) (hd (consumers_of example_settings))) = None
      \<or> (cn_active (hd (consumers_of example_settings))
         \<and> \<not> cs_blocked (state_of (hs_consumers (snd (hems_evaluate example_settings [] (Fin 0) initial_hems))) (hd (consumers_of example_settings)))))"
  by (rule hems_consumer_invariant [OF hems_runs.evaluated [OF hems_runs.start] example_consumer])



text \<open>
  C10. Ports never clash.  The consumers of a configuration have different ids, whatever ids their
  entries carry, and neither two outputs nor two inputs of different consumers share a name.
\<close>

theorem hems_ports_distinct:
  assumes "i < length (consumers_of d)" and "j < length (consumers_of d)"
    and "(e \<in> set output_endings \<and> e' \<in> set output_endings) \<or> (e \<in> set input_endings \<and> e' \<in> set input_endings)"
  shows "port (cn_id (consumers_of d ! i)) @ e = port (cn_id (consumers_of d ! j)) @ e' \<longleftrightarrow> i = j \<and> e = e'"
proof -
  have "cn_id (consumers_of d ! i) = cn_id (consumers_of d ! j) \<longleftrightarrow> i = j"
    using nth_eq_iff_index_eq [OF consumers_of_distinct [of d], of i j] assms(1,2) by simp
  then show ?thesis
    using port_names_distinct [OF consumers_of_ok consumers_of_ok _ assms(3)] assms(1,2)
    by (metis nth_mem)
qed

lemma example_pair_length:
  "length (consumers_of [(''consumers'', PList [PDict [(''id'', PStr ''a'')], PDict [(''id'', PStr ''a'')]])]) = 2"
  by (simp add: consumers_of_def data_get_def load_consumers_def Let_def)

theorem hems_ports_distinct_witness:
  "port (cn_id (consumers_of [(''consumers'', PList [PDict [(''id'', PStr ''a'')], PDict [(''id'', PStr ''a'')]])] ! 0))
    \<noteq> port (cn_id (consumers_of [(''consumers'', PList [PDict [(''id'', PStr ''a'')], PDict [(''id'', PStr ''a'')]])] ! 1))"
  using hems_ports_distinct [of 0 "[(''consumers'', PList [PDict [(''id'', PStr ''a'')], PDict [(''id'', PStr ''a'')]])]" 1 "[]" "[]"]
  by (simp add: example_pair_length output_endings_def)

end
