(* ===== verification/Logic_Nodes.thy ===== *)
theory Logic_Nodes
  imports Hems_Tick Transformation
begin

text \<open>
  The evaluation of a node of a logic graph (\<open>GraphExecutor._eval_node\<close> in
  \<open>obs/logic/executor.py\<close>): constants, gates, memory, edges, comparison, arithmetic, datapoints, timers,
  notifications and the surplus block.  What a run takes from outside comes in a record: the clock, the
  pulses that are on, the evaluation of formulas by the interpreter, the expansion of templates, the
  texts of exceptions, and the kinds of nodes that are not modelled.
\<close>

section \<open>State and environment\<close>

text \<open>
  \<open>hysteresis_state[node.id]\<close>: a value, or for the surplus block the engine's state, the run that made
  the last tick and the state before that run.
\<close>

record surplus_state =
  su_engine :: hems_state
  su_run :: "nat option"
  su_undo :: "hems_state option"

datatype node_state = Plain pyval | Surplus surplus_state

type_synonym ports = "(string \<times> pyval) list"

text \<open>An exception of the interpreter, or an \<open>ExecutionError\<close> with its text.\<close>

datatype node_fault = Raised pyerr | Failed string

type_synonym evaluated = "(node_fault, ports) result \<times> node_state option"

record run_env =
  rn_clock :: "string \<Rightarrow> pyfloat"
  rn_tag :: "nat option"
  rn_pulses :: "string set"
  rn_formula :: "pyval \<Rightarrow> ports \<Rightarrow> (string, pyval) result"
  rn_template :: "logic_node \<Rightarrow> string \<Rightarrow> string \<times> string list \<times> bool"
  rn_message :: "pyerr \<Rightarrow> string"
  rn_other :: "logic_node \<Rightarrow> ports \<Rightarrow> node_state option \<Rightarrow> evaluated"

definition data_or :: "ports \<Rightarrow> string \<Rightarrow> pyval \<Rightarrow> pyval" where
  "data_or d k default_value = (case map_of d k of None \<Rightarrow> default_value | Some v \<Rightarrow> v)"

definition stored_plain :: "node_state option \<Rightarrow> pyval option" where
  "stored_plain st = (case st of Some (Plain v) \<Rightarrow> Some v | _ \<Rightarrow> None)"

section \<open>Coercion\<close>

fun to_num :: "pyval \<Rightarrow> pyfloat" where
  "to_num v = (case py_float v of Inr x \<Rightarrow> x | Inl _ \<Rightarrow> Fin 0)"

definition try_num :: "pyval \<Rightarrow> pyfloat option" where
  "try_num v = (case py_float v of Inr x \<Rightarrow> Some x | Inl _ \<Rightarrow> None)"

definition coerce_typed_value :: "logic_node \<Rightarrow> pyval \<Rightarrow> string \<Rightarrow> pyval" where
  "coerce_typed_value n v default_type =
     (let dtype = data_or (ln_data n) ''data_type'' (PStr default_type)
      in if dtype = PStr ''bool'' then PBool (logic_to_bool v)
         else if dtype = PStr ''number'' then PFloat (to_num v)
         else if dtype = PStr ''string'' then PStr (if v = PNone then [] else py_str v)
         else v)"

definition bounded_count :: "ports \<Rightarrow> string \<Rightarrow> int \<Rightarrow> (pyerr, nat) result" where
  "bounded_count d key upper =
     rbind (py_int (data_or d key (PInt 2))) (\<lambda>i. Inr (nat (max 2 (min upper i))))"

definition in_port :: "nat \<Rightarrow> string" where
  "in_port i = ''in'' @ show_nat i"

definition port_bool :: "ports \<Rightarrow> ports \<Rightarrow> string \<Rightarrow> bool" where
  "port_bool d inputs p = (logic_to_bool (data_get inputs p) \<noteq> py_truthy (data_get d (''negate_'' @ p)))"

definition collect_gate_inputs :: "ports \<Rightarrow> ports \<Rightarrow> (pyerr, bool list) result" where
  "collect_gate_inputs d inputs =
     rbind (bounded_count d ''input_count'' 30) (\<lambda>count.
       Inr (map (\<lambda>i. port_bool d inputs (in_port i)) [1..<Suc count]))"

section \<open>Nodes without state\<close>

definition lift_err :: "(pyerr, 'a) result \<Rightarrow> (node_fault, 'a) result" where
  "lift_err r = (case r of Inl e \<Rightarrow> Inl (Raised e) | Inr x \<Rightarrow> Inr x)"

definition eval_const :: "ports \<Rightarrow> ports" where
  "eval_const d =
     (let raw = data_or d ''value'' (PStr ''0''); dtype = data_or d ''data_type'' (PStr ''number'')
      in [(''value'',
           if dtype = PStr ''bool'' then PBool (logic_to_bool raw)
           else if dtype = PStr ''number'' then PFloat (to_num raw)
           else PStr (py_str raw))])"

definition exactly_one :: "bool list \<Rightarrow> bool" where
  "exactly_one vals = (length (filter id vals) = 1)"

definition eval_gate_kind :: "(bool list \<Rightarrow> bool) \<Rightarrow> ports \<Rightarrow> ports \<Rightarrow> (pyerr, ports) result" where
  "eval_gate_kind f d inputs =
     rbind (collect_gate_inputs d inputs) (\<lambda>vals.
       Inr [(''out'', PBool (f vals \<noteq> py_truthy (data_get d ''negate_out'')))])"

datatype comparison = Gt | Lt | Eq | Ge | Le | Ne

definition comparison_of :: "string \<Rightarrow> comparison" where
  "comparison_of s =
     (if s \<in> {''<'', ''lt''} then Lt
      else if s \<in> {''='', ''=='', ''eq''} then Eq
      else if s \<in> {''>='', ''gte''} then Ge
      else if s \<in> {''<='', ''lte''} then Le
      else if s \<in> {''!='', ''ne''} then Ne
      else Gt)"

fun compare_floats :: "comparison \<Rightarrow> pyfloat \<Rightarrow> pyfloat \<Rightarrow> bool" where
  "compare_floats Gt a b = flt b a"
| "compare_floats Lt a b = flt a b"
| "compare_floats Eq a b = feq a b"
| "compare_floats Ge a b = fle b a"
| "compare_floats Le a b = fle a b"
| "compare_floats Ne a b = (\<not> feq a b)"

definition eval_compare :: "ports \<Rightarrow> ports \<Rightarrow> bool" where
  "eval_compare d inputs =
     (let kind = comparison_of (py_lower (py_strip (py_str (data_or d ''operator'' (PStr ''>'')))));
          a = data_get inputs ''in1''; b = data_get inputs ''in2''
      in if a = PNone \<or> b = PNone then False
         else
           (case (try_num a, try_num b) of
              (Some x, Some y) \<Rightarrow> compare_floats kind x y
            | (None, None) \<Rightarrow>
                (case kind of Eq \<Rightarrow> py_str a = py_str b | Ne \<Rightarrow> py_str a \<noteq> py_str b | _ \<Rightarrow> False)
            | _ \<Rightarrow> kind = Ne))"

text \<open>\<open>(d.get(key) or "").strip()\<close>: a value that is no text has no \<open>strip\<close>.\<close>

definition formula_text :: "ports \<Rightarrow> string \<Rightarrow> (pyerr, string) result" where
  "formula_text d key =
     (let v = data_get d key
      in if \<not> py_truthy v then Inr []
         else (case v of PStr s \<Rightarrow> Inr (py_strip s) | _ \<Rightarrow> Inl AttributeError))"

definition run_formula :: "run_env \<Rightarrow> pyval \<Rightarrow> ports \<Rightarrow> (node_fault, pyval) result" where
  "run_formula env f ctx = (case rn_formula env f ctx of Inl t \<Rightarrow> Inl (Failed t) | Inr v \<Rightarrow> Inr v)"

definition eval_formula :: "run_env \<Rightarrow> ports \<Rightarrow> ports \<Rightarrow> (node_fault, ports) result" where
  "eval_formula env d inputs =
     rbind (run_formula env (data_or d ''formula'' (PStr ''a + b''))
              [(''a'', PFloat (to_num (data_get inputs ''in1''))),
               (''b'', PFloat (to_num (data_get inputs ''in2'')))]) (\<lambda>r.
     rbind (lift_err (formula_text d ''output_formula'')) (\<lambda>g.
       if g = [] then Inr [(''result'', r)]
       else rbind (run_formula env (PStr g) [(''x'', r)]) (\<lambda>r2. Inr [(''result'', r2)])))"

definition eval_map :: "ports \<Rightarrow> ports \<Rightarrow> (pyerr, ports) result" where
  "eval_map d inputs =
     rbind (py_float (data_or d ''in_min'' (PInt 0))) (\<lambda>in_min.
     rbind (py_float (data_or d ''in_max'' (PInt 100))) (\<lambda>in_max.
     rbind (py_float (data_or d ''out_min'' (PInt 0))) (\<lambda>out_min.
     rbind (py_float (data_or d ''out_max'' (PInt 1))) (\<lambda>out_max.
       if feq in_max in_min then Inr [(''result'', PFloat out_min)]
       else
         rbind (fdiv (fsub (to_num (data_get inputs ''value'')) in_min) (fsub in_max in_min)) (\<lambda>q.
           Inr [(''result'', PFloat (fadd (fmul q (fsub out_max out_min)) out_min))])))))"

definition eval_clamp :: "ports \<Rightarrow> ports \<Rightarrow> (pyerr, ports) result" where
  "eval_clamp d inputs =
     rbind (py_float (data_or d ''min'' (PInt 0))) (\<lambda>lo.
     rbind (py_float (data_or d ''max'' (PInt 100))) (\<lambda>hi.
       Inr [(''result'', PFloat (py_max lo (py_min hi (to_num (data_get inputs ''value'')))))]))"

text \<open>The formula and the value map of a datapoint block; a formula that fails leaves the value.\<close>

definition datapoint_value :: "run_env \<Rightarrow> ports \<Rightarrow> pyval \<Rightarrow> (pyerr, pyval) result" where
  "datapoint_value env d v =
     rbind (formula_text d ''value_formula'') (\<lambda>f.
       let v1 = (if f \<noteq> [] \<and> v \<noteq> PNone
                 then (case rn_formula env (PStr f) [(''x'', PFloat (to_num v))] of Inl _ \<Rightarrow> v | Inr w \<Rightarrow> w) else v);
           m = data_get d ''value_map''
       in if py_truthy m \<and> v1 \<noteq> PNone
          then (case m of PDict kvs \<Rightarrow> Inr (apply_value_map v1 (Some kvs)) | _ \<Rightarrow> Inl AttributeError)
          else Inr v1)"

definition eval_read :: "run_env \<Rightarrow> ports \<Rightarrow> ports \<Rightarrow> (pyerr, ports) result" where
  "eval_read env d inputs =
     rbind (datapoint_value env d (data_get inputs ''value'')) (\<lambda>v.
       Inr [(''value'', v), (''changed'', data_or inputs ''changed'' (PBool False))])"

definition eval_write :: "run_env \<Rightarrow> ports \<Rightarrow> ports \<Rightarrow> (pyerr, ports) result" where
  "eval_write env d inputs =
     rbind (datapoint_value env d (data_get inputs ''value'')) (\<lambda>v.
       Inr [(''_write_value'', v), (''_triggered'', data_get inputs ''trigger'')])"

definition concat_parts :: "ports \<Rightarrow> nat \<Rightarrow> string list" where
  "concat_parts inputs count =
     map (\<lambda>i. case data_get inputs (''in_'' @ show_nat i) of PNone \<Rightarrow> [] | v \<Rightarrow> py_str v) [1..<Suc count]"

definition eval_concat :: "ports \<Rightarrow> ports \<Rightarrow> string list \<Rightarrow> bool \<Rightarrow> (pyerr, ports) result" where
  "eval_concat d inputs issues failed =
     rbind (bounded_count d ''count'' 20) (\<lambda>count.
       let sep = py_str (data_or d ''separator'' (PStr []));
           r = [(''result'', if failed then PNone else PStr (join_with sep (concat_parts inputs count)))]
       in Inr (if issues = [] then r else r @ [(''_issues'', PList (map PStr issues))]))"

definition fires :: "ports \<Rightarrow> bool" where
  "fires inputs \<longleftrightarrow> data_get inputs ''message'' \<noteq> PNone
     \<or> (map_of inputs ''trigger'' \<noteq> None \<and> logic_to_bool (data_get inputs ''trigger''))"

definition eval_notify :: "string \<Rightarrow> ports \<Rightarrow> ports" where
  "eval_notify ty inputs =
     [(''_trigger'', PBool (fires inputs)), (''_message'', data_get inputs ''message'')]
     @ (if ty \<in> {''notify_pushover'', ''notify_message''}
        then [(''_url'', data_get inputs ''url''), (''_url_title'', data_get inputs ''url_title''),
              (''_image_url'', data_get inputs ''image_url''), (''sent'', PBool False)]
        else if ty = ''message_archive''
        then [(''_title'', data_get inputs ''title''), (''stored'', PBool False)]
        else [(''sent'', PBool False)])"

definition eval_hours :: "ports \<Rightarrow> ports" where
  "eval_hours inputs =
     [(''hours'', PFloat (round_digits (to_num (data_or inputs ''_computed_hours'' (PFloat (Fin 0)))) 4)),
      (''_active'', PBool (logic_to_bool (data_get inputs ''active''))),
      (''_reset'', PBool (logic_to_bool (data_get inputs ''reset'')))]"

section \<open>Nodes with state\<close>

definition eval_gate :: "ports \<Rightarrow> ports \<Rightarrow> node_state option \<Rightarrow> evaluated" where
  "eval_gate d inputs st =
     (if logic_to_bool (data_get inputs ''enable'') \<noteq> py_truthy (data_get d ''negate_enable'')
      then (Inr [(''out'', data_get inputs ''in'')], Some (Plain (data_get inputs ''in'')))
      else if data_or d ''closed_behavior'' (PStr ''retain'') = PStr ''retain''
      then (Inr [(''out'', case stored_plain st of None \<Rightarrow> PNone | Some v \<Rightarrow> v)], st)
      else
        (let raw = data_or d ''default_value'' (PStr ''0'')
         in (case py_float raw of
               Inr x \<Rightarrow> Inr [(''out'', PFloat x)]
             | Inl e \<Rightarrow> if e = TypeError \<or> e = ValueError
                        then Inr [(''out'', if raw = PNone then PNone else PStr (py_str raw))]
                        else Inl (Raised e),
             st)))"

definition memory_initial_value :: "logic_node \<Rightarrow> pyval" where
  "memory_initial_value n = coerce_typed_value n (data_get (ln_data n) ''initial_value'') ''auto''"

definition memory_value :: "logic_node \<Rightarrow> node_state option \<Rightarrow> pyval" where
  "memory_value n st =
     (case stored_plain st of
        None \<Rightarrow> memory_initial_value n
      | Some PNone \<Rightarrow> memory_initial_value n
      | Some (PDict kvs) \<Rightarrow> (case map_of kvs ''value'' of Some v \<Rightarrow> v | None \<Rightarrow> memory_initial_value n)
      | Some v \<Rightarrow> v)"

definition set_memory_value :: "pyval \<Rightarrow> node_state" where
  "set_memory_value v = Plain (PDict [(''value'', v)])"

definition stored_level :: "node_state option \<Rightarrow> pyval option" where
  "stored_level st = (case stored_plain st of Some (PDict kvs) \<Rightarrow> map_of kvs ''value'' | _ \<Rightarrow> None)"

definition no_edge :: ports where
  "no_edge = [(''rising'', PBool False), (''falling'', PBool False)]"

definition edge_output :: "logic_node \<Rightarrow> bool \<Rightarrow> ports" where
  "edge_output n rising =
     (let d = ln_data n;
          action = py_str (if rising then data_or d ''on_rising'' (PStr ''value'')
                           else data_or d ''on_falling'' (PStr ''value''));
          configured = (if rising then data_or d ''value_rising'' (PStr ''true'')
                        else data_or d ''value_falling'' (PStr ''false''));
          v = coerce_typed_value n configured ''bool'';
          pulse = [(''rising'', PBool rising), (''falling'', PBool (\<not> rising))]
      in if action = ''off'' then no_edge
         else if action = ''trigger'' then pulse
         else pulse @ [(''out'', case v of PFloat x \<Rightarrow> PFloat (if finite_float x then x else Fin 0) | _ \<Rightarrow> v)])"

definition eval_edge :: "logic_node \<Rightarrow> ports \<Rightarrow> node_state option \<Rightarrow> ports \<times> node_state option" where
  "eval_edge n inputs st =
     (if py_truthy (data_get inputs ''_suppress_change_filter'') then (no_edge, st)
      else if logic_to_bool (data_get inputs ''reset'') then (no_edge, Some (Plain (PDict [])))
      else if data_get inputs ''in'' = PNone then (no_edge, st)
      else
        (let current = logic_to_bool (data_get inputs ''in'');
             st' = Some (Plain (PDict [(''value'', PBool current)]))
         in (case stored_level st of
               None \<Rightarrow> no_edge
             | Some v \<Rightarrow> if current = py_truthy v then no_edge else edge_output n current,
             st')))"

definition eval_hysteresis :: "ports \<Rightarrow> ports \<Rightarrow> node_state option \<Rightarrow> evaluated" where
  "eval_hysteresis d inputs st =
     (case rbind (py_float (data_or d ''threshold_on'' (PFloat (Fin 25)))) (\<lambda>on_thr.
           rbind (py_float (data_or d ''threshold_off'' (PFloat (Fin 20)))) (\<lambda>off_thr.
             Inr (on_thr, off_thr))) of
        Inl e \<Rightarrow> (Inl (Raised e), st)
      | Inr (on_thr, off_thr) \<Rightarrow>
          (let old = (case stored_plain st of None \<Rightarrow> PBool False | Some v \<Rightarrow> v);
               v = data_get inputs ''value''; x = to_num v;
               new = (if fle on_thr x then PBool True else if fle x off_thr then PBool False else old)
           in if v = PNone then (Inr [(''out'', old)], st)
              else (Inr [(''out'', new)], Some (Plain new))))"

section \<open>The surplus block in a graph\<close>

definition surplus_of :: "node_state option \<Rightarrow> surplus_state" where
  "surplus_of st =
     (case st of Some (Surplus s) \<Rightarrow> s | _ \<Rightarrow> \<lparr>su_engine = initial_hems, su_run = None, su_undo = None\<rparr>)"

text \<open>The state before the first tick of a run is kept, so that an obsolete run can be undone.\<close>

definition remember_run :: "nat option \<Rightarrow> surplus_state \<Rightarrow> surplus_state" where
  "remember_run tag s =
     (if tag \<noteq> None \<and> su_run s \<noteq> tag then s\<lparr>su_undo := Some (su_engine s), su_run := tag\<rparr> else s)"

definition eval_surplus :: "run_env \<Rightarrow> logic_node \<Rightarrow> ports \<Rightarrow> node_state option \<Rightarrow> ports \<times> node_state option" where
  "eval_surplus env n inputs st =
     (let s = remember_run (rn_tag env) (surplus_of st); d = ln_data n
      in case hems_evaluate d inputs (rn_clock env (ln_id n)) (su_engine s) of
           (emitted, engine) \<Rightarrow>
             (assoc_set ''_emitted'' (PList (map PStr (sort (map fst emitted))))
                (merge_outputs emitted (filter (\<lambda>(k, v). k \<notin> trigger_output_handles d) (hs_last_out engine))),
              Some (Surplus (s\<lparr>su_engine := engine\<rparr>))))"

definition undo_hems_run :: "nat option \<Rightarrow> surplus_state \<Rightarrow> surplus_state" where
  "undo_hems_run tag s =
     (case su_undo s of
        Some old \<Rightarrow>
          if su_run s = tag
          then \<lparr>su_engine = old\<lparr>hs_last_seen := hs_last_seen (su_engine s), hs_held := hs_held (su_engine s)\<rparr>,
                su_run = None, su_undo = None\<rparr>
          else s
      | None \<Rightarrow> s)"

definition forget_hems_undo :: "nat option \<Rightarrow> surplus_state \<Rightarrow> surplus_state" where
  "forget_hems_undo tag s = (if su_run s = tag then s\<lparr>su_undo := None, su_run := None\<rparr> else s)"

section \<open>One node\<close>

definition without_state :: "(node_fault, ports) result \<Rightarrow> node_state option \<Rightarrow> evaluated" where
  "without_state r st = (r, st)"

definition eval_node :: "run_env \<Rightarrow> logic_node \<Rightarrow> ports \<Rightarrow> string list \<Rightarrow> bool \<Rightarrow> node_state option \<Rightarrow> evaluated" where
  "eval_node env n inputs issues failed st =
     (let t = ln_type n; d = ln_data n; plain = (\<lambda>r. without_state r st); get = data_get inputs
      in if t = ''const_value'' then plain (Inr (eval_const d))
         else if t = ''and'' then plain (lift_err (eval_gate_kind (list_all id) d inputs))
         else if t = ''or'' then plain (lift_err (eval_gate_kind (list_ex id) d inputs))
         else if t = ''not'' then plain (Inr [(''out'', PBool (\<not> logic_to_bool (get ''in1'')))])
         else if t = ''xor'' then plain (lift_err (eval_gate_kind exactly_one d inputs))
         else if t = ''gate'' then eval_gate d inputs st
         else if t = ''memory'' then plain (Inr [(''out'', memory_value n st)])
         else if t = ''edge_detect'' then (case eval_edge n inputs st of (r, st') \<Rightarrow> (Inr r, st'))
         else if t = ''compare'' then plain (Inr [(''out'', PBool (eval_compare d inputs))])
         else if t = ''hysteresis'' then eval_hysteresis d inputs st
         else if t = ''math_formula'' then plain (eval_formula env d inputs)
         else if t = ''math_map'' then plain (lift_err (eval_map d inputs))
         else if t = ''datapoint_read'' then plain (lift_err (eval_read env d inputs))
         else if t = ''datapoint_write'' then plain (lift_err (eval_write env d inputs))
         else if t = ''clamp'' then plain (lift_err (eval_clamp d inputs))
         else if t = ''string_concat'' then plain (lift_err (eval_concat d inputs issues failed))
         else if t = ''operating_hours'' then plain (Inr (eval_hours inputs))
         else if t \<in> {''notify_pushover'', ''notify_message'', ''notify_sms'', ''message_archive''}
         then plain (Inr (eval_notify t inputs))
         else if t = ''wake_on_lan''
         then plain (Inr [(''_trigger'', PBool (logic_to_bool (get ''trigger''))), (''sent'', PBool False)])
         else if t = ''host_check''
         then plain (Inr [(''_trigger'', PBool (logic_to_bool (get ''trigger''))), (''reachable'', PBool False),
                          (''latency_ms'', PNone)])
         else if t = ''api_client''
         then plain (Inr [(''_trigger'', get ''trigger''), (''_body'', get ''body''), (''response'', PNone),
                          (''status'', PNone), (''success'', PBool False)])
         else if t = ''timer_cron'' then plain (Inr [(''trigger'', data_or inputs ''trigger'' (PBool False))])
         else if t = ''timer_delay'' then plain (Inr [(''trigger'', PBool (py_truthy (get ''_fire'')))])
         else if t = ''timer_pulse'' then plain (Inr [(''out'', PBool (ln_id n \<in> rn_pulses env))])
         else if t = ''value_sequence''
         then plain (Inr [(''_triggered'', get ''trigger''), (''_condition'', data_or inputs ''condition'' (PBool True))])
         else if t = ''hems_surplus'' then (case eval_surplus env n inputs st of (r, st') \<Rightarrow> (Inr r, st'))
         else rn_other env n inputs st)"

end
