(* ===== verification/Logic_Executor.thy ===== *)
theory Logic_Executor
  imports Logic_Nodes
begin

text \<open>
  The run of a logic graph (\<open>GraphExecutor.execute\<close> in \<open>obs/logic/executor.py\<close>): the nodes in the order
  of the analysis, each with the outputs of its sources, the missing inputs that make a node fail, the
  diagnostics of cyclic nodes, and the values the memory blocks take over at the end.  Values are not
  shared in the model, so the deep copies of the code are the values themselves; the capture of inputs
  for the debugger is left out.
\<close>

section \<open>Edges\<close>

text \<open>Where an input comes from: node and output handle.\<close>

type_synonym wires = "(string \<times> string \<times> string) list"

definition handle_or :: "string \<Rightarrow> string option \<Rightarrow> string" where
  "handle_or fallback h = (case h of None \<Rightarrow> fallback | Some s \<Rightarrow> if s = [] then fallback else s)"

definition wires_of :: "(string \<times> wires) list \<Rightarrow> string \<Rightarrow> wires" where
  "wires_of em u = (case map_of em u of None \<Rightarrow> [] | Some ws \<Rightarrow> ws)"

definition build_edge_map :: "flow \<Rightarrow> (string \<times> wires) list" where
  "build_edge_map fl =
     fold (\<lambda>e em. assoc_set (le_target e)
         (assoc_set (handle_or ''in'' (le_target_handle e))
            (le_source e, handle_or ''out'' (le_source_handle e)) (wires_of em (le_target e))) em)
       (fl_edges fl) []"

text \<open>An output by its handle, with the older names \<open>result\<close> and \<open>out\<close> standing for each other.\<close>

definition try_output :: "ports \<Rightarrow> string \<Rightarrow> pyval option" where
  "try_output outs h =
     (case map_of outs h of
        Some v \<Rightarrow> Some v
      | None \<Rightarrow>
          if h = ''result'' then map_of outs ''out''
          else if h = ''out'' then map_of outs ''result'' else None)"

section \<open>What a run knows of the graph\<close>

record run_graph =
  gr_wires :: "(string \<times> wires) list"
  gr_retained :: "(string \<times> string set) list"
  gr_levels :: "(string \<times> string set) list"
  gr_quiet :: "string set"
  gr_filtered :: "string set"

text \<open>Everything a change filter depends on.\<close>

definition sources_of :: "(string \<times> wires) list \<Rightarrow> string \<Rightarrow> string list" where
  "sources_of em u = map (\<lambda>(h, src, sh). src) (wires_of em u)"

definition all_sources :: "(string \<times> wires) list \<Rightarrow> string list" where
  "all_sources em = concat (map (\<lambda>(u, ws). map (\<lambda>(h, src, sh). src) ws) em)"

fun add_new :: "string list \<Rightarrow> string list \<Rightarrow> string list \<Rightarrow> string list \<times> string list" where
  "add_new [] seen pending = (seen, pending)"
| "add_new (s # ss) seen pending =
     (if s \<in> set seen then add_new ss seen pending else add_new ss (s # seen) (s # pending))"

lemma add_new_seen: "set (fst (add_new ss seen pending)) = set ss \<union> set seen"
  by (induction ss seen pending rule: add_new.induct) auto

lemma add_new_measure:
  assumes "finite A" and "set ss \<subseteq> A"
  shows "card (A - set (fst (add_new ss seen pending))) + length (snd (add_new ss seen pending))
    \<le> card (A - set seen) + length pending"
  using assms(2)
proof (induction ss seen pending rule: add_new.induct)
  case (2 s ss seen pending)
  show ?case
  proof (cases "s \<in> set seen")
    case True
    then show ?thesis
      using 2(1) 2(3) by simp
  next
    case False
    have "set (s # seen) = insert s (set seen)"
      by simp
    moreover have "A - set seen = insert s (A - insert s (set seen))"
      using 2(3) False by auto
    then have "card (A - set seen) = Suc (card (A - insert s (set seen)))"
      using assms(1) by (metis Diff_iff card_insert_disjoint finite_Diff insertI1)
    moreover have "card (A - set (fst (add_new ss (s # seen) (s # pending))))
        + length (snd (add_new ss (s # seen) (s # pending))) \<le> card (A - set (s # seen)) + length (s # pending)"
      using 2(2) [OF False] 2(3) by simp
    ultimately show ?thesis
      using False by simp
  qed
qed simp

lemma sources_of_subset: "set (sources_of em u) \<subseteq> set (all_sources em)"
proof (cases "map_of em u")
  case (Some ws)
  then have "(u, ws) \<in> set em"
    by (rule map_of_SomeD)
  then show ?thesis
    by (force simp: sources_of_def wires_of_def all_sources_def Some)
qed (simp add: sources_of_def wires_of_def)

function grow :: "(string \<times> wires) list \<Rightarrow> string list \<Rightarrow> string list \<Rightarrow> string list" where
  "grow em seen [] = seen"
| "grow em seen (u # pending) =
     (case add_new (sources_of em u) seen pending of (seen', pending') \<Rightarrow> grow em seen' pending')"
  by pat_completeness auto
termination
proof (relation "measure (\<lambda>(em, seen, pending). card (set (all_sources em) - set seen) + length pending)")
  fix em :: "(string \<times> wires) list" and seen pending seen' pending' :: "string list" and u :: string
  assume eq: "(seen', pending') = add_new (sources_of em u) seen pending"
  note le = add_new_measure [OF finite_set sources_of_subset, of em u seen pending]
  show "((em, seen', pending'), em, seen, u # pending)
      \<in> measure (\<lambda>(em, seen, pending). card (set (all_sources em) - set seen) + length pending)"
    using le by (simp add: eq [symmetric])
qed simp

definition change_filter_ancestors :: "flow \<Rightarrow> (string \<times> wires) list \<Rightarrow> string set" where
  "change_filter_ancestors fl em =
     (let filters = remdups (map ln_id (filter (\<lambda>n. ln_type n = ''change_filter'') (fl_nodes fl)))
      in set (grow em filters filters))"

definition retained_of :: "(string \<times> string set) list \<Rightarrow> string \<Rightarrow> string set" where
  "retained_of m u = (case map_of m u of None \<Rightarrow> {} | Some hs \<Rightarrow> hs)"

definition run_graph_of :: "flow \<Rightarrow> (string \<times> string set) list \<Rightarrow> run_graph" where
  "run_graph_of fl retained =
     (let em = build_edge_map fl;
          of_kind = (\<lambda>ty. filter (\<lambda>n. ln_type n = ty) (fl_nodes fl));
          boundary = by_id (\<lambda>_. {''out''})
            (filter (\<lambda>n. ln_type n = ''memory'' \<or> ln_type n = ''edge_detect'') (fl_nodes fl))
      in \<lparr>gr_wires = em,
          gr_retained = fold (\<lambda>(u, hs) m. assoc_set u (retained_of m u \<union> hs) m) retained boundary,
          gr_levels = by_id (\<lambda>n. level_output_handles (ln_data n)) (of_kind ''hems_surplus''),
          gr_quiet = ln_id ` set (filter (\<lambda>n. only_on_change (ln_data n)) (of_kind ''hems_surplus'')),
          gr_filtered = change_filter_ancestors fl em\<rparr>)"

section \<open>The inputs of a node\<close>

type_synonym results = "(string \<times> ports) list"
type_synonym states = "(string \<times> node_state) list"

definition ports_of :: "results \<Rightarrow> string \<Rightarrow> ports" where
  "ports_of outs u = (case map_of outs u of None \<Rightarrow> [] | Some ps \<Rightarrow> ps)"

definition is_surplus :: "run_graph \<Rightarrow> string \<Rightarrow> bool" where
  "is_surplus g u \<longleftrightarrow> map_of (gr_levels g) u \<noteq> None"

text \<open>The value last sent by a surplus block.\<close>

definition retained_level :: "node_state option \<Rightarrow> string \<Rightarrow> pyval option" where
  "retained_level st h = map_of (hs_last_out (su_engine (surplus_of st))) h"

definition emitted_now :: "ports \<Rightarrow> string \<Rightarrow> bool" where
  "emitted_now outs h =
     (case map_of outs ''_emitted'' of Some (PList vs) \<Rightarrow> PStr h \<in> set vs | _ \<Rightarrow> False)"

definition read_wire ::
  "run_graph \<Rightarrow> logic_node \<Rightarrow> (string \<Rightarrow> ports) \<Rightarrow> (string \<Rightarrow> node_state option) \<Rightarrow> string \<times> string \<times> string
     \<Rightarrow> pyval option" where
  "read_wire g n outs sts w =
     (case w of (h, src, sh) \<Rightarrow>
        let v = try_output (outs src) sh
        in if ln_type n = ''datapoint_write'' \<and> h = ''value'' \<and> is_surplus g src
              \<and> map_of (wires_of (gr_wires g) (ln_id n)) ''trigger'' = None
           then
             (if src \<in> gr_quiet g then
                (case v of
                   Some x \<Rightarrow> Some x
                 | None \<Rightarrow> if map_of (outs src) ''__error__'' = None then retained_level (sts src) sh else None)
              else if emitted_now (outs src) sh then v else None)
           else v)"

definition read_wires ::
  "run_graph \<Rightarrow> logic_node \<Rightarrow> (string \<Rightarrow> ports) \<Rightarrow> (string \<Rightarrow> node_state option) \<Rightarrow> ports \<times> wires" where
  "read_wires g n outs sts =
     (let ws = wires_of (gr_wires g) (ln_id n)
      in (List.map_filter (\<lambda>w. map_option (\<lambda>v. (fst w, v)) (read_wire g n outs sts w)) ws,
          filter (\<lambda>w. read_wire g n outs sts w = None) ws))"

text \<open>\<open>d.update(other)\<close>\<close>

definition update_ports :: "ports \<Rightarrow> ports \<Rightarrow> ports" where
  "update_ports extra d = fold (\<lambda>(k, v). assoc_set k v) extra d"

fun fill_texts :: "run_env \<Rightarrow> logic_node \<Rightarrow> nat list \<Rightarrow> ports \<times> string list \<times> bool \<Rightarrow> ports \<times> string list \<times> bool" where
  "fill_texts env n [] x = x"
| "fill_texts env n (i # is) (inputs, issues, failed) =
     (let p = ''in_'' @ show_nat i; static = data_get (ln_data n) (''text_'' @ show_nat i)
      in if data_get inputs p \<noteq> PNone then fill_texts env n is (inputs, issues, failed)
         else
           (case static of
              PStr (c # cs) \<Rightarrow>
                (case rn_template env n (c # cs) of
                   (txt, found, ok) \<Rightarrow>
                     fill_texts env n is (assoc_set p (PStr txt) inputs, issues @ found, failed \<or> \<not> ok))
            | PNone \<Rightarrow> fill_texts env n is (assoc_set p (PStr []) inputs, issues, failed)
            | v \<Rightarrow> fill_texts env n is (assoc_set p v inputs, issues, failed)))"

definition resolve_effective_inputs ::
  "run_env \<Rightarrow> logic_node \<Rightarrow> ports \<Rightarrow> (pyerr, ports \<times> string list \<times> bool) result" where
  "resolve_effective_inputs env n inputs =
     (if ln_type n = ''compare'' \<and> map_of inputs ''in2'' = None then
        (case data_get (ln_data n) ''operand'' of
           PStr s \<Rightarrow> Inr (if py_strip s = [] then inputs else assoc_set ''in2'' (PStr s) inputs, [], False)
         | v \<Rightarrow> Inr (assoc_set ''in2'' v inputs, [], False))
      else if ln_type n = ''string_concat'' then
        rbind (bounded_count (ln_data n) ''count'' 20) (\<lambda>count.
          Inr (fill_texts env n [1..<Suc count] (inputs, [], False)))
      else Inr (inputs, [], False))"

section \<open>Missing inputs\<close>

text \<open>The missing inputs that count: not overridden, not absent by the meaning of their source.\<close>

definition unresolved_wires ::
  "run_graph \<Rightarrow> logic_node \<Rightarrow> ports \<Rightarrow> (string \<Rightarrow> ports) \<Rightarrow> wires \<Rightarrow> wires" where
  "unresolved_wires g n overrides outs missing =
     (if ln_type n \<in> tick_boundary_node_types then []
      else filter (\<lambda>(h, src, sh).
             map_of overrides h = None \<and> sh \<notin> retained_of (gr_retained g) src
             \<and> (\<not> is_surplus g src \<or> map_of (outs src) ''__error__'' \<noteq> None \<or> sh \<in> retained_of (gr_levels g) src)
             \<and> \<not> (ln_type n = ''hysteresis'' \<and> h = ''value'') \<and> \<not> (ln_type n = ''edge_detect'' \<and> h = ''in''))
           missing)"

text \<open>Whether the result is the same whatever the missing inputs would be.\<close>

definition absorbs :: "logic_node \<Rightarrow> ports \<Rightarrow> wires \<Rightarrow> (pyerr, bool) result" where
  "absorbs n inputs unresolved =
     (if unresolved = [] then Inr False
      else if ln_type n = ''gate'' \<and> list_all (\<lambda>w. fst w = ''in'') unresolved then
        Inr (\<not> (logic_to_bool (data_get inputs ''enable'') \<noteq> py_truthy (data_get (ln_data n) ''negate_enable'')))
      else if ln_type n = ''and'' \<or> ln_type n = ''or'' then
        rbind (bounded_count (ln_data n) ''input_count'' 30) (\<lambda>count.
          let vals = map (port_bool (ln_data n) inputs)
                (filter (\<lambda>p. p \<notin> fst ` set unresolved) (map in_port [1..<Suc count]))
          in Inr (if ln_type n = ''or'' then list_ex id vals else list_ex Not vals))
      else Inr (ln_type n = ''hems_surplus'' \<or> ln_type n = ''binary_stats''))"

definition missing_text :: "wires \<Rightarrow> string" where
  "missing_text ws =
     ''Missing upstream output: ''
       @ join_with '', '' (map (\<lambda>(h, src, sh). h @ '' <- '' @ src @ ''.'' @ sh) ws)"

section \<open>One node of a run\<close>

definition fault_text :: "run_env \<Rightarrow> node_fault \<Rightarrow> string" where
  "fault_text env f = (case f of Raised e \<Rightarrow> rn_message env e | Failed t \<Rightarrow> t)"

definition error_ports :: "run_env \<Rightarrow> node_fault \<Rightarrow> ports" where
  "error_ports env f = [(''__error__'', PStr (fault_text env f))]"

definition skips_unchanged :: "run_graph \<Rightarrow> wires \<Rightarrow> bool" where
  "skips_unchanged g ws \<longleftrightarrow>
     map_of ws ''trigger'' = None
     \<and> (case map_of ws ''value'' of None \<Rightarrow> False | Some (src, sh) \<Rightarrow> src \<in> gr_quiet g)"

definition none_ports :: "wires \<Rightarrow> ports \<Rightarrow> ports" where
  "none_ports missing inputs =
     fold (\<lambda>w d. if map_of d (fst w) = None then assoc_set (fst w) PNone d else d) missing inputs"

definition run_node ::
  "run_env \<Rightarrow> run_graph \<Rightarrow> ports \<Rightarrow> logic_node \<Rightarrow> (string \<Rightarrow> ports) \<Rightarrow> (string \<Rightarrow> node_state option)
     \<Rightarrow> node_state option \<Rightarrow> ports \<times> node_state option" where
  "run_node env g overrides n outs sts st =
     (case read_wires g n outs sts of
        (read, missing) \<Rightarrow>
          (case lift_err (rbind (resolve_effective_inputs env n (update_ports overrides read)) (\<lambda>(inputs, issues, failed).
                  let unresolved = unresolved_wires g n overrides outs missing
                  in rbind (absorbs n inputs unresolved) (\<lambda>absorbed.
                       Inr (inputs, issues, failed, unresolved, absorbed)))) of
             Inl f \<Rightarrow> (error_ports env f, st)
           | Inr (inputs, issues, failed, unresolved, absorbed) \<Rightarrow>
               if unresolved \<noteq> [] \<and> \<not> absorbed \<and> ln_id n \<in> gr_filtered g
                  \<and> ln_type n \<notin> {''change_filter'', ''memory''}
               then (error_ports env (Failed (missing_text unresolved)), st)
               else
                 (case eval_node env n (if ln_type n = ''hems_surplus'' then none_ports missing inputs else inputs)
                         issues failed st of
                    (Inl f, st') \<Rightarrow> (error_ports env f, st')
                  | (Inr ps, st') \<Rightarrow>
                      (if ln_type n = ''datapoint_write'' \<and> skips_unchanged g (wires_of (gr_wires g) (ln_id n))
                       then assoc_set ''_skip_unchanged'' (PBool True) ps else ps, st'))))"

section \<open>The run\<close>

definition put_node_state :: "string \<Rightarrow> node_state option \<Rightarrow> states \<Rightarrow> states" where
  "put_node_state u st sts = (case st of None \<Rightarrow> assoc_del u sts | Some s \<Rightarrow> assoc_set u s sts)"

definition exec_step ::
  "run_env \<Rightarrow> run_graph \<Rightarrow> (string \<times> ports) list \<Rightarrow> results \<Rightarrow> logic_node \<Rightarrow> results \<times> states \<Rightarrow> results \<times> states" where
  "exec_step env g overrides known n x =
     (case map_of known (ln_id n) of
        Some ps \<Rightarrow> (assoc_set (ln_id n) ps (fst x), snd x)
      | None \<Rightarrow>
          (case run_node env g (ports_of overrides (ln_id n)) n (ports_of (fst x)) (map_of (snd x))
                  (map_of (snd x) (ln_id n)) of
             (ps, st) \<Rightarrow> (assoc_set (ln_id n) ps (fst x), put_node_state (ln_id n) st (snd x))))"

definition cycle_ports :: "string \<Rightarrow> string \<Rightarrow> string list \<Rightarrow> ports" where
  "cycle_ports what diag ordered =
     [(''__error__'', PStr (what @ join_with '', '' (take 5 ordered) @ (if 5 < length ordered then '', ...'' else []))),
      (''__diagnostic__'', PStr diag), (''__cycle_nodes__'', PList (map PStr ordered))]"

definition mark_skipped :: "flow \<Rightarrow> topology \<Rightarrow> results \<Rightarrow> results" where
  "mark_skipped fl t outs =
     (let ordered = map ln_id (filter (\<lambda>n. ln_id n \<in> tp_cyclic t) (fl_nodes fl))
      in fold (\<lambda>n o1.
           if ln_id n \<in> tp_cyclic t then
             assoc_set (ln_id n) (cycle_ports ''Graph cycle detected; node was not executed. Cycle nodes: ''
               ''graph_cycle'' ordered) o1
           else if ln_id n \<in> tp_blocked t then
             assoc_set (ln_id n) (cycle_ports ''Graph cycle detected upstream; node was not executed. Cycle nodes: ''
               ''graph_cycle_blocked'' ordered) o1
           else o1) (fl_nodes fl) outs)"

section \<open>Memory\<close>

definition memory_input ::
  "(string \<times> wires) list \<Rightarrow> results \<Rightarrow> ports \<Rightarrow> logic_node \<Rightarrow> string \<Rightarrow> pyval option" where
  "memory_input em outs overrides n h =
     (case map_of overrides h of
        Some v \<Rightarrow> Some v
      | None \<Rightarrow>
          (case map_of (wires_of em (ln_id n)) h of
             None \<Rightarrow> None
           | Some (src, sh) \<Rightarrow>
               (case map_of outs src of
                  None \<Rightarrow> None
                | Some ps \<Rightarrow> if map_of ps ''__diagnostic__'' \<noteq> None then None else try_output ps sh)))"

definition commit_memory_node ::
  "(string \<times> wires) list \<Rightarrow> results \<Rightarrow> (string \<times> ports) list \<Rightarrow> (string \<times> string) set \<Rightarrow> logic_node \<Rightarrow> states \<Rightarrow> states" where
  "commit_memory_node em outs overrides held n sts =
     (let input = (\<lambda>h. if (ln_id n, h) \<in> held then None
                       else memory_input em outs (ports_of overrides (ln_id n)) n h)
      in if ln_type n \<noteq> ''memory'' then sts
         else if (case input ''reset'' of None \<Rightarrow> False | Some v \<Rightarrow> logic_to_bool v)
         then assoc_set (ln_id n) (set_memory_value (memory_initial_value n)) sts
         else (case input ''in'' of
                 None \<Rightarrow> sts
               | Some v \<Rightarrow> assoc_set (ln_id n) (set_memory_value (coerce_typed_value n v ''auto'')) sts))"

definition commit_memory_inputs ::
  "flow \<Rightarrow> results \<Rightarrow> (string \<times> ports) list \<Rightarrow> (string \<times> string) set \<Rightarrow> states \<Rightarrow> states" where
  "commit_memory_inputs fl outs overrides held sts =
     fold (commit_memory_node (build_edge_map fl) outs overrides held) (fl_nodes fl) sts"

definition execute ::
  "(string set \<Rightarrow> string list) \<Rightarrow> run_env \<Rightarrow> flow \<Rightarrow> (string \<times> string set) list \<Rightarrow> (string \<times> ports) list \<Rightarrow> results
     \<Rightarrow> bool \<Rightarrow> states \<Rightarrow> (results \<times> states) option" where
  "execute enum env fl retained overrides known commit sts =
     map_option (\<lambda>t.
         case fold (exec_step env (run_graph_of fl retained) overrides known) (tp_order t) ([], sts) of
           (outs, sts1) \<Rightarrow>
             let outs1 = mark_skipped fl t outs
             in (outs1, if commit then commit_memory_inputs fl outs1 overrides {} sts1 else sts1))
       (analyze_topology enum fl)"

end
