(* ===== verification/Modbus_Codec.thy ===== *)
theory Modbus_Codec
  imports Dpt_Props
begin

text \<open>
  The register codec of the Modbus adapters (\<open>obs/adapters/modbus_base.py\<close>): values to lists of 16-bit
  registers and back, by data format, byte order, word order and scale factor.  A register is an integer
  as the protocol library hands it over; the bytes and \<open>struct\<close> are those of the KNX codecs.
\<close>

section \<open>Registers\<close>

definition ordered :: "string \<Rightarrow> byte list \<Rightarrow> byte list" where
  "ordered byte_order b = (if byte_order = ''big'' then b else rev b)"

definition word_ordered :: "string \<Rightarrow> int list \<Rightarrow> int list" where
  "word_ordered word_order ws = (if word_order = ''big'' then ws else rev ws)"

definition register :: "int list \<Rightarrow> nat \<Rightarrow> (pyerr, int) result" where
  "register regs i = (if i < length regs then Inr (regs ! i) else Inl IndexError)"

text \<open>\<open>b"".join(struct.pack(bo + "H", word) for word in words)\<close> and its inverse.\<close>

fun pack_words :: "string \<Rightarrow> int list \<Rightarrow> (pyerr, byte list) result" where
  "pack_words bo [] = Inr []"
| "pack_words bo (w # ws) =
     rbind (pack_u 2 w) (\<lambda>b. rbind (pack_words bo ws) (\<lambda>bs. Inr (ordered bo b @ bs)))"

fun unpack_words :: "string \<Rightarrow> byte list \<Rightarrow> int list" where
  "unpack_words bo (x # y # bs) = be_val (ordered bo [x, y]) # unpack_words bo bs"
| "unpack_words bo _ = []"

section \<open>Reading\<close>

text \<open>\<open>raw * scale_factor\<close> of an integer.\<close>

definition times_scale :: "int \<Rightarrow> pyfloat \<Rightarrow> (pyerr, pyfloat) result" where
  "times_scale raw sf = rbind (int_to_float raw) (\<lambda>x. Inr (fmul x sf))"

definition unscaled :: "pyfloat \<Rightarrow> bool" where
  "unscaled sf \<longleftrightarrow> feq sf (Fin 1)"

definition scaled_int :: "pyfloat \<Rightarrow> int \<Rightarrow> (pyerr, pyval) result" where
  "scaled_int sf raw =
     (if unscaled sf then Inr (PInt raw) else rbind (times_scale raw sf) (\<lambda>x. Inr (PFloat x)))"

definition rounded :: "(pyerr, pyval) result \<Rightarrow> (pyerr, pyval) result" where
  "rounded r = rbind r (\<lambda>v. case v of PFloat x \<Rightarrow> Inr (PFloat (round_digits x 6)) | _ \<Rightarrow> Inr v)"

definition decode_two :: "string \<Rightarrow> string \<Rightarrow> string \<Rightarrow> pyfloat \<Rightarrow> int list \<Rightarrow> (pyerr, pyval) result" where
  "decode_two fmt bo wo sf regs =
     (if length regs < 2 then Inr (PInt 0)
      else
        rbind (pack_words bo (word_ordered wo (take 2 regs))) (\<lambda>b.
          if fmt = ''uint32'' then rbind (unpack_u 4 b) (\<lambda>raw. rounded (scaled_int sf raw))
          else if fmt = ''int32'' then rbind (unpack_s 4 b) (\<lambda>raw. rounded (scaled_int sf raw))
          else rbind (unpack_u 4 b) (\<lambda>w.
                 let raw = float32_of_bits w
                 in if unscaled sf then Inr (PFloat raw) else rounded (Inr (PFloat (fmul raw sf))))))"

definition decode_four :: "string \<Rightarrow> pyfloat \<Rightarrow> int list \<Rightarrow> (pyerr, pyval) result" where
  "decode_four fmt sf regs =
     (if length regs < 4 then Inr (PInt 0)
      else
        rbind (pack_words ''big'' (take 4 regs)) (\<lambda>b.
        rbind (if fmt = ''uint64'' then unpack_u 8 b else unpack_s 8 b) (scaled_int sf)))"

definition decode_registers ::
  "int list \<Rightarrow> string \<Rightarrow> string \<Rightarrow> string \<Rightarrow> pyfloat \<Rightarrow> (pyerr, pyval) result" where
  "decode_registers regs fmt bo wo sf =
     (if fmt = ''uint16'' then
        rbind (register regs 0) (\<lambda>raw.
          if unscaled sf then Inr (PInt raw)
          else rbind (times_scale raw sf) (\<lambda>x. rbind (float_to_int x) (\<lambda>i. Inr (PInt i))))
      else if fmt = ''int16'' then
        rbind (register regs 0) (\<lambda>w.
        rbind (pack_u 2 w) (\<lambda>b.
        rbind (unpack_s 2 (ordered bo (ordered bo b))) (scaled_int sf)))
      else if fmt \<in> {''uint32'', ''int32'', ''float32''} then decode_two fmt bo wo sf regs
      else if fmt \<in> {''uint64'', ''int64''} then decode_four fmt sf regs
      else rbind (register regs 0) (\<lambda>raw. Inr (PInt raw)))"

section \<open>Writing\<close>

definition unscale :: "pyfloat \<Rightarrow> pyval \<Rightarrow> (pyerr, pyfloat) result" where
  "unscale sf v = rbind (py_float v) (\<lambda>x. if unscaled sf then Inr x else fdiv x sf)"

definition encode_two :: "string \<Rightarrow> string \<Rightarrow> string \<Rightarrow> pyfloat \<Rightarrow> (pyerr, int list) result" where
  "encode_two fmt bo wo x =
     rbind (if fmt = ''uint32'' then rbind (float_to_int x) (\<lambda>i. pack_u 4 (i mod 2 ^ 32))
            else if fmt = ''int32'' then rbind (float_to_int x) (pack_s 4)
            else rbind (float32_bits x) (pack_u 4)) (\<lambda>b.
       Inr (word_ordered wo (unpack_words bo b)))"

definition encode_four :: "string \<Rightarrow> pyfloat \<Rightarrow> (pyerr, int list) result" where
  "encode_four fmt x =
     rbind (float_to_int x) (\<lambda>i.
     rbind (if fmt = ''uint64'' then pack_u 8 i else pack_s 8 i) (\<lambda>b.
       Inr (unpack_words ''big'' b)))"

definition encode_value :: "pyval \<Rightarrow> string \<Rightarrow> string \<Rightarrow> string \<Rightarrow> pyfloat \<Rightarrow> (pyerr, int list) result" where
  "encode_value v fmt bo wo sf =
     rbind (unscale sf v) (\<lambda>x.
       if fmt = ''int16'' then
         rbind (float_to_int x) (\<lambda>i. rbind (pack_s 2 i) (\<lambda>b. Inr [be_val (ordered bo b)]))
       else if fmt \<in> {''uint32'', ''int32'', ''float32''} then encode_two fmt bo wo x
       else if fmt \<in> {''uint64'', ''int64''} then encode_four fmt x
       else rbind (float_to_int x) (\<lambda>i. Inr [i mod 2 ^ 16]))"

definition register_count :: "string \<Rightarrow> nat" where
  "register_count fmt =
     (if fmt \<in> {''uint32'', ''int32'', ''float32''} then 2
      else if fmt \<in> {''uint64'', ''int64''} then 4 else 1)"

end
