(* ===== verification/Modbus_Props.thy ===== *)
theory Modbus_Props
  imports Modbus_Codec
begin

text \<open>
  The registers of a Modbus value: integers and single precision floats survive the round trip in every
  byte and word order, with the one exception of 16-bit signed integers in little-endian byte order,
  which are written with swapped bytes and read without.
\<close>

section \<open>Bytes and words\<close>

lemma ordered_ordered [simp]: "ordered bo (ordered bo b) = b"
  by (simp add: ordered_def)

lemma length_ordered [simp]: "length (ordered bo b) = length b"
  by (simp add: ordered_def)

lemma word_ordered_simps [simp]:
  "word_ordered wo (word_ordered wo ws) = ws" "length (word_ordered wo ws) = length ws"
  "set (word_ordered wo ws) = set ws"
  by (simp_all add: word_ordered_def)

lemma pack_be_val: "length b = n \<Longrightarrow> pack_u n (be_val b) = Inr b"
  using be_val_bounds [of b] be_bytes_be_val [of b] by (auto simp: pack_u_def)

lemma pack_unpack_words: "even (length b) \<Longrightarrow> pack_words bo (unpack_words bo b) = Inr b"
  by (induction bo b rule: unpack_words.induct) (simp_all add: pack_be_val)

lemma length_unpack_words: "even (length b) \<Longrightarrow> length (unpack_words bo b) = length b div 2"
  by (induction bo b rule: unpack_words.induct) simp_all

lemma unpack_words_range: "w \<in> set (unpack_words bo b) \<Longrightarrow> 0 \<le> w \<and> w < 65536"
proof (induction bo b rule: unpack_words.induct)
  case (1 bo x y bs)
  then show ?case
    using be_val_bounds [of "ordered bo [x, y]"] by auto
qed simp_all

lemma two_bytes: "length b = Suc (Suc 0) \<Longrightarrow> \<exists>x y. b = [x, y]"
  by (auto simp: length_Suc_conv)

lemma unpack_pack_words: "pack_words bo ws = Inr b \<Longrightarrow> unpack_words bo b = ws \<and> length b = 2 * length ws"
proof (induction ws arbitrary: b)
  case (Cons w ws)
  then obtain c bs where c: "pack_u 2 w = Inr c" and bs: "pack_words bo ws = Inr bs" and b: "b = ordered bo c @ bs"
    by (auto simp: rbind_eq_Inr)
  have len: "length c = Suc (Suc 0)" and val: "be_val c = w"
    using unpack_pack_u [OF c] by (auto simp: unpack_u_def split: if_splits)
  obtain x y where "ordered bo c = [x, y]"
    using two_bytes [of "ordered bo c"] len by auto
  moreover from this have "ordered bo [x, y] = c"
    by (metis ordered_ordered)
  ultimately show ?case
    using Cons.IH [OF bs] val by (simp add: b)
qed simp

lemma pack_words_ok: "\<forall>w \<in> set ws. 0 \<le> w \<and> w < 65536 \<Longrightarrow> \<exists>b. pack_words bo ws = Inr b"
  by (induction ws) (auto simp: pack_u_def)

section \<open>Single precision floats\<close>

lemma ilog2_scaled:
  assumes "2 ^ k \<le> m" and "m < 2 ^ Suc k"
  shows "ilog2 (of_int m * pow2 e) = int k + e"
proof (rule ilog2_unique)
  have pow: "pow2 (int j) = of_int (2 ^ j)" for j
    by (simp add: pow2_nat)
  have k: "pow2 (int k) \<le> of_int m" "of_int m < pow2 (int (Suc k))"
    unfolding pow of_int_le_iff of_int_less_iff by (fact assms)+
  show "pow2 (int k + e) \<le> of_int m * pow2 e"
    using k(1) by (simp add: pow2_add)
  have "pow2 (int k + e + 1) = pow2 (int (Suc k)) * pow2 e"
    by (simp add: pow2_add algebra_simps flip: pow2_add)
  then show "of_int m * pow2 e < pow2 (int k + e + 1)"
    using k(2) by simp
qed

lemma bits32_exact:
  assumes "0 < m" and "m < 2 ^ 24" and "- 149 \<le> e" and "e \<le> 104" and "2 ^ 23 \<le> m \<or> e = - 149"
  shows "bits32 (if neg then - (of_int m * pow2 e) else of_int m * pow2 e)
    = Some ((if neg then 2 ^ 31 else 0) + (if m < 2 ^ 23 then m else (e + 150) * 2 ^ 23 + (m - 2 ^ 23)))"
proof -
  define q where "q = (if neg then - (of_int m * pow2 e) else of_int m * pow2 e)"
  have pos: "0 < of_int m * pow2 e"
    using assms(1) by simp
  have sign: "q < 0 \<longleftrightarrow> neg" "q \<noteq> 0" "\<bar>q\<bar> = of_int m * pow2 e"
    using pos by (auto simp: q_def)
  have "max (ilog2 \<bar>q\<bar> - 23) (- 149) = e"
  proof (cases "2 ^ 23 \<le> m")
    case True
    then show ?thesis
      using ilog2_scaled [of 23 m e] assms(2,3) by (simp add: sign)
  next
    case False
    then have "e = - 149"
      using assms(5) by simp
    moreover have "ilog2 \<bar>q\<bar> < - 149 + 23"
    proof (rule ilog2_less)
      have "of_int m < (pow2 23 :: rat)"
        using False pow2_nat [of 23] by simp
      then have "of_int m * pow2 e < pow2 23 * pow2 e"
        by simp
      then show "\<bar>q\<bar> < pow2 (- 149 + 23)"
        by (simp add: sign \<open>e = - 149\<close> flip: pow2_add)
    qed (use pos in \<open>simp add: sign\<close>)
    ultimately show ?thesis
      by simp
  qed
  moreover have "\<bar>round_half_even (q / pow2 e)\<bar> = m"
    using assms(1) round_half_even_of_int [of m] round_half_even_of_int [of "- m"] by (auto simp: q_def)
  ultimately show ?thesis
    using assms sign(1,2) by (simp add: bits32_def Let_def flip: q_def)
qed

lemma float32_bits_of_bits:
  assumes w: "0 \<le> w" "w < 2 ^ 32" and x: "float32_of_bits w \<noteq> NaN" "float32_of_bits w \<noteq> Fin 0"
  shows "float32_bits (float32_of_bits w) = Inr w"
proof -
  define neg where "neg = (2 ^ 31 \<le> w)"
  define e where "e = w div 2 ^ 23 mod 256"
  define m where "m = w mod 2 ^ 23"
  have bounds: "0 \<le> e" "e < 256" "0 \<le> m" "m < 2 ^ 23"
    by (simp_all add: e_def m_def)
  have split: "w = (if neg then 2 ^ 31 else 0) + e * 2 ^ 23 + m"
  proof -
    define u where "u = w div 2 ^ 23"
    have u: "w = u * 2 ^ 23 + m"
      unfolding u_def m_def by (rule div_mult_mod_eq [symmetric])
    then have "0 \<le> u" "u < 512"
      using w bounds(3,4) by simp_all
    have "256 \<le> u \<Longrightarrow> 2 ^ 31 \<le> w" "\<not> 256 \<le> u \<Longrightarrow> w < 2 ^ 31"
      using u bounds(3,4) by simp_all
    then have "neg \<longleftrightarrow> 256 \<le> u"
      unfolding neg_def by linarith
    moreover have "e = (if 256 \<le> u then u - 256 else u)"
      using \<open>0 \<le> u\<close> \<open>u < 512\<close> mod_pos_pos_trivial [of "u - 256" 256]
      unfolding e_def u_def [symmetric] by auto
    ultimately show ?thesis
      using u by simp
  qed
  have val: "float32_of_bits w = (if e = 255 then (if m = 0 then signed_inf neg else NaN)
      else Fin (if neg then - (if e = 0 then of_int m * pow2 (- 149) else of_int (2 ^ 23 + m) * pow2 (e - 150))
                else (if e = 0 then of_int m * pow2 (- 149) else of_int (2 ^ 23 + m) * pow2 (e - 150))))"
    by (simp only: float32_of_bits_def Let_def neg_def e_def m_def)
  consider (inf) "e = 255" "m = 0" | (small) "e = 0" "0 < m" | (normal) "0 < e" "e < 255"
    using x bounds by (auto simp: val split: if_split_asm)
  then have "float32_bits (float32_of_bits w) = Inr ((if neg then 2 ^ 31 else 0) + e * 2 ^ 23 + m)"
  proof cases
    case inf
    then show ?thesis
      unfolding val by (simp add: signed_inf_def)
  next
    case small
    then show ?thesis
      using bits32_exact [of m "- 149" neg] bounds unfolding val by (cases neg) (simp_all add: of_opt_def)
  next
    case normal
    then show ?thesis
      using bits32_exact [of "2 ^ 23 + m" "e - 150" neg] bounds unfolding val by (cases neg) (simp_all add: of_opt_def)
  qed
  then show ?thesis
    unfolding split [symmetric] .
qed

section \<open>The round trip\<close>

definition modbus_ranges :: "(string \<times> int \<times> int) list" where
  "modbus_ranges =
     [(''uint16'', 0, 0xFFFF), (''int16'', - 0x8000, 0x7FFF), (''uint32'', 0, 0xFFFFFFFF),
      (''int32'', - 0x80000000, 0x7FFFFFFF), (''uint64'', 0, 0x1FFFFFFFFFFFFF),
      (''int64'', - 0x1FFFFFFFFFFFFF, 0x1FFFFFFFFFFFFF)]"

lemma unscaled_one [simp]: "unscaled (Fin 1)"
  by (simp add: unscaled_def feq_def)

lemma unscale_int: "\<bar>i\<bar> < 2 ^ 53 \<Longrightarrow> unscale (Fin 1) (PInt i) = Inr (Fin (of_int i))"
  by (simp add: unscale_def int_to_float_exact)

lemma float_to_int_of_int [simp]: "float_to_int (Fin (of_int i)) = Inr i"
  by (simp add: float_to_int_def)

lemma four_bytes_to_registers:
  assumes "length b = 4"
  shows "length (unpack_words bo b) = 2"
    and "pack_words bo (word_ordered wo (take 2 (word_ordered wo (unpack_words bo b)))) = Inr b"
  using assms length_unpack_words [of b bo] pack_unpack_words [of b bo] by simp_all

lemma eight_bytes_to_registers:
  assumes "length b = 8"
  shows "length (unpack_words bo b) = 4" and "pack_words bo (take 4 (unpack_words bo b)) = Inr b"
  using assms length_unpack_words [of b bo] pack_unpack_words [of b bo] by simp_all

text \<open>Every value of an integer format within the exact range of floats, in every order that is read back.\<close>

lemma pack_in_range:
  "0 \<le> i \<Longrightarrow> i < 256 ^ n \<Longrightarrow> pack_u n i = Inr (be_bytes n i) \<and> unpack_u n (be_bytes n i) = Inr i"
  using unpack_pack_u [of n i] by (simp add: pack_u_def)

lemma pack_s_in_range:
  "0 < n \<Longrightarrow> - (256 ^ n div 2) \<le> i \<Longrightarrow> i < 256 ^ n div 2 \<Longrightarrow>
     \<exists>b. pack_s n i = Inr b \<and> length b = n \<and> unpack_s n b = Inr i"
  using unpack_pack_s [of n i] by (simp add: pack_s_def)

lemma two_registers_back:
  assumes "length b = 4" and "fmt \<in> {''uint32'', ''int32'', ''float32''}"
    and "dec = (if fmt = ''uint32'' then rbind (unpack_u 4 b) (\<lambda>i. Inr (PInt i))
                else if fmt = ''int32'' then rbind (unpack_s 4 b) (\<lambda>i. Inr (PInt i))
                else rbind (unpack_u 4 b) (\<lambda>w. Inr (PFloat (float32_of_bits w))))"
  shows "decode_registers (word_ordered wo (unpack_words bo b)) fmt bo wo (Fin 1) = dec"
  using assms four_bytes_to_registers [OF assms(1)]
  by (auto simp: decode_registers_def decode_two_def scaled_int_def rounded_def rbind_def split: sum.split)

lemma four_registers_back:
  assumes "length b = 8" and "fmt \<in> {''uint64'', ''int64''}"
    and "dec = (if fmt = ''uint64'' then rbind (unpack_u 8 b) (\<lambda>i. Inr (PInt i))
                else rbind (unpack_s 8 b) (\<lambda>i. Inr (PInt i)))"
  shows "decode_registers (unpack_words ''big'' b) fmt bo wo (Fin 1) = dec"
  using assms eight_bytes_to_registers [OF assms(1)]
  by (auto simp: decode_registers_def decode_four_def scaled_int_def rbind_def split: sum.split)



lemma int_registers_back:
  assumes "\<bar>i\<bar> < 2 ^ 53"
  shows "encode_value (PInt i) ''uint32'' bo wo (Fin 1)
      = rbind (pack_u 4 (i mod 2 ^ 32)) (\<lambda>b. Inr (word_ordered wo (unpack_words bo b)))"
    and "encode_value (PInt i) ''int32'' bo wo (Fin 1)
      = rbind (pack_s 4 i) (\<lambda>b. Inr (word_ordered wo (unpack_words bo b)))"
  by (simp_all add: encode_value_def unscale_int [OF assms] encode_two_def)

lemma float_registers_back:
  "encode_value (PFloat x) ''float32'' bo wo (Fin 1)
      = rbind (float32_bits x) (\<lambda>w. rbind (pack_u 4 w) (\<lambda>b. Inr (word_ordered wo (unpack_words bo b))))"
  by (simp add: encode_value_def unscale_def encode_two_def rbind_def split: sum.split)



text \<open>
  A signed 16-bit value does not survive in little-endian byte order: it is written with its bytes
  swapped and read back as they are, so what comes back is the value with its two bytes exchanged.
\<close>

theorem modbus_int16_little_swapped:
  assumes "- 0x8000 \<le> i" and "i \<le> 0x7FFF" and "bo \<noteq> ''big''"
  shows "\<exists>regs. encode_value (PInt i) ''int16'' bo wo (Fin 1) = Inr regs
    \<and> decode_registers regs ''int16'' bo wo (Fin 1) = Inr (PInt (to_signed 2 (i mod 256 * 256 + i div 256 mod 256)))"
proof -
  have "\<bar>i\<bar> < 2 ^ 53"
    using assms by simp
  note enc = unscale_int [OF this]
  define h :: byte where "h = word_of_int (i div 256 mod 256)"
  define l :: byte where "l = word_of_int (i mod 256)"
  have uint: "uint h = i div 256 mod 256" "uint l = i mod 256"
    by (simp_all add: h_def l_def)
  have b: "pack_s 2 i = Inr [h, l]"
  proof -
    have "i mod 65536 div 256 mod 256 = i div 256 mod 256"
      using zmod_zmult2_eq [of 256 i 256] by simp
    then show ?thesis
      using assms by (simp add: pack_s_def h_def l_def numeral_2_eq_2 mod_mod_cancel)
  qed
  have val: "be_val [l, h] = i mod 256 * 256 + i div 256 mod 256"
    by (simp add: be_val_def uint)
  have "pack_u 2 (be_val [l, h]) = Inr [l, h]"
    by (simp add: pack_be_val)
  then show ?thesis
    using assms b val
    by (simp add: encode_value_def enc ordered_def decode_registers_def register_def scaled_int_def
        unpack_s_def unpack_u_def)
qed

theorem modbus_int16_little_swapped_witness:
  "\<exists>regs. encode_value (PInt 1) ''int16'' ''little'' ''big'' (Fin 1) = Inr regs
     \<and> decode_registers regs ''int16'' ''little'' ''big'' (Fin 1) = Inr (PInt 256)"
  using modbus_int16_little_swapped [of 1 "''little''" "''big''"] by (simp add: to_signed_def)

end
