(* ===== verification/Py_Date.thy ===== *)
theory Py_Date
  imports Py_Value
begin

text \<open>
  Dates of \<open>datetime\<close> as their ordinals (\<open>date.toordinal()\<close>, day 1 is 1 January of year 1): comparison and
  the difference of days are those of the ordinals, year, month and day are read off, and a
  \<open>timedelta\<close> is added with the range check of the library.
\<close>

section \<open>Years\<close>

definition year_length :: "nat \<Rightarrow> nat" where
  "year_length y = (if is_leap y then 366 else 365)"

lemma days_before_year_Suc: "1 \<le> y \<Longrightarrow> days_before_year (Suc y) = days_before_year y + year_length y"
proof -
  assume "1 \<le> y"
  then obtain k where y: "y = Suc k"
    by (cases y) auto
  have step: "Suc k div m = (if Suc k mod m = 0 then Suc (k div m) else k div m)" for m
    by (rule div_Suc)
  have "Suc k mod 4 = 0" if "Suc k mod 100 = 0"
    using that mod_mod_cancel [of 4 100 "Suc k"] by simp
  moreover have "Suc k mod 100 = 0" if "Suc k mod 400 = 0"
    using that mod_mod_cancel [of 100 400 "Suc k"] by simp
  moreover have "k div 100 \<le> k"
    by simp
  ultimately show ?thesis
    unfolding y by (simp add: days_before_year_def Let_def step [of 4] step [of 100] step [of 400] year_length_def is_leap_def algebra_simps)
qed

lemma days_before_year_mono: "y \<le> z \<Longrightarrow> 1 \<le> y \<Longrightarrow> days_before_year y \<le> days_before_year z"
proof (induction rule: dec_induct)
  case (step n)
  then show ?case
    using days_before_year_Suc [of n] by simp
qed simp

lemma days_before_year_bounds:
  "146097 * k \<le> 400 * days_before_year (Suc k) + 699" "400 * days_before_year (Suc k) \<le> 146097 * k + 396"
proof -
  have d: "4 * (k div 4) \<le> k" "k < 4 * (k div 4) + 4" "100 * (k div 100) \<le> k" "k < 100 * (k div 100) + 100"
      "400 * (k div 400) \<le> k" "k < 400 * (k div 400) + 400"
    by (simp_all add: dividend_less_times_div mult.commute)
  have n: "days_before_year (Suc k) + k div 100 = 365 * k + k div 4 + k div 400"
    using d(3) by (simp add: days_before_year_def Let_def)
  show "146097 * k \<le> 400 * days_before_year (Suc k) + 699" "400 * days_before_year (Suc k) \<le> 146097 * k + 396"
    using n d by linarith+
qed

definition year_of :: "nat \<Rightarrow> nat" where
  "year_of n =
     (let y = 400 * (n - 1) div 146097 + 1
      in if n \<le> days_before_year y then y - 1 else if days_before_year (Suc y) < n then Suc y else y)"

lemma year_of_unique:
  assumes "1 \<le> y" and "days_before_year y < n" and "n \<le> days_before_year (Suc y)"
  shows "year_of n = y"
proof -
  obtain k where y: "y = Suc k"
    using assms(1) by (cases y) auto
  define q where "q = 400 * (n - 1) div 146097"
  have n: "days_before_year (Suc k) \<le> n - 1" "n - 1 < days_before_year (Suc (Suc k))"
    using assms by (simp_all add: y)
  have "146097 * q \<le> 400 * (n - 1)" "400 * (n - 1) < 146097 * q + 146097"
    by (simp_all add: q_def dividend_less_times_div mult.commute)
  moreover have "400 * (n - 1) + 400 \<le> 400 * days_before_year (Suc (Suc k))"
    using n(2) by simp
  ultimately have "q < k + 1" and "k < q + 2"
    using n(1) days_before_year_bounds [of k] days_before_year_bounds [of "Suc k"] unfolding mult_Suc_right
    by linarith+
  have est: "year_of n = (if n \<le> days_before_year (Suc q) then q else if days_before_year (Suc (Suc q)) < n then Suc (Suc q) else Suc q)"
    unfolding year_of_def Let_def q_def by simp
  from \<open>q < k + 1\<close> \<open>k < q + 2\<close> consider "q = k" | "k = Suc q"
    by linarith
  then show ?thesis
  proof cases
    case 1
    then show ?thesis
      using assms(2,3) by (simp add: est y)
  next
    case 2
    have "days_before_year (Suc q) \<le> days_before_year (Suc (Suc q))"
      by (rule days_before_year_mono) simp_all
    with 2 assms(2,3) show ?thesis
      by (simp add: est y)
  qed
qed

lemma year_exists:
  assumes "1 \<le> n"
  obtains y where "1 \<le> y" "days_before_year y < n" "n \<le> days_before_year (Suc y)"
proof -
  have some: "\<exists>y. n \<le> days_before_year (Suc y)"
    using days_before_year_bounds(1) [of n] assms by (intro exI [of _ "n"]) linarith
  define y where "y = (LEAST y. n \<le> days_before_year (Suc y))"
  have least: "n \<le> days_before_year (Suc y)"
    unfolding y_def by (rule LeastI_ex [OF some])
  have pos: "1 \<le> y"
  proof (rule ccontr)
    assume "\<not> 1 \<le> y"
    then have "y = 0"
      by simp
    with least assms show False
      by (simp add: days_before_year_def)
  qed
  then obtain k where k: "y = Suc k"
    by (cases y) auto
  have "\<not> n \<le> days_before_year (Suc k)"
    using not_less_Least [of k "\<lambda>y. n \<le> days_before_year (Suc y)"] by (simp add: k flip: y_def)
  then show ?thesis
    using that [OF pos] least by (simp add: k flip: y_def)
qed

section \<open>Months and days\<close>

function month_and_day :: "nat \<Rightarrow> nat \<Rightarrow> nat \<Rightarrow> nat \<times> nat" where
  "month_and_day y m d =
     (if d \<le> days_in_month y m \<or> 12 \<le> m then (m, d) else month_and_day y (Suc m) (d - days_in_month y m))"
  by pat_completeness auto
termination by (relation "measure (\<lambda>(y, m, d). 12 - m)") auto

declare month_and_day.simps [simp del]

definition date_of :: "nat \<Rightarrow> nat \<times> nat \<times> nat" where
  "date_of n = (let y = year_of n in (y, month_and_day y 1 (n - days_before_year y)))"

lemma days_before_month_Suc: "1 \<le> m \<Longrightarrow> days_before_month y (Suc m) = days_before_month y m + days_in_month y m"
  by (simp add: days_before_month_def)

lemma days_before_month_1 [simp]: "days_before_month y (Suc 0) = 0"
  by (simp add: days_before_month_def)

lemma month_and_day_step:
  assumes "1 \<le> m" and "m \<le> 12" and "1 \<le> d" and "d \<le> days_in_month y m" and "1 \<le> j" "j \<le> m"
  shows "month_and_day y j (days_before_month y m - days_before_month y j + d) = (m, d)"
  using assms(6)
proof (induction rule: inc_induct)
  case base
  then show ?case
    using assms by (simp add: month_and_day.simps)
next
  case (step n)
  have pos: "1 \<le> n"
    using assms(5) step(1) by simp
  have "days_before_month y (Suc n) \<le> days_before_month y m"
    using Suc_leI [OF step(2)]
  proof (induction rule: dec_induct)
    case (step k)
    then show ?case
      using days_before_month_Suc [of k y] by simp
  qed simp
  then have le: "days_before_month y n + days_in_month y n \<le> days_before_month y m"
    by (simp add: days_before_month_Suc [OF pos])
  then have "days_before_month y m - days_before_month y n + d - days_in_month y n
      = days_before_month y m - days_before_month y (Suc n) + d"
    by (simp add: days_before_month_Suc [OF pos])
  then show ?case
    using step assms le by (subst month_and_day.simps) auto
qed

lemma sum_of_months:
  "days_before_month y 13 = year_length y"
  by (simp add: days_before_month_def upt_rec days_in_month_def year_length_def)

lemma days_before_month_bound:
  assumes "1 \<le> m" and "m \<le> 12" and "1 \<le> d" and "d \<le> days_in_month y m"
  shows "1 \<le> days_before_month y m + d" and "days_before_month y m + d \<le> year_length y"
proof -
  have "days_before_month y (Suc m) \<le> days_before_month y 13"
    using assms(2)
  proof -
    have "Suc m \<le> 13"
      using assms(2) by simp
    then show ?thesis
    proof (induction rule: dec_induct)
      case (step k)
      then show ?case
        using days_before_month_Suc [of k y] assms(1) by simp
    qed simp
  qed
  then show "days_before_month y m + d \<le> year_length y"
    using assms days_before_month_Suc [of m y] by (simp add: sum_of_months)
qed (use assms in simp)

text \<open>The ordinal of a date, and the date of an ordinal.\<close>

lemma date_of_ordinal:
  assumes "1 \<le> y" and "1 \<le> m" and "m \<le> 12" and "1 \<le> d" and "d \<le> days_in_month y m"
  shows "date_of (ordinal y m d) = (y, m, d)"
proof -
  note b = days_before_month_bound [OF assms(2-5)]
  have "year_of (ordinal y m d) = y"
    by (rule year_of_unique [OF assms(1)])
      (use b days_before_year_Suc [OF assms(1)] assms(4) in \<open>auto simp: ordinal_def\<close>)
  then show ?thesis
    using month_and_day_step [OF assms(2-5), of 1] assms(2) by (simp add: date_of_def Let_def ordinal_def)
qed

lemma month_and_day_sound:
  assumes "month_and_day y m d = (m', d')" and "1 \<le> m" and "m \<le> 12" and "1 \<le> d"
    and "days_before_month y m + d \<le> year_length y"
  shows "m \<le> m' \<and> m' \<le> 12 \<and> 1 \<le> d' \<and> d' \<le> days_in_month y m'
    \<and> days_before_month y m' + d' = days_before_month y m + d"
  using assms
proof (induction y m d arbitrary: m' d' rule: month_and_day.induct)
  case (1 y m d)
  show ?case
  proof (cases "d \<le> days_in_month y m \<or> 12 \<le> m")
    case True
    have "d \<le> days_in_month y m"
    proof (rule ccontr)
      assume not: "\<not> ?thesis"
      with True "1.prems"(3) have "m = 12"
        by simp
      then show False
        using not "1.prems"(5) days_before_month_Suc [of 12 y] sum_of_months [of y] by simp
    qed
    then show ?thesis
      using True "1.prems" by (simp add: month_and_day.simps)
  next
    case False
    then have rec: "month_and_day y (Suc m) (d - days_in_month y m) = (m', d')"
      using "1.prems"(1) by (simp add: month_and_day.simps [of y m])
    have "1 \<le> d - days_in_month y m" "Suc m \<le> 12"
      using False "1.prems"(3) by auto
    then show ?thesis
      using "1.IH" [OF False rec] False "1.prems" days_before_month_Suc [OF "1.prems"(2), of y] by simp
  qed
qed

lemma date_of_cases:
  assumes "1 \<le> n"
  obtains y m d where "date_of n = (y, m, d)" "1 \<le> y" "1 \<le> m" "m \<le> 12" "1 \<le> d" "d \<le> days_in_month y m"
    "ordinal y m d = n"
proof -
  obtain y where y: "1 \<le> y" "days_before_year y < n" "n \<le> days_before_year (Suc y)"
    using year_exists [OF assms] by blast
  obtain m d where md: "month_and_day y 1 (n - days_before_year y) = (m, d)"
    by (cases "month_and_day y 1 (n - days_before_year y)")
  have "1 \<le> m \<and> m \<le> 12 \<and> 1 \<le> d \<and> d \<le> days_in_month y m
      \<and> days_before_month y m + d = days_before_month y 1 + (n - days_before_year y)"
    by (rule month_and_day_sound [OF md]) (use y days_before_year_Suc [OF y(1)] in simp_all)
  moreover from this have "ordinal y m d = n"
    using y(2) unfolding ordinal_def days_before_month_1 One_nat_def by linarith
  moreover have "date_of n = (y, m, d)"
    unfolding date_of_def Let_def year_of_unique [OF y] md ..
  ultimately show ?thesis
    using that y(1) by blast
qed

section \<open>Dates of the library\<close>

definition max_ordinal :: nat where
  "max_ordinal = ordinal 9999 12 31"

definition date_year :: "nat \<Rightarrow> nat" where
  "date_year n = fst (date_of n)"

definition date_month :: "nat \<Rightarrow> nat" where
  "date_month n = fst (snd (date_of n))"

definition date_day :: "nat \<Rightarrow> nat" where
  "date_day n = snd (snd (date_of n))"

text \<open>\<open>weekday()\<close>: Monday is 0.\<close>

definition date_weekday :: "nat \<Rightarrow> nat" where
  "date_weekday n = (n + 6) mod 7"

text \<open>\<open>date(year, month, day)\<close> and \<open>d + timedelta(days=k)\<close>.\<close>

definition new_date :: "int \<Rightarrow> int \<Rightarrow> int \<Rightarrow> (pyerr, nat) result" where
  "new_date y m d =
     (if 0 \<le> y \<and> 0 \<le> m \<and> 0 \<le> d \<and> valid_date (nat y) (nat m) (nat d)
      then Inr (ordinal (nat y) (nat m) (nat d)) else Inl ValueError)"

definition add_days :: "nat \<Rightarrow> int \<Rightarrow> (pyerr, nat) result" where
  "add_days n k =
     (if 1 \<le> int n + k \<and> int n + k \<le> int max_ordinal then Inr (nat (int n + k)) else Inl OverflowError)"

lemma date_of_parts:
  assumes "1 \<le> y" and "1 \<le> m" and "m \<le> 12" and "1 \<le> d" and "d \<le> days_in_month y m"
  shows "date_year (ordinal y m d) = y" and "date_month (ordinal y m d) = m" and "date_day (ordinal y m d) = d"
  by (simp_all add: date_year_def date_month_def date_day_def date_of_ordinal [OF assms])

lemma date_weekday_add: "date_weekday (n + k) = (date_weekday n + k) mod 7"
  unfolding date_weekday_def mod_add_left_eq by (simp add: ac_simps)

end
