(* ===== verification/Time_Switch.thy ===== *)
theory Time_Switch
  imports Py_Date Data_Types Event_Bus
begin

text \<open>
  The time switch adapter (\<open>obs/adapters/zeitschaltuhr/adapter.py\<close>): movable feasts and weekdays of a
  month, the expressions of custom holidays and date windows, the decision whether a switching point
  fires in a minute, and one minute of the timer loop.  The holiday library, the positions of the sun,
  the ISO reader and the data types of the datapoints are arguments.  A moment is a date and the minute
  of the day; adding minutes is wall-clock arithmetic, as it is for \<open>datetime\<close>s of one zone.
\<close>

section \<open>Movable dates\<close>

definition advent1_date :: "int \<Rightarrow> (pyerr, nat) result" where
  "advent1_date year =
     rbind (new_date year 12 25) (\<lambda>dec25.
     rbind (add_days dec25 (- (int (date_weekday dec25) + 1))) (\<lambda>advent4.
       add_days advent4 (- 21)))"

definition easter_date :: "int \<Rightarrow> (pyerr, nat) result" where
  "easter_date year =
     (let a = year mod 19; b = year div 100; c = year mod 100; d = b div 4; e = b mod 4;
          f = (b + 8) div 25; g = (b - f + 1) div 3; h = (19 * a + b - d - g + 15) mod 30;
          i = c div 4; k = c mod 4; lv = (32 + 2 * e + 2 * i - h - k) mod 7;
          m = (a + 11 * h + 22 * lv) div 451;
          month = (h + lv - 7 * m + 114) div 31; day = (h + lv - 7 * m + 114) mod 31 + 1
      in new_date year month day)"

text \<open>\<open>while d.weekday() != weekday: d -= timedelta(days=1)\<close>\<close>

fun back_to_weekday :: "nat \<Rightarrow> nat \<Rightarrow> (pyerr, nat) result" where
  "back_to_weekday weekday 0 = Inl OverflowError"
| "back_to_weekday weekday (Suc n) = (if date_weekday (Suc n) = weekday then Inr (Suc n) else back_to_weekday weekday n)"

definition last_weekday_of_month :: "int \<Rightarrow> nat \<Rightarrow> nat \<Rightarrow> (pyerr, nat) result" where
  "last_weekday_of_month year month weekday =
     rbind (new_date year (int month) (int (days_in_month (nat year) month))) (back_to_weekday weekday)"

definition nth_weekday_of_month :: "int \<Rightarrow> nat \<Rightarrow> nat \<Rightarrow> int \<Rightarrow> (pyerr, nat option) result" where
  "nth_weekday_of_month year month weekday n =
     rbind (new_date year (int month) 1) (\<lambda>first.
       let offset = (int weekday - int (date_weekday first)) mod 7
       in rbind (add_days first (offset + 7 * (n - 1))) (\<lambda>target.
            Inr (if date_month target = month then Some target else None)))"

section \<open>Texts\<close>

text \<open>\<open>s.upper()\<close>; the two letters whose capitals are not in Latin-1 stay, which no comparison tells.\<close>

definition upper_char :: "char \<Rightarrow> string" where
  "upper_char c =
     (if (97 \<le> code c \<and> code c \<le> 122) \<or> (224 \<le> code c \<and> code c \<le> 254 \<and> code c \<noteq> 247) then [char_of (code c - 32)]
      else if code c = 223 then ''SS'' else [c])"

definition py_upper :: "string \<Rightarrow> string" where
  "py_upper s = concat (map upper_char s)"

definition weekday_abbr :: "(string \<times> nat) list" where
  "weekday_abbr =
     [(''MO'', 0), (''DI'', 1), (''MI'', 2), (''DO'', 3), (''FR'', 4), (''SA'', 5), (''SO'', 6),
      (''MON'', 0), (''TUE'', 1), (''WED'', 2), (''THU'', 3), (''FRI'', 4), (''SAT'', 5), (''SUN'', 6)]"

definition month_abbr :: "(string \<times> nat) list" where
  "month_abbr =
     [(''JAN'', 1), (''FEB'', 2), (''MAR'', 3), ([CHR ''M'', char_of (196 :: nat), CHR ''R''], 3), (''APR'', 4), (''MAY'', 5),
      (''MAI'', 5), (''JUN'', 6), (''JUL'', 7), (''AUG'', 8), (''SEP'', 9), (''OKT'', 10), (''OCT'', 10),
      (''NOV'', 11), (''DEZ'', 12), (''DEC'', 12)]"

text \<open>\<open>\d{1,2}-\d{1,2}\<close>\<close>

definition match_fixed :: "string \<Rightarrow> (int \<times> int) option" where
  "match_fixed s =
     (case py_split (CHR ''-'') s of
        [a, b] \<Rightarrow> if all_dec a \<and> length a \<le> 2 \<and> all_dec b \<and> length b \<le> 2
                 then Some (int (dec_val a), int (dec_val b)) else None
      | _ \<Rightarrow> None)"

text \<open>\<open>[+-]\d+\<close>\<close>

definition signed_offset :: "string \<Rightarrow> int option" where
  "signed_offset s =
     (case s of
        c # ds \<Rightarrow> if (c = CHR ''+'' \<or> c = CHR ''-'') \<and> all_dec ds
                 then Some (if c = CHR ''-'' then - int (dec_val ds) else int (dec_val ds)) else None
      | [] \<Rightarrow> None)"

text \<open>\<open>WORD([+-]\d+)?\<close>\<close>

definition match_relative :: "string \<Rightarrow> string \<Rightarrow> int option" where
  "match_relative word s =
     (if take (length word) s = word
      then (let r = drop (length word) s in if r = [] then Some 0 else signed_offset r) else None)"

definition abbr_char :: "char \<Rightarrow> bool" where
  "abbr_char c \<longleftrightarrow> (65 \<le> code c \<and> code c \<le> 90) \<or> (97 \<le> code c \<and> code c \<le> 122) \<or> code c \<in> {196, 214, 220}"

definition is_abbr :: "string \<Rightarrow> bool" where
  "is_abbr s \<longleftrightarrow> 2 \<le> length s \<and> length s \<le> 3 \<and> list_all abbr_char s"

text \<open>\<open>(LAST|\d+)_(abbr)_(abbr)\<close>\<close>

definition match_weekday :: "string \<Rightarrow> (string \<times> string \<times> string) option" where
  "match_weekday s =
     (case py_split (CHR ''_'') s of
        [n, wd, mo] \<Rightarrow> if (n = ''LAST'' \<or> all_dec n) \<and> is_abbr wd \<and> is_abbr mo then Some (n, wd, mo) else None
      | _ \<Rightarrow> None)"

section \<open>Custom holidays\<close>

type_synonym holidays = "(nat \<times> string) list"

text \<open>\<open>{d: name} if d is not None else {}\<close>\<close>

definition named :: "string \<Rightarrow> nat option \<Rightarrow> holidays" where
  "named name d = (case d of None \<Rightarrow> [] | Some x \<Rightarrow> [(x, name)])"

definition relative_date :: "(pyerr, nat) result \<Rightarrow> int \<Rightarrow> (pyerr, nat) result" where
  "relative_date r offset = rbind r (\<lambda>d. add_days d offset)"

definition weekday_entry :: "string \<times> string \<times> string \<Rightarrow> int \<Rightarrow> (pyerr, nat option) result" where
  "weekday_entry g year =
     (case g of (n, wd, mo) \<Rightarrow>
        (case (map_of weekday_abbr wd, map_of month_abbr mo) of
           (Some weekday, Some month) \<Rightarrow>
             if n = ''LAST'' then rbind (last_weekday_of_month year month weekday) (\<lambda>d. Inr (Some d))
             else nth_weekday_of_month year month weekday (int (dec_val n))
         | _ \<Rightarrow> Inr None))"

definition parse_custom_holiday_entry :: "string \<Rightarrow> int \<Rightarrow> (pyerr, holidays) result" where
  "parse_custom_holiday_entry entry year =
     (let expr = py_strip (takeWhile (\<lambda>c. c \<noteq> CHR '':'') entry);
          rest = dropWhile (\<lambda>c. c \<noteq> CHR '':'') entry;
          name = (if rest = [] then ''Benutzerdefinierter Feiertag'' else py_strip (tl rest));
          up = py_upper expr;
          one = (\<lambda>r. rbind r (\<lambda>d. Inr (named name (Some d))))
      in case match_fixed expr of
           Some (month, day) \<Rightarrow> one (new_date year month day)
         | None \<Rightarrow>
             (case match_relative ''EASTER'' up of
                Some offset \<Rightarrow> one (relative_date (easter_date year) offset)
              | None \<Rightarrow>
                  (case match_relative ''ADVENT'' up of
                     Some offset \<Rightarrow> one (relative_date (advent1_date year) offset)
                   | None \<Rightarrow>
                       (case match_weekday up of
                          Some g \<Rightarrow> rbind (weekday_entry g year) (\<lambda>d. Inr (named name d))
                        | None \<Rightarrow> Inr []))))"

text \<open>\<open>result.update(...)\<close>\<close>

definition update_holidays :: "holidays \<Rightarrow> holidays \<Rightarrow> holidays" where
  "update_holidays extra hol = fold (\<lambda>(d, n). assoc_set d n) extra hol"

text \<open>A \<open>ValueError\<close> of an entry is reported and skipped, another exception is not caught.\<close>

fun add_custom :: "string list \<Rightarrow> int \<Rightarrow> holidays \<Rightarrow> (pyerr, holidays) result" where
  "add_custom [] year hol = Inr hol"
| "add_custom (entry # entries) year hol =
     (case parse_custom_holiday_entry entry year of
        Inl e \<Rightarrow> if e = ValueError then add_custom entries year hol else Inl e
      | Inr items \<Rightarrow> add_custom entries year (update_holidays items hol))"

fun add_years :: "string list \<Rightarrow> int list \<Rightarrow> holidays \<Rightarrow> (pyerr, holidays) result" where
  "add_years entries [] hol = Inr hol"
| "add_years entries (y # ys) hol = rbind (add_custom entries y hol) (add_years entries ys)"

text \<open>What the adapter takes from outside; a holiday calendar that cannot be loaded is empty.\<close>

datatype sun_direction = Rising | Setting

datatype time_ref = Absolute | Sunrise | Sunset | Solar_Noon | Solar_Altitude

record timer_world =
  tw_calendar :: "int list \<Rightarrow> holidays"
  tw_sun :: "time_ref \<Rightarrow> nat \<Rightarrow> (nat \<times> nat) option"
  tw_altitude :: "pyfloat \<Rightarrow> sun_direction \<Rightarrow> nat \<Rightarrow> (nat \<times> nat) option"
  tw_host :: host
  tw_digit_limit :: nat
  tw_types :: type_table
  tw_data_type :: "uuid \<Rightarrow> string"

record timer_config =
  tc_custom_holidays :: "string list"
  tc_vacations :: "(string \<times> string) list"

definition build_holidays :: "timer_world \<Rightarrow> timer_config \<Rightarrow> int \<Rightarrow> (pyerr, holidays) result" where
  "build_holidays w c year =
     add_years (tc_custom_holidays c) [year, year + 1] (update_holidays (tw_calendar w [year, year + 1]) [])"

definition holidays_for_year :: "timer_world \<Rightarrow> timer_config \<Rightarrow> int \<Rightarrow> (pyerr, holidays) result" where
  "holidays_for_year w c year =
     rbind (add_custom (tc_custom_holidays c) year (update_holidays (tw_calendar w [year]) []))
       (\<lambda>hol. Inr (sort_key fst hol))"

section \<open>Date windows\<close>

definition trailing_offset :: "string \<Rightarrow> (string \<times> int) option" where
  "trailing_offset s =
     (let ds = rev (takeWhile is_dec (rev s)); r = rev (dropWhile is_dec (rev s))
      in if r = [] then None
         else map_option (\<lambda>k. (butlast r, k)) (signed_offset (last r # ds)))"

definition named_holiday ::
  "timer_world \<Rightarrow> timer_config \<Rightarrow> holidays \<Rightarrow> string \<Rightarrow> int \<Rightarrow> int \<Rightarrow> (pyerr, nat option) result" where
  "named_holiday w c hol name offset year =
     (case find (\<lambda>(d, n). int (date_year d) = year \<and> py_upper n = py_upper name) hol of
        Some (d, _) \<Rightarrow> rbind (add_days d offset) (\<lambda>x. Inr (Some x))
      | None \<Rightarrow>
          (case holidays_for_year w c year of
             Inl _ \<Rightarrow> Inr None
           | Inr items \<Rightarrow>
               (case find (\<lambda>(d, n). py_upper n = py_upper name) items of
                  None \<Rightarrow> Inr None
                | Some (d, _) \<Rightarrow> (case add_days d offset of Inl _ \<Rightarrow> Inr None | Inr x \<Rightarrow> Inr (Some x)))))"

definition parse_date_expression ::
  "timer_world \<Rightarrow> timer_config \<Rightarrow> holidays \<Rightarrow> string \<Rightarrow> int \<Rightarrow> (pyerr, nat option) result" where
  "parse_date_expression w c hol expr year =
     (let s = py_strip expr; up = py_upper s; some = (\<lambda>r. rbind r (\<lambda>d. Inr (Some d)))
      in if s = [] then Inr None
         else
           (case match_fixed s of
              Some (month, day) \<Rightarrow> Inr (ok_option (new_date year month day))
            | None \<Rightarrow>
                (case match_relative ''EASTER'' up of
                   Some offset \<Rightarrow> some (relative_date (easter_date year) offset)
                 | None \<Rightarrow>
                     (case match_relative ''ADVENT'' up of
                        Some offset \<Rightarrow> some (relative_date (advent1_date year) offset)
                      | None \<Rightarrow>
                          if take 8 up = ''HOLIDAY:'' then
                            (let r = drop 8 s
                             in case trailing_offset r of
                                  Some (name, offset) \<Rightarrow> named_holiday w c hol (py_strip name) offset year
                                | None \<Rightarrow> named_holiday w c hol (py_strip r) 0 year)
                          else Inr None))))"

definition in_date_window ::
  "timer_world \<Rightarrow> timer_config \<Rightarrow> holidays \<Rightarrow> string \<Rightarrow> string \<Rightarrow> nat \<Rightarrow> (pyerr, bool) result" where
  "in_date_window w c hol from_expr to_expr today =
     (let year = int (date_year today); parse = parse_date_expression w c hol
      in rbind (parse from_expr year) (\<lambda>d_from.
         rbind (parse to_expr year) (\<lambda>d_to.
           case (d_from, d_to) of
             (Some a, Some b) \<Rightarrow>
               if a \<le> b then Inr (a \<le> today \<and> today \<le> b)
               else
                 rbind (parse to_expr (year + 1)) (\<lambda>b_next.
                   case b_next of
                     Some b' \<Rightarrow>
                       if a \<le> today \<and> today \<le> b' then Inr True
                       else rbind (parse from_expr (year - 1)) (\<lambda>a_prev.
                              Inr (case a_prev of None \<Rightarrow> False | Some a' \<Rightarrow> a' \<le> today \<and> today \<le> b))
                   | None \<Rightarrow>
                       rbind (parse from_expr (year - 1)) (\<lambda>a_prev.
                         Inr (case a_prev of None \<Rightarrow> False | Some a' \<Rightarrow> a' \<le> today \<and> today \<le> b)))
           | _ \<Rightarrow> Inr False)))"

section \<open>Vacations and holidays\<close>

definition iso_day :: "timer_world \<Rightarrow> string \<Rightarrow> (pyerr, nat option) result" where
  "iso_day w s =
     (if s = [] then Inr None
      else rbind (host_iso_date (tw_host w) s) (\<lambda>(y, m, d). Inr (Some (ordinal y m d))))"

definition parse_vacation_period :: "timer_world \<Rightarrow> string \<times> string \<Rightarrow> (pyerr, nat option \<times> nat option) result" where
  "parse_vacation_period w p =
     (case rbind (iso_day w (fst p)) (\<lambda>a. rbind (iso_day w (snd p)) (\<lambda>b. Inr (a, b))) of
        Inl e \<Rightarrow> if e = ValueError then Inr (None, None) else Inl e
      | Inr ab \<Rightarrow> Inr ab)"

text \<open>The configuration has six periods, numbered from one; one that is not given has empty texts.\<close>

definition vacation_period :: "timer_config \<Rightarrow> nat \<Rightarrow> string \<times> string" where
  "vacation_period c n = (if 1 \<le> n \<and> n \<le> length (tc_vacations c) then tc_vacations c ! (n - 1) else ([], []))"

definition is_vacation_n :: "timer_world \<Rightarrow> timer_config \<Rightarrow> nat \<Rightarrow> nat \<Rightarrow> (pyerr, bool) result" where
  "is_vacation_n w c d n =
     rbind (parse_vacation_period w (vacation_period c n)) (\<lambda>ab.
       Inr (case ab of (Some a, Some b) \<Rightarrow> a \<le> d \<and> d \<le> b | _ \<Rightarrow> False))"

fun any_vacation :: "timer_world \<Rightarrow> timer_config \<Rightarrow> nat \<Rightarrow> nat list \<Rightarrow> (pyerr, bool) result" where
  "any_vacation w c d [] = Inr False"
| "any_vacation w c d (n # ns) = rbind (is_vacation_n w c d n) (\<lambda>v. if v then Inr True else any_vacation w c d ns)"

definition is_vacation :: "timer_world \<Rightarrow> timer_config \<Rightarrow> nat \<Rightarrow> (pyerr, bool) result" where
  "is_vacation w c d = any_vacation w c d [1, 2, 3, 4, 5, 6]"

definition is_holiday :: "holidays \<Rightarrow> nat \<Rightarrow> bool" where
  "is_holiday hol d \<longleftrightarrow> map_of hol d \<noteq> None"

definition holiday_name :: "holidays \<Rightarrow> nat \<Rightarrow> string" where
  "holiday_name hol d = (case map_of hol d of None \<Rightarrow> [] | Some n \<Rightarrow> n)"

section \<open>Switching points\<close>

datatype timer_type = Daily | Annual | Meta | Holiday

datatype holiday_mode = Ignore | Skip | Only | As_Sunday

datatype meta_type =
    No_Meta | Holiday_Today | Holiday_Tomorrow | Holiday_Name_Today | Holiday_Name_Tomorrow | Vacation nat

record timer_binding =
  tb_type :: timer_type
  tb_meta :: meta_type
  tb_weekdays :: "int list"
  tb_months :: "int list"
  tb_day_of_month :: int
  tb_time_ref :: time_ref
  tb_hour :: nat
  tb_minute :: nat
  tb_offset_minutes :: int
  tb_altitude :: pyfloat
  tb_direction :: sun_direction
  tb_every_hour :: bool
  tb_every_minute :: bool
  tb_holiday_mode :: holiday_mode
  tb_vacation_mode :: holiday_mode
  tb_selected :: "string list"
  tb_window_enabled :: bool
  tb_window_from :: string
  tb_window_to :: string
  tb_value :: string

text \<open>A moment plus \<open>timedelta(minutes=k)\<close>.\<close>

definition add_minutes :: "nat \<times> nat \<Rightarrow> int \<Rightarrow> (pyerr, nat \<times> nat) result" where
  "add_minutes t k =
     (let total = int (snd t) + k
      in rbind (add_days (fst t) (total div 1440)) (\<lambda>d. Inr (d, nat (total mod 1440))))"

definition calculate_target_time ::
  "timer_world \<Rightarrow> timer_binding \<Rightarrow> nat \<Rightarrow> (pyerr, (nat \<times> nat) option) result" where
  "calculate_target_time w b d =
     (let base =
        (if tb_time_ref b = Absolute then Some (d, 60 * tb_hour b + tb_minute b)
         else if tb_time_ref b = Solar_Altitude then tw_altitude w (tb_altitude b) (tb_direction b) d
         else tw_sun w (tb_time_ref b) d)
      in case base of
           None \<Rightarrow> Inr None
         | Some t \<Rightarrow> rbind (add_minutes t (tb_offset_minutes b)) (\<lambda>x. Inr (Some x)))"

text \<open>The last step of both kinds: every minute, every hour, or the hour and minute of the target.\<close>

definition at_target :: "timer_world \<Rightarrow> timer_binding \<Rightarrow> nat \<times> nat \<Rightarrow> (pyerr, bool) result" where
  "at_target w b t =
     (if tb_every_minute b then Inr True
      else if tb_every_hour b then Inr (snd t mod 60 = tb_minute b)
      else rbind (calculate_target_time w b (fst t)) (\<lambda>target.
             Inr (case target of None \<Rightarrow> False | Some x \<Rightarrow> snd t = snd x)))"

definition window_open ::
  "timer_world \<Rightarrow> timer_config \<Rightarrow> holidays \<Rightarrow> timer_binding \<Rightarrow> nat \<Rightarrow> (pyerr, bool) result" where
  "window_open w c hol b today =
     (if tb_window_enabled b \<and> tb_window_from b \<noteq> [] \<and> tb_window_to b \<noteq> []
      then in_date_window w c hol (tb_window_from b) (tb_window_to b) today else Inr True)"

text \<open>Skip and only, for holidays and for vacations.\<close>

definition mode_allows :: "holiday_mode \<Rightarrow> bool \<Rightarrow> bool" where
  "mode_allows mode hit = (if hit then mode \<noteq> Skip else mode \<noteq> Only)"

definition effective_weekday :: "timer_binding \<Rightarrow> bool \<Rightarrow> bool \<Rightarrow> nat \<Rightarrow> nat" where
  "effective_weekday b holiday vacation today =
     (if (holiday \<and> tb_holiday_mode b = As_Sunday) \<or> (vacation \<and> tb_vacation_mode b = As_Sunday) then 6
      else date_weekday today)"

definition annual_allows :: "timer_binding \<Rightarrow> nat \<Rightarrow> bool" where
  "annual_allows b today \<longleftrightarrow>
     (tb_months b = [] \<or> int (date_month today) \<in> set (tb_months b))
     \<and> (tb_day_of_month b = 0 \<or> int (date_day today) = tb_day_of_month b)"

definition should_fire ::
  "timer_world \<Rightarrow> timer_config \<Rightarrow> holidays \<Rightarrow> timer_binding \<Rightarrow> nat \<times> nat \<Rightarrow> (pyerr, bool) result" where
  "should_fire w c hol b t =
     (let today = fst t
      in rbind (window_open w c hol b today) (\<lambda>opened.
           if \<not> opened then Inr False
           else if tb_type b = Holiday then
             (case map_of hol today of
                None \<Rightarrow> Inr False
              | Some name \<Rightarrow>
                  if tb_selected b \<noteq> [] \<and> name \<notin> set (tb_selected b) then Inr False
                  else rbind (is_vacation w c today) (\<lambda>vacation.
                         if mode_allows (tb_vacation_mode b) vacation then at_target w b t else Inr False))
           else
             rbind (is_vacation w c today) (\<lambda>vacation.
               let holiday = is_holiday hol today
               in if mode_allows (tb_holiday_mode b) holiday \<and> mode_allows (tb_vacation_mode b) vacation
                     \<and> int (effective_weekday b holiday vacation today) \<in> set (tb_weekdays b)
                     \<and> (tb_type b = Annual \<longrightarrow> annual_allows b today)
                  then at_target w b t else Inr False)))"

section \<open>The timer loop\<close>

text \<open>A binding of the adapter; a configuration that is not valid is none.\<close>

record timer_row =
  tr_id :: uuid
  tr_datapoint :: uuid
  tr_direction :: string
  tr_config :: "timer_binding option"

datatype timer_output = Publish uuid uuid pyval | Mismatch uuid string string

text \<open>\<open>reload_bindings\<close> keeps the sources.\<close>

definition source_rows :: "timer_row list \<Rightarrow> timer_row list" where
  "source_rows rows = filter (\<lambda>r. tr_direction r = ''SOURCE'') rows"

definition fire_binding :: "timer_world \<Rightarrow> timer_row \<Rightarrow> timer_binding \<Rightarrow> timer_output list" where
  "fire_binding w r b =
     (let dt = (if tw_data_type w (tr_datapoint r) = [] then ''UNKNOWN'' else tw_data_type w (tr_datapoint r))
      in case coerce_text_value_for_type (tw_host w) (tw_digit_limit w) (tw_types w) (tb_value b) dt of
           Inl e \<Rightarrow> if e = ValueError then [Mismatch (tr_datapoint r) dt (tb_value b)] else []
         | Inr v \<Rightarrow> [Publish (tr_datapoint r) (tr_id r) v])"

text \<open>An exception while a binding is checked is logged, the others go on.\<close>

definition check_row :: "timer_world \<Rightarrow> timer_config \<Rightarrow> holidays \<Rightarrow> nat \<times> nat \<Rightarrow> timer_row \<Rightarrow> timer_output list" where
  "check_row w c hol t r =
     (case tr_config r of
        None \<Rightarrow> []
      | Some b \<Rightarrow>
          if tb_type b = Meta then []
          else (case should_fire w c hol b t of
                  Inr True \<Rightarrow> fire_binding w r b
                | _ \<Rightarrow> []))"

definition meta_value ::
  "timer_world \<Rightarrow> timer_config \<Rightarrow> holidays \<Rightarrow> nat \<Rightarrow> nat \<Rightarrow> meta_type \<Rightarrow> (pyerr, pyval) result" where
  "meta_value w c hol today tomorrow m =
     (case m of
        No_Meta \<Rightarrow> Inr PNone
      | Holiday_Today \<Rightarrow> Inr (PBool (is_holiday hol today))
      | Holiday_Tomorrow \<Rightarrow> Inr (PBool (is_holiday hol tomorrow))
      | Holiday_Name_Today \<Rightarrow> Inr (PStr (holiday_name hol today))
      | Holiday_Name_Tomorrow \<Rightarrow> Inr (PStr (holiday_name hol tomorrow))
      | Vacation n \<Rightarrow> rbind (is_vacation_n w c today n) (\<lambda>v. Inr (PBool v)))"

text \<open>All values are computed before the first is published.\<close>

fun all_values :: "(pyerr, 'a) result list \<Rightarrow> (pyerr, 'a list) result" where
  "all_values [] = Inr []"
| "all_values (r # rs) = rbind r (\<lambda>x. rbind (all_values rs) (\<lambda>xs. Inr (x # xs)))"

definition meta_types :: "meta_type list" where
  "meta_types =
     [Holiday_Today, Holiday_Tomorrow, Holiday_Name_Today, Holiday_Name_Tomorrow,
      Vacation 1, Vacation 2, Vacation 3, Vacation 4, Vacation 5, Vacation 6]"

definition publish_meta_bindings ::
  "timer_world \<Rightarrow> timer_config \<Rightarrow> holidays \<Rightarrow> nat \<Rightarrow> timer_row list \<Rightarrow> (pyerr, timer_output list) result" where
  "publish_meta_bindings w c hol today rows =
     rbind (add_days today 1) (\<lambda>tomorrow.
     rbind (all_values (map (meta_value w c hol today tomorrow) meta_types)) (\<lambda>vs.
       Inr (concat (map (\<lambda>r.
         case tr_config r of
           None \<Rightarrow> []
         | Some b \<Rightarrow>
             if tb_type b = Meta \<and> tb_meta b \<noteq> No_Meta
             then (case map_of (zip meta_types vs) (tb_meta b) of
                     None \<Rightarrow> [] | Some v \<Rightarrow> [Publish (tr_datapoint r) (tr_id r) v])
             else []) rows))))"

record timer_state =
  ts_holidays :: holidays
  ts_last_date :: nat

text \<open>
  One round of the loop after its sleep (the clock is read once in the model).  When the calendar cannot be rebuilt, the round ends there with
  the exception and nothing fires; the new holidays stay when only their announcement fails.
\<close>

definition timer_round ::
  "timer_world \<Rightarrow> timer_config \<Rightarrow> timer_row list \<Rightarrow> nat \<times> nat \<Rightarrow> timer_state \<Rightarrow> timer_output list \<times> timer_state" where
  "timer_round w c rows t s =
     (let fire = (\<lambda>hol. concat (map (check_row w c hol t) rows))
      in if fst t = ts_last_date s then (fire (ts_holidays s), s)
         else
           (case build_holidays w c (int (date_year (fst t))) of
              Inl _ \<Rightarrow> ([], s)
            | Inr hol \<Rightarrow>
                (case publish_meta_bindings w c hol (fst t) rows of
                   Inl _ \<Rightarrow> ([], s\<lparr>ts_holidays := hol\<rparr>)
                 | Inr out \<Rightarrow> (out @ fire hol, \<lparr>ts_holidays = hol, ts_last_date = fst t\<rparr>))))"

end
