(* ===== verification/Time_Switch_Props.thy ===== *)
theory Time_Switch_Props
  imports Time_Switch
begin

text \<open>
  The time switch: Easter is that of the Gregorian computus, the weekdays of a month are counted right,
  a date window is what its expressions say in every year (but for windows that reach into the next
  year by an offset), and a switching point fires at most in one minute of a day.
\<close>

section \<open>Easter\<close>

text \<open>
  The Gregorian computus: the golden number and the corrections of the centuries give the age of the
  moon, this the paschal full moon as a day of March, and Easter is the Sunday after it.
\<close>

definition paschal_full_moon :: "int \<Rightarrow> int" where
  "paschal_full_moon year =
     (let golden = year mod 19; century = year div 100;
          h = (19 * golden + century - century div 4 - (century - (century + 8) div 25 + 1) div 3 + 15) mod 30
      in 21 + h - (if h = 29 \<or> (h = 28 \<and> 10 < golden) then 1 else 0))"

text \<open>The ordinal of a day of March, also of the days that run on into April.\<close>

definition march_day :: "nat \<Rightarrow> int \<Rightarrow> int" where
  "march_day year d = int (ordinal year 3 1) + d - 1"

lemma days_before_march: "days_before_month y 3 = (if is_leap y then 60 else 59)"
  by (simp add: days_before_month_def upt_rec days_in_month_def)

lemma days_before_april: "days_before_month y 4 = days_before_month y 3 + 31"
  using days_before_month_Suc [of 3 y] by (simp add: days_in_month_def)

lemma easter_index:
  fixes a h l :: int
  assumes "0 \<le> a" "a \<le> 18" "0 \<le> h" "h \<le> 29" "0 \<le> l" "l \<le> 6"
  shows "(a + 11 * h + 22 * l) div 451 = (if l = 6 \<and> (h = 29 \<or> (h = 28 \<and> 10 < a)) then 1 else 0)"
proof (cases "l = 6 \<and> (h = 29 \<or> (h = 28 \<and> 10 < a))")
  case True
  then have "0 \<le> a + 11 * h + 22 * l - 451" "a + 11 * h + 22 * l - 451 < 451"
    using assms by auto
  then have "(a + 11 * h + 22 * l) div 451 = 1"
    using int_div_pos_eq [of "a + 11 * h + 22 * l" 451 1 "a + 11 * h + 22 * l - 451"] by simp
  then show ?thesis
    by (simp only: if_P [OF True])
next
  case False
  then consider "l \<le> 5" | "h \<le> 27" | "h = 28" "a \<le> 10"
    using assms by fastforce
  then have "a + 11 * h + 22 * l < 451"
    using assms by cases auto
  then have "(a + 11 * h + 22 * l) div 451 = 0"
    using assms by (simp add: div_pos_pos_trivial)
  then show ?thesis
    by (simp only: if_not_P [OF False])
qed

text \<open>The day of March the algorithm arrives at, without the split into month and day.\<close>

definition easter_day :: "int \<Rightarrow> int" where
  "easter_day year =
     (let a = year mod 19; b = year div 100; c = year mod 100; d = b div 4; e = b mod 4;
          h = (19 * a + b - d - (b - (b + 8) div 25 + 1) div 3 + 15) mod 30;
          lv = (32 + 2 * e + 2 * (c div 4) - h - c mod 4) mod 7
      in h + lv - 7 * ((a + 11 * h + 22 * lv) div 451) + 22)"

lemma easter_date_day:
  "easter_date year = new_date year ((easter_day year + 92) div 31) ((easter_day year + 92) mod 31 + 1)"
proof -
  have "x + 22 + 92 = x + (114 :: int)" for x
    by simp
  then show ?thesis
    unfolding easter_date_def easter_day_def Let_def by (simp only:)
qed

lemma easter_day_range:
  "22 \<le> easter_day year" "easter_day year \<le> 56"
  "paschal_full_moon year < easter_day year" "easter_day year \<le> paschal_full_moon year + 7"
proof -
  define a where "a = year mod 19"
  define b where "b = year div 100"
  define h where "h = (19 * a + b - b div 4 - (b - (b + 8) div 25 + 1) div 3 + 15) mod 30"
  define l where "l = (32 + 2 * (b mod 4) + 2 * (year mod 100 div 4) - h - year mod 100 mod 4) mod 7"
  have "a < 19" "h < 30" "l < 7"
    unfolding a_def h_def l_def by (rule pos_mod_bound, simp)+
  moreover have "0 \<le> a" "0 \<le> h" "0 \<le> l"
    unfolding a_def h_def l_def by (rule pos_mod_sign, simp)+
  ultimately have r: "0 \<le> a" "a \<le> 18" "0 \<le> h" "h \<le> 29" "0 \<le> l" "l \<le> 6"
    by simp_all
  have m: "easter_day year = h + l - 7 * (if l = 6 \<and> (h = 29 \<or> (h = 28 \<and> 10 < a)) then 1 else 0) + 22"
  proof -
    have "easter_day year = h + l - 7 * ((a + 11 * h + 22 * l) div 451) + 22"
      unfolding easter_day_def Let_def l_def h_def a_def b_def by (rule refl)
    then show ?thesis
      unfolding easter_index [OF r] .
  qed
  have p: "paschal_full_moon year = 21 + h - (if h = 29 \<or> (h = 28 \<and> 10 < a) then 1 else 0)"
    by (simp add: paschal_full_moon_def Let_def a_def b_def h_def)
  show "22 \<le> easter_day year" "easter_day year \<le> 56"
    "paschal_full_moon year < easter_day year" "easter_day year \<le> paschal_full_moon year + 7"
    unfolding m p using r by auto
qed

lemma march_ordinal:
  assumes "1 \<le> y"
  shows "int (ordinal y 3 1) = 365 * int y + int y div 4 - int y div 100 + int y div 400 - 305"
proof -
  have "days_before_year (Suc y) + y div 100 = 365 * y + y div 4 + y div 400"
    by (simp add: days_before_year_def Let_def)
  moreover have "days_before_year y + days_before_month y 3 + 306 = days_before_year (Suc y)"
    using days_before_year_Suc [OF assms] by (simp add: days_before_march year_length_def)
  ultimately have "ordinal y 3 1 + 305 + y div 100 = 365 * y + y div 4 + y div 400"
    by (simp add: ordinal_def)
  then have "int (ordinal y 3 1 + 305 + y div 100) = int (365 * y + y div 4 + y div 400)"
    by simp
  then show ?thesis
    by (simp add: zdiv_int)
qed

lemma easter_sunday:
  assumes "1 \<le> y"
  shows "march_day y (easter_day (int y)) mod 7 = 0"
proof -
  define Y where "Y = int y"
  define b where "b = Y div 100"
  define c where "c = Y mod 100"
  define d where "d = b div 4"
  define e where "e = b mod 4"
  define i where "i = c div 4"
  define k where "k = c mod 4"
  define h where "h = (19 * (Y mod 19) + b - d - (b - (b + 8) div 25 + 1) div 3 + 15) mod 30"
  define l where "l = (32 + 2 * e + 2 * i - h - k) mod 7"
  define m where "m = (Y mod 19 + 11 * h + 22 * l) div 451"
  have parts: "Y = 100 * b + c" "b = 4 * d + e" "c = 4 * i + k"
    by (simp_all add: b_def c_def d_def e_def i_def k_def)
  have c: "0 \<le> c" "c < 100"
    by (simp_all add: c_def)
  have "Y div 4 = 25 * b + i"
    unfolding parts(1) i_def using div_mult_self2 [of 4 c "25 * b"] by (simp add: algebra_simps)
  moreover have "Y div 400 = d"
    using zdiv_zmult2_eq [of 4 Y 100] by (simp add: d_def b_def)
  moreover obtain q where "32 + 2 * e + 2 * i - h - k = 7 * q + l"
    unfolding l_def by (metis mult_div_mod_eq)
  moreover have "easter_day Y = h + l - 7 * m + 22"
    unfolding easter_day_def Let_def m_def l_def h_def i_def k_def d_def e_def b_def c_def by (rule refl)
  moreover have "march_day y (easter_day Y) = 365 * Y + Y div 4 - b + Y div 400 - 305 + easter_day Y - 1"
    unfolding march_day_def march_ordinal [OF assms] Y_def b_def by (rule refl)
  ultimately have "march_day y (easter_day Y) = 7 * (20871 * d + 5218 * e + 209 * i + 52 * k - 36 - q - m)"
    using parts by simp
  then show ?thesis
    by (simp add: Y_def)
qed

lemma easter_ordinal:
  assumes "1 \<le> y" and "y \<le> 9999"
  shows "\<exists>n. easter_date (int y) = Inr n \<and> int n = march_day y (easter_day (int y))"
proof (cases "easter_day (int y) \<le> 31")
  case True
  define d where "d = nat (easter_day (int y))"
  have d: "easter_day (int y) = int d" "22 \<le> d" "d \<le> 31"
    using True easter_day_range(1) [of "int y"] by (simp_all add: d_def)
  have "(int d + 92) div 31 = 3" "(int d + 92) mod 31 = int d - 1"
    using d int_div_pos_eq [of "int d + 92" 31 3 "int d - 1"] int_mod_pos_eq [of "int d + 92" 31 3 "int d - 1"] by simp_all
  moreover have "easter_day (int y) + 92 = int d + 92"
    by (simp add: d(1))
  ultimately have "easter_date (int y) = new_date (int y) 3 (int d)"
    unfolding easter_date_day by (simp only: diff_add_cancel)
  moreover have "new_date (int y) 3 (int d) = Inr (ordinal y 3 d)"
    using assms d by (simp add: new_date_def valid_date_def days_in_month_def)
  ultimately have "easter_date (int y) = Inr (ordinal y 3 d)"
    by simp
  then show ?thesis
    by (simp add: d march_day_def ordinal_def)
next
  case False
  define d where "d = nat (easter_day (int y) - 31)"
  have d: "easter_day (int y) = int d + 31" "1 \<le> d" "d \<le> 25"
    using False easter_day_range(2) [of "int y"] by (simp_all add: d_def)
  have "(int d + 123) div 31 = 4" "(int d + 123) mod 31 = int d - 1"
    using d int_div_pos_eq [of "int d + 123" 31 4 "int d - 1"] int_mod_pos_eq [of "int d + 123" 31 4 "int d - 1"] by simp_all
  moreover have "easter_day (int y) + 92 = int d + 123"
    by (simp add: d(1))
  ultimately have "easter_date (int y) = new_date (int y) 4 (int d)"
    unfolding easter_date_day by (simp only: diff_add_cancel)
  moreover have "new_date (int y) 4 (int d) = Inr (ordinal y 4 d)"
    using assms d by (simp add: new_date_def valid_date_def days_in_month_def)
  ultimately have "easter_date (int y) = Inr (ordinal y 4 d)"
    by simp
  then show ?thesis
    by (simp add: d march_day_def ordinal_def days_before_april)
qed

text \<open>
  C27. Easter is computed right for every year of the calendar: the result is a Sunday, the first one
  after the paschal full moon of the Gregorian computus, and lies between 22 March and 25 April.
\<close>

theorem easter_date_computus:
  assumes "1 \<le> y" and "y \<le> 9999"
  shows "\<exists>n. easter_date (int y) = Inr n \<and> date_weekday n = 6
    \<and> march_day y (paschal_full_moon (int y)) < int n \<and> int n \<le> march_day y (paschal_full_moon (int y)) + 7
    \<and> ordinal y 3 22 \<le> n \<and> n \<le> ordinal y 4 25"
proof -
  obtain n where n: "easter_date (int y) = Inr n" "int n = march_day y (easter_day (int y))"
    using easter_ordinal [OF assms] by blast
  have "int n mod 7 = 0"
    unfolding n(2) by (rule easter_sunday [OF assms(1)])
  then have "n mod 7 = 0"
    by presburger
  then have "date_weekday n = 6"
    by (simp add: date_weekday_def mod_add_left_eq [of n 7 6, symmetric])
  moreover have "int (ordinal y 3 22) = march_day y 22" "int (ordinal y 4 25) = march_day y 56"
    by (simp_all add: march_day_def ordinal_def days_before_april)
  ultimately show ?thesis
    using n easter_day_range [of "int y"] by (auto simp: march_day_def)
qed

theorem easter_date_computus_witness:
  "\<exists>n. easter_date 2026 = Inr n \<and> date_weekday n = 6 \<and> march_day 2026 33 < int n \<and> int n \<le> march_day 2026 33 + 7"
proof -
  have "paschal_full_moon 2026 = 33"
    by code_simp
  then show ?thesis
    using easter_date_computus [of 2026] by auto
qed

section \<open>Weekdays of a month\<close>

definition weekdays_of_month :: "nat \<Rightarrow> nat \<Rightarrow> nat \<Rightarrow> nat list" where
  "weekdays_of_month y m wd =
     filter (\<lambda>d. date_weekday d = wd) [ordinal y m 1..<ordinal y m 1 + days_in_month y m]"

lemma weekday_steps:
  assumes "wd < 7" and "off < 7" and "(date_weekday a + off) mod 7 = wd"
  shows "filter (\<lambda>d. date_weekday d = wd) [a..<a + len] = map (\<lambda>j. a + off + 7 * j) [0..<(len + 6 - off) div 7]"
proof (induction len)
  case 0
  then show ?case
    using assms(2) by simp
next
  case (Suc len)
  define q where "q = len div 7"
  define r where "r = len mod 7"
  have len: "len = 7 * q + r" "r < 7"
    by (simp_all add: q_def r_def)
  have "date_weekday (a + len) = (date_weekday a + r) mod 7"
    using mod_mult_self2 [of "date_weekday a + r" 7 q] by (simp add: date_weekday_add len(1) ac_simps)
  moreover have "date_weekday a < 7"
    by (simp add: date_weekday_def)
  ultimately have hit: "date_weekday (a + len) = wd \<longleftrightarrow> r = off"
    using assms len(2) by (auto simp: mod_if split: if_splits)
  have count: "(len + 6 - off) div 7 = (if off < r then Suc q else q)"
    using len assms(2) by auto
  have "(Suc len + 6 - off) div 7 = (if off \<le> r then Suc q else q)"
    using len assms(2) by auto
  then show ?case
    using Suc hit count len assms(2) by (auto simp: less_le)
qed

lemma ordinal_days:
  "ordinal y m 1 + k = ordinal y m (Suc k)"
  by (simp add: ordinal_def)

lemma days_in_month_bounds: "28 \<le> days_in_month y m" "days_in_month y m \<le> 31"
  by (simp_all add: days_in_month_def)

lemma days_before_month_leap:
  assumes "1 \<le> m"
  shows "days_before_month y m + (if 3 \<le> m \<and> is_leap z then 1 else 0)
    = days_before_month z m + (if 3 \<le> m \<and> is_leap y then 1 else 0)"
  using assms
proof (induction m rule: dec_induct)
  case (step m)
  consider "m = 1" | "m = 2" | "3 \<le> m"
    using step(1) by linarith
  then show ?case
    using step days_before_month_Suc [of m y] days_before_month_Suc [of m z]
    by cases (auto simp: days_in_month_def)
qed simp

lemma next_year_month:
  assumes "1 \<le> y" and "1 \<le> m"
  shows "ordinal y m 1 + 365 \<le> ordinal (Suc y) m 1"
  using days_before_year_Suc [OF assms(1)] days_before_month_leap [OF assms(2), of y "Suc y"]
  by (auto simp: ordinal_def year_length_def split: if_splits)

lemma same_month_year:
  assumes y: "1 \<le> y" and m: "1 \<le> m" "m \<le> 12" and t: "ordinal y m 1 \<le> t" "t < ordinal y m 1 + 365"
  shows "date_month t = m \<longleftrightarrow> t < ordinal y m 1 + days_in_month y m"
proof
  have pos: "1 \<le> t"
    using t(1) by (simp add: ordinal_def)
  obtain y' m' d' where p: "date_of t = (y', m', d')" "1 \<le> y'" "1 \<le> m'" "m' \<le> 12" "1 \<le> d'" "d' \<le> days_in_month y' m'"
      "ordinal y' m' d' = t"
    using date_of_cases [OF pos] by blast
  assume "date_month t = m"
  then have m': "m' = m"
    by (simp add: date_month_def p(1))
  have later: "ordinal z m 1 + 365 \<le> ordinal z' m 1" if "Suc z \<le> z'" "1 \<le> z" for z z'
    using that
  proof (induction z' rule: dec_induct)
    case base
    then show ?case
      using next_year_month [OF _ m(1)] by simp
  next
    case (step n)
    then show ?case
      using next_year_month [OF _ m(1), of n] by simp
  qed
  have "d' \<le> 31"
    using p(6) days_in_month_bounds [of y' m'] by linarith
  have "\<not> Suc y \<le> y'"
    using later [of y y'] y t(2) p(5,7) m' by (auto simp: ordinal_def)
  moreover have "\<not> Suc y' \<le> y"
    using later [of y' y] p(2,5,7) m' t(1) \<open>d' \<le> 31\<close> by (auto simp: ordinal_def)
  ultimately have "y' = y"
    by simp
  then show "t < ordinal y m 1 + days_in_month y m"
    using p(6,7) m' by (auto simp: ordinal_def)
next
  assume "t < ordinal y m 1 + days_in_month y m"
  then obtain k where k: "t = ordinal y m (Suc k)" "k < days_in_month y m"
    using t(1) by (metis add_less_cancel_left le_iff_add ordinal_days)
  then show "date_month t = m"
    using date_of_parts(2) [of y m "Suc k"] y m by simp
qed

lemma weekday_offset:
  fixes a wd :: nat
  assumes "wd < 7"
  defines "off \<equiv> nat ((int wd - int (date_weekday a)) mod 7)"
  shows "off < 7" and "(date_weekday a + off) mod 7 = wd" and "int off = (int wd - int (date_weekday a)) mod 7"
proof -
  show off: "int off = (int wd - int (date_weekday a)) mod 7"
    by (simp add: off_def)
  then show "off < 7"
    using pos_mod_bound [of 7 "int wd - int (date_weekday a)"] by linarith
  have "int ((date_weekday a + off) mod 7) = (int (date_weekday a) + (int wd - int (date_weekday a)) mod 7) mod 7"
    by (simp add: zmod_int off)
  also have "\<dots> = int wd mod 7"
    by (simp add: mod_add_right_eq)
  finally show "(date_weekday a + off) mod 7 = wd"
    using assms(1) by simp
qed

lemma back_to_last:
  assumes "filter (\<lambda>d. date_weekday d = wd) [a..<Suc n] \<noteq> []" and "1 \<le> a"
  shows "back_to_weekday wd n = Inr (last (filter (\<lambda>d. date_weekday d = wd) [a..<Suc n]))"
  using assms
proof (induction n)
  case 0
  then show ?case
    by simp
next
  case (Suc n)
  show ?case
  proof (cases "date_weekday (Suc n) = wd \<and> a \<le> Suc n")
    case True
    then show ?thesis
      by simp
  next
    case False
    then have "filter (\<lambda>d. date_weekday d = wd) [a..<Suc (Suc n)] = filter (\<lambda>d. date_weekday d = wd) [a..<Suc n]"
      by auto
    moreover have "a \<le> Suc n"
      using Suc.prems(1) by (cases "a \<le> Suc n") auto
    ultimately show ?thesis
      using Suc False by simp
  qed
qed

lemma year_end:
  assumes "1 \<le> y" and "y \<le> 9999" and "1 \<le> m" and "m \<le> 12"
  shows "ordinal y m 1 \<le> max_ordinal"
proof -
  have "days_before_year (Suc y) \<le> days_before_year 10000"
    by (rule days_before_year_mono) (use assms in simp_all)
  moreover have "ordinal y m 1 \<le> days_before_year (Suc y)"
    using days_before_month_bound(2) [OF assms(3,4), of 1 y] days_in_month_bounds(1) [of y m]
      days_before_year_Suc [OF assms(1)] by (simp add: ordinal_def)
  moreover have "days_before_year 10000 = max_ordinal"
    using days_before_year_Suc [of 9999] days_before_month_Suc [of 12 9999] sum_of_months [of 9999]
    by (simp add: max_ordinal_def ordinal_def days_in_month_def)
  ultimately show ?thesis
    by simp
qed

text \<open>
  C28. The weekdays of a month are counted right: the last one is the last, the n-th is the n-th if the
  month has so many and none otherwise, for every n up to 52.
\<close>

theorem weekday_of_month_exact:
  assumes "1 \<le> y" and "y \<le> 9998" and "1 \<le> m" and "m \<le> 12" and "wd < 7" and "1 \<le> n" and "n \<le> 52"
  shows "last_weekday_of_month (int y) m wd = Inr (last (weekdays_of_month y m wd))
    \<and> nth_weekday_of_month (int y) m wd (int n)
        = Inr (if n \<le> length (weekdays_of_month y m wd) then Some (weekdays_of_month y m wd ! (n - 1)) else None)"
proof -
  define a where "a = ordinal y m 1"
  define len where "len = days_in_month y m"
  define off where "off = nat ((int wd - int (date_weekday a)) mod 7)"
  define count where "count = (len + 6 - off) div 7"
  note off = weekday_offset [OF assms(5), of a, folded off_def]
  have len: "28 \<le> len" "len \<le> 31"
    using days_in_month_bounds by (simp_all add: len_def)
  have days: "weekdays_of_month y m wd = map (\<lambda>j. a + off + 7 * j) [0..<count]"
    using weekday_steps [OF assms(5) off(1,2), of len] by (simp add: weekdays_of_month_def a_def len_def count_def)
  have pos: "1 \<le> a"
    by (simp add: a_def ordinal_def)
  have first: "new_date (int y) (int m) 1 = Inr a"
    using assms days_in_month_bounds [of y m] by (simp add: new_date_def valid_date_def a_def)
  have "new_date (int y) (int m) (int len) = Inr (a + len - 1)"
    using assms len by (simp add: new_date_def valid_date_def len_def [symmetric] a_def ordinal_def)
  moreover have "weekdays_of_month y m wd \<noteq> []"
    unfolding days using len off(1) by (simp add: count_def div_eq_0_iff)
  moreover have "weekdays_of_month y m wd = filter (\<lambda>d. date_weekday d = wd) [a..<a + len]"
    by (simp only: weekdays_of_month_def a_def len_def)
  moreover have upto: "Suc (a + len - 1) = a + len"
    using pos by simp
  ultimately have last: "last_weekday_of_month (int y) m wd = Inr (last (weekdays_of_month y m wd))"
    using back_to_last [of wd a "a + len - 1", unfolded upto, OF _ pos]
    by (simp add: last_weekday_of_month_def flip: len_def)
  have "a + 365 \<le> ordinal (Suc y) m 1"
    unfolding a_def by (rule next_year_month [OF assms(1,3)])
  also have "\<dots> \<le> max_ordinal"
    by (rule year_end) (use assms in simp_all)
  finally have max: "a + 365 \<le> max_ordinal" .
  define t where "t = a + off + 7 * (n - 1)"
  have t: "a \<le> t" "t < a + 365"
    using assms(7) off(1) by (simp_all add: t_def)
  have "int a + (int off + 7 * (int n - 1)) = int t"
    using assms(6) by (simp add: t_def)
  then have "nth_weekday_of_month (int y) m wd (int n) = Inr (if date_month t = m then Some t else None)"
    using first t pos max by (simp add: nth_weekday_of_month_def Let_def off(3) [symmetric] add_days_def)
  moreover have "date_month t = m \<longleftrightarrow> n \<le> count"
  proof -
    have "date_month t = m \<longleftrightarrow> t < a + len"
      using same_month_year [OF assms(1,3,4), of t] t by (simp add: a_def len_def)
    also have "\<dots> \<longleftrightarrow> n \<le> count"
      using assms(6) off(1) len unfolding count_def t_def by (simp add: less_eq_div_iff_mult_less_eq) linarith
    finally show ?thesis .
  qed
  ultimately show ?thesis
    using last assms(6) nth_upt [of 0 "n - 1" count] by (auto simp: days t_def)
qed

theorem weekday_of_month_exact_witness:
  "nth_weekday_of_month 2026 10 6 2 = Inr (Some (ordinal 2026 10 11)) \<and> nth_weekday_of_month 2026 10 6 5 = Inr None"
proof -
  have start: "ordinal 2026 10 d = 739889 + d" for d
    by (simp add: ordinal_def days_before_year_def Let_def days_before_month_def upt_rec days_in_month_def is_leap_def)
  have "weekdays_of_month 2026 10 6 = [ordinal 2026 10 4, ordinal 2026 10 11, ordinal 2026 10 18, ordinal 2026 10 25]"
    by (simp add: weekdays_of_month_def start days_in_month_def date_weekday_def)
  then show ?thesis
    using weekday_of_month_exact [of 2026 10 6 2] weekday_of_month_exact [of 2026 10 6 5] by simp
qed

section \<open>Date windows\<close>

lemma date_year_mono:
  assumes "1 \<le> a" and "a \<le> b"
  shows "date_year a \<le> date_year b"
proof (rule ccontr)
  assume later: "\<not> date_year a \<le> date_year b"
  have pos: "1 \<le> b"
    using assms by simp
  obtain y m d where a: "date_of a = (y, m, d)" "1 \<le> y" "1 \<le> m" "m \<le> 12" "1 \<le> d" "d \<le> days_in_month y m" "ordinal y m d = a"
    using date_of_cases [OF assms(1)] by blast
  obtain y' m' d' where b: "date_of b = (y', m', d')" "1 \<le> y'" "1 \<le> m'" "m' \<le> 12" "1 \<le> d'" "d' \<le> days_in_month y' m'"
      "ordinal y' m' d' = b"
    using date_of_cases [OF pos] by blast
  have "Suc y' \<le> y"
    using later by (simp add: date_year_def a(1) b(1))
  then have "days_before_year (Suc y') \<le> days_before_year y"
    by (rule days_before_year_mono) simp
  then show False
    using days_before_month_bound [OF b(3-6)] days_before_month_bound [OF a(3-6)] days_before_year_Suc [OF b(2)] assms(2)
    by (simp add: ordinal_def flip: a(7) b(7))
qed


lemma ordinal_2026: "ordinal 2026 1 d = 739616 + d" "ordinal 2025 1 6 = 739257" "ordinal 2027 1 6 = 739987"
    "ordinal 2025 12 1 = 739586" "ordinal 2026 12 1 = 739951" "ordinal 2027 12 1 = 740316"
  by (simp_all add: ordinal_def days_before_year_def Let_def days_before_month_def upt_rec days_in_month_def is_leap_def)

lemma parse_fixed:
  assumes "match_fixed (py_strip s) = Some (int m, int d)" and "py_strip s \<noteq> []" and "valid_date y m d"
  shows "parse_date_expression w c hol s (int y) = Inr (Some (ordinal y m d)) \<and> date_year (ordinal y m d) = y"
  using assms date_of_parts(1) [of y m d]
  by (simp add: parse_date_expression_def Let_def new_date_def valid_date_def)


section \<open>Advent and the turn of the year\<close>

lemma max_ordinal_value: "max_ordinal = 3652059"
  by (simp add: max_ordinal_def ordinal_def days_before_year_def Let_def days_before_month_def upt_rec
      days_in_month_def is_leap_def)

lemma days_before_december:
  "days_before_month y 12 = days_before_month y 11 + 30" "days_before_month y 12 + 31 = year_length y"
  using days_before_month_Suc [of 11 y] days_before_month_Suc [of 12 y] sum_of_months [of y]
  by (simp_all add: days_in_month_def)

text \<open>The first of Advent is a Sunday between 27 November and 3 December.\<close>

lemma advent1_sunday:
  assumes "1 \<le> y" and "y \<le> 9999"
  shows "\<exists>a. advent1_date (int y) = Inr a \<and> date_weekday a = 6 \<and> ordinal y 11 27 \<le> a \<and> a \<le> ordinal y 12 3"
proof -
  define x where "x = ordinal y 12 25"
  have new: "new_date (int y) 12 25 = Inr x"
    using assms by (simp add: new_date_def valid_date_def days_in_month_def x_def)
  have "ordinal y 12 1 \<le> max_ordinal"
    by (rule year_end) (use assms in simp_all)
  moreover have "days_before_year (Suc y) \<le> max_ordinal"
    using days_before_year_mono [of "Suc y" 10000] assms days_before_year_Suc [of 9999] days_before_december [of 9999]
    by (simp add: max_ordinal_def ordinal_def)
  ultimately have x: "300 \<le> x" "x \<le> max_ordinal"
    using days_before_december [of y] days_before_year_Suc [OF assms(1)]
    by (auto simp: x_def ordinal_def year_length_def split: if_splits)
  define k where "k = date_weekday x + 1"
  have k: "1 \<le> k" "k \<le> 7" "(x - k) mod 7 = 0"
  proof -
    have "x - k = 7 * ((x + 6) div 7) - 7"
      using x(1) mult_div_mod_eq [of 7 "x + 6"] unfolding k_def date_weekday_def by linarith
    then have "x - k = 7 * ((x + 6) div 7 - 1)"
      by simp
    then show "(x - k) mod 7 = 0"
      by (simp only: mod_mult_self1_is_0)
  qed (simp_all add: k_def date_weekday_def)
  have "add_days x (- (int (date_weekday x) + 1)) = Inr (x - k)"
    using x k by (auto simp: add_days_def k_def nat_diff_distrib)
  moreover have "add_days (x - k) (- 21) = Inr (x - k - 21)"
    using x k by (auto simp: add_days_def nat_diff_distrib)
  ultimately have "advent1_date (int y) = Inr (x - k - 21)"
    using new by (simp add: advent1_date_def)
  moreover have "date_weekday (x - k - 21) = 6"
  proof -
    obtain q where "x - k = 7 * q"
      using k(3) by (auto simp: mod_eq_0_iff_dvd)
    then have "x - k - 21 + 6 = 7 * (q - 3) + 6"
      using x(1) k(2) by simp
    then show ?thesis
      by (simp add: date_weekday_def)
  qed
  moreover have "ordinal y 11 27 \<le> x - k - 21" "x - k - 21 \<le> ordinal y 12 3"
    using k days_before_december [of y] by (simp_all add: x_def ordinal_def)
  ultimately show ?thesis
    by blast
qed

lemma parse_advent:
  assumes "match_relative ''ADVENT'' (py_upper (py_strip s)) = Some offset" and "match_fixed (py_strip s) = None"
    and "match_relative ''EASTER'' (py_upper (py_strip s)) = None" and "py_strip s \<noteq> []"
  shows "parse_date_expression w c hol s year
    = rbind (rbind (advent1_date year) (\<lambda>d. add_days d offset)) (\<lambda>d. Inr (Some d))"
  using assms by (simp add: parse_date_expression_def Let_def relative_date_def)

text \<open>
  A window whose end is given by an offset beyond the end of the year is missed in January: on the first
  six days of every year the window from the first of Advent to forty days later is reported closed,
  although the occurrence of the year before is still open.
\<close>

theorem date_window_misses_turn_of_year:
  assumes "2 \<le> y" and "y \<le> 9990" and "1 \<le> d" and "d \<le> 6"
  shows "in_date_window w c hol ''advent'' ''advent+40'' (ordinal y 1 d) = Inr False
    \<and> (\<exists>a. advent1_date (int y - 1) = Inr a \<and> a \<le> ordinal y 1 d \<and> ordinal y 1 d \<le> a + 40)"
proof -
  have texts: "match_relative ''ADVENT'' (py_upper (py_strip ''advent'')) = Some 0"
      "match_relative ''ADVENT'' (py_upper (py_strip ''advent+40'')) = Some 40"
      "match_fixed (py_strip ''advent'') = None" "match_fixed (py_strip ''advent+40'') = None"
      "match_relative ''EASTER'' (py_upper (py_strip ''advent'')) = None"
      "match_relative ''EASTER'' (py_upper (py_strip ''advent+40'')) = None"
      "py_strip ''advent'' \<noteq> []" "py_strip ''advent+40'' \<noteq> []"
    by code_simp+
  obtain a where a: "advent1_date (int y) = Inr a" "ordinal y 11 27 \<le> a" "a \<le> ordinal y 12 3"
    using advent1_sunday [of y] assms by auto
  have "ordinal y 12 3 \<le> days_before_year (Suc y)" "days_before_year (Suc y) + 365 \<le> max_ordinal"
    using days_before_december [of y] days_before_year_Suc [of y] days_before_year_bounds(2) [of y] assms
    by (simp_all add: ordinal_def max_ordinal_value)
  then have sum: "add_days a 0 = Inr a" "add_days a 40 = Inr (a + 40)"
    using a by (auto simp: add_days_def ordinal_def nat_add_distrib)
  have year: "date_year (ordinal y 1 d) = y"
    using date_of_parts(1) [of y 1 d] assms by (simp add: days_in_month_def)
  have "ordinal y 1 d < a"
    using a(2) days_before_december [of y] assms by (auto simp: ordinal_def year_length_def split: if_splits)
  then have closed: "in_date_window w c hol ''advent'' ''advent+40'' (ordinal y 1 d) = Inr False"
    using a(1) sum
    by (simp add: in_date_window_def year parse_advent [OF texts(1,3,5,7)] parse_advent [OF texts(2,4,6,8)] del: One_nat_def)
  obtain z where z: "y = Suc z" "1 \<le> z" "z \<le> 9999"
    using assms by (cases y) auto
  obtain b where b: "advent1_date (int z) = Inr b" "ordinal z 11 27 \<le> b" "b \<le> ordinal z 12 3"
    using advent1_sunday [OF z(2,3)] by blast
  then have "b \<le> ordinal y 1 d" "ordinal y 1 d \<le> b + 40"
    using days_before_december [of z] days_before_year_Suc [OF z(2)] assms by (auto simp: ordinal_def z(1))
  with b(1) closed show ?thesis
    by (auto simp: z(1))
qed

section \<open>Switching points\<close>

text \<open>The days on which a switching point fires, whatever the minute.\<close>

definition fires_on :: "timer_world \<Rightarrow> timer_config \<Rightarrow> holidays \<Rightarrow> timer_binding \<Rightarrow> nat \<Rightarrow> bool" where
  "fires_on w c hol b day \<longleftrightarrow>
     window_open w c hol b day = Inr True
     \<and> (\<exists>vacation. is_vacation w c day = Inr vacation
          \<and> (tb_vacation_mode b = Skip \<longrightarrow> \<not> vacation) \<and> (tb_vacation_mode b = Only \<longrightarrow> vacation)
          \<and> (if tb_type b = Holiday
             then (\<exists>name. map_of hol day = Some name \<and> (tb_selected b \<noteq> [] \<longrightarrow> name \<in> set (tb_selected b)))
             else (tb_holiday_mode b = Skip \<longrightarrow> \<not> is_holiday hol day) \<and> (tb_holiday_mode b = Only \<longrightarrow> is_holiday hol day)
                  \<and> (if (is_holiday hol day \<and> tb_holiday_mode b = As_Sunday) \<or> (vacation \<and> tb_vacation_mode b = As_Sunday)
                     then 6 \<in> set (tb_weekdays b) else int (date_weekday day) \<in> set (tb_weekdays b))
                  \<and> (tb_type b = Annual \<longrightarrow> annual_allows b day)))"

lemma mode_allows_iff: "mode_allows mode hit \<longleftrightarrow> (mode = Skip \<longrightarrow> \<not> hit) \<and> (mode = Only \<longrightarrow> hit)"
  by (cases mode) (auto simp: mode_allows_def)

lemma effective_weekday_in:
  "int (effective_weekday b holiday vacation day) \<in> ws \<longleftrightarrow>
     (if (holiday \<and> tb_holiday_mode b = As_Sunday) \<or> (vacation \<and> tb_vacation_mode b = As_Sunday)
      then 6 \<in> ws else int (date_weekday day) \<in> ws)"
  by (simp add: effective_weekday_def)

lemma should_fire_iff:
  "should_fire w c hol b (day, minute) = Inr True \<longleftrightarrow> fires_on w c hol b day \<and> at_target w b (day, minute) = Inr True"
proof (cases "window_open w c hol b day")
  case (Inr opened)
  then show ?thesis
    by (cases opened; cases "is_vacation w c day"; cases "map_of hol day"; cases "tb_type b = Holiday")
      (simp_all add: should_fire_def Let_def fires_on_def [folded effective_weekday_in] mode_allows_iff conj_ac)
qed (simp add: should_fire_def Let_def fires_on_def)

lemma at_target_absolute:
  assumes "tb_time_ref b = Absolute" and "\<not> tb_every_minute b" and "\<not> tb_every_hour b"
    and "1000 \<le> day" and "day \<le> 3600000" and "\<bar>tb_offset_minutes b\<bar> \<le> 1000000" and "tb_hour b < 24" and "tb_minute b < 60"
    and "minute < 1440"
  shows "at_target w b (day, minute) = Inr True
    \<longleftrightarrow> int minute = (60 * int (tb_hour b) + int (tb_minute b) + tb_offset_minutes b) mod 1440"
proof -
  define total where "total = 60 * int (tb_hour b) + int (tb_minute b) + tb_offset_minutes b"
  have "- 1000000 \<le> total" "total \<le> 1001440"
    using assms by (auto simp: total_def)
  then have "- 695 \<le> total div 1440" "total div 1440 \<le> 695"
    by simp_all
  then have "add_days day (total div 1440) = Inr (nat (int day + total div 1440))"
    using assms(4,5) by (simp add: add_days_def max_ordinal_value)
  then have "at_target w b (day, minute) = Inr (minute = nat (total mod 1440))"
    using assms(1-3) by (simp add: at_target_def calculate_target_time_def add_minutes_def Let_def total_def)
  then show ?thesis
    by (auto simp flip: total_def)
qed

text \<open>
  C30. A switching point with a fixed time fires once on a day that fits and not at all on another: in the
  one minute that the time with its offset names, and the holiday, vacation, weekday, month and window
  conditions are those of the day itself (also when the offset passes midnight).
\<close>

theorem timer_fires_once:
  assumes "tb_time_ref b = Absolute" and "\<not> tb_every_minute b" and "\<not> tb_every_hour b"
    and "1000 \<le> day" and "day \<le> 3600000" and "\<bar>tb_offset_minutes b\<bar> \<le> 1000000" and "tb_hour b < 24" and "tb_minute b < 60"
  shows "{minute. minute < 1440 \<and> should_fire w c hol b (day, minute) = Inr True}
    = (if fires_on w c hol b day
       then {nat ((60 * int (tb_hour b) + int (tb_minute b) + tb_offset_minutes b) mod 1440)} else {})"
proof -
  define total where "total = 60 * int (tb_hour b) + int (tb_minute b) + tb_offset_minutes b"
  have fire: "should_fire w c hol b (day, minute) = Inr True \<longleftrightarrow> fires_on w c hol b day \<and> int minute = total mod 1440"
    if "minute < 1440" for minute
    using at_target_absolute [OF assms that] by (simp add: should_fire_iff total_def)
  have "0 \<le> total mod 1440" "total mod 1440 < 1440"
    by simp_all
  then show ?thesis
    using fire unfolding total_def [symmetric] by (auto simp: nat_less_iff)
qed

definition monday_evening :: timer_binding where
  "monday_evening =
     \<lparr>tb_type = Daily, tb_meta = No_Meta, tb_weekdays = [0], tb_months = [], tb_day_of_month = 0,
      tb_time_ref = Absolute, tb_hour = 23, tb_minute = 30, tb_offset_minutes = 60, tb_altitude = Fin 0,
      tb_direction = Rising, tb_every_hour = False, tb_every_minute = False, tb_holiday_mode = Ignore,
      tb_vacation_mode = Ignore, tb_selected = [], tb_window_enabled = False, tb_window_from = [],
      tb_window_to = [], tb_value = ''1''\<rparr>"

text \<open>The time 23:30 of a Monday, an hour later: it fires on Monday at 0:30, not on Tuesday.\<close>

theorem timer_fires_once_witness:
  "\<forall>w. {minute. minute < 1440 \<and> should_fire w \<lparr>tc_custom_holidays = [], tc_vacations = []\<rparr> [] monday_evening (739887, minute) = Inr True} = {30}
     \<and> {minute. minute < 1440 \<and> should_fire w \<lparr>tc_custom_holidays = [], tc_vacations = []\<rparr> [] monday_evening (739888, minute) = Inr True} = {}"
proof
  fix w
  have none: "is_vacation w \<lparr>tc_custom_holidays = [], tc_vacations = []\<rparr> d = Inr False" for d
    by (simp add: is_vacation_def is_vacation_n_def vacation_period_def parse_vacation_period_def iso_day_def)
  have "fires_on w \<lparr>tc_custom_holidays = [], tc_vacations = []\<rparr> [] monday_evening d \<longleftrightarrow> date_weekday d = 0" for d
    by (auto simp: fires_on_def none window_open_def monday_evening_def is_holiday_def)
  moreover have "date_weekday 739887 = 0" "date_weekday 739888 \<noteq> 0"
    by (simp_all add: date_weekday_def)
  ultimately show "{minute. minute < 1440 \<and> should_fire w \<lparr>tc_custom_holidays = [], tc_vacations = []\<rparr> [] monday_evening (739887, minute) = Inr True} = {30}
     \<and> {minute. minute < 1440 \<and> should_fire w \<lparr>tc_custom_holidays = [], tc_vacations = []\<rparr> [] monday_evening (739888, minute) = Inr True} = {}"
    using timer_fires_once [of monday_evening 739887 w "\<lparr>tc_custom_holidays = [], tc_vacations = []\<rparr>" "[]"]
      timer_fires_once [of monday_evening 739888 w "\<lparr>tc_custom_holidays = [], tc_vacations = []\<rparr>" "[]"]
    by (simp add: monday_evening_def)
qed

section \<open>Custom holidays that stop the clock\<close>

lemma upper_digits: "\<forall>x \<in> set s. is_dec x \<Longrightarrow> py_upper s = s"
  by (induction s) (auto simp: py_upper_def upper_char_def is_dec_def)

lemma digits_plain:
  assumes "x \<in> set (show_nat k)"
  shows "\<not> is_space x" "x \<noteq> CHR '':''" "x \<noteq> CHR ''-''"
proof -
  have "is_dec x"
    using show_nat_digits [OF assms] .
  then show "\<not> is_space x" "x \<noteq> CHR '':''" "x \<noteq> CHR ''-''"
    by (auto simp: is_dec_def is_space_def code_def)
qed

text \<open>
  An entry with an offset beyond the calendar raises an exception that the loop over the entries does not
  catch: from the next day on no switching point fires any more.
\<close>

theorem custom_holiday_stops_timer:
  assumes "tc_custom_holidays c = (''easter+'' @ show_nat k) # entries" and "3652059 \<le> k"
    and "1 \<le> date_year (fst t)" and "date_year (fst t) \<le> 9999" and "fst t \<noteq> ts_last_date s"
  shows "timer_round w c rows t s = ([], s)"
proof -
  let ?e = "''easter+'' @ show_nat k"
  have plain: "takeWhile (\<lambda>x. x \<noteq> CHR '':'') ?e = ?e" "dropWhile (\<lambda>x. x \<noteq> CHR '':'') ?e = []"
    using digits_plain(2) by (auto simp: takeWhile_eq_all_conv dropWhile_eq_Nil_conv)
  have strip: "py_strip ?e = ?e"
    by (rule py_strip_no_space) (use digits_plain(1) in \<open>auto simp: is_space_def code_def\<close>)
  have "CHR ''-'' \<notin> set ?e"
    using digits_plain(3) by auto
  then have fixed: "match_fixed ?e = None"
    by (simp add: match_fixed_def py_split_no_sep)
  have upper: "py_upper ?e = ''EASTER+'' @ show_nat k"
  proof -
    have "py_upper ''easter+'' = ''EASTER+''"
      by code_simp
    moreover have "py_upper (show_nat k) = show_nat k"
      by (rule upper_digits) (use show_nat_digits in blast)
    moreover have "py_upper ?e = py_upper ''easter+'' @ py_upper (show_nat k)"
      unfolding py_upper_def map_append concat_append ..
    ultimately show ?thesis
      by simp
  qed
  have "all_dec (show_nat k)"
    using show_nat_digits [of _ k] by (auto simp: all_dec_def list_all_iff)
  then have relative: "match_relative ''EASTER'' (py_upper ?e) = Some (int k)"
    unfolding upper by (simp add: match_relative_def signed_offset_def)
  obtain n where n: "easter_date (int (date_year (fst t))) = Inr n"
      "int n = march_day (date_year (fst t)) (easter_day (int (date_year (fst t))))"
    using easter_ordinal [OF assms(3,4)] by blast
  have "0 < int n"
    unfolding n(2) using easter_day_range(1) [of "int (date_year (fst t))"] by (simp add: march_day_def)
  then have "add_days n (int k) = Inl OverflowError"
    using assms(2) by (simp add: add_days_def max_ordinal_value)
  then have "parse_custom_holiday_entry ?e (int (date_year (fst t))) = Inl OverflowError"
    unfolding parse_custom_holiday_entry_def Let_def plain strip fixed relative by (simp add: relative_date_def n(1))
  then have "build_holidays w c (int (date_year (fst t))) = Inl OverflowError"
    by (simp add: build_holidays_def assms(1))
  then show ?thesis
    using assms(5) by (simp add: timer_round_def Let_def)
qed

end
