(* ===== verification/Spec2Isabelle.thy ===== *)
theory Spec2Isabelle
  imports Group_Address Dpt_Props Dpt_Registry_Props Data_Type_Props Converter_Props Version_Props Authz_Props
    Transformation Confirmation Registry_Props Adapter_Props Router_Props Logic_Graph_Props Hems_Props Executor_Props
    Modbus_Props Time_Switch_Props
begin

text \<open>
  Verification of the core of open bridge server, a hub that connects building automation protocols
  through typed datapoints.

  \<^bold>\<open>The program.\<close>  Adapters (\<open>obs/adapters\<close>) speak a protocol each and turn telegrams into value
  events.  The event bus (\<open>obs/core/event_bus.py\<close>) delivers them to the datapoint registry
  (\<open>obs/core/registry.py\<close>), which keeps values and last values, and to the write router
  (\<open>obs/core/write_router.py\<close>), which carries a value from its datapoint to the destination bindings
  of other adapters.  The MQTT client (\<open>obs/core/mqtt_client.py\<close>) publishes values and turns set
  messages into write requests for the router.  Values are typed (\<open>obs/models/types.py\<close>), converted
  (\<open>obs/core/converter.py\<close>) and transformed (\<open>obs/core/transformation.py\<close>) on the way; a KNX value is
  coded by its datapoint type (\<open>obs/adapters/knx/dpt_registry.py\<close>) for a group address
  (\<open>obs/adapters/knx/group_address.py\<close>).  Users draw logic graphs (\<open>obs/logic\<close>), one of whose blocks
  distributes surplus power (\<open>obs/logic/hems_surplus.py\<close>).  The API asks the authorization policy and
  service (\<open>obs/api/authz.py\<close>, \<open>obs/api/authz_service.py\<close>); the updater picks releases by the version
  contract (\<open>obs/update/versions.py\<close>).

  \<^bold>\<open>The library.\<close>
  \<^item> Prelude, Py_Float, Py_Value, Py_Dict: results and association lists; floats as exact
    rationals rounded to 53 bits, with the infinities and nan (\<open>-0.0\<close> is \<open>0.0\<close>); the values of Python
    with \<open>str\<close>, \<open>bool\<close>, \<open>int\<close>, \<open>float\<close> and \<open>==\<close>; insertion ordered dictionaries with the laws
    the components use as a locale, interpreted on the association lists.
  \<^item> Group_Address: the three notations of a group address, their normal form and the SQL test.
  \<^item> Dpt_Codec, Dpt_Props, Dpt_Registry, Dpt_Registry_Props: every encoder and decoder, the built-in
    table and the registry class; round trips, payload sizes and the errors.
  \<^item> Data_Types, Data_Type_Props, Converter, Converter_Props: the eight data types, coercion of values
    and texts, the conversion matrix; what is typed, what raises, what is lossless.
  \<^item> Json, Json_Props, Json_Roundtrip: the reader and writer of JSON texts and the round trip.
  \<^item> Versions, Version_Props: version texts, their order, the classification of releases, the offer.
  \<^item> Authz, Authz_Props: the decision, target resolution along the tree, the filters.
  \<^item> Transformation, Event_Bus, Mqtt_Client, Confirmation: source types, nested paths and value maps;
    subscriptions and delivery; payloads, topics and set messages; the action tokens of an adapter
    and which confirmations are accepted.
  \<^item> Datapoint_Registry, Registry_Props: the registry with its tables; one invariant ties both.
  \<^item> Adapter_Registry, Adapter_Props: instances, bindings, restarts and deferred reloads.
  \<^item> Write_Router, Router_Props: both ways a value takes to the destinations, the filters and caches.
  \<^item> Logic_Graph, Cycle_Search, Logic_Graph_Props: the order of execution (Kahn), the nodes on cycles
    (Tarjan), the warnings and the checks of a graph before it is stored.
  \<^item> Hems_Config, Hems_Surplus, Hems_Tick: the settings, the engine and one evaluation of the surplus
    block.  Hems_Step shows that a tick is a short sequence of changes of each consumer's own state;
    Hems_Props states the abstract machine it refines, the invariant and the trigger contract.
  \<^item> Logic_Nodes, Logic_Executor, Executor_Props: the evaluation of a node by its kind and the run of a
    graph (\<open>obs/logic/executor.py\<close>): inputs, missing inputs, cyclic nodes, memory.  A run solves the
    equations of the graph, a memory block delays by one run, and a missing input is passed over only
    where no value of it would count.
  \<^item> Modbus_Codec, Modbus_Props: the register codec of the Modbus adapters
    (\<open>obs/adapters/modbus_base.py\<close>); what is written is read back, integers and floats.
  \<^item> Py_Date, Time_Switch, Time_Switch_Props: dates as ordinals, and the time switch
    (\<open>obs/adapters/zeitschaltuhr/adapter.py\<close>): Easter and the weekdays of a month, date windows, when a
    switching point fires.

  \<^bold>\<open>Conventions.\<close>  A class is a record, a method a function from the state to the state; a coroutine
  runs as one step, and an interleaving is a list of steps.  Errors are values: \<open>Inl\<close> of the
  exception or \<open>Inr\<close> of the result.  Texts are lists of Latin-1 characters; ids are canonical UUID
  texts.  Tables are the lists of their rows.  What the code takes from outside is an argument: the
  XML reader, \<open>datetime.fromisoformat\<close>, SHA-256, clocks, the outcome of a write, formulas, holiday
  calendars and the sun, the protocol of an adapter class and the order in which a Python set is iterated.

  \<^bold>\<open>Bounds.\<close>  The JSON reader has fuel \<open>2 * length + 2\<close>: every call consumes a character or goes one
  level deeper, and a level needs a character.  The walk to the ancestors of a tree node and Kahn's
  loop terminate by the nodes not visited yet.  Tarjan's search has fuel for one level more than there
  are candidates, since every call visits a new node.  The renaming of a consumer id ends because
  only finitely many ids are taken.  The normalisation of DPT 9 halves the mantissa.

  \<^bold>\<open>Not modelled.\<close>  Input and output (protocol libraries, HTTP, SQL, files), logging, and what rests on
  them: the API handlers, the history stores, the other protocol adapters behind their interface.  Of the
  logic engine the scheduler (\<open>obs/logic/manager.py\<close>) is left out, and these node kinds are a
  parameter of the run: those that rest on libraries or the wall clock (scripts, random values, texts,
  extractors, calendars, dates) and the collecting ones (\<open>binary_stats\<close>, \<open>merge\<close>,
  \<open>change_filter\<close>, \<open>decision\<close>, \<open>value_mapping\<close>, statistics, trackers and counters).
  The limits of the interpreter (digits of an integer text, recursion depth, nesting of JSON) are not
  modelled either, nor are cyclic containers.
\<close>

end
